(* ===== verification/Assay_Prelude.thy ===== *)
theory Assay_Prelude
  imports Main "HOL-Library.Char_ord" "HOL-Library.List_Lexorder" "HOL-Library.Product_Lexorder"
begin

text \<open>
  What every component shares: the Go standard library functions the modelled code
  calls (package strings, strconv.Atoi, strings.Compare), on Go strings read as lists of bytes
  (a character is one byte of the UTF-8 encoding), three-way comparison of a linear order,
  and the interfaces through which the components use a version order:
  \<^theory_text>\<open>sign_cmp\<close> and \<^theory_text>\<open>three_way\<close> (a comparison, and one that is a total
  preorder), \<^theory_text>\<open>keyed\<close> (one that reads off a key) and \<^theory_text>\<open>bound_check\<close> and
  \<^theory_text>\<open>version_scheme\<close> (a parser, a comparison and the bound check built on them).

  Conventions. A Go result \<open>(v, ok)\<close> is an option: None is \<open>ok == false\<close>. The
  pair \<open>(outside, ok)\<close> of the bound checks is therefore a \<open>bool option\<close>. A Go int
  is an int; every int of the modelled code comes from strconv.Atoi, whose 64-bit bound
  is written out.
\<close>

named_theorems go_simps \<open>equations of the string functions the components evaluate\<close>
named_theorems outside_simps \<open>facts about the bound checks of the version schemes\<close>

type_synonym gostring = string

section \<open>Package strings\<close>

definition in_range :: "char \<Rightarrow> char \<Rightarrow> char \<Rightarrow> bool" where
  "in_range lo hi c = (lo \<le> c \<and> c \<le> hi)"

definition has_prefix :: "gostring \<Rightarrow> gostring \<Rightarrow> bool" where
  "has_prefix s p = (take (length p) s = p)"

definition has_suffix :: "gostring \<Rightarrow> gostring \<Rightarrow> bool" where
  "has_suffix s p = has_prefix (rev s) (rev p)"

definition trim_prefix :: "gostring \<Rightarrow> gostring \<Rightarrow> gostring" where
  "trim_prefix s p = (if has_prefix s p then drop (length p) s else s)"

definition trim_suffix :: "gostring \<Rightarrow> gostring \<Rightarrow> gostring" where
  "trim_suffix s p = rev (trim_prefix (rev s) (rev p))"

text \<open>strings.IndexByte, strings.LastIndexByte: None stands for -1.\<close>

fun index_byte :: "gostring \<Rightarrow> char \<Rightarrow> nat option" where
  "index_byte [] c = None"
| "index_byte (x # xs) c = (if x = c then Some 0 else map_option Suc (index_byte xs c))"

definition last_index_byte :: "gostring \<Rightarrow> char \<Rightarrow> nat option" where
  "last_index_byte s c = map_option (\<lambda>i. length s - 1 - i) (index_byte (rev s) c)"

lemma last_index_byte_split:
  assumes "last_index_byte p c = Some i"
  shows "i < length p" "p ! i = c" "c \<notin> set (drop (Suc i) p)"
proof -
  have ib: "index_byte xs c = Some j \<Longrightarrow> j < length xs \<and> xs ! j = c \<and> c \<notin> set (take j xs)" for xs j
    by (induction xs c arbitrary: j rule: index_byte.induct) (auto split: if_splits option.splits)
  from assms obtain j where j: "index_byte (rev p) c = Some j" "i = length p - 1 - j"
    by (auto simp: last_index_byte_def split: option.splits)
  from ib [OF j(1)] have b: "j < length p" "rev p ! j = c" "c \<notin> set (take j (rev p))" by auto
  show "i < length p" using b(1) j(2) by simp
  show "p ! i = c" using b j(2) by (simp add: rev_nth)
  have "drop (Suc i) p = rev (take j (rev p))" using b(1) j(2) by (simp add: take_rev Suc_diff_Suc)
  then show "c \<notin> set (drop (Suc i) p)" using b(3) by simp
qed

lemma last_index_byte_cut: "last_index_byte p c = Some i \<Longrightarrow> p = take i p @ c # drop (i + 1) p"
  using last_index_byte_split [of p c i] by (metis Suc_eq_plus1 id_take_nth_drop)

text \<open>strings.Cut: the text before and after the first separator, None when it is absent.\<close>

fun go_cut :: "gostring \<Rightarrow> gostring \<Rightarrow> (gostring \<times> gostring) option" where
  "go_cut [] sep = (if sep = [] then Some ([], []) else None)"
| "go_cut (x # xs) sep =
    (if has_prefix (x # xs) sep then Some ([], drop (length sep) (x # xs))
     else map_option (\<lambda>(a, b). (x # a, b)) (go_cut xs sep))"

definition go_contains :: "gostring \<Rightarrow> gostring \<Rightarrow> bool" where
  "go_contains s sub = (go_cut s sub \<noteq> None)"

lemma go_cut_append: "go_cut s sep = Some (a, b) \<Longrightarrow> s = a @ sep @ b"
proof (induction s arbitrary: a)
  case Nil
  then show ?case by (simp split: if_splits)
next
  case (Cons x xs)
  show ?case
  proof (cases "has_prefix (x # xs) sep")
    case True
    with Cons.prems have "a = []" "b = drop (length sep) (x # xs)" by auto
    moreover have "take (length sep) (x # xs) = sep" using True by (simp add: has_prefix_def)
    ultimately show ?thesis by (metis append_Nil append_take_drop_id)
  next
    case False
    with Cons show ?thesis by auto
  qed
qed

lemma go_cut_length: "go_cut s sep = Some (a, b) \<Longrightarrow> sep \<noteq> [] \<Longrightarrow> length b < length s"
  by (drule go_cut_append) simp

text \<open>strings.Split for a non-empty separator (the only use in the modelled code): the
  pieces between the leftmost non-overlapping separators.\<close>

function go_split :: "gostring \<Rightarrow> gostring \<Rightarrow> gostring list" where
  "go_split s sep =
    (if sep = [] then map (\<lambda>c. [c]) s
     else case go_cut s sep of
       None \<Rightarrow> [s]
     | Some (a, b) \<Rightarrow> a # go_split b sep)"
  by pat_completeness auto
termination by (relation "measure (\<lambda>(s, sep). length s)") (auto dest: go_cut_length)

declare go_split.simps [simp del]

lemma go_split_ne: "sep \<noteq> [] \<Longrightarrow> go_split s sep \<noteq> []"
  by (subst go_split.simps) (simp split: option.split)

text \<open>strings.SplitN with n = 2 is Cut, with the whole string as the only piece when the
  separator is absent. strings.Join puts the separator between the pieces.\<close>

definition go_splitn2 :: "gostring \<Rightarrow> gostring \<Rightarrow> gostring list" where
  "go_splitn2 s sep = (case go_cut s sep of None \<Rightarrow> [s] | Some (a, b) \<Rightarrow> [a, b])"

fun go_join :: "gostring list \<Rightarrow> gostring \<Rightarrow> gostring" where
  "go_join [] sep = []"
| "go_join [s] sep = s"
| "go_join (s # t # r) sep = s @ sep @ go_join (t # r) sep"

lemma go_join_split:
  assumes "sep \<noteq> []"
  shows "go_join (go_split s sep) sep = s"
  using assms
proof (induction s sep rule: go_split.induct)
  case (1 s sep)
  show ?case
  proof (cases "go_cut s sep")
    case None
    then show ?thesis using 1 by (subst go_split.simps) simp
  next
    case (Some p)
    obtain a b where p: "p = (a, b)" by (cases p)
    have ih: "go_join (go_split b sep) sep = b" using 1 Some p by simp
    obtain t r where tr: "go_split b sep = t # r"
      using go_split_ne [OF 1(2)] by (cases "go_split b sep") auto
    have "go_split s sep = a # t # r" using Some p 1(2) tr by (subst go_split.simps) simp
    then show ?thesis using ih tr go_cut_append [of s sep a b] Some p by simp
  qed
qed

lemma go_split_first:
  assumes "x \<noteq> c"
  shows "\<exists>p ps. go_split (x # xs) [c] = (x # p) # ps"
  using assms by (subst go_split.simps) (auto simp: has_prefix_def split: option.split)

lemma take_index_byte_first: "index_byte (x # xs) c = Some i \<Longrightarrow> x \<noteq> c \<Longrightarrow> \<exists>t. take i (x # xs) = x # t"
  by auto

text \<open>strings.Count of a single byte.\<close>

definition count_byte :: "gostring \<Rightarrow> char \<Rightarrow> nat" where
  "count_byte s c = length (filter (\<lambda>x. x = c) s)"

lemma go_cut_byte: "c \<notin> set s \<Longrightarrow> go_cut (s @ c # t) [c] = Some (s, t)"
  by (induction s) (auto simp: has_prefix_def)

lemma go_cut_byte_none: "c \<notin> set s \<Longrightarrow> go_cut s [c] = None"
  by (induction s) (auto simp: has_prefix_def)

lemma go_split_byte: "c \<notin> set s \<Longrightarrow> go_split (s @ c # t) [c] = s # go_split t [c]"
  by (subst go_split.simps) (simp add: go_cut_byte)

lemma go_split_byte_none: "c \<notin> set s \<Longrightarrow> go_split s [c] = [s]"
  by (subst go_split.simps) (simp add: go_cut_byte_none)

text \<open>strings.FieldsFunc and strings.TrimFunc, for predicates on ASCII characters.\<close>

fun fields_by :: "(char \<Rightarrow> bool) \<Rightarrow> gostring \<Rightarrow> gostring \<Rightarrow> gostring list" where
  "fields_by p acc [] = (if acc = [] then [] else [rev acc])"
| "fields_by p acc (x # xs) =
    (if p x then (if acc = [] then fields_by p [] xs else rev acc # fields_by p [] xs)
     else fields_by p (x # acc) xs)"

definition fields_func :: "gostring \<Rightarrow> (char \<Rightarrow> bool) \<Rightarrow> gostring list" where
  "fields_func s p = fields_by p [] s"

definition trim_func :: "gostring \<Rightarrow> (char \<Rightarrow> bool) \<Rightarrow> gostring" where
  "trim_func s p = rev (dropWhile p (rev (dropWhile p s)))"

lemma fields_by_ne: "f \<in> set (fields_by p acc s) \<Longrightarrow> f \<noteq> []"
  by (induction p acc s rule: fields_by.induct) (auto split: if_splits)

lemma fields_by_clean:
  "f \<in> set (fields_by p acc s) \<Longrightarrow> c \<in> set f \<Longrightarrow> c \<in> set acc \<or> \<not> p c"
  by (induction p acc s rule: fields_by.induct) (auto split: if_splits)

lemma trim_func_idem [simp]: "trim_func (trim_func s p) p = trim_func s p"
proof -
  have *: "dropWhile p (rev (dropWhile p (rev t))) = rev (dropWhile p (rev t))"
    if "dropWhile p t = t" for t
  proof (cases "rev (dropWhile p (rev t))")
    case (Cons c cs)
    obtain us where "t = rev (dropWhile p (rev t)) @ us"
      by (metis rev_append rev_rev_ident takeWhile_dropWhile_id)
    then have "t = c # cs @ us" using Cons by simp
    then have "\<not> p c" using that by (metis dropWhile_eq_Cons_conv list.inject)
    then show ?thesis using Cons by simp
  next
    case Nil
    then show ?thesis by (metis dropWhile.simps(1))
  qed
  show ?thesis
    by (simp add: trim_func_def * [of "dropWhile p s"])
qed

section \<open>Unicode-aware functions\<close>

text \<open>strings.TrimSpace removes the runes of unicode.IsSpace at both ends. In UTF-8 those
  are the six ASCII spaces, U+0085 and U+00A0 (two bytes), and U+1680, U+2000 to U+200A,
  U+2028, U+2029, U+202F, U+205F and U+3000 (three bytes). No other rune's encoding starts or ends
  with one of these sequences, so matching bytes is matching runes.\<close>

definition ascii_space :: "char \<Rightarrow> bool" where
  "ascii_space c = (c = CHR 0x20 \<or> c = CHR 0x09 \<or> c = CHR 0x0A \<or> c = CHR 0x0B \<or> c = CHR 0x0C \<or> c = CHR 0x0D)"

definition space2 :: "char \<Rightarrow> char \<Rightarrow> bool" where
  "space2 a b = (a = CHR 0xC2 \<and> (b = CHR 0x85 \<or> b = CHR 0xA0))"

definition space3 :: "char \<Rightarrow> char \<Rightarrow> char \<Rightarrow> bool" where
  "space3 a b c =
    (a = CHR 0xE1 \<and> b = CHR 0x9A \<and> c = CHR 0x80 \<or>
     a = CHR 0xE2 \<and> b = CHR 0x80 \<and> (in_range CHR 0x80 CHR 0x8A c \<or> c = CHR 0xA8 \<or> c = CHR 0xA9 \<or> c = CHR 0xAF) \<or>
     a = CHR 0xE2 \<and> b = CHR 0x81 \<and> c = CHR 0x9F \<or>
     a = CHR 0xE3 \<and> b = CHR 0x80 \<and> c = CHR 0x80)"

fun skip_space :: "gostring \<Rightarrow> gostring option" where
  "skip_space (a # b # c # r) =
    (if ascii_space a then Some (b # c # r) else if space2 a b then Some (c # r)
     else if space3 a b c then Some r else None)"
| "skip_space [a, b] = (if ascii_space a then Some [b] else if space2 a b then Some [] else None)"
| "skip_space [a] = (if ascii_space a then Some [] else None)"
| "skip_space [] = None"

fun skip_space_back :: "gostring \<Rightarrow> gostring option" where
  "skip_space_back (c # b # a # r) =
    (if ascii_space c then Some (b # a # r) else if space2 b c then Some (a # r)
     else if space3 a b c then Some r else None)"
| "skip_space_back [c, b] = (if ascii_space c then Some [b] else if space2 b c then Some [] else None)"
| "skip_space_back [c] = (if ascii_space c then Some [] else None)"
| "skip_space_back [] = None"

lemma skip_space_length: "skip_space s = Some t \<Longrightarrow> length t < length s"
  by (induction s rule: skip_space.induct) (auto split: if_splits)

lemma skip_space_back_length: "skip_space_back s = Some t \<Longrightarrow> length t < length s"
  by (induction s rule: skip_space_back.induct) (auto split: if_splits)

function drop_spaces :: "gostring \<Rightarrow> gostring" where
  "drop_spaces s = (case skip_space s of None \<Rightarrow> s | Some t \<Rightarrow> drop_spaces t)"
  by pat_completeness auto
termination by (relation "measure length") (auto dest: skip_space_length)

function drop_spaces_back :: "gostring \<Rightarrow> gostring" where
  "drop_spaces_back s = (case skip_space_back s of None \<Rightarrow> s | Some t \<Rightarrow> drop_spaces_back t)"
  by pat_completeness auto
termination by (relation "measure length") (auto dest: skip_space_back_length)

declare drop_spaces.simps [simp del] drop_spaces_back.simps [simp del]

definition trim_space :: "gostring \<Rightarrow> gostring" where
  "trim_space s = rev (drop_spaces_back (rev (drop_spaces s)))"

lemma trim_space_Nil [simp]: "trim_space [] = []"
  by (simp add: trim_space_def drop_spaces.simps drop_spaces_back.simps)

lemma skip_space_append: "skip_space u = Some r \<Longrightarrow> skip_space (u @ w) = Some (r @ w)"
  by (induction u rule: skip_space.induct; cases w; cases "tl w") (auto split: if_splits)

lemma drop_spaces_done: "skip_space (drop_spaces s) = None"
  by (induction s rule: drop_spaces.induct) (subst drop_spaces.simps, auto split: option.split)

lemma drop_spaces_back_done: "skip_space_back (drop_spaces_back s) = None"
  by (induction s rule: drop_spaces_back.induct) (subst drop_spaces_back.simps, auto split: option.split)

lemma skip_space_back_suffix: "skip_space_back s = Some t \<Longrightarrow> \<exists>u. s = u @ t"
  by (induction s rule: skip_space_back.induct) (auto split: if_splits)

lemma drop_spaces_back_suffix: "\<exists>u. s = u @ drop_spaces_back s"
proof (induction s rule: drop_spaces_back.induct)
  case (1 s)
  show ?case
  proof (cases "skip_space_back s")
    case None
    then show ?thesis by (subst drop_spaces_back.simps) simp
  next
    case (Some t)
    obtain u v where "t = u @ drop_spaces_back t" "s = v @ t"
      using 1 [OF Some] skip_space_back_suffix [OF Some] by blast
    moreover have "drop_spaces_back s = drop_spaces_back t" using Some by (subst drop_spaces_back.simps) simp
    ultimately show ?thesis by (metis append.assoc)
  qed
qed

lemma trim_space_fix:
  "skip_space s = None \<Longrightarrow> skip_space_back (rev s) = None \<Longrightarrow> trim_space s = s"
  by (simp add: trim_space_def drop_spaces.simps drop_spaces_back.simps)

lemma trim_space_clean:
  "skip_space (trim_space s) = None" "skip_space_back (rev (trim_space s)) = None"
proof -
  show "skip_space_back (rev (trim_space s)) = None"
    by (simp add: trim_space_def drop_spaces_back_done)
  obtain u where "rev (drop_spaces s) = u @ drop_spaces_back (rev (drop_spaces s))"
    using drop_spaces_back_suffix by blast
  then have eq: "drop_spaces s = trim_space s @ rev u"
    unfolding trim_space_def by (metis rev_append rev_rev_ident)
  show "skip_space (trim_space s) = None"
    using skip_space_append [of "trim_space s" _ "rev u"] drop_spaces_done [of s] eq
    by (cases "skip_space (trim_space s)") auto
qed

lemma trim_space_idem [simp]: "trim_space (trim_space s) = trim_space s"
  by (rule trim_space_fix) (fact trim_space_clean)+

text \<open>strings.Fields: the maximal runs without a space.\<close>

function fields_from :: "gostring \<Rightarrow> gostring \<Rightarrow> gostring list" where
  "fields_from acc s =
    (case skip_space s of
       Some t \<Rightarrow> (if acc = [] then fields_from [] t else rev acc # fields_from [] t)
     | None \<Rightarrow>
         (case s of
            [] \<Rightarrow> (if acc = [] then [] else [rev acc])
          | c # r \<Rightarrow> fields_from (c # acc) r))"
  by pat_completeness auto
termination by (relation "measure (\<lambda>(acc, s). length s)") (auto dest: skip_space_length)

declare fields_from.simps [simp del]

definition go_fields :: "gostring \<Rightarrow> gostring list" where
  "go_fields s = fields_from [] s"

definition plain_char :: "char \<Rightarrow> bool" where
  "plain_char c = (\<not> ascii_space c \<and> of_char c < (128 :: nat))"

lemma plain_char_no_space:
  assumes "plain_char z"
  shows "\<not> ascii_space z" "\<not> space2 z b" "\<not> space3 z b c" "\<not> space2 b z" "\<not> space3 c b z"
  using assms by (auto simp: plain_char_def space2_def space3_def in_range_def less_eq_char_def)

lemma skip_space_plain: "plain_char a \<Longrightarrow> skip_space (a # s) = None"
  by (cases s; cases "tl s") (auto simp: plain_char_no_space)

lemma skip_space_back_plain: "plain_char a \<Longrightarrow> skip_space_back (a # s) = None"
  by (cases s; cases "tl s") (auto simp: plain_char_no_space)

lemma trim_space_plain: "s \<noteq> [] \<Longrightarrow> plain_char (hd s) \<Longrightarrow> plain_char (last s) \<Longrightarrow> trim_space s = s"
  by (rule trim_space_fix)
    (use skip_space_plain skip_space_back_plain in \<open>force simp: neq_Nil_conv, cases s rule: rev_cases, auto\<close>)

text \<open>strings.ToLower. Besides the ASCII letters only two runes outside ASCII map into ASCII:
  U+212A (the Kelvin sign) to k and U+0130 to i. The other runes outside ASCII are left
  as they are: the modelled code compares lower-cased strings with ASCII text only.\<close>

definition lower_byte :: "char \<Rightarrow> char" where
  "lower_byte c = (if in_range CHR ''A'' CHR ''Z'' c then char_of (of_char c + 32 :: nat) else c)"

fun to_lower :: "gostring \<Rightarrow> gostring" where
  "to_lower (a # b # c # r) =
    (if a = CHR 0xE2 \<and> b = CHR 0x84 \<and> c = CHR 0xAA then CHR ''k'' # to_lower r
     else if a = CHR 0xC4 \<and> b = CHR 0xB0 then CHR ''i'' # to_lower (c # r)
     else lower_byte a # to_lower (b # c # r))"
| "to_lower [a, b] =
    (if a = CHR 0xC4 \<and> b = CHR 0xB0 then [CHR ''i''] else [lower_byte a, lower_byte b])"
| "to_lower [a] = [lower_byte a]"
| "to_lower [] = []"

lemma to_lower_ascii: "list_all (\<lambda>c. of_char c < (128 :: nat)) s \<Longrightarrow> to_lower s = map lower_byte s"
  by (induction s rule: to_lower.induct) auto

text \<open>strings.ToUpper. Besides the ASCII letters only two runes outside ASCII map into ASCII: U+0131
  to I and U+017F to S; the other runes outside ASCII are left as they are.\<close>

definition upper_ascii :: "char \<Rightarrow> char" where
  "upper_ascii c = (if in_range CHR ''a'' CHR ''z'' c then char_of (of_char c - 32 :: nat) else c)"

fun to_upper :: "gostring \<Rightarrow> gostring" where
  "to_upper (a # b # r) =
    (if a = CHR 0xC4 \<and> b = CHR 0xB1 then CHR ''I'' # to_upper r
     else if a = CHR 0xC5 \<and> b = CHR 0xBF then CHR ''S'' # to_upper r
     else upper_ascii a # to_upper (b # r))"
| "to_upper [a] = [upper_ascii a]"
| "to_upper [] = []"

text \<open>strings.EqualFold against ASCII text: simple case folding adds the Kelvin sign (k) and the
  long s, U+017F (s).\<close>

fun fold_ascii :: "gostring \<Rightarrow> gostring" where
  "fold_ascii (a # b # c # r) =
    (if a = CHR 0xE2 \<and> b = CHR 0x84 \<and> c = CHR 0xAA then CHR ''k'' # fold_ascii r
     else if a = CHR 0xC5 \<and> b = CHR 0xBF then CHR ''s'' # fold_ascii (c # r)
     else lower_byte a # fold_ascii (b # c # r))"
| "fold_ascii [a, b] =
    (if a = CHR 0xC5 \<and> b = CHR 0xBF then [CHR ''s''] else [lower_byte a, lower_byte b])"
| "fold_ascii [a] = [lower_byte a]"
| "fold_ascii [] = []"

definition equal_fold :: "gostring \<Rightarrow> gostring \<Rightarrow> bool" where
  "equal_fold s t = (fold_ascii s = fold_ascii t)"

lemma equal_fold_refl [simp]: "equal_fold s s" by (simp add: equal_fold_def)

section \<open>strconv.Atoi\<close>

definition is_digit :: "char \<Rightarrow> bool" where
  "is_digit c = in_range CHR ''0'' CHR ''9'' c"

definition digit_val :: "char \<Rightarrow> int" where
  "digit_val c = int (of_char c) - 48"

definition dec_val :: "gostring \<Rightarrow> int" where
  "dec_val s = foldl (\<lambda>n c. n * 10 + digit_val c) 0 s"

definition all_digits :: "gostring \<Rightarrow> bool" where
  "all_digits s = (s \<noteq> [] \<and> list_all is_digit s)"

text \<open>One optional sign, then decimal digits only; a value outside the 64-bit range is an error.\<close>

definition atoi :: "gostring \<Rightarrow> int option" where
  "atoi s =
    (let neg = has_prefix s ''-'';
         ds = (if neg \<or> has_prefix s ''+'' then drop 1 s else s);
         n = (if neg then - dec_val ds else dec_val ds)
     in if all_digits ds \<and> - (2 ^ 63) \<le> n \<and> n < 2 ^ 63 then Some n else None)"

lemma digit_val_bounds: "is_digit c \<Longrightarrow> 0 \<le> digit_val c \<and> digit_val c \<le> 9"
  by (simp add: is_digit_def in_range_def digit_val_def less_eq_char_def)

lemma dec_val_snoc: "dec_val (s @ [c]) = dec_val s * 10 + digit_val c"
  by (simp add: dec_val_def)

lemma dec_val_nonneg: "list_all is_digit s \<Longrightarrow> 0 \<le> dec_val s"
  by (induction s rule: rev_induct) (auto simp: dec_val_snoc dec_val_def dest: digit_val_bounds)

lemma atoi_bounds: "atoi s = Some n \<Longrightarrow> - (2 ^ 63) \<le> n \<and> n < 2 ^ 63"
  by (simp add: atoi_def Let_def split: if_splits)

lemma atoi_Nil [simp]: "atoi [] = None"
  by (simp add: atoi_def all_digits_def has_prefix_def Let_def)

text \<open>The verb %d of package fmt.\<close>

definition dec_digit :: "nat \<Rightarrow> char" where
  "dec_digit n = char_of (48 + n)"

fun show_nat :: "nat \<Rightarrow> gostring" where
  "show_nat n = (if n < 10 then [dec_digit n] else show_nat (n div 10) @ [dec_digit (n mod 10)])"

declare show_nat.simps [simp del]

definition show_int :: "int \<Rightarrow> gostring" where
  "show_int n = (if n < 0 then CHR ''-'' # show_nat (nat (- n)) else show_nat (nat n))"

lemma dec_digit_of_char: "n < 10 \<Longrightarrow> of_char (dec_digit n) = 48 + n"
  by (simp add: dec_digit_def of_char_of)

lemma dec_digit_is_digit: "n < 10 \<Longrightarrow> is_digit (dec_digit n) \<and> digit_val (dec_digit n) = int n"
  by (simp add: is_digit_def in_range_def less_eq_char_def digit_val_def dec_digit_of_char)

lemma show_nat_digits: "all_digits (show_nat n)"
proof (induction n rule: show_nat.induct)
  case (1 n)
  show ?case
  proof (cases "n < 10")
    case True
    then show ?thesis by (subst show_nat.simps) (simp add: all_digits_def dec_digit_is_digit)
  next
    case False
    then have ih: "all_digits (show_nat (n div 10))" by (rule 1)
    have "is_digit (dec_digit (n mod 10))" by (simp add: dec_digit_is_digit)
    with ih False show ?thesis by (subst show_nat.simps) (simp add: all_digits_def)
  qed
qed

lemma show_nat_val: "dec_val (show_nat n) = int n"
proof (induction n rule: show_nat.induct)
  case (1 n)
  show ?case
  proof (cases "n < 10")
    case True
    then show ?thesis by (subst show_nat.simps) (simp add: dec_val_def dec_digit_is_digit)
  next
    case False
    have d: "digit_val (dec_digit (n mod 10)) = int (n mod 10)" by (simp add: dec_digit_is_digit)
    have ih: "dec_val (show_nat (n div 10)) = int (n div 10)" by (rule 1 [OF False])
    have "dec_val (show_nat n) = int (n div 10) * 10 + int (n mod 10)"
      using False by (subst show_nat.simps) (simp add: dec_val_snoc d ih)
    then show ?thesis by presburger
  qed
qed

lemma digit_not_sign: "all_digits s \<Longrightarrow> \<not> has_prefix s ''-'' \<and> \<not> has_prefix s ''+''"
  by (cases s) (auto simp: all_digits_def has_prefix_def is_digit_def in_range_def less_eq_char_def)

lemma atoi_digits: "all_digits s \<Longrightarrow> dec_val s < 2 ^ 63 \<Longrightarrow> atoi s = Some (dec_val s)"
  using digit_not_sign [of s] dec_val_nonneg [of s] by (simp add: atoi_def Let_def all_digits_def)

lemma atoi_show_nat: "int n < 2 ^ 63 \<Longrightarrow> atoi (show_nat n) = Some (int n)"
  using atoi_digits [OF show_nat_digits, of n] by (simp add: show_nat_val)

lemma digits_not_mem: "all_digits s \<Longrightarrow> \<not> is_digit c \<Longrightarrow> c \<notin> set s"
  by (auto simp: all_digits_def list_all_iff)

section \<open>Three-way comparison\<close>

definition cmp_ord :: "'a::linorder \<Rightarrow> 'a \<Rightarrow> int" where
  "cmp_ord a b = (if a < b then -1 else if b < a then 1 else 0)"

text \<open>The first non-zero result of a chain of \<open>if c := cmp(...); c != 0 { return c }\<close>.\<close>

definition cmp_then :: "int \<Rightarrow> int \<Rightarrow> int" where
  "cmp_then c d = (if c \<noteq> 0 then c else d)"

text \<open>strings.Compare: the order of the bytes.\<close>

definition strings_compare :: "gostring \<Rightarrow> gostring \<Rightarrow> int" where
  "strings_compare a b = cmp_ord a b"

text \<open>Element by element, then by length.\<close>

fun cmp_list :: "('a \<Rightarrow> 'a \<Rightarrow> int) \<Rightarrow> 'a list \<Rightarrow> 'a list \<Rightarrow> int" where
  "cmp_list c [] [] = 0"
| "cmp_list c [] (y # ys) = -1"
| "cmp_list c (x # xs) [] = 1"
| "cmp_list c (x # xs) (y # ys) = cmp_then (c x y) (cmp_list c xs ys)"

lemma cmp_ord_simps [simp]:
  "cmp_ord a b \<le> 0 \<longleftrightarrow> a \<le> b" "0 \<le> cmp_ord a b \<longleftrightarrow> b \<le> a"
  "cmp_ord a b < 0 \<longleftrightarrow> a < b" "0 < cmp_ord a b \<longleftrightarrow> b < a"
  "cmp_ord a b = 0 \<longleftrightarrow> a = b" "cmp_ord a a = 0"
  "cmp_ord a b = -1 \<longleftrightarrow> a < b" "cmp_ord a b = 1 \<longleftrightarrow> b < a"
  by (auto simp: cmp_ord_def)

lemma cmp_ord_minus: "cmp_ord b a = - cmp_ord a b"
  by (auto simp: cmp_ord_def)

lemma cmp_ord_range: "cmp_ord a b \<in> {-1, 0, 1}"
  by (auto simp: cmp_ord_def)

lemma cmp_ord_pair: "cmp_ord (a, b) (c, d) = cmp_then (cmp_ord a c) (cmp_ord b d)"
  by (auto simp: cmp_ord_def cmp_then_def less_prod_def)

lemma cmp_ord_Cons: "cmp_ord (x # xs) (y # ys) = cmp_then (cmp_ord x y) (cmp_ord xs ys)"
  by (auto simp: cmp_ord_def cmp_then_def)

lemma cmp_ord_Nil [simp]: "cmp_ord [] (y # ys) = -1" "cmp_ord (x # xs) [] = 1"
  by (auto simp: cmp_ord_def)

lemma cmp_list_ord:
  assumes "\<And>x y. x \<in> set xs \<Longrightarrow> y \<in> set ys \<Longrightarrow> c x y = cmp_ord (k x) (k y)"
  shows "cmp_list c xs ys = cmp_ord (map k xs) (map k ys)"
  using assms
  by (induction c xs ys rule: cmp_list.induct)
    (auto simp: cmp_ord_Cons simp del: cmp_ord_simps(5,7,8))

text \<open>A three-way comparison: three results, zero on equal arguments, and swapping the
  arguments swaps the sign. With transitivity it is an order its clients can reason with.\<close>

locale sign_cmp =
  fixes cmp :: "'a \<Rightarrow> 'a \<Rightarrow> int"
  assumes cmp_self: "cmp x x = 0"
    and cmp_flip: "cmp y x = - cmp x y"
    and cmp_range: "cmp x y \<in> {-1, 0, 1}"
begin

lemma cmp_total: "cmp x y \<le> 0 \<or> cmp y x \<le> 0"
  using cmp_flip [of x y] by auto

lemma cmp_ge_flip: "0 \<le> cmp x y \<longleftrightarrow> cmp y x \<le> 0"
  using cmp_flip [of x y] by simp

lemma cmp_less_flip: "cmp x y < 0 \<longleftrightarrow> 0 < cmp y x"
  using cmp_flip [of x y] by simp

end

locale three_way = sign_cmp +
  assumes cmp_trans: "cmp x y \<le> 0 \<Longrightarrow> cmp y z \<le> 0 \<Longrightarrow> cmp x z \<le> 0"
begin

lemma cmp_trans_ge: "0 \<le> cmp x y \<Longrightarrow> 0 \<le> cmp y z \<Longrightarrow> 0 \<le> cmp x z"
  using cmp_trans [of z y x] cmp_flip [of y x] cmp_flip [of z y] cmp_flip [of z x] by auto

lemma cmp_trans_less: "cmp x y < 0 \<Longrightarrow> cmp y z \<le> 0 \<Longrightarrow> cmp x z < 0"
proof (rule ccontr)
  assume "cmp x y < 0" "cmp y z \<le> 0" "\<not> cmp x z < 0"
  then have "cmp z x \<le> 0" using cmp_flip [of x z] by simp
  then have "cmp y x \<le> 0" using cmp_trans [of y z x] \<open>cmp y z \<le> 0\<close> by simp
  then show False using \<open>cmp x y < 0\<close> cmp_flip [of x y] by simp
qed

lemma cmp_trans_le_less: "cmp x y \<le> 0 \<Longrightarrow> cmp y z < 0 \<Longrightarrow> cmp x z < 0"
proof (rule ccontr)
  assume "cmp x y \<le> 0" "cmp y z < 0" "\<not> cmp x z < 0"
  then have "cmp z x \<le> 0" using cmp_flip [of x z] by simp
  then have "cmp z y \<le> 0" using cmp_trans [of z x y] \<open>cmp x y \<le> 0\<close> by simp
  then show False using \<open>cmp y z < 0\<close> cmp_flip [of y z] by simp
qed

end

text \<open>A comparison that reads a key in a linear order off each value.\<close>

locale keyed =
  fixes cmp :: "'a \<Rightarrow> 'a \<Rightarrow> int" and key :: "'a \<Rightarrow> 'k::linorder"
  assumes cmp_key: "cmp x y = cmp_ord (key x) (key y)"

sublocale keyed \<subseteq> three_way cmp
proof
  show "cmp x x = 0" for x by (simp add: cmp_key)
  show "cmp y x = - cmp x y" for x y by (simp add: cmp_key cmp_ord_minus [of "key x"])
  show "cmp x y \<le> 0 \<Longrightarrow> cmp y z \<le> 0 \<Longrightarrow> cmp x z \<le> 0" for x y z by (simp add: cmp_key)
  show "cmp x y \<in> {-1, 0, 1}" for x y unfolding cmp_key by (rule cmp_ord_range)
qed

text \<open>What the disqualification predicate asks of an ecosystem: a parser of versions, a
  comparison, and a check that a version is provably at or above an upper bound, which has
  no answer unless both parse. A scheme whose comparison is transitive is a
  \<^theory_text>\<open>version_scheme\<close>: there the check is monotone in the version.\<close>

locale bound_check = sign_cmp cmp
  for cmp :: "'v \<Rightarrow> 'v \<Rightarrow> int" +
  fixes parse :: "gostring \<Rightarrow> 'v option"
    and outside :: "gostring \<Rightarrow> gostring \<Rightarrow> bool option"
  assumes outside_eq: "outside v u =
    (case parse v of None \<Rightarrow> None | Some a \<Rightarrow>
     case parse u of None \<Rightarrow> None | Some b \<Rightarrow> Some (0 \<le> cmp a b))"
begin

lemma outside_Some:
  "outside v u = Some b \<longleftrightarrow> (\<exists>x y. parse v = Some x \<and> parse u = Some y \<and> b = (0 \<le> cmp x y))"
  by (auto simp: outside_eq split: option.splits)

lemma outside_None: "outside v u = None \<longleftrightarrow> parse v = None \<or> parse u = None"
  by (auto simp: outside_eq split: option.splits)

lemma outside_self: "parse v \<noteq> None \<Longrightarrow> outside v v = Some True"
  by (auto simp: outside_eq cmp_self)

lemma outside_total: "outside v u = Some False \<Longrightarrow> outside u v = Some True"
proof -
  assume "outside v u = Some False"
  then obtain x y where "parse v = Some x" "parse u = Some y" "\<not> 0 \<le> cmp x y"
    by (auto simp: outside_Some)
  then show ?thesis using cmp_flip [of x y] by (simp add: outside_Some)
qed

end

locale version_scheme = bound_check cmp parse outside + three_way cmp
  for cmp :: "'v \<Rightarrow> 'v \<Rightarrow> int"
    and parse :: "gostring \<Rightarrow> 'v option"
    and outside :: "gostring \<Rightarrow> gostring \<Rightarrow> bool option"
begin

lemma outside_upward: "outside v u = Some True \<Longrightarrow> outside w v = Some True \<Longrightarrow> outside w u = Some True"
  by (auto simp: outside_Some intro: cmp_trans_ge)

lemma outside_downward: "outside v u = Some False \<Longrightarrow> outside v w = Some True \<Longrightarrow> outside w u = Some False"
proof -
  assume a: "outside v u = Some False" and b: "outside v w = Some True"
  obtain x y z where p: "parse v = Some x" "parse u = Some y" "parse w = Some z"
    and "\<not> 0 \<le> cmp x y" "0 \<le> cmp x z"
    using a b by (auto simp: outside_Some)
  then have "cmp z y < 0" using cmp_trans_le_less [of z x y] cmp_flip [of x z] by simp
  then show ?thesis using p by (simp add: outside_Some)
qed

end

lemma find_SomeD: "find P xs = Some x \<Longrightarrow> x \<in> set xs \<and> P x"
  by (induction xs) (auto split: if_splits)

end
