(* ===== verification/Npm_Version.thy ===== *)
theory Npm_Version
  imports Assay_Prelude
begin

text \<open>
  npm (node-semver) versions and ranges: src/pipeline/npm_version.go, function by function. A
  version is the record \<open>npmVersion\<close>, a range is a list of comparator sets, and every
  parser returns None where the source returns \<open>ok == false\<close>. The lemmas give the order a key
  (interpretation \<open>npm_order\<close>), the invariant \<open>npm_wf\<close> that every parsed or derived
  version keeps, and the meaning of the caret, tilde and x-range expansions as intervals.
\<close>

section \<open>Versions\<close>

record npmVersion =
  npm_major :: int
  npm_minor :: int
  npm_patch :: int
  npm_prerelease :: "gostring list"

definition npm_zero :: npmVersion where
  "npm_zero = \<lparr>npm_major = 0, npm_minor = 0, npm_patch = 0, npm_prerelease = []\<rparr>"

definition npm_core :: "int \<Rightarrow> int \<Rightarrow> int \<Rightarrow> npmVersion" where
  "npm_core a b c = \<lparr>npm_major = a, npm_minor = b, npm_patch = c, npm_prerelease = []\<rparr>"

definition cmpInt :: "int \<Rightarrow> int \<Rightarrow> int" where
  "cmpInt a b = (if a < b then -1 else if a > b then 1 else 0)"

definition atoiNonNeg :: "gostring \<Rightarrow> int option" where
  "atoiNonNeg s =
    (if s = [] then None
     else case atoi s of
       None \<Rightarrow> None
     | Some n \<Rightarrow> if n < 0 \<or> has_prefix s ''+'' then None else Some n)"

definition semverMax :: int where
  "semverMax = 9007199254740991"

definition versionComponent :: "gostring \<Rightarrow> int option" where
  "versionComponent s =
    (if length s > 1 \<and> has_prefix s ''0'' then None
     else case atoiNonNeg s of
       None \<Rightarrow> None
     | Some n \<Rightarrow> if n > semverMax then None else Some n)"

definition nextComponent :: "int \<Rightarrow> int option" where
  "nextComponent n = (if n \<ge> semverMax then None else Some (n + 1))"

text \<open>One pass over the characters of an identifier: None when one is not in the grammar,
  else whether all are digits.\<close>

definition ident_alpha :: "char \<Rightarrow> bool" where
  "ident_alpha c =
    (in_range CHR ''a'' CHR ''z'' c \<or> in_range CHR ''A'' CHR ''Z'' c \<or> c = CHR ''-'')"

fun ident_numeric :: "gostring \<Rightarrow> bool option" where
  "ident_numeric [] = Some True"
| "ident_numeric (c # cs) =
    (if is_digit c then ident_numeric cs
     else if ident_alpha c then map_option (\<lambda>_. False) (ident_numeric cs)
     else None)"

definition valid_identifier :: "gostring \<Rightarrow> bool \<Rightarrow> bool" where
  "valid_identifier ident prerelease =
    (if ident = [] then False
     else case ident_numeric ident of
       None \<Rightarrow> False
     | Some numeric \<Rightarrow>
         if prerelease \<and> numeric then
           if length ident > 1 \<and> has_prefix ident ''0'' then False
           else (case atoiNonNeg ident of None \<Rightarrow> False | Some n \<Rightarrow> \<not> n > semverMax)
         else True)"

definition validIdentifiers :: "gostring \<Rightarrow> bool \<Rightarrow> bool" where
  "validIdentifiers s prerelease = list_all (\<lambda>ident. valid_identifier ident prerelease) (go_split s ''.'')"

definition isASCIISpace :: "char \<Rightarrow> bool" where
  "isASCIISpace r = ascii_space r"

definition trimASCIISpace :: "gostring \<Rightarrow> gostring" where
  "trimASCIISpace s = trim_func s isASCIISpace"

text \<open>parseNPMVersion, from the stripped version on: build metadata, core and prerelease.\<close>

definition npm_core_parts :: "gostring \<Rightarrow> (int \<times> int \<times> int) option" where
  "npm_core_parts core =
    (case go_split core ''.'' of
       [p0, p1, p2] \<Rightarrow>
         (case versionComponent p0 of None \<Rightarrow> None | Some major \<Rightarrow>
          case versionComponent p1 of None \<Rightarrow> None | Some minor \<Rightarrow>
          case versionComponent p2 of None \<Rightarrow> None | Some patch \<Rightarrow> Some (major, minor, patch))
     | _ \<Rightarrow> None)"

definition npm_strip_build :: "gostring \<Rightarrow> gostring option" where
  "npm_strip_build s =
    (case index_byte s CHR ''+'' of
       None \<Rightarrow> Some s
     | Some i \<Rightarrow> if \<not> validIdentifiers (drop (i + 1) s) False then None else Some (take i s))"

definition parseNPMVersion :: "gostring \<Rightarrow> npmVersion option" where
  "parseNPMVersion s0 =
    (let s = trim_prefix (trimASCIISpace s0) ''v'' in
     if s = [] then None
     else case npm_strip_build s of
       None \<Rightarrow> None
     | Some s1 \<Rightarrow>
         (let (core, pre) = (case index_byte s1 CHR ''-'' of
                               None \<Rightarrow> (s1, [])
                             | Some i \<Rightarrow> (take i s1, drop (i + 1) s1))
          in case npm_core_parts core of
               None \<Rightarrow> None
             | Some (major, minor, patch) \<Rightarrow>
                 if pre \<noteq> [] then
                   if \<not> validIdentifiers pre True then None
                   else Some \<lparr>npm_major = major, npm_minor = minor, npm_patch = patch,
                              npm_prerelease = go_split pre ''.''\<rparr>
                 else Some (npm_core major minor patch)))"

section \<open>Comparison\<close>

definition comparePrereleaseID :: "gostring \<Rightarrow> gostring \<Rightarrow> int" where
  "comparePrereleaseID a b =
    (case (atoiNonNeg a, atoiNonNeg b) of
       (Some an, Some bn) \<Rightarrow> cmpInt an bn
     | (Some an, None) \<Rightarrow> -1
     | (None, Some bn) \<Rightarrow> 1
     | (None, None) \<Rightarrow> strings_compare a b)"

fun compare_shared :: "gostring list \<Rightarrow> gostring list \<Rightarrow> int" where
  "compare_shared [] ys = 0"
| "compare_shared (x # xs) [] = 0"
| "compare_shared (x # xs) (y # ys) = cmp_then (comparePrereleaseID x y) (compare_shared xs ys)"

definition comparePrerelease :: "gostring list \<Rightarrow> gostring list \<Rightarrow> int" where
  "comparePrerelease a b =
    (if length a = 0 \<and> length b = 0 then 0
     else if length a = 0 then 1
     else if length b = 0 then -1
     else cmp_then (compare_shared a b) (cmpInt (int (length a)) (int (length b))))"

definition compareNPMVersion :: "npmVersion \<Rightarrow> npmVersion \<Rightarrow> int" where
  "compareNPMVersion a b =
    cmp_then (cmpInt (npm_major a) (npm_major b))
     (cmp_then (cmpInt (npm_minor a) (npm_minor b))
       (cmp_then (cmpInt (npm_patch a) (npm_patch b))
         (comparePrerelease (npm_prerelease a) (npm_prerelease b))))"

definition npmVersionOutsideRange :: "gostring \<Rightarrow> gostring \<Rightarrow> bool option" where
  "npmVersionOutsideRange ver upper =
    (case (parseNPMVersion ver, parseNPMVersion upper) of
       (Some a, Some b) \<Rightarrow> Some (compareNPMVersion a b \<ge> 0)
     | _ \<Rightarrow> None)"

section \<open>Ranges\<close>

record comparator =
  cmp_op :: gostring
  cmp_v :: npmVersion

definition prim :: "gostring \<Rightarrow> npmVersion \<Rightarrow> comparator" where
  "prim oper v = \<lparr>cmp_op = oper, cmp_v = v\<rparr>"

definition sameCore :: "npmVersion \<Rightarrow> npmVersion \<Rightarrow> bool" where
  "sameCore a b = (npm_major a = npm_major b \<and> npm_minor a = npm_minor b \<and> npm_patch a = npm_patch b)"

definition satisfiesComparator :: "npmVersion \<Rightarrow> comparator \<Rightarrow> bool" where
  "satisfiesComparator v c =
    (let cmp = compareNPMVersion v (cmp_v c); oper = cmp_op c in
     if oper = ''<'' then cmp < 0
     else if oper = ''<='' then cmp \<le> 0
     else if oper = ''>'' then cmp > 0
     else if oper = ''>='' then cmp \<ge> 0
     else if oper = ''='' \<or> oper = [] then cmp = 0
     else False)"

definition prereleaseAllowed :: "npmVersion \<Rightarrow> comparator list \<Rightarrow> bool" where
  "prereleaseAllowed v comps =
    list_ex (\<lambda>c. length (npm_prerelease (cmp_v c)) > 0 \<and> sameCore v (cmp_v c)) comps"

definition comparatorsSatisfied :: "npmVersion \<Rightarrow> comparator list \<Rightarrow> bool \<Rightarrow> bool" where
  "comparatorsSatisfied v comps includePrerelease =
    (if \<not> list_all (satisfiesComparator v) comps then False
     else if length (npm_prerelease v) > 0 \<and> \<not> includePrerelease then prereleaseAllowed v comps
     else True)"

definition isWildcard :: "gostring \<Rightarrow> bool" where
  "isWildcard s = (s = ''x'' \<or> s = ''X'' \<or> s = ''*'')"

text \<open>The loop of parsePartialVersion over the split components: the numbers before the
  first wildcard.\<close>

fun partial_components :: "gostring list \<Rightarrow> int list option" where
  "partial_components [] = Some []"
| "partial_components (p # ps) =
    (if isWildcard p then Some []
     else case versionComponent p of
       None \<Rightarrow> None
     | Some n \<Rightarrow> map_option (\<lambda>ns. n # ns) (partial_components ps))"

definition nth0 :: "int list \<Rightarrow> nat \<Rightarrow> int" where
  "nth0 ns i = (if i < length ns then ns ! i else 0)"

definition parsePartialVersion :: "gostring \<Rightarrow> (npmVersion \<times> nat) option" where
  "parsePartialVersion raw0 =
    (let raw = trimASCIISpace raw0 in
     if raw = [] then None
     else case parseNPMVersion raw of
       Some v \<Rightarrow> Some (v, 3)
     | None \<Rightarrow>
         (let parts = go_split raw ''.'' in
          if length parts > 3 then None
          else case partial_components parts of
            None \<Rightarrow> None
          | Some ns \<Rightarrow>
              if length ns = 0 then None
              else Some (npm_core (nth0 ns 0) (nth0 ns 1) (nth0 ns 2), length ns)))"

definition caret_ceiling :: "npmVersion \<Rightarrow> nat \<Rightarrow> npmVersion option" where
  "caret_ceiling v partial =
    (if partial = 1 then map_option (\<lambda>n. npm_core n 0 0) (nextComponent (npm_major v))
     else if partial = 2 then
       (if npm_major v = 0 then map_option (\<lambda>n. npm_core 0 n 0) (nextComponent (npm_minor v))
        else map_option (\<lambda>n. npm_core n 0 0) (nextComponent (npm_major v)))
     else if npm_major v \<noteq> 0 then map_option (\<lambda>n. npm_core n 0 0) (nextComponent (npm_major v))
     else if npm_minor v \<noteq> 0 then map_option (\<lambda>n. npm_core 0 n 0) (nextComponent (npm_minor v))
     else map_option (\<lambda>n. npm_core 0 0 n) (nextComponent (npm_patch v)))"

definition caretRange :: "gostring \<Rightarrow> comparator list option" where
  "caretRange raw =
    (case parsePartialVersion raw of
       None \<Rightarrow> None
     | Some (v, partial) \<Rightarrow>
         (case caret_ceiling v partial of
            None \<Rightarrow> None
          | Some ceil \<Rightarrow> Some [prim ''>='' v, prim ''<'' ceil]))"

definition tilde_ceiling :: "npmVersion \<Rightarrow> nat \<Rightarrow> npmVersion option" where
  "tilde_ceiling v partial =
    (if partial \<ge> 2 then map_option (\<lambda>n. npm_core (npm_major v) n 0) (nextComponent (npm_minor v))
     else map_option (\<lambda>n. npm_core n 0 0) (nextComponent (npm_major v)))"

definition tildeRange :: "gostring \<Rightarrow> comparator list option" where
  "tildeRange raw =
    (case parsePartialVersion raw of
       None \<Rightarrow> None
     | Some (v, partial) \<Rightarrow>
         (case tilde_ceiling v partial of
            None \<Rightarrow> None
          | Some ceil \<Rightarrow> Some [prim ''>='' v, prim ''<'' ceil]))"

definition xRange :: "gostring \<Rightarrow> comparator list option" where
  "xRange raw0 =
    (let raw = trimASCIISpace raw0 in
     if raw = [] \<or> raw = ''*'' \<or> raw = ''x'' \<or> raw = ''X'' then Some [prim ''>='' npm_zero]
     else
       (let parts = go_split raw ''.'' in
        if length parts > 3 then None
        else case versionComponent (parts ! 0) of
          None \<Rightarrow> None
        | Some major \<Rightarrow>
            if length parts = 1 \<or> isWildcard (parts ! 1) then
              (case nextComponent major of
                 None \<Rightarrow> None
               | Some nxt \<Rightarrow> Some [prim ''>='' (npm_core major 0 0), prim ''<'' (npm_core nxt 0 0)])
            else
              (case versionComponent (parts ! 1) of
                 None \<Rightarrow> None
               | Some minor \<Rightarrow>
                   if length parts = 2 \<or> isWildcard (parts ! 2) then
                     (case nextComponent minor of
                        None \<Rightarrow> None
                      | Some nxt \<Rightarrow>
                          Some [prim ''>='' (npm_core major minor 0), prim ''<'' (npm_core major nxt 0)])
                   else None)))"

definition exactOrXRange :: "gostring \<Rightarrow> comparator list option" where
  "exactOrXRange raw0 =
    (let raw = trimASCIISpace raw0 in
     case parseNPMVersion raw of
       Some v \<Rightarrow> Some [prim ''='' v]
     | None \<Rightarrow> xRange raw)"

definition opComparator :: "gostring \<Rightarrow> gostring \<Rightarrow> comparator list option" where
  "opComparator oper raw =
    (case parseNPMVersion (trimASCIISpace raw) of
       None \<Rightarrow> None
     | Some v \<Rightarrow> Some [prim oper v])"

definition parseComparator :: "gostring \<Rightarrow> comparator list option" where
  "parseComparator f =
    (if has_prefix f ''^'' then caretRange (drop 1 f)
     else if has_prefix f ''~'' then tildeRange (drop 1 f)
     else if has_prefix f ''>='' then opComparator ''>='' (drop 2 f)
     else if has_prefix f ''<='' then opComparator ''<='' (drop 2 f)
     else if has_prefix f ''>'' then opComparator ''>'' (drop 1 f)
     else if has_prefix f ''<'' then opComparator ''<'' (drop 1 f)
     else if has_prefix f ''='' then exactOrXRange (drop 1 f)
     else exactOrXRange f)"

fun indexOf :: "gostring list \<Rightarrow> gostring \<Rightarrow> nat option" where
  "indexOf [] target = None"
| "indexOf (s # ss) target = (if s = target then Some 0 else map_option Suc (indexOf ss target))"

fun parse_fields :: "gostring list \<Rightarrow> comparator list option" where
  "parse_fields [] = Some []"
| "parse_fields (f # fs) =
    (case parseComparator f of
       None \<Rightarrow> None
     | Some cs \<Rightarrow> map_option (\<lambda>rest. cs @ rest) (parse_fields fs))"

definition parseComparatorSet :: "gostring \<Rightarrow> comparator list option" where
  "parseComparatorSet s =
    (if s = [] \<or> s = ''*'' then Some [prim ''>='' npm_zero]
     else
       (let fields = fields_func s isASCIISpace in
        case indexOf fields ''-'' of
          Some i \<Rightarrow>
            if i \<noteq> 1 \<or> length fields \<noteq> 3 then None
            else (case (parseNPMVersion (fields ! 0), parseNPMVersion (fields ! 2)) of
                    (Some lo, Some hi) \<Rightarrow> Some [prim ''>='' lo, prim ''<='' hi]
                  | _ \<Rightarrow> None)
        | None \<Rightarrow>
            (case parse_fields fields of
               None \<Rightarrow> None
             | Some out \<Rightarrow> if length out = 0 then None else Some out)))"

fun in_some_set :: "npmVersion \<Rightarrow> bool \<Rightarrow> gostring list \<Rightarrow> bool \<Rightarrow> bool option" where
  "in_some_set v includePrerelease [] matchedAny = Some matchedAny"
| "in_some_set v includePrerelease (alt # alts) matchedAny =
    (case parseComparatorSet (trimASCIISpace alt) of
       None \<Rightarrow> None
     | Some comps \<Rightarrow>
         in_some_set v includePrerelease alts
           (if comparatorsSatisfied v comps includePrerelease then True else matchedAny))"

definition npmVersionInRangeOpt :: "gostring \<Rightarrow> gostring \<Rightarrow> bool \<Rightarrow> bool option" where
  "npmVersionInRangeOpt ver rangeExpr includePrerelease =
    (case parseNPMVersion ver of
       None \<Rightarrow> None
     | Some v \<Rightarrow> in_some_set v includePrerelease (go_split rangeExpr ''||'') False)"

definition npmVersionInRange :: "gostring \<Rightarrow> gostring \<Rightarrow> bool option" where
  "npmVersionInRange ver rangeExpr = npmVersionInRangeOpt ver rangeExpr False"

definition npmVersionInRangeIncludePrerelease :: "gostring \<Rightarrow> gostring \<Rightarrow> bool option" where
  "npmVersionInRangeIncludePrerelease ver rangeExpr = npmVersionInRangeOpt ver rangeExpr True"

definition npmDisqualifyOutside :: "gostring \<Rightarrow> gostring \<Rightarrow> bool option" where
  "npmDisqualifyOutside ver bound =
    (case parseNPMVersion bound of
       Some _ \<Rightarrow> npmVersionOutsideRange ver bound
     | None \<Rightarrow>
         (case npmVersionInRangeIncludePrerelease ver bound of
            None \<Rightarrow> None
          | Some inRange \<Rightarrow> Some (\<not> inRange)))"

section \<open>The order\<close>

definition npm_id_key :: "gostring \<Rightarrow> bool \<times> int \<times> gostring" where
  "npm_id_key s = (case atoiNonNeg s of Some n \<Rightarrow> (False, n, []) | None \<Rightarrow> (True, 0, s))"

definition npm_key :: "npmVersion \<Rightarrow> int \<times> int \<times> int \<times> bool \<times> (bool \<times> int \<times> gostring) list" where
  "npm_key v = (npm_major v, npm_minor v, npm_patch v,
     npm_prerelease v = [], map npm_id_key (npm_prerelease v))"

lemma cmpInt_ord [go_simps]: "cmpInt a b = cmp_ord a b"
  by (simp add: cmpInt_def cmp_ord_def)

lemma comparePrereleaseID_ord: "comparePrereleaseID a b = cmp_ord (npm_id_key a) (npm_id_key b)"
  by (cases "atoiNonNeg a"; cases "atoiNonNeg b")
    (auto simp: comparePrereleaseID_def npm_id_key_def cmpInt_ord strings_compare_def cmp_ord_def less_prod_def)

lemma compare_shared_ord:
  "cmp_then (compare_shared xs ys) (cmp_ord (length xs) (length ys)) =
   cmp_ord (map npm_id_key xs) (map npm_id_key ys)"
proof (induction xs ys rule: compare_shared.induct)
  case (1 ys)
  then show ?case by (cases ys) (simp_all add: cmp_then_def cmp_ord_def)
next
  case (2 x xs)
  then show ?case by (simp add: cmp_then_def cmp_ord_def)
next
  case (3 x xs y ys)
  have "cmp_then (compare_shared (x # xs) (y # ys)) (cmp_ord (length (x # xs)) (length (y # ys))) =
    cmp_then (comparePrereleaseID x y)
      (cmp_then (compare_shared xs ys) (cmp_ord (length xs) (length ys)))"
    by (simp add: cmp_then_def cmp_ord_def)
  then show ?case using 3 by (simp add: cmp_ord_Cons comparePrereleaseID_ord)
qed

lemma cmp_ord_of_nat: "cmp_ord (int a) (int b) = cmp_ord a b"
  by (simp add: cmp_ord_def)

lemma comparePrerelease_ord:
  "comparePrerelease a b = cmp_ord (a = [], map npm_id_key a) (b = [], map npm_id_key b)"
  by (cases a; cases b)
    (simp_all only: comparePrerelease_def cmpInt_ord cmp_ord_of_nat compare_shared_ord,
     simp_all add: cmp_ord_pair cmp_then_def, simp_all add: cmp_ord_def)

interpretation npm_order: keyed compareNPMVersion npm_key
  by unfold_locales
    (simp add: compareNPMVersion_def npm_key_def cmpInt_ord comparePrerelease_ord cmp_ord_pair)

interpretation npm: version_scheme compareNPMVersion parseNPMVersion npmVersionOutsideRange
  by unfold_locales (auto simp: npmVersionOutsideRange_def split: option.splits)

section \<open>Well-formed versions\<close>

text \<open>What node-semver asks of a version: components up to MAX_SAFE_INTEGER and prerelease
  identifiers in its grammar.\<close>

definition npm_component :: "int \<Rightarrow> bool" where
  "npm_component n = (0 \<le> n \<and> n \<le> semverMax)"

definition npm_wf :: "npmVersion \<Rightarrow> bool" where
  "npm_wf v = (npm_component (npm_major v) \<and> npm_component (npm_minor v) \<and>
    npm_component (npm_patch v) \<and> list_all (\<lambda>i. valid_identifier i True) (npm_prerelease v))"

lemma versionComponent_wf: "versionComponent s = Some n \<Longrightarrow> npm_component n"
  by (auto simp: versionComponent_def atoiNonNeg_def npm_component_def split: if_splits option.splits)

lemma nextComponent_wf:
  "nextComponent n = Some m \<longleftrightarrow> m = n + 1 \<and> n < semverMax"
  by (auto simp: nextComponent_def)

lemma npm_core_sel [simp]:
  "npm_major (npm_core a b c) = a" "npm_minor (npm_core a b c) = b"
  "npm_patch (npm_core a b c) = c" "npm_prerelease (npm_core a b c) = []"
  by (simp_all add: npm_core_def)

lemma npm_core_wf: "npm_wf (npm_core a b c) \<longleftrightarrow> npm_component a \<and> npm_component b \<and> npm_component c"
  by (simp add: npm_wf_def)

lemma npm_component_0 [simp]: "npm_component 0"
  by (simp add: npm_component_def semverMax_def)

lemma npm_core_parts_wf:
  "npm_core_parts s = Some (a, b, c) \<Longrightarrow> npm_component a \<and> npm_component b \<and> npm_component c"
  by (auto simp: npm_core_parts_def split: list.splits option.splits dest: versionComponent_wf)

lemma parseNPMVersion_Some: "parseNPMVersion s = Some v \<Longrightarrow> npm_wf v"
  by (auto simp: parseNPMVersion_def Let_def npm_wf_def validIdentifiers_def
      split: if_splits option.splits dest!: npm_core_parts_wf)

lemma npm_zero_core: "npm_zero = npm_core 0 0 0"
  by (simp add: npm_zero_def npm_core_def)

lemma npm_zero_wf [simp]: "npm_wf npm_zero"
  by (simp add: npm_zero_core npm_core_wf)

lemma partial_components_wf:
  "partial_components ps = Some ns \<Longrightarrow> list_all npm_component ns \<and> length ns \<le> length ps"
  by (induction ps arbitrary: ns) (auto split: if_splits option.splits dest: versionComponent_wf)

lemma nth0_wf: "list_all npm_component ns \<Longrightarrow> npm_component (nth0 ns i)"
  by (simp add: nth0_def list_all_length)

lemma parsePartialVersion_wf:
  "parsePartialVersion raw = Some (v, p) \<Longrightarrow> npm_wf v \<and> 0 < p \<and> p \<le> 3"
  by (auto simp: parsePartialVersion_def Let_def npm_core_wf nth0_wf
      split: if_splits option.splits dest!: partial_components_wf dest: parseNPMVersion_Some)

definition comparator_wf :: "comparator \<Rightarrow> bool" where
  "comparator_wf c = (npm_wf (cmp_v c) \<and> cmp_op c \<in> {''<'', ''<='', ''>'', ''>='', ''=''})"

lemma prim_sel [simp]: "cmp_op (prim p v) = p" "cmp_v (prim p v) = v"
  by (simp_all add: prim_def)

lemma ceiling_wf:
  "caret_ceiling v p = Some w \<Longrightarrow> npm_wf v \<Longrightarrow> npm_wf w"
  "tilde_ceiling v p = Some w \<Longrightarrow> npm_wf v \<Longrightarrow> npm_wf w"
  by (auto simp: caret_ceiling_def tilde_ceiling_def nextComponent_wf npm_core_wf npm_wf_def
      npm_component_def split: if_splits)

lemma caretRange_wf: "caretRange r = Some cs \<Longrightarrow> list_all comparator_wf cs"
  using ceiling_wf(1) parsePartialVersion_wf
  by (fastforce simp: caretRange_def comparator_wf_def split: option.splits)

lemma tildeRange_wf: "tildeRange r = Some cs \<Longrightarrow> list_all comparator_wf cs"
  using ceiling_wf(2) parsePartialVersion_wf
  by (fastforce simp: tildeRange_def comparator_wf_def split: option.splits)

lemma xRange_wf: "xRange r = Some cs \<Longrightarrow> list_all comparator_wf cs"
  by (auto simp: xRange_def Let_def comparator_wf_def nextComponent_wf npm_core_wf npm_component_def
      split: if_splits option.splits dest!: versionComponent_wf)

lemma exactOrXRange_wf: "exactOrXRange r = Some cs \<Longrightarrow> list_all comparator_wf cs"
  by (auto simp: exactOrXRange_def Let_def comparator_wf_def split: option.splits
      dest: xRange_wf parseNPMVersion_Some)

lemma opComparator_wf:
  "opComparator p r = Some cs \<Longrightarrow> p \<in> {''<'', ''<='', ''>'', ''>='', ''=''} \<Longrightarrow> list_all comparator_wf cs"
  by (auto simp: opComparator_def comparator_wf_def split: option.splits dest: parseNPMVersion_Some)

lemma parseComparator_wf:
  assumes "parseComparator f = Some cs" shows "list_all comparator_wf cs"
  using assms unfolding parseComparator_def
  by (auto split: if_splits dest: caretRange_wf tildeRange_wf exactOrXRange_wf opComparator_wf)

lemma parse_fields_wf: "parse_fields fs = Some cs \<Longrightarrow> list_all comparator_wf cs"
  by (induction fs arbitrary: cs) (auto split: option.splits dest: parseComparator_wf)

lemma parseComparatorSet_wf:
  assumes "parseComparatorSet s = Some cs" shows "list_all comparator_wf cs \<and> cs \<noteq> []"
  using assms unfolding parseComparatorSet_def Let_def
  by (auto simp: comparator_wf_def split: if_splits option.splits
      dest: parseNPMVersion_Some parse_fields_wf)

section \<open>What the ranges mean\<close>

lemma npm_le_iff: "0 \<le> compareNPMVersion a b \<longleftrightarrow> npm_key b \<le> npm_key a"
  and npm_less_iff: "compareNPMVersion a b < 0 \<longleftrightarrow> npm_key a < npm_key b"
  by (simp_all add: npm_order.cmp_key)

lemma satisfies_prim [simp]:
  "satisfiesComparator w (prim ''>='' v) \<longleftrightarrow> 0 \<le> compareNPMVersion w v"
  "satisfiesComparator w (prim ''<'' v) \<longleftrightarrow> compareNPMVersion w v < 0"
  "satisfiesComparator w (prim ''>'' v) \<longleftrightarrow> 0 < compareNPMVersion w v"
  "satisfiesComparator w (prim ''<='' v) \<longleftrightarrow> compareNPMVersion w v \<le> 0"
  "satisfiesComparator w (prim ''='' v) \<longleftrightarrow> compareNPMVersion w v = 0"
  by (simp_all add: satisfiesComparator_def Let_def)

lemma satisfied_release:
  "npm_prerelease w = [] \<Longrightarrow> comparatorsSatisfied w cs b \<longleftrightarrow> list_all (satisfiesComparator w) cs"
  by (simp add: comparatorsSatisfied_def)

lemma satisfied_include:
  "comparatorsSatisfied w cs True \<longleftrightarrow> list_all (satisfiesComparator w) cs"
  by (simp add: comparatorsSatisfied_def)

lemma satisfied_isolated: "comparatorsSatisfied w cs b \<Longrightarrow> comparatorsSatisfied w cs True"
  by (simp add: comparatorsSatisfied_def split: if_splits)

lemma key_le_coreD:
  "npm_key v \<le> npm_key w \<Longrightarrow> npm_major v < npm_major w \<or> npm_major v = npm_major w \<and>
    (npm_minor v < npm_minor w \<or> npm_minor v = npm_minor w \<and> npm_patch v \<le> npm_patch w)"
  by (auto simp: npm_key_def less_eq_prod_def)

lemma key_less_core:
  "npm_prerelease w = [] \<Longrightarrow> npm_key w < npm_key (npm_core a b c) \<longleftrightarrow>
    npm_major w < a \<or> npm_major w = a \<and> (npm_minor w < b \<or> npm_minor w = b \<and> npm_patch w < c)"
  by (auto simp: npm_key_def less_prod_def)

definition caret_same :: "nat \<Rightarrow> npmVersion \<Rightarrow> npmVersion \<Rightarrow> bool" where
  "caret_same p v w =
    (if p = 1 \<or> npm_major v \<noteq> 0 then npm_major w = npm_major v
     else if p = 2 \<or> npm_minor v \<noteq> 0 then npm_major w = 0 \<and> npm_minor w = npm_minor v
     else npm_major w = 0 \<and> npm_minor w = 0 \<and> npm_patch w = npm_patch v)"

definition tilde_same :: "nat \<Rightarrow> npmVersion \<Rightarrow> npmVersion \<Rightarrow> bool" where
  "tilde_same p v w =
    (npm_major w = npm_major v \<and> (p \<ge> 2 \<longrightarrow> npm_minor w = npm_minor v))"

lemma npm_wf_components:
  "npm_wf v \<Longrightarrow> 0 \<le> npm_major v \<and> 0 \<le> npm_minor v \<and> 0 \<le> npm_patch v"
  by (simp add: npm_wf_def npm_component_def)

lemma caret_ceiling_less:
  assumes "caret_ceiling v p = Some u" and le: "npm_key v \<le> npm_key w"
    and wf: "npm_wf v" "npm_wf w" and rel: "npm_prerelease w = []"
  shows "npm_key w < npm_key u \<longleftrightarrow> caret_same p v w"
proof -
  note c = npm_wf_components [OF wf(1)] npm_wf_components [OF wf(2)] key_le_coreD [OF le]
  consider (major) "p = 1 \<or> npm_major v \<noteq> 0" "u = npm_core (npm_major v + 1) 0 0"
    | (minor) "p \<noteq> 1" "npm_major v = 0" "p = 2 \<or> npm_minor v \<noteq> 0" "u = npm_core 0 (npm_minor v + 1) 0"
    | (patch) "p \<noteq> 1" "npm_major v = 0" "p \<noteq> 2" "npm_minor v = 0" "u = npm_core 0 0 (npm_patch v + 1)"
    using assms(1) by (auto simp: caret_ceiling_def nextComponent_wf split: if_splits)
  then show ?thesis
  proof cases
    case major then show ?thesis using c by (simp add: caret_same_def key_less_core [OF rel]) linarith
  next
    case minor then show ?thesis using c by (simp add: caret_same_def key_less_core [OF rel]) linarith
  next
    case patch then show ?thesis using c by (simp add: caret_same_def key_less_core [OF rel]) linarith
  qed
qed

lemma tilde_ceiling_less:
  assumes "tilde_ceiling v p = Some u" and le: "npm_key v \<le> npm_key w"
    and wf: "npm_wf v" "npm_wf w" and rel: "npm_prerelease w = []"
  shows "npm_key w < npm_key u \<longleftrightarrow> tilde_same p v w"
proof -
  note c = npm_wf_components [OF wf(1)] npm_wf_components [OF wf(2)] key_le_coreD [OF le]
  consider (minor) "p \<ge> 2" "u = npm_core (npm_major v) (npm_minor v + 1) 0"
    | (major) "\<not> p \<ge> 2" "u = npm_core (npm_major v + 1) 0 0"
    using assms(1) by (auto simp: tilde_ceiling_def nextComponent_wf split: if_splits)
  then show ?thesis
  proof cases
    case minor then show ?thesis using c by (simp add: tilde_same_def key_less_core [OF rel]) linarith
  next
    case major then show ?thesis using c by (simp add: tilde_same_def key_less_core [OF rel]) linarith
  qed
qed

lemma in_some_set_True:
  "in_some_set v b alts m = Some r \<longleftrightarrow>
    (\<forall>alt\<in>set alts. parseComparatorSet (trimASCIISpace alt) \<noteq> None) \<and>
    r = (m \<or> (\<exists>alt\<in>set alts. \<exists>cs. parseComparatorSet (trimASCIISpace alt) = Some cs \<and>
                 comparatorsSatisfied v cs b))"
  by (induction alts arbitrary: m) (auto split: option.splits)

text \<open>C40: caret ranges. A release satisfies the comparators caretRange returns exactly when it
  is at or above the floor and changes nothing up to the left-most non-zero component
  (node-semver's documented meaning of the caret, partial versions included), with or without
  prerelease isolation.\<close>
theorem npm_caret_range:
  assumes "parsePartialVersion raw = Some (v, p)" and "caretRange raw = Some cs"
    and "npm_wf w" and "npm_prerelease w = []"
  shows "comparatorsSatisfied w cs includePrerelease \<longleftrightarrow>
    0 \<le> compareNPMVersion w v \<and> caret_same p v w"
proof -
  obtain u where u: "caret_ceiling v p = Some u" and cs: "cs = [prim ''>='' v, prim ''<'' u]"
    using assms(1,2) by (auto simp: caretRange_def split: option.splits)
  have wf: "npm_wf v" using parsePartialVersion_wf [OF assms(1)] by simp
  show ?thesis
    using caret_ceiling_less [OF u _ wf assms(3,4)]
    by (auto simp: cs satisfied_release [OF assms(4)] npm_le_iff npm_less_iff)
qed

theorem npm_caret_range_witness:
  "\<exists>v cs. parsePartialVersion ''0.2.3'' = Some (v, 3) \<and> caretRange ''0.2.3'' = Some cs \<and>
     (comparatorsSatisfied (npm_core 0 2 9) cs False \<longleftrightarrow>
       0 \<le> compareNPMVersion (npm_core 0 2 9) v \<and> caret_same 3 v (npm_core 0 2 9))"
proof -
  have p: "parsePartialVersion ''0.2.3'' = Some (npm_core 0 2 3, 3)" by code_simp
  have c: "caretRange ''0.2.3'' = Some [prim ''>='' (npm_core 0 2 3), prim ''<'' (npm_core 0 3 0)]"
    by code_simp
  have w: "npm_wf (npm_core 0 2 9)" by code_simp
  show ?thesis
    using p c npm_caret_range [OF p c w, of False] by (auto simp: npm_core_sel)
qed

text \<open>tilde ranges. A release satisfies the comparators tildeRange returns exactly when it
  is at or above the floor and has the same major and, where the minor was given, the same
  minor.\<close>
theorem npm_tilde_range:
  assumes "parsePartialVersion raw = Some (v, p)" and "tildeRange raw = Some cs"
    and "npm_wf w" and "npm_prerelease w = []"
  shows "comparatorsSatisfied w cs includePrerelease \<longleftrightarrow>
    0 \<le> compareNPMVersion w v \<and> tilde_same p v w"
proof -
  obtain u where u: "tilde_ceiling v p = Some u" and cs: "cs = [prim ''>='' v, prim ''<'' u]"
    using assms(1,2) by (auto simp: tildeRange_def split: option.splits)
  have wf: "npm_wf v" using parsePartialVersion_wf [OF assms(1)] by simp
  show ?thesis
    using tilde_ceiling_less [OF u _ wf assms(3,4)]
    by (auto simp: cs satisfied_release [OF assms(4)] npm_le_iff npm_less_iff)
qed

theorem npm_tilde_range_witness:
  "comparatorsSatisfied (npm_core 1 2 9) (the (tildeRange ''1.2.3'')) False \<and>
   \<not> comparatorsSatisfied (npm_core 1 3 0) (the (tildeRange ''1.2.3'')) False"
proof -
  have p: "parsePartialVersion ''1.2.3'' = Some (fst (the (parsePartialVersion ''1.2.3'')), snd (the (parsePartialVersion ''1.2.3'')))"
    and t: "tildeRange ''1.2.3'' = Some (the (tildeRange ''1.2.3''))" by code_simp+
  have w: "npm_wf (npm_core 1 2 9) \<and> npm_prerelease (npm_core 1 2 9) = [] \<and>
      npm_wf (npm_core 1 3 0) \<and> npm_prerelease (npm_core 1 3 0) = []" by code_simp
  have "0 \<le> compareNPMVersion (npm_core 1 2 9) (fst (the (parsePartialVersion ''1.2.3''))) \<and>
      tilde_same (snd (the (parsePartialVersion ''1.2.3''))) (fst (the (parsePartialVersion ''1.2.3''))) (npm_core 1 2 9) \<and>
      \<not> tilde_same (snd (the (parsePartialVersion ''1.2.3''))) (fst (the (parsePartialVersion ''1.2.3''))) (npm_core 1 3 0)"
    by code_simp
  then show ?thesis using npm_tilde_range [OF p t] w by simp
qed

text \<open>the range branch of the disqualification check. For a bound that is not a plain
  version, npmDisqualifyOutside answers "outside" exactly when the version parses, every
  alternative of the range is in the modelled grammar, and the version breaks a comparator of every
  alternative; prerelease isolation plays no part.\<close>
theorem npm_disqualify_range:
  "(parseNPMVersion bound = None \<and> npmDisqualifyOutside ver bound = Some True) =
   (parseNPMVersion bound = None \<and> (\<exists>v. parseNPMVersion ver = Some v \<and>
      list_all (\<lambda>alt. \<exists>cs. parseComparatorSet (trimASCIISpace alt) = Some cs \<and>
          list_ex (\<lambda>c. \<not> satisfiesComparator v c) cs) (go_split bound ''||'')))"
proof (cases "parseNPMVersion ver")
  case None
  then show ?thesis
    by (auto simp: npmDisqualifyOutside_def npmVersionInRangeIncludePrerelease_def
        npmVersionInRangeOpt_def split: option.splits)
next
  case (Some v)
  have "npmDisqualifyOutside ver bound = Some True \<longleftrightarrow>
      in_some_set v True (go_split bound ''||'') False = Some False"
    if "parseNPMVersion bound = None"
    using that Some
    by (auto simp: npmDisqualifyOutside_def npmVersionInRangeIncludePrerelease_def
        npmVersionInRangeOpt_def split: option.splits)
  then show ?thesis
    using Some
    by (auto simp: in_some_set_True satisfied_include list_all_iff list_ex_iff)
      (metis option.distinct(1) option.exhaust option.inject)+
qed

text \<open>include-prerelease matching never loses a match: what isolated matching accepts,
  the disqualification check does not call outside.\<close>
theorem npm_isolated_in_range:
  "npmVersionInRange ver r = Some True \<Longrightarrow> npmVersionInRangeIncludePrerelease ver r = Some True"
  by (auto simp: npmVersionInRange_def npmVersionInRangeIncludePrerelease_def npmVersionInRangeOpt_def
      in_some_set_True split: option.splits dest: satisfied_isolated)

theorem npm_isolated_in_range_witness:
  "npmVersionInRangeIncludePrerelease ''1.4.0'' ''^1.2.3 || ~2.1'' = Some True"
  by (rule npm_isolated_in_range) code_simp

end
