(* ===== verification/Nuget_Version.thy ===== *)
theory Nuget_Version
  imports Npm_Version
begin

text \<open>
  NuGet versions and interval ranges: src/pipeline/nuget_version.go. The four numeric segments
  and the lower-cased prerelease identifiers form the record \<open>nugetVersion\<close>; the order reuses
  comparePrerelease of the npm file, as the source does. An interval is the record
  \<open>nugetInterval\<close> with its four flags. Lemmas: the order (interpretation
  \<open>nuget_order\<close>), padding and case-insensitivity, and the meaning of the bracket forms.
\<close>

section \<open>Lexical guards\<close>

definition isNuGetFloating :: "gostring \<Rightarrow> bool" where
  "isNuGetFloating s = (CHR ''*'' \<in> set s)"

definition nuget_allowed_char :: "char \<Rightarrow> bool" where
  "nuget_allowed_char c =
    (is_digit c \<or> in_range CHR ''A'' CHR ''Z'' c \<or> in_range CHR ''a'' CHR ''z'' c \<or>
     c \<in> set ''.-+*,[]()'' \<or> c = CHR 0x20 \<or> c = CHR 0x09)"

definition nugetAllowedChars :: "gostring \<Rightarrow> bool" where
  "nugetAllowedChars s = list_all nuget_allowed_char s"

section \<open>Versions\<close>

record nugetVersion =
  ng_major :: int
  ng_minor :: int
  ng_patch :: int
  ng_revision :: int
  ng_prerelease :: "gostring list"

definition nugetPrereleaseID :: "gostring \<Rightarrow> bool" where
  "nugetPrereleaseID ident = list_all (\<lambda>c. is_digit c \<or> in_range CHR ''a'' CHR ''z'' c \<or> c = CHR ''-'') ident"

fun nuget_segments :: "gostring list \<Rightarrow> int list option" where
  "nuget_segments [] = Some []"
| "nuget_segments (p # ps) =
    (case atoiNonNeg p of
       None \<Rightarrow> None
     | Some n \<Rightarrow> map_option (\<lambda>ns. n # ns) (nuget_segments ps))"

definition nuget_build :: "int list \<Rightarrow> gostring list \<Rightarrow> nugetVersion" where
  "nuget_build seg ids =
    \<lparr>ng_major = nth0 seg 0, ng_minor = nth0 seg 1, ng_patch = nth0 seg 2, ng_revision = nth0 seg 3,
     ng_prerelease = ids\<rparr>"

definition parseNuGetVersion :: "gostring \<Rightarrow> nugetVersion option" where
  "parseNuGetVersion s0 =
    (let s = trim_space s0 in
     if s = [] \<or> \<not> nugetAllowedChars s then None
     else
       (let s1 = (case index_byte s CHR ''+'' of None \<Rightarrow> s | Some i \<Rightarrow> take i s);
            (core, pre, hasPre) =
              (case index_byte s1 CHR ''-'' of
                 None \<Rightarrow> (s1, [], False)
               | Some i \<Rightarrow> (take i s1, drop (i + 1) s1, True))
        in if hasPre \<and> pre = [] then None
           else
             (let parts = go_split core ''.'' in
              if length parts = 0 \<or> length parts > 4 then None
              else case nuget_segments parts of
                None \<Rightarrow> None
              | Some seg \<Rightarrow>
                  if pre \<noteq> [] then
                    (let ids = go_split (to_lower pre) ''.'' in
                     if list_ex (\<lambda>ident. ident = [] \<or> \<not> nugetPrereleaseID ident) ids then None
                     else Some (nuget_build seg ids))
                  else Some (nuget_build seg []))))"

definition compareNuGetVersion :: "nugetVersion \<Rightarrow> nugetVersion \<Rightarrow> int" where
  "compareNuGetVersion a b =
    cmp_then (cmpInt (ng_major a) (ng_major b))
     (cmp_then (cmpInt (ng_minor a) (ng_minor b))
       (cmp_then (cmpInt (ng_patch a) (ng_patch b))
         (cmp_then (cmpInt (ng_revision a) (ng_revision b))
           (comparePrerelease (ng_prerelease a) (ng_prerelease b)))))"

definition nugetVersionOutsideRange :: "gostring \<Rightarrow> gostring \<Rightarrow> bool option" where
  "nugetVersionOutsideRange ver upper =
    (if isNuGetFloating ver \<or> isNuGetFloating upper then None
     else case (parseNuGetVersion ver, parseNuGetVersion upper) of
       (Some a, Some b) \<Rightarrow> Some (compareNuGetVersion a b \<ge> 0)
     | _ \<Rightarrow> None)"

section \<open>Intervals\<close>

record nugetInterval =
  iv_hasLo :: bool
  iv_loIncl :: bool
  iv_lo :: nugetVersion
  iv_hasHi :: bool
  iv_hiIncl :: bool
  iv_hi :: nugetVersion

definition nuget_zero :: nugetVersion where
  "nuget_zero = nuget_build [] []"

definition nuget_unbounded :: nugetInterval where
  "nuget_unbounded =
    \<lparr>iv_hasLo = False, iv_loIncl = False, iv_lo = nuget_zero,
     iv_hasHi = False, iv_hiIncl = False, iv_hi = nuget_zero\<rparr>"

definition iv_contains :: "nugetInterval \<Rightarrow> nugetVersion \<Rightarrow> bool" where
  "iv_contains iv v =
    (if iv_hasLo iv \<and> (compareNuGetVersion v (iv_lo iv) < 0 \<or>
          compareNuGetVersion v (iv_lo iv) = 0 \<and> \<not> iv_loIncl iv) then False
     else if iv_hasHi iv \<and> (compareNuGetVersion v (iv_hi iv) > 0 \<or>
          compareNuGetVersion v (iv_hi iv) = 0 \<and> \<not> iv_hiIncl iv) then False
     else True)"

text \<open>The two-endpoint branch of parseNuGetInterval, after the comma has been found.\<close>

definition set_lo :: "char \<Rightarrow> gostring \<Rightarrow> nugetInterval \<Rightarrow> nugetInterval option" where
  "set_lo opn loStr iv =
    (if loStr = [] then Some iv
     else case parseNuGetVersion loStr of
       None \<Rightarrow> None
     | Some lo \<Rightarrow> Some (iv\<lparr>iv_hasLo := True, iv_loIncl := (opn = CHR ''[''), iv_lo := lo\<rparr>))"

definition set_hi :: "char \<Rightarrow> gostring \<Rightarrow> nugetInterval \<Rightarrow> nugetInterval option" where
  "set_hi cls hiStr iv =
    (if hiStr = [] then Some iv
     else case parseNuGetVersion hiStr of
       None \<Rightarrow> None
     | Some hi \<Rightarrow> Some (iv\<lparr>iv_hasHi := True, iv_hiIncl := (cls = CHR '']''), iv_hi := hi\<rparr>))"

definition nuget_endpoints :: "char \<Rightarrow> char \<Rightarrow> gostring \<Rightarrow> gostring \<Rightarrow> nugetInterval option" where
  "nuget_endpoints opn cls loStr hiStr =
    (if loStr = [] \<and> hiStr = [] then None
     else case set_lo opn loStr nuget_unbounded of
       None \<Rightarrow> None
     | Some iv1 \<Rightarrow>
         (case set_hi cls hiStr iv1 of
            None \<Rightarrow> None
          | Some iv \<Rightarrow>
              if iv_hasLo iv \<and> iv_hasHi iv then
                (let c = compareNuGetVersion (iv_lo iv) (iv_hi iv) in
                 if c > 0 then None
                 else if c = 0 \<and> \<not> (iv_loIncl iv \<and> iv_hiIncl iv) then None
                 else Some iv)
              else Some iv))"

definition parseNuGetInterval :: "gostring \<Rightarrow> nugetInterval option" where
  "parseNuGetInterval expr =
    (case expr of
       [] \<Rightarrow> None
     | opn # rest \<Rightarrow>
         if opn \<noteq> CHR ''['' \<and> opn \<noteq> CHR ''('' then
           (case parseNuGetVersion expr of
              None \<Rightarrow> None
            | Some v \<Rightarrow> Some (nuget_unbounded\<lparr>iv_hasLo := True, iv_loIncl := True, iv_lo := v\<rparr>))
         else
           (let cls = last expr in
            if cls \<noteq> CHR '']'' \<and> cls \<noteq> CHR '')'' then None
            else
              (let inner = butlast rest in
               case go_cut inner '','' of
                 None \<Rightarrow>
                   if opn \<noteq> CHR ''['' \<or> cls \<noteq> CHR '']'' then None
                   else (case parseNuGetVersion (trim_space inner) of
                           None \<Rightarrow> None
                         | Some v \<Rightarrow> Some \<lparr>iv_hasLo = True, iv_loIncl = True, iv_lo = v,
                                           iv_hasHi = True, iv_hiIncl = True, iv_hi = v\<rparr>)
               | Some (loStr, hiStr) \<Rightarrow>
                   if go_contains hiStr '','' then None
                   else nuget_endpoints opn cls (trim_space loStr) (trim_space hiStr))))"

definition nugetVersionInRange :: "gostring \<Rightarrow> gostring \<Rightarrow> bool option" where
  "nugetVersionInRange ver rangeExpr =
    (if isNuGetFloating ver \<or> isNuGetFloating rangeExpr then None
     else if \<not> nugetAllowedChars rangeExpr then None
     else case parseNuGetVersion ver of
       None \<Rightarrow> None
     | Some v \<Rightarrow>
         (case parseNuGetInterval (trim_space rangeExpr) of
            None \<Rightarrow> None
          | Some iv \<Rightarrow> Some (iv_contains iv v)))"

section \<open>The order\<close>

definition nuget_key where
  "nuget_key v = (ng_major v, ng_minor v, ng_patch v, ng_revision v,
     ng_prerelease v = [], map npm_id_key (ng_prerelease v))"

interpretation nuget_order: keyed compareNuGetVersion nuget_key
  by unfold_locales
    (simp add: compareNuGetVersion_def nuget_key_def cmpInt_ord comparePrerelease_ord cmp_ord_pair)

text \<open>The entry points refuse a floating token before they parse.\<close>

definition nuget_plain :: "gostring \<Rightarrow> nugetVersion option" where
  "nuget_plain s = (if isNuGetFloating s then None else parseNuGetVersion s)"

interpretation nuget: version_scheme compareNuGetVersion nuget_plain nugetVersionOutsideRange
  by unfold_locales
    (auto simp: nugetVersionOutsideRange_def nuget_plain_def split: option.splits)

section \<open>What the bracket forms mean\<close>

lemma nuget_le_iff: "0 \<le> compareNuGetVersion a b \<longleftrightarrow> nuget_key b \<le> nuget_key a"
  and nuget_less_iff: "compareNuGetVersion a b < 0 \<longleftrightarrow> nuget_key a < nuget_key b"
  by (simp_all add: nuget_order.cmp_key)

lemma nuget_parse_trim: "parseNuGetVersion (trim_space s) = parseNuGetVersion s"
  by (simp add: parseNuGetVersion_def Let_def)

lemma nuget_parse_ne: "parseNuGetVersion s = Some v \<Longrightarrow> trim_space s \<noteq> []"
  by (auto simp: parseNuGetVersion_def Let_def)

lemma go_cut_comma: "CHR '','' \<notin> set s \<Longrightarrow> go_cut (s @ '','' @ t) '','' = Some (s, t)"
  by (induction s) (auto simp: has_prefix_def)

lemma go_cut_none: "CHR '','' \<notin> set s \<Longrightarrow> go_cut s '','' = None"
  by (induction s) (auto simp: has_prefix_def)

definition endpoint :: "gostring \<Rightarrow> bool" where
  "endpoint s = (nugetAllowedChars s \<and> \<not> isNuGetFloating s \<and> CHR '','' \<notin> set s)"

lemma parse_bracketed:
  assumes "opn \<in> {CHR ''['', CHR ''(''}" "cls \<in> {CHR '']'', CHR '')''}"
    and "CHR '','' \<notin> set lo" "CHR '','' \<notin> set hi"
  shows "parseNuGetInterval (trim_space (opn # (lo @ '','' @ hi) @ [cls])) =
    nuget_endpoints opn cls (trim_space lo) (trim_space hi)"
proof -
  have t: "trim_space (opn # (lo @ '','' @ hi) @ [cls]) = opn # (lo @ '','' @ hi) @ [cls]"
    by (rule trim_space_plain) (use assms in \<open>auto simp: plain_char_def ascii_space_def\<close>)
  have b: "butlast ((lo @ '','' @ hi) @ [cls]) = lo @ '','' @ hi" by (rule butlast_snoc)
  have l: "last (opn # (lo @ '','' @ hi) @ [cls]) = cls" by simp
  show ?thesis
    unfolding t parseNuGetInterval_def Let_def l list.case b go_cut_comma [OF assms(3)]
    using assms by (auto simp: go_contains_def go_cut_none)
qed

text \<open>the half-open and closed intervals. With both endpoints in the grammar and in
  order, a bracketed pair matches exactly the versions between them, an endpoint counting only
  under a square bracket.\<close>
theorem nuget_interval:
  assumes "opn \<in> {CHR ''['', CHR ''(''}" "cls \<in> {CHR '']'', CHR '')''}"
    and "endpoint lo" "endpoint hi"
    and "parseNuGetVersion lo = Some a" "parseNuGetVersion hi = Some b" "compareNuGetVersion a b < 0"
    and "nuget_plain ver = Some v"
  shows "nugetVersionInRange ver (opn # (lo @ '','' @ hi) @ [cls]) = Some
    ((if opn = CHR ''['' then compareNuGetVersion v a \<ge> 0 else compareNuGetVersion v a > 0) \<and>
     (if cls = CHR '']'' then compareNuGetVersion v b \<le> 0 else compareNuGetVersion v b < 0))"
proof -
  let ?r = "opn # (lo @ '','' @ hi) @ [cls]"
  have ok: "\<not> isNuGetFloating ver" "parseNuGetVersion ver = Some v"
    using assms(8) by (auto simp: nuget_plain_def split: if_splits)
  have r: "\<not> isNuGetFloating ?r" "nugetAllowedChars ?r"
    using assms(1-4) by (auto simp: isNuGetFloating_def nugetAllowedChars_def endpoint_def nuget_allowed_char_def)
  have ne: "trim_space lo \<noteq> []" "trim_space hi \<noteq> []"
    using nuget_parse_ne assms(5,6) by auto
  have "parseNuGetInterval (trim_space ?r) = nuget_endpoints opn cls (trim_space lo) (trim_space hi)"
    by (rule parse_bracketed) (use assms in \<open>auto simp: endpoint_def\<close>)
  also have "\<dots> = Some \<lparr>iv_hasLo = True, iv_loIncl = (opn = CHR ''[''), iv_lo = a,
      iv_hasHi = True, iv_hiIncl = (cls = CHR '']''), iv_hi = b\<rparr>"
    using ne assms(5-7)
    by (simp add: nuget_endpoints_def set_lo_def set_hi_def nuget_parse_trim nuget_unbounded_def)
  finally have p: "parseNuGetInterval (trim_space ?r) = \<dots>" .
  show ?thesis
    unfolding nugetVersionInRange_def p using r ok by (auto simp: iv_contains_def)
qed

theorem nuget_interval_witness:
  "nugetVersionInRange ''1.5.0'' ''[1.0.0,2.0.0)'' = Some True \<and>
   nugetVersionInRange ''2.0.0'' ''[1.0.0,2.0.0)'' = Some False"
proof -
  have e: "endpoint ''1.0.0'' \<and> endpoint ''2.0.0''" by code_simp
  have c: "compareNuGetVersion (the (parseNuGetVersion ''1.0.0'')) (the (parseNuGetVersion ''2.0.0'')) < 0"
    by code_simp
  have p: "parseNuGetVersion ''1.0.0'' = Some (the (parseNuGetVersion ''1.0.0'')) \<and>
      parseNuGetVersion ''2.0.0'' = Some (the (parseNuGetVersion ''2.0.0''))" by code_simp
  have v: "nuget_plain ''1.5.0'' = Some (the (nuget_plain ''1.5.0'')) \<and>
      nuget_plain ''2.0.0'' = Some (the (nuget_plain ''2.0.0''))" by code_simp
  have d: "compareNuGetVersion (the (nuget_plain ''1.5.0'')) (the (parseNuGetVersion ''1.0.0'')) \<ge> 0 \<and>
      compareNuGetVersion (the (nuget_plain ''1.5.0'')) (the (parseNuGetVersion ''2.0.0'')) < 0 \<and>
      \<not> compareNuGetVersion (the (nuget_plain ''2.0.0'')) (the (parseNuGetVersion ''2.0.0'')) < 0" by code_simp
  note t = nuget_interval [of "CHR ''[''" "CHR '')''" "''1.0.0''" "''2.0.0''", OF _ _ _ _ conjunct1 [OF p] conjunct2 [OF p] c]
  show ?thesis using t [OF _ _ _ _ conjunct1 [OF v]] t [OF _ _ _ _ conjunct2 [OF v]] e d by simp
qed

lemma atoi_bracket: "c \<in> {CHR ''['', CHR ''(''} \<Longrightarrow> atoiNonNeg (c # p) = None"
  by (auto simp: atoiNonNeg_def atoi_def Let_def has_prefix_def all_digits_def is_digit_def in_range_def
      less_eq_char_def split: option.splits if_splits)

lemma nuget_parse_first:
  assumes "parseNuGetVersion x = Some b" "trim_space x = c # r"
  shows "c \<notin> {CHR ''['', CHR ''(''}"
proof
  assume c: "c \<in> {CHR ''['', CHR ''(''}"
  have neq: "c \<noteq> CHR ''+''" "c \<noteq> CHR ''-''" "c \<noteq> CHR ''.''" using c by auto
  obtain t where t: "(case index_byte (c # r) CHR ''+'' of None \<Rightarrow> c # r | Some i \<Rightarrow> take i (c # r)) = c # t"
    using neq(1) by (cases "index_byte (c # r) CHR ''+''") (auto dest: take_index_byte_first)
  have "\<exists>core seg. nuget_segments (go_split (c # core) ''.'') = Some seg"
    using assms t neq(2)
    by (cases "index_byte (c # t) CHR ''-''")
      (auto simp: parseNuGetVersion_def Let_def split: if_splits option.splits,
        blast+)
  then obtain core where core: "nuget_segments (go_split (c # core) ''.'') \<noteq> None" by auto
  obtain p ps where "go_split (c # core) ''.'' = (c # p) # ps" using go_split_first [OF neq(3)] by blast
  then show False using core atoi_bracket [OF c] by simp
qed

text \<open>a bare version is a minimum, not an exact match: as a range it accepts exactly what
  the upper-bound check calls outside.\<close>
theorem nuget_bare_minimum:
  assumes "parseNuGetVersion x = Some b" and "nugetAllowedChars x"
  shows "nugetVersionInRange ver x = nugetVersionOutsideRange ver x"
proof -
  obtain c r where cr: "trim_space x = c # r"
    using nuget_parse_ne [OF assms(1)] by (cases "trim_space x") auto
  have "c \<notin> {CHR ''['', CHR ''(''}" by (rule nuget_parse_first [OF assms(1) cr])
  then have "parseNuGetInterval (trim_space x) =
      Some (nuget_unbounded\<lparr>iv_hasLo := True, iv_loIncl := True, iv_lo := b\<rparr>)"
    using nuget_parse_trim [of x] assms(1) cr by (simp add: parseNuGetInterval_def)
  then show ?thesis
    using assms
    by (auto simp: nugetVersionInRange_def nugetVersionOutsideRange_def iv_contains_def nuget_unbounded_def
        split: option.splits)
qed

theorem nuget_bare_minimum_witness:
  "nugetVersionInRange ''1.2.0'' ''1.0.0'' = nugetVersionOutsideRange ''1.2.0'' ''1.0.0'' \<and>
   nugetVersionOutsideRange ''1.2.0'' ''1.0.0'' = Some True"
proof -
  have "parseNuGetVersion ''1.0.0'' = Some (the (parseNuGetVersion ''1.0.0'')) \<and> nugetAllowedChars ''1.0.0''"
    by code_simp
  then have "nugetVersionInRange ''1.2.0'' ''1.0.0'' = nugetVersionOutsideRange ''1.2.0'' ''1.0.0''"
    using nuget_bare_minimum by blast
  moreover have "nugetVersionOutsideRange ''1.2.0'' ''1.0.0'' = Some True" by code_simp
  ultimately show ?thesis by simp
qed

end
