(* ===== verification/Maven_Version.thy ===== *)
theory Maven_Version
  imports Assay_Prelude
begin

text \<open>
  Maven versions: src/pipeline/maven_version.go. The tokenizer keeps the open lists innermost
  first (the source's \<open>cur\<close> is their head, its \<open>stack\<close> is the whole list): a new sub-list
  is always the last element of its parent, and the parent gets nothing after it, so closing
  the lists from the deepest up appends each one, trimmed, to the next. \<open>buf\<close> is
  version[startIndex:i]. A missing item (nil) is None. The comparison is antisymmetric
  (interpretation \<open>maven\<close> of the bound check) and not transitive.
\<close>

datatype item = IntItem int | StrItem gostring | ListItem "item list"

definition mavenGrammarOK :: "gostring \<Rightarrow> bool" where
  "mavenGrammarOK v =
    (v \<noteq> [] \<and> list_all (\<lambda>c. is_digit c \<or> in_range CHR ''a'' CHR ''z'' c \<or> in_range CHR ''A'' CHR ''Z'' c \<or>
        c = CHR ''.'' \<or> c = CHR ''-'' \<or> c = CHR ''_'' \<or> c = CHR ''+'') v)"

definition normalizeQualifier :: "gostring \<Rightarrow> gostring" where
  "normalizeQualifier q =
    (if q = ''ga'' \<or> q = ''final'' \<or> q = ''release'' then [] else if q = ''cr'' then ''rc'' else q)"

definition intItem :: "gostring \<Rightarrow> item" where
  "intItem s = IntItem (dec_val s)"

definition parseItem :: "bool \<Rightarrow> gostring \<Rightarrow> item" where
  "parseItem isDigit buf = (if isDigit then intItem buf else StrItem (normalizeQualifier buf))"

section \<open>Qualifiers\<close>

definition expandShortAlias :: "gostring \<Rightarrow> gostring" where
  "expandShortAlias q =
    (if q = ''a'' then ''alpha'' else if q = ''b'' then ''beta'' else if q = ''m'' then ''milestone'' else q)"

definition knownQualifiers :: "gostring list" where
  "knownQualifiers = [''alpha'', ''beta'', ''milestone'', ''rc'', ''snapshot'', [], ''sp'']"

fun index_or :: "gostring list \<Rightarrow> gostring \<Rightarrow> nat" where
  "index_or [] q = 0"
| "index_or (k # ks) q = (if q = k then 0 else Suc (index_or ks q))"

definition qualifierOrder :: "gostring \<Rightarrow> nat" where
  "qualifierOrder q = index_or knownQualifiers (expandShortAlias q)"

definition compareQualifier :: "gostring \<Rightarrow> gostring \<Rightarrow> int" where
  "compareQualifier a b =
    (let oa = qualifierOrder a; ob = qualifierOrder b in
     if oa \<noteq> ob then (if oa < ob then -1 else 1)
     else if oa = length knownQualifiers then (if a < b then -1 else if a > b then 1 else 0)
     else 0)"

section \<open>Parsing\<close>

fun isNull :: "item \<Rightarrow> bool" where
  "isNull (IntItem n) = (n = 0)"
| "isNull (StrItem s) = (qualifierOrder s = 5)"
| "isNull (ListItem l) = (l = [])"

definition normalizeList :: "item list \<Rightarrow> item list" where
  "normalizeList l = rev (dropWhile isNull (rev l))"

text \<open>The open lists, innermost first, each in the order of its items; whether the current
  token is numeric; the current token.\<close>

type_synonym maven_state = "item list list \<times> bool \<times> gostring"

fun append_cur :: "item \<Rightarrow> item list list \<Rightarrow> item list list" where
  "append_cur x (cur # outer) = (cur @ [x]) # outer"
| "append_cur x [] = [[x]]"

definition maven_token :: "bool \<Rightarrow> gostring \<Rightarrow> item" where
  "maven_token isDigit buf = (if buf = [] then intItem ''0'' else parseItem isDigit buf)"

fun maven_step :: "maven_state \<Rightarrow> char \<Rightarrow> maven_state" where
  "maven_step (lvls, isDigit, buf) c =
    (if c = CHR ''.'' then (append_cur (maven_token isDigit buf) lvls, isDigit, [])
     else if c = CHR ''-'' \<or> c = CHR ''_'' \<or> c = CHR ''+'' then
       (let lists1 = append_cur (maven_token isDigit buf) lvls
        in (if isDigit then [] # lists1 else lists1, isDigit, []))
     else if is_digit c then
       (if \<not> isDigit \<and> buf \<noteq> []
        then ([] # append_cur (StrItem (normalizeQualifier buf)) lvls, True, [c])
        else (lvls, True, buf @ [c]))
     else
       (if isDigit \<and> buf \<noteq> []
        then ([] # append_cur (parseItem True buf) lvls, False, [c])
        else (lvls, False, buf @ [c])))"

fun close_lists :: "item list list \<Rightarrow> item list" where
  "close_lists [] = []"
| "close_lists [l] = normalizeList l"
| "close_lists (l # p # ls) = close_lists ((p @ [ListItem (normalizeList l)]) # ls)"

definition parseMaven :: "gostring \<Rightarrow> item" where
  "parseMaven version =
    (let (lvls, isDigit, buf) = foldl maven_step ([[]], False, []) (to_lower version)
     in ListItem (close_lists (if buf = [] then lvls else append_cur (parseItem isDigit buf) lvls)))"

section \<open>Comparison\<close>

function compareItem :: "item \<Rightarrow> item option \<Rightarrow> int"
  and compare_lists :: "item list \<Rightarrow> item list \<Rightarrow> int" where
  "compareItem (IntItem n) None = (if n = 0 then 0 else 1)"
| "compareItem (IntItem n) (Some (IntItem m)) = cmp_ord n m"
| "compareItem (IntItem n) (Some (StrItem s)) = 1"
| "compareItem (IntItem n) (Some (ListItem l)) = 1"
| "compareItem (StrItem s) None = compareQualifier s []"
| "compareItem (StrItem s) (Some (IntItem m)) = -1"
| "compareItem (StrItem s) (Some (StrItem t)) = compareQualifier s t"
| "compareItem (StrItem s) (Some (ListItem l)) = -1"
| "compareItem (ListItem l) None = (case l of [] \<Rightarrow> 0 | x # xs \<Rightarrow> compareItem x None)"
| "compareItem (ListItem l) (Some (IntItem m)) = -1"
| "compareItem (ListItem l) (Some (StrItem t)) = 1"
| "compareItem (ListItem l) (Some (ListItem m)) = compare_lists l m"
| "compare_lists [] [] = 0"
| "compare_lists [] (y # ys) = cmp_then (- compareItem y None) (compare_lists [] ys)"
| "compare_lists (x # xs) [] = cmp_then (compareItem x None) (compare_lists xs [])"
| "compare_lists (x # xs) (y # ys) = cmp_then (compareItem x (Some y)) (compare_lists xs ys)"
  by pat_completeness auto
termination
  by (relation "measure (\<lambda>t. case t of
      Inl (a, b) \<Rightarrow> size a + (case b of None \<Rightarrow> 0 | Some y \<Rightarrow> size y)
    | Inr (xs, ys) \<Rightarrow> size_list size xs + size_list size ys)") auto

definition compareMaven :: "gostring \<Rightarrow> gostring \<Rightarrow> int option" where
  "compareMaven a b =
    (if \<not> mavenGrammarOK a \<or> \<not> mavenGrammarOK b then None
     else Some (compareItem (parseMaven a) (Some (parseMaven b))))"

definition mavenVersionOutsideRange :: "gostring \<Rightarrow> gostring \<Rightarrow> bool option" where
  "mavenVersionOutsideRange ver upper =
    (case compareMaven ver upper of None \<Rightarrow> None | Some c \<Rightarrow> Some (c \<ge> 0))"

section \<open>Antisymmetry\<close>

lemma compareQualifier_ord:
  "compareQualifier a b = cmp_ord (qualifierOrder a, if qualifierOrder a = 7 then a else [])
     (qualifierOrder b, if qualifierOrder b = 7 then b else [])"
  by (simp add: compareQualifier_def Let_def cmp_ord_pair cmp_then_def cmp_ord_def knownQualifiers_def)

lemma cmp_then_minus: "- cmp_then c d = cmp_then (- c) (- d)"
  by (simp add: cmp_then_def)

lemma compareQualifier_flip: "compareQualifier b a = - compareQualifier a b"
  unfolding compareQualifier_ord by (rule cmp_ord_minus)

lemma compareItem_flip_gen:
  "(case b of None \<Rightarrow> True | Some y \<Rightarrow> compareItem y (Some a) = - compareItem a b)"
  "compare_lists ys xs = - compare_lists xs ys"
proof (induction a b and xs ys rule: compareItem_compare_lists.induct)
  case (2 n m)
  then show ?case by simp (rule cmp_ord_minus)
next
  case (7 s t)
  then show ?case by simp (rule compareQualifier_flip)
qed (simp_all add: cmp_then_minus)

lemma compareItem_flip: "compareItem y (Some x) = - compareItem x (Some y)"
  using compareItem_flip_gen(1) [where b = "Some y" and a = x] by simp

lemma compareItem_range:
  "compareItem a b \<in> {-1, 0, 1}"
  "compare_lists xs ys \<in> {-1, 0, 1}"
  by (induction a b and xs ys rule: compareItem_compare_lists.induct)
    (auto simp: cmp_then_def cmp_ord_def compareQualifier_def Let_def split: list.splits)

lemma compare_lists_self: "(\<And>x. x \<in> set xs \<Longrightarrow> compareItem x (Some x) = 0) \<Longrightarrow> compare_lists xs xs = 0"
  by (induction xs) (auto simp: cmp_then_def)

lemma compareItem_self: "compareItem a (Some a) = 0"
  by (induction a) (auto simp: compareQualifier_ord compare_lists_self)

definition parse_maven :: "gostring \<Rightarrow> item option" where
  "parse_maven s = (if mavenGrammarOK s then Some (parseMaven s) else None)"

interpretation maven: bound_check "\<lambda>a b. compareItem a (Some b)" parse_maven mavenVersionOutsideRange
proof
  show "compareItem x (Some x) = 0" for x by (rule compareItem_self)
  show "compareItem y (Some x) = - compareItem x (Some y)" for x y
    by (rule compareItem_flip)
  show "compareItem x (Some y) \<in> {-1, 0, 1}" for x y by (rule compareItem_range)
  show "mavenVersionOutsideRange v u = (case parse_maven v of None \<Rightarrow> None | Some a \<Rightarrow>
     case parse_maven u of None \<Rightarrow> None | Some b \<Rightarrow> Some (0 \<le> compareItem a (Some b)))" for v u
    by (simp add: mavenVersionOutsideRange_def compareMaven_def parse_maven_def)
qed

section \<open>Trailing zeros and the open lists\<close>

lemma grammar_ascii: "mavenGrammarOK v \<Longrightarrow> list_all (\<lambda>c. of_char c < (128 :: nat)) v"
  by (auto simp: mavenGrammarOK_def list_all_iff is_digit_def in_range_def less_eq_char_def)

lemma normalizeList_null: "isNull x \<Longrightarrow> normalizeList (l @ [x]) = normalizeList l"
  by (simp add: normalizeList_def)

lemma close_lists_null: "isNull x \<Longrightarrow> close_lists ((l @ [x]) # ls) = close_lists (l # ls)"
  by (cases ls) (simp_all add: normalizeList_null)

lemma append_cur_null:
  "isNull x \<Longrightarrow> close_lists (append_cur x (append_cur y ls)) = close_lists (append_cur y ls)"
  using close_lists_null [of x "[y]" "[]"] close_lists_null [of x "hd ls @ [y]" "tl ls"]
  by (cases ls) simp_all

definition maven_sep :: "char \<Rightarrow> bool" where
  "maven_sep c = (c \<in> {CHR ''.'', CHR ''-'', CHR ''_'', CHR ''+''})"

lemma maven_step_buf: "\<not> maven_sep c \<Longrightarrow> maven_step st c = (ls, d, b) \<Longrightarrow> b \<noteq> []"
  by (cases st) (auto simp: maven_sep_def split: if_splits)

lemma maven_sep_code: "maven_sep c \<Longrightarrow> of_char c \<in> {43 :: nat, 45, 46, 95}"
  by (auto simp: maven_sep_def)

lemma lower_sep: "maven_sep (lower_byte c) = maven_sep c"
proof (cases "in_range CHR ''A'' CHR ''Z'' c")
  case True
  then have r: "65 \<le> (of_char c :: nat)" "(of_char c :: nat) \<le> 90"
    by (auto simp: in_range_def less_eq_char_def)
  then have "(of_char (lower_byte c) :: nat) = of_char c + 32"
    using True by (simp add: lower_byte_def of_char_of)
  then show ?thesis using r maven_sep_code [of c] maven_sep_code [of "lower_byte c"] by auto
next
  case False
  then show ?thesis by (simp add: lower_byte_def)
qed

lemma maven_trailing_zero_parse:
  assumes "mavenGrammarOK v" "\<not> maven_sep (last v)"
  shows "parseMaven (v @ ''.0'') = parseMaven v"
proof -
  obtain w c where v: "v = w @ [c]" using assms(1) by (cases v rule: rev_cases) (auto simp: mavenGrammarOK_def)
  have a: "list_all (\<lambda>c. of_char c < (128 :: nat)) v" by (rule grammar_ascii [OF assms(1)])
  then have lv: "to_lower v = map lower_byte w @ [lower_byte c]" by (simp add: to_lower_ascii v)
  have lz: "to_lower (v @ ''.0'') = map lower_byte w @ [lower_byte c, CHR ''.'', CHR ''0'']"
    using a by (simp add: to_lower_ascii v lower_byte_def in_range_def less_eq_char_def)
  obtain ls d b where st: "foldl maven_step ([[]], False, []) (map lower_byte w @ [lower_byte c]) = (ls, d, b)"
    by (metis prod_cases3)
  have b: "b \<noteq> []"
    using maven_step_buf [of "lower_byte c"] st assms(2) by (simp add: lower_sep v)
  have z: "is_digit CHR ''0''" by (simp add: is_digit_def in_range_def)
  have "isNull (parseItem True ''0'')"
    by (simp add: parseItem_def intItem_def dec_val_def digit_val_def)
  then show ?thesis
    using st b z
    by (simp add: parseMaven_def lv lz maven_token_def append_cur_null)
qed

text \<open>a trailing ".0" is insignificant. For a version in the grammar that does not end in a
  separator, appending ".0" changes no comparison, on either side.\<close>
theorem maven_trailing_zero:
  assumes "mavenGrammarOK v" and "\<not> maven_sep (last v)"
  shows "compareMaven (v @ ''.0'') u = compareMaven v u \<and> compareMaven u (v @ ''.0'') = compareMaven u v"
proof -
  have "mavenGrammarOK (v @ ''.0'')"
    using assms(1) by (simp add: mavenGrammarOK_def is_digit_def in_range_def less_eq_char_def)
  then show ?thesis using assms maven_trailing_zero_parse [OF assms] by (simp add: compareMaven_def)
qed

theorem maven_trailing_zero_witness:
  "compareMaven (''1.0-rc1'' @ ''.0'') ''1.0-rc1'' = Some 0"
proof -
  have "mavenGrammarOK ''1.0-rc1''" "\<not> maven_sep (last ''1.0-rc1'')" by code_simp+
  then show ?thesis using maven_trailing_zero [of "''1.0-rc1''" "''1.0-rc1''"]
    by (simp add: compareMaven_def compareItem_self)
qed

text \<open>the comparison is not an order. A sub-list compared with nothing is judged by its
  first item alone, so 1 equals both 1-0.1 and 1-0.2, which differ; as a bound check, 1 counts as
  past the upper bound 1-0.1.\<close>
theorem maven_first_item_only:
  "compareItem (ListItem (IntItem 0 # rest)) None = 0 \<and>
   compareMaven ''1-0.2'' ''1'' = Some 0 \<and> compareMaven ''1'' ''1-0.1'' = Some 0 \<and>
   compareMaven ''1-0.2'' ''1-0.1'' = Some 1 \<and>
   mavenVersionOutsideRange ''1'' ''1-0.1'' = Some True"
proof -
  have "compareMaven ''1-0.2'' ''1'' = Some 0" by code_simp
  moreover have "compareMaven ''1'' ''1-0.1'' = Some 0" by code_simp
  moreover have "compareMaven ''1-0.2'' ''1-0.1'' = Some 1" by code_simp
  moreover have "mavenVersionOutsideRange ''1'' ''1-0.1'' = Some True" by code_simp
  ultimately show ?thesis by simp
qed

end
