(* ===== verification/Pep440.thy ===== *)
theory Pep440
  imports Npm_Version
begin

text \<open>
  PEP 440 versions: src/internal/pep440/pep440.go and its forwarders in
  src/pipeline/pypi_version.go. The grammar pep440Re is the value \<open>pep440Re\<close> of a small
  type of regular expressions; \<open>rx_match\<close> lists the matches in the order of preference of Go's
  engine (leftmost alternative first, greedy repetition), so the submatches of the first one
  that ends the text are FindStringSubmatch's. Case folding adds U+017F (for s) and U+212A (for k) as
  byte sequences. Release components are naturals: they only come from runs of digits. Lemmas: the
  order has a key (interpretation \<open>pep440_order\<close>), trailing zeros of a release do not
  count, and the compatible-release operator is a prefix match above a floor.
\<close>

section \<open>Regular expressions\<close>

datatype rx = Eps | Cls "char list" | Seq rx rx | Alt rx rx | Opt rx | Star rx | Cap gostring rx

type_synonym captures = "(gostring \<times> gostring) list"

function rx_match :: "rx \<Rightarrow> gostring \<Rightarrow> (captures \<times> gostring) list" where
  "rx_match Eps s = [([], s)]"
| "rx_match (Cls cs) s = (case s of [] \<Rightarrow> [] | c # r \<Rightarrow> if c \<in> set cs then [([], r)] else [])"
| "rx_match (Seq p q) s =
    concat (map (\<lambda>(c1, r1). map (\<lambda>(c2, r2). (c2 @ c1, r2)) (rx_match q r1)) (rx_match p s))"
| "rx_match (Alt p q) s = rx_match p s @ rx_match q s"
| "rx_match (Opt p) s = rx_match p s @ [([], s)]"
| "rx_match (Star p) s =
    concat (map (\<lambda>(c1, r1).
        if length r1 < length s then map (\<lambda>(c2, r2). (c2 @ c1, r2)) (rx_match (Star p) r1) else [])
      (rx_match p s)) @ [([], s)]"
| "rx_match (Cap n p) s =
    map (\<lambda>(c, r). ((n, take (length s - length r) s) # c, r)) (rx_match p s)"
  by pat_completeness auto
termination by (relation "(\<lambda>(p, s). size p) <*mlex*> measure (\<lambda>(p, s). length s)") 
  (auto simp: wf_mlex mlex_less mlex_leq)

fun seqs :: "rx list \<Rightarrow> rx" where
  "seqs [] = Eps"
| "seqs [p] = p"
| "seqs (p # q # r) = Seq p (seqs (q # r))"

fun alts :: "rx list \<Rightarrow> rx" where
  "alts [] = Cls []"
| "alts [p] = p"
| "alts (p # q # r) = Alt p (alts (q # r))"

definition one_or_more :: "rx \<Rightarrow> rx" where
  "one_or_more p = Seq p (Star p)"

definition upper_byte :: "char \<Rightarrow> char" where
  "upper_byte c = (if in_range CHR ''a'' CHR ''z'' c then char_of (of_char c - 32 :: nat) else c)"

definition byte :: "char \<Rightarrow> rx" where
  "byte c = Cls [c]"

definition fold_letter :: "char \<Rightarrow> rx" where
  "fold_letter c =
    (if c = CHR ''s'' then alts [Cls [c, upper_byte c], Seq (byte CHR 0xC5) (byte CHR 0xBF)]
     else if c = CHR ''k'' then
       alts [Cls [c, upper_byte c], Seq (byte CHR 0xE2) (Seq (byte CHR 0x84) (byte CHR 0xAA))]
     else Cls [c, upper_byte c])"

definition word :: "gostring \<Rightarrow> rx" where
  "word s = seqs (map fold_letter s)"

definition digits :: rx where
  "digits = one_or_more (Cls ''0123456789'')"

definition sep :: rx where
  "sep = Cls ''-_.''"

definition space :: rx where
  "space = Star (Cls [CHR 0x09, CHR 0x0A, CHR 0x0C, CHR 0x0D, CHR 0x20])"

definition alnum :: rx where
  "alnum = alts [Cls ''0123456789abcdefghijklmnopqrstuvwxyzABCDEFGHIJKLMNOPQRSTUVWXYZ'',
     Seq (byte CHR 0xC5) (byte CHR 0xBF),
     Seq (byte CHR 0xE2) (Seq (byte CHR 0x84) (byte CHR 0xAA))]"

definition pep440Re :: rx where
  "pep440Re = seqs
    [space, Opt (word ''v''),
     Opt (Seq (Cap ''epoch'' digits) (byte CHR ''!'')),
     Cap ''release'' (Seq digits (Star (Seq (byte CHR ''.'') digits))),
     Opt (Cap ''pre'' (seqs
       [Opt sep,
        Cap ''pre_l'' (alts (map word [''a'', ''b'', ''c'', ''rc'', ''alpha'', ''beta'', ''pre'', ''preview''])),
        Opt sep, Opt (Cap ''pre_n'' digits)])),
     Opt (Cap ''post'' (Alt
       (Seq (byte CHR ''-'') (Cap ''post_n1'' digits))
       (seqs [Opt sep, Cap ''post_l'' (alts (map word [''post'', ''rev'', ''r''])),
              Opt sep, Opt (Cap ''post_n2'' digits)]))),
     Opt (Cap ''dev'' (seqs [Opt sep, Cap ''dev_l'' (word ''dev''), Opt sep, Opt (Cap ''dev_n'' digits)])),
     Opt (Seq (byte CHR ''+'')
       (Cap ''local'' (Seq (one_or_more alnum) (Star (Seq sep (one_or_more alnum)))))),
     space]"

definition find_submatch :: "rx \<Rightarrow> gostring \<Rightarrow> captures option" where
  "find_submatch p s = map_option fst (find (\<lambda>(c, r). r = []) (rx_match p s))"

definition group :: "captures \<Rightarrow> gostring \<Rightarrow> gostring" where
  "group m name = (case map_of m name of None \<Rightarrow> [] | Some t \<Rightarrow> t)"

section \<open>Versions\<close>

record localSegment =
  ls_isNum :: bool
  ls_num :: int
  ls_str :: gostring

record pep_version =
  pv_epoch :: int
  pv_release :: "nat list"
  pv_hasPre :: bool
  pv_preKind :: gostring
  pv_preNum :: int
  pv_hasPost :: bool
  pv_postNum :: int
  pv_hasDev :: bool
  pv_devNum :: int
  pv_local :: "localSegment list"

definition normalizePreKind :: "gostring \<Rightarrow> gostring" where
  "normalizePreKind s =
    (let l = to_lower s in
     if l = ''a'' \<or> l = ''alpha'' then ''a''
     else if l = ''b'' \<or> l = ''beta'' then ''b''
     else if l = ''c'' \<or> l = ''rc'' \<or> l = ''pre'' \<or> l = ''preview'' then ''rc''
     else l)"

definition local_segment :: "gostring \<Rightarrow> localSegment" where
  "local_segment f =
    (case atoi f of
       Some n \<Rightarrow> if all_digits f then \<lparr>ls_isNum = True, ls_num = n, ls_str = []\<rparr>
                 else \<lparr>ls_isNum = False, ls_num = 0, ls_str = to_lower f\<rparr>
     | None \<Rightarrow> \<lparr>ls_isNum = False, ls_num = 0, ls_str = to_lower f\<rparr>)"

definition parseLocal :: "gostring \<Rightarrow> localSegment list" where
  "parseLocal s = map local_segment (fields_func s (\<lambda>c. c \<in> set ''.-_''))"

definition atoiOrZero :: "gostring \<Rightarrow> int" where
  "atoiOrZero s = (case atoi s of None \<Rightarrow> 0 | Some n \<Rightarrow> n)"

fun release_parts :: "gostring list \<Rightarrow> nat list option" where
  "release_parts [] = Some []"
| "release_parts (p # ps) =
    (case atoi p of
       None \<Rightarrow> None
     | Some n \<Rightarrow> map_option (\<lambda>ns. nat n # ns) (release_parts ps))"

definition pep_final :: "int \<Rightarrow> nat list \<Rightarrow> pep_version" where
  "pep_final e r =
    \<lparr>pv_epoch = e, pv_release = r, pv_hasPre = False, pv_preKind = [], pv_preNum = 0,
     pv_hasPost = False, pv_postNum = 0, pv_hasDev = False, pv_devNum = 0, pv_local = []\<rparr>"

definition pep_suffixes :: "captures \<Rightarrow> pep_version \<Rightarrow> pep_version" where
  "pep_suffixes m v0 =
    (let v1 = (if group m ''pre_l'' \<noteq> []
               then v0\<lparr>pv_hasPre := True, pv_preKind := normalizePreKind (group m ''pre_l''),
                       pv_preNum := atoiOrZero (group m ''pre_n'')\<rparr> else v0);
         v2 = (if group m ''post_n1'' \<noteq> []
               then v1\<lparr>pv_hasPost := True, pv_postNum := atoiOrZero (group m ''post_n1'')\<rparr>
               else if group m ''post_l'' \<noteq> []
               then v1\<lparr>pv_hasPost := True, pv_postNum := atoiOrZero (group m ''post_n2'')\<rparr> else v1);
         v3 = (if group m ''dev_l'' \<noteq> []
               then v2\<lparr>pv_hasDev := True, pv_devNum := atoiOrZero (group m ''dev_n'')\<rparr> else v2)
     in if group m ''local'' \<noteq> [] then v3\<lparr>pv_local := parseLocal (group m ''local'')\<rparr> else v3)"

definition pep_parse :: "gostring \<Rightarrow> pep_version option" where
  "pep_parse s =
    (case find_submatch pep440Re s of
       None \<Rightarrow> None
     | Some m \<Rightarrow>
         (case (if group m ''epoch'' \<noteq> [] then atoi (group m ''epoch'') else Some 0) of
            None \<Rightarrow> None
          | Some e \<Rightarrow>
              (case release_parts (go_split (group m ''release'') ''.'') of
                 None \<Rightarrow> None
               | Some r \<Rightarrow> if length r = 0 then None else Some (pep_suffixes m (pep_final e r)))))"

section \<open>Comparison\<close>

definition stripTrailingZeros :: "nat list \<Rightarrow> nat list" where
  "stripTrailingZeros r =
    (let t = rev (dropWhile (\<lambda>n. n = 0) (rev r)) in if t = [] then take 1 r else t)"

fun compare_padded :: "nat list \<Rightarrow> nat list \<Rightarrow> int" where
  "compare_padded [] [] = 0"
| "compare_padded [] (b # bs) = cmp_then (cmp_ord 0 b) (compare_padded [] bs)"
| "compare_padded (a # as) [] = cmp_then (cmp_ord a 0) (compare_padded as [])"
| "compare_padded (a # as) (b # bs) = cmp_then (cmp_ord a b) (compare_padded as bs)"

definition compareRelease :: "nat list \<Rightarrow> nat list \<Rightarrow> int" where
  "compareRelease a b = compare_padded (stripTrailingZeros a) (stripTrailingZeros b)"

definition preSortKey :: "pep_version \<Rightarrow> int \<times> gostring \<times> int" where
  "preSortKey v =
    (if \<not> pv_hasPre v \<and> \<not> pv_hasPost v \<and> pv_hasDev v then (-1, [], 0)
     else if \<not> pv_hasPre v then (1, [], 0)
     else (0, pv_preKind v, pv_preNum v))"

definition comparePre :: "pep_version \<Rightarrow> pep_version \<Rightarrow> int" where
  "comparePre a b =
    (let (ra, ka, na) = preSortKey a; (rb, kb, nb) = preSortKey b in
     if ra \<noteq> rb then cmpInt ra rb
     else if ra \<noteq> 0 then 0
     else cmp_then (strings_compare ka kb) (cmpInt na nb))"

definition comparePost :: "pep_version \<Rightarrow> pep_version \<Rightarrow> int" where
  "comparePost a b =
    (if pv_hasPost a \<noteq> pv_hasPost b then (if pv_hasPost a then 1 else -1)
     else if \<not> pv_hasPost a then 0
     else cmpInt (pv_postNum a) (pv_postNum b))"

definition compareDev :: "pep_version \<Rightarrow> pep_version \<Rightarrow> int" where
  "compareDev a b =
    (if pv_hasDev a \<noteq> pv_hasDev b then (if pv_hasDev a then -1 else 1)
     else if \<not> pv_hasDev a then 0
     else cmpInt (pv_devNum a) (pv_devNum b))"

definition compareLocalSegment :: "localSegment \<Rightarrow> localSegment \<Rightarrow> int" where
  "compareLocalSegment a b =
    (if ls_isNum a \<noteq> ls_isNum b then (if ls_isNum a then 1 else -1)
     else if ls_isNum a then cmpInt (ls_num a) (ls_num b)
     else strings_compare (ls_str a) (ls_str b))"

text \<open>The three length cases and the final length comparison of the source are those of
  \<open>cmp_list\<close>: an empty list is the least, and the longer of two lists that agree is the
  greater.\<close>

definition compareLocal :: "localSegment list \<Rightarrow> localSegment list \<Rightarrow> int" where
  "compareLocal a b = cmp_list compareLocalSegment a b"

definition pep_compare :: "pep_version \<Rightarrow> pep_version \<Rightarrow> int" where
  "pep_compare a b =
    cmp_then (cmpInt (pv_epoch a) (pv_epoch b))
     (cmp_then (compareRelease (pv_release a) (pv_release b))
       (cmp_then (comparePre a b)
         (cmp_then (comparePost a b)
           (cmp_then (compareDev a b) (compareLocal (pv_local a) (pv_local b))))))"

section \<open>Specifiers\<close>

definition prefixMatch :: "pep_version \<Rightarrow> pep_version \<Rightarrow> bool" where
  "prefixMatch v p =
    (pv_epoch v = pv_epoch p \<and>
     list_all (\<lambda>i. (if i < length (pv_release v) then pv_release v ! i else 0) = pv_release p ! i)
       [0..<length (pv_release p)])"

definition equalOrPrefix :: "pep_version \<Rightarrow> gostring \<Rightarrow> bool \<Rightarrow> bool option" where
  "equalOrPrefix v operand negate =
    (if has_suffix operand ''.*'' then
       (case pep_parse (trim_suffix operand ''.*'') of
          None \<Rightarrow> None
        | Some p \<Rightarrow> Some (if negate then \<not> prefixMatch v p else prefixMatch v p))
     else
       (case pep_parse operand of
          None \<Rightarrow> None
        | Some b \<Rightarrow> Some (if negate then pep_compare v b \<noteq> 0 else pep_compare v b = 0)))"

definition compatibleRelease :: "pep_version \<Rightarrow> gostring \<Rightarrow> bool option" where
  "compatibleRelease v operand =
    (case pep_parse operand of
       None \<Rightarrow> None
     | Some floor \<Rightarrow>
         if length (pv_release floor) < 2 then None
         else if pep_compare v floor < 0 then Some False
         else
           (let ceilRelease = butlast (pv_release floor);
                ceil = pep_final (pv_epoch floor)
                  (butlast ceilRelease @ [last ceilRelease + 1])
            in Some (pep_compare v ceil < 0)))"

definition operators :: "gostring list" where
  "operators = [''==='', ''=='', ''>='', ''<='', ''!='', ''~='', ''>'', ''<'']"

definition splitOperator :: "gostring \<Rightarrow> gostring \<times> gostring" where
  "splitOperator clause =
    (case find (has_prefix clause) operators of
       None \<Rightarrow> ([], [])
     | Some cand \<Rightarrow> (cand, trim_space (drop (length cand) clause)))"

definition Satisfies :: "pep_version \<Rightarrow> gostring \<Rightarrow> gostring \<Rightarrow> bool option" where
  "Satisfies v ver clause =
    (let (oper, operand) = splitOperator clause in
     if oper = [] then None
     else if oper = ''==='' then Some (trim_space ver = trim_space operand)
     else if oper = ''~='' then compatibleRelease v operand
     else if oper = ''=='' then equalOrPrefix v operand False
     else if oper = ''!='' then equalOrPrefix v operand True
     else
       (case pep_parse operand of
          None \<Rightarrow> None
        | Some b \<Rightarrow>
            (let cmp = pep_compare v b in
             Some (if oper = ''>='' then cmp \<ge> 0 else if oper = ''<='' then cmp \<le> 0
                   else if oper = ''>'' then cmp > 0 else cmp < 0))))"

section \<open>The pipeline's entry points\<close>

definition parsePEP440 :: "gostring \<Rightarrow> pep_version option" where
  "parsePEP440 s = pep_parse s"

definition comparePEP440 :: "pep_version \<Rightarrow> pep_version \<Rightarrow> int" where
  "comparePEP440 a b = pep_compare a b"

definition pypiVersionOutsideRange :: "gostring \<Rightarrow> gostring \<Rightarrow> bool option" where
  "pypiVersionOutsideRange ver upper =
    (case (parsePEP440 ver, parsePEP440 upper) of
       (Some a, Some b) \<Rightarrow> Some (comparePEP440 a b \<ge> 0)
     | _ \<Rightarrow> None)"

fun all_clauses :: "pep_version \<Rightarrow> gostring \<Rightarrow> gostring list \<Rightarrow> bool option" where
  "all_clauses v ver [] = Some True"
| "all_clauses v ver (clause0 # rest) =
    (let clause = trim_space clause0 in
     if clause = [] then all_clauses v ver rest
     else case Satisfies v ver clause of
       None \<Rightarrow> None
     | Some sat \<Rightarrow> if \<not> sat then Some False else all_clauses v ver rest)"

definition pypiVersionInRange :: "gostring \<Rightarrow> gostring \<Rightarrow> bool option" where
  "pypiVersionInRange ver spec =
    (case parsePEP440 ver of
       None \<Rightarrow> None
     | Some v \<Rightarrow> all_clauses v ver (go_split spec '',''))"

section \<open>The order\<close>

definition strip_all :: "nat list \<Rightarrow> nat list" where
  "strip_all r = rev (dropWhile (\<lambda>n. n = 0) (rev r))"

lemma strip_all_Nil [simp]: "strip_all [] = []"
  by (simp add: strip_all_def)

lemma strip_all_Cons: "strip_all (a # r) = (if strip_all r = [] \<and> a = 0 then [] else a # strip_all r)"
  by (auto simp: strip_all_def dropWhile_append)

lemma strip_all_snoc0: "strip_all (r @ [0]) = strip_all r"
  by (simp add: strip_all_def)

lemma strip_all_strip: "strip_all (stripTrailingZeros r) = strip_all r"
proof (cases "strip_all r = []")
  case True
  then have z: "\<forall>n\<in>set r. n = 0" by (simp add: strip_all_def dropWhile_eq_Nil_conv)
  have "strip_all (take 1 r) = []"
    using z by (cases r) (auto simp: strip_all_def)
  moreover have "stripTrailingZeros r = take 1 r"
    using True by (simp add: stripTrailingZeros_def Let_def strip_all_def)
  ultimately show ?thesis using True by simp
next
  case False
  then have e: "stripTrailingZeros r = strip_all r"
    by (auto simp: stripTrailingZeros_def Let_def strip_all_def dropWhile_eq_Nil_conv)
  have "dropWhile (\<lambda>n. n = 0) (dropWhile (\<lambda>n. n = 0) (rev r)) = dropWhile (\<lambda>n. n = 0) (rev r)"
    by (cases "dropWhile (\<lambda>n. n = 0) (rev r)") (auto simp: dropWhile_eq_Cons_conv)
  then show ?thesis by (simp add: e) (simp add: strip_all_def)
qed

lemma Nil_less_iff: "[] < (xs :: nat list) \<longleftrightarrow> xs \<noteq> []"
  by (cases xs) simp_all

lemma compare_padded_ord: "compare_padded a b = cmp_ord (strip_all a) (strip_all b)"
proof (induction a b rule: compare_padded.induct)
  case (4 a as b bs)
  then show ?case
    by (cases "strip_all as"; cases "strip_all bs")
      (auto simp: strip_all_Cons cmp_ord_Cons cmp_then_def cmp_ord_def Nil_less_iff split: if_splits)
qed (auto simp: strip_all_Cons cmp_ord_Cons cmp_then_def cmp_ord_def Nil_less_iff split: if_splits)

lemma compareRelease_ord: "compareRelease a b = cmp_ord (strip_all a) (strip_all b)"
  by (simp add: compareRelease_def compare_padded_ord strip_all_strip)

definition local_key :: "localSegment \<Rightarrow> bool \<times> int \<times> gostring" where
  "local_key s = (ls_isNum s, if ls_isNum s then ls_num s else 0, if ls_isNum s then [] else ls_str s)"

lemma compareLocalSegment_ord: "compareLocalSegment a b = cmp_ord (local_key a) (local_key b)"
  by (cases "ls_isNum a"; cases "ls_isNum b")
    (simp_all add: compareLocalSegment_def local_key_def cmpInt_ord strings_compare_def cmp_ord_pair
      cmp_then_def, simp_all add: cmp_ord_def)

lemma comparePre_ord: "comparePre a b = cmp_ord (preSortKey a) (preSortKey b)"
  by (auto simp: comparePre_def preSortKey_def cmpInt_ord strings_compare_def cmp_ord_pair cmp_then_def
      cmp_ord_def)

lemma comparePost_ord:
  "comparePost a b = cmp_ord (pv_hasPost a, if pv_hasPost a then pv_postNum a else 0)
     (pv_hasPost b, if pv_hasPost b then pv_postNum b else 0)"
  by (auto simp: comparePost_def cmpInt_ord cmp_ord_pair cmp_then_def cmp_ord_def)

lemma compareDev_ord:
  "compareDev a b = cmp_ord (\<not> pv_hasDev a, if pv_hasDev a then pv_devNum a else 0)
     (\<not> pv_hasDev b, if pv_hasDev b then pv_devNum b else 0)"
  by (auto simp: compareDev_def cmpInt_ord cmp_ord_pair cmp_then_def cmp_ord_def)

definition pep_key where
  "pep_key v = (pv_epoch v, strip_all (pv_release v), preSortKey v,
     (pv_hasPost v, if pv_hasPost v then pv_postNum v else 0),
     (\<not> pv_hasDev v, if pv_hasDev v then pv_devNum v else 0), map local_key (pv_local v))"

lemma compareLocal_ord: "compareLocal a b = cmp_ord (map local_key a) (map local_key b)"
  unfolding compareLocal_def by (rule cmp_list_ord) (rule compareLocalSegment_ord)

interpretation pep440_order: keyed pep_compare pep_key
  by unfold_locales
    (simp only: pep_compare_def pep_key_def cmpInt_ord compareRelease_ord comparePre_ord comparePost_ord
      compareDev_ord compareLocal_ord cmp_ord_pair [symmetric])

interpretation pypi: version_scheme pep_compare parsePEP440 pypiVersionOutsideRange
  by unfold_locales (auto simp: pypiVersionOutsideRange_def comparePEP440_def split: option.splits)

section \<open>Releases and specifiers\<close>

text \<open>trailing zeros of the release do not count: padding either side of a comparison
  with a zero component changes nothing, whatever the other segments are.\<close>
theorem pep440_trailing_zero:
  "pep_compare (v\<lparr>pv_release := pv_release v @ [0]\<rparr>) w = pep_compare v w \<and>
   pep_compare w (v\<lparr>pv_release := pv_release v @ [0]\<rparr>) = pep_compare w v"
  by (simp add: pep_compare_def compareRelease_ord strip_all_snoc0 comparePre_def preSortKey_def
      comparePost_def compareDev_def)

lemma cmp_then_less: "cmp_then c d < 0 \<longleftrightarrow> c < 0 \<or> c = 0 \<and> d < 0"
  and cmp_then_ge: "0 \<le> cmp_then c d \<longleftrightarrow> 0 < c \<or> c = 0 \<and> 0 \<le> d"
  by (auto simp: cmp_then_def)

definition padded :: "nat list \<Rightarrow> nat \<Rightarrow> nat" where
  "padded r i = (if i < length r then r ! i else 0)"

lemma padded_Cons [simp]: "padded (a # r) 0 = a" "padded (a # r) (Suc i) = padded r i"
  by (simp_all add: padded_def)

lemma padded_Nil [simp]: "padded [] i = 0"
  by (simp add: padded_def)

lemma compare_padded_Nil: "0 \<le> compare_padded r []"
  by (simp add: compare_padded_ord)

lemma release_window:
  assumes "0 \<le> compare_padded r (p @ x # fs)"
  shows "compare_padded r (p @ [Suc x]) < 0 \<longleftrightarrow> (\<forall>i \<le> length p. padded r i = (p @ [x]) ! i)"
  using assms
proof (induction p arbitrary: r)
  case Nil
  show ?case
  proof (cases r)
    case (Cons a as)
    then show ?thesis using Nil compare_padded_Nil [of as]
      by (auto simp: cmp_then_less cmp_then_ge)
  qed (use Nil in \<open>auto simp: cmp_then_less cmp_then_ge\<close>)
next
  case (Cons y p)
  have all: "(\<forall>i \<le> length (y # p). P i) \<longleftrightarrow> P 0 \<and> (\<forall>i \<le> length p. P (Suc i))" for P
    using All_less_Suc2 [of "Suc (length p)" P] by (simp add: less_Suc_eq_le)
  show ?case
  proof (cases r)
    case Nil
    then show ?thesis using Cons.prems Cons.IH [of "[]"]
      unfolding all by (auto simp: cmp_then_less cmp_then_ge)
  next
    case (Cons a as)
    then show ?thesis using Cons.prems Cons.IH [of as]
      unfolding all by (auto simp: cmp_then_less cmp_then_ge)
  qed
qed

lemma compareRelease_padded: "compareRelease a b = compare_padded a b"
  by (simp add: compareRelease_ord compare_padded_ord)

lemma prefixMatch_padded:
  "prefixMatch v p \<longleftrightarrow> pv_epoch v = pv_epoch p \<and>
     (\<forall>i < length (pv_release p). padded (pv_release v) i = pv_release p ! i)"
  by (auto simp: prefixMatch_def padded_def list_all_iff)

lemma cmp_then_less_rest: "0 \<le> t \<Longrightarrow> cmp_then a (cmp_then b t) < 0 \<longleftrightarrow> a < 0 \<or> a = 0 \<and> b < 0"
  by (auto simp: cmp_then_def)

lemma below_final:
  assumes "\<not> pv_hasPre v" "\<not> pv_hasDev v"
  shows "pep_compare v (pep_final e r) < 0 \<longleftrightarrow>
    pv_epoch v < e \<or> pv_epoch v = e \<and> compare_padded (pv_release v) r < 0"
proof -
  have "0 \<le> cmp_then (comparePre v (pep_final e r)) (cmp_then (comparePost v (pep_final e r))
      (cmp_then (compareDev v (pep_final e r)) (compareLocal (pv_local v) (pv_local (pep_final e r)))))"
    using assms
    by (cases "pv_local v")
      (auto simp: comparePre_def preSortKey_def comparePost_def compareDev_def compareLocal_def cmp_then_def
        pep_final_def)
  then show ?thesis
    unfolding pep_compare_def by (subst cmp_then_less_rest) (simp_all add: cmpInt_ord compareRelease_padded pep_final_def)
qed

text \<open>the compatible-release clause. For a final or post release v and an operand with at
  least two release components, "~= operand" holds exactly when v is at or above the operand and agrees
  with it on everything but its last release component (the prefix match of "== X.Y.*").\<close>
theorem pep440_compatible_release:
  assumes "pep_parse operand = Some fl" and "2 \<le> length (pv_release fl)"
    and "\<not> pv_hasPre v" and "\<not> pv_hasDev v"
  shows "compatibleRelease v operand = Some (0 \<le> pep_compare v fl \<and>
    prefixMatch v (fl\<lparr>pv_release := butlast (pv_release fl)\<rparr>))"
proof -
  obtain p x f where r: "pv_release fl = p @ [x, f]"
  proof -
    obtain q f where q: "pv_release fl = q @ [f]" using assms(2) by (cases "pv_release fl" rule: rev_cases) auto
    then obtain p x where "q = p @ [x]" using assms(2) by (cases q rule: rev_cases) auto
    with q show ?thesis using that by simp
  qed
  have win: "pep_compare v (pep_final (pv_epoch fl) (p @ [Suc x])) < 0 \<longleftrightarrow>
      prefixMatch v (fl\<lparr>pv_release := p @ [x]\<rparr>)" if ge: "0 \<le> pep_compare v fl"
  proof -
    have "pv_epoch fl < pv_epoch v \<or> pv_epoch v = pv_epoch fl \<and> 0 \<le> compare_padded (pv_release v) (p @ x # [f])"
      using ge by (auto simp: pep_compare_def cmp_then_ge cmpInt_ord compareRelease_padded r)
    then show ?thesis
      using release_window [of "pv_release v" p x "[f]"]
      by (auto simp: below_final [OF assms(3,4)] prefixMatch_padded less_Suc_eq_le)
  qed
  have b: "butlast (pv_release fl) = p @ [x]" using r by (simp add: butlast_append)
  show ?thesis
    using assms(2) win by (auto simp: compatibleRelease_def assms(1) b Let_def)
qed

theorem pep440_compatible_release_witness:
  "\<exists>fl v. pep_parse ''1.4.2'' = Some fl \<and> pep_parse ''1.4.7.post1'' = Some v \<and>
     compatibleRelease v ''1.4.2'' = Some (0 \<le> pep_compare v fl \<and>
       prefixMatch v (fl\<lparr>pv_release := butlast (pv_release fl)\<rparr>))"
proof -
  have f: "pep_parse ''1.4.2'' = Some (pep_final 0 [1, 4, 2])" by code_simp
  have v: "pep_parse ''1.4.7.post1'' = Some ((pep_final 0 [1, 4, 7])\<lparr>pv_hasPost := True, pv_postNum := 1\<rparr>)"
    by code_simp
  show ?thesis
    using f v pep440_compatible_release [OF f, of "(pep_final 0 [1, 4, 7])\<lparr>pv_hasPost := True, pv_postNum := 1\<rparr>"]
    by (simp add: pep_final_def)
qed

text \<open>an overflowing counter is read as zero. A dev (likewise pre or post) number beyond
  64 bits does not make the version unparseable: 1.0.dev5 counts as past the bound
  1.0.dev99999999999999999999.\<close>
theorem pep440_overflow_is_zero:
  "pep_parse ''1.0.dev99999999999999999999'' = pep_parse ''1.0.dev0'' \<and>
   pypiVersionOutsideRange ''1.0.dev5'' ''1.0.dev99999999999999999999'' = Some True"
proof -
  have "pep_parse ''1.0.dev99999999999999999999'' = pep_parse ''1.0.dev0''" by code_simp
  moreover have "pypiVersionOutsideRange ''1.0.dev5'' ''1.0.dev99999999999999999999'' = Some True" by code_simp
  ultimately show ?thesis by simp
qed

end
