(* ===== verification/Go_Toolchain.thy ===== *)
theory Go_Toolchain
  imports Npm_Version
begin

text \<open>
  Go toolchain releases: src/pipeline/go_toolchain_version.go (the parser of releases and corpus
  bounds, the comparison, the bound check) and src/pipeline/toolchain_fact.go (the reduction
  of the five sources to one fact). A Go struct is a record, the optional contradiction an option. The
  lemmas give the order a key (interpretation \<open>toolchain_order\<close>), the print/parse round trip, and
  what a resolved fact promises its two consumers: an exact fact is never below the floor, and a
  floor past a fix proves every toolchain at or above it past the fix.
\<close>

section \<open>Versions\<close>

record goPrerelease =
  pre_set :: bool
  pre_rank :: int

record goToolchainVersion =
  gt_major :: int
  gt_minor :: int
  gt_patch :: int
  gt_pre :: goPrerelease

definition no_pre :: goPrerelease where
  "no_pre = \<lparr>pre_set = False, pre_rank = 0\<rparr>"

definition gt_release :: "int \<Rightarrow> int \<Rightarrow> int \<Rightarrow> goToolchainVersion" where
  "gt_release a b c = \<lparr>gt_major = a, gt_minor = b, gt_patch = c, gt_pre = no_pre\<rparr>"

fun toolchain_segments :: "gostring list \<Rightarrow> int list option" where
  "toolchain_segments [] = Some []"
| "toolchain_segments (p # ps) =
    (case atoiNonNeg p of
       None \<Rightarrow> None
     | Some n \<Rightarrow> map_option (\<lambda>ns. n # ns) (toolchain_segments ps))"

definition parseGoToolchainVersion :: "gostring \<Rightarrow> goToolchainVersion option" where
  "parseGoToolchainVersion s0 =
    (let s = trim_space s0 in
     if s = [] then None
     else
       (let s1 = trim_prefix s ''go'' in
        if s1 = [] then None
        else
          (let parts = go_split s1 ''.'' in
           if length parts < 2 \<or> length parts > 3 then None
           else case toolchain_segments parts of
             None \<Rightarrow> None
           | Some seg \<Rightarrow> Some (gt_release (nth0 seg 0) (nth0 seg 1) (nth0 seg 2)))))"

definition parseGoToolchainBound :: "gostring \<Rightarrow> goToolchainVersion option" where
  "parseGoToolchainBound s =
    (case go_cut (trim_space s) ''-'' of
       None \<Rightarrow> parseGoToolchainVersion s
     | Some (core, pre) \<Rightarrow>
         if count_byte (trim_prefix core ''go'') CHR ''.'' \<noteq> 2 then None
         else case parseGoToolchainVersion core of
           None \<Rightarrow> None
         | Some v \<Rightarrow>
             if pre = ''0'' then Some (v\<lparr>gt_pre := \<lparr>pre_set = True, pre_rank = -1\<rparr>\<rparr>)
             else if has_prefix pre ''rc.'' then
               (let num = trim_prefix pre ''rc.'' in
                case atoiNonNeg num of
                  None \<Rightarrow> None
                | Some n \<Rightarrow>
                    if has_prefix num ''-'' \<or> length num > 1 \<and> has_prefix num ''0'' then None
                    else Some (v\<lparr>gt_pre := \<lparr>pre_set = True, pre_rank = n\<rparr>\<rparr>))
             else None)"

definition compareGoToolchain :: "goToolchainVersion \<Rightarrow> goToolchainVersion \<Rightarrow> int" where
  "compareGoToolchain a b =
    cmp_then (cmpInt (gt_major a) (gt_major b))
     (cmp_then (cmpInt (gt_minor a) (gt_minor b))
       (cmp_then (cmpInt (gt_patch a) (gt_patch b))
         (if pre_set (gt_pre a) \<and> pre_set (gt_pre b) then
            cmpInt (pre_rank (gt_pre a)) (pre_rank (gt_pre b))
          else if pre_set (gt_pre a) then -1
          else if pre_set (gt_pre b) then 1
          else 0)))"

definition goToolchainVersionOutsideRange :: "gostring \<Rightarrow> gostring \<Rightarrow> bool option" where
  "goToolchainVersionOutsideRange ver upper =
    (case (parseGoToolchainBound ver, parseGoToolchainBound upper) of
       (Some a, Some b) \<Rightarrow> Some (compareGoToolchain a b \<ge> 0)
     | _ \<Rightarrow> None)"

definition formatGoToolchainVersion :: "goToolchainVersion \<Rightarrow> gostring" where
  "formatGoToolchainVersion v =
    ''go'' @ show_int (gt_major v) @ ''.'' @ show_int (gt_minor v) @ ''.'' @ show_int (gt_patch v)"

section \<open>The toolchain fact\<close>

definition ToolchainBoundExact :: gostring where "ToolchainBoundExact = ''exact''"
definition ToolchainBoundMinimum :: gostring where "ToolchainBoundMinimum = ''minimum''"
definition ToolchainBoundNone :: gostring where "ToolchainBoundNone = ''none''"

definition ToolchainSourceSubjectDeclared :: gostring where
  "ToolchainSourceSubjectDeclared = ''subject_declared''"
definition ToolchainSourceCIObserved :: gostring where
  "ToolchainSourceCIObserved = ''ci_observed''"
definition ToolchainSourceBuildResolved :: gostring where
  "ToolchainSourceBuildResolved = ''build_resolved''"
definition ToolchainSourceGoDirective :: gostring where
  "ToolchainSourceGoDirective = ''go_directive''"
definition ToolchainSourceUnresolved :: gostring where
  "ToolchainSourceUnresolved = ''unresolved''"

lemmas toolchain_consts = ToolchainBoundExact_def ToolchainBoundMinimum_def ToolchainBoundNone_def
  ToolchainSourceSubjectDeclared_def ToolchainSourceCIObserved_def ToolchainSourceBuildResolved_def
  ToolchainSourceGoDirective_def ToolchainSourceUnresolved_def

record ToolchainContradiction =
  tc_claimed_version :: gostring
  tc_claimed_source :: gostring
  tc_floor_version :: gostring
  tc_floor_source :: gostring

record ToolchainFact =
  tf_version :: gostring
  tf_bound :: gostring
  tf_source :: gostring
  tf_contradiction :: "ToolchainContradiction option"

record toolchainInputs =
  ti_subjectDeclared :: gostring
  ti_ciObserved :: gostring
  ti_trustCIObserved :: bool
  ti_buildResolved :: gostring
  ti_toolchainDirective :: gostring
  ti_goDirective :: gostring
  ti_bazelWorkspace :: bool

definition directivesBindToolchain :: "toolchainInputs \<Rightarrow> bool" where
  "directivesBindToolchain inp =
    (if ti_toolchainDirective inp \<noteq> [] then True
     else
       (let raw = trim_space (ti_goDirective inp) in
        if count_byte raw CHR ''.'' \<noteq> 2 then False
        else case parseGoToolchainVersion raw of
          None \<Rightarrow> False
        | Some v \<Rightarrow> gt_major v > 1 \<or> gt_minor v \<ge> 21))"

definition goLineFloor :: "toolchainInputs \<Rightarrow> gostring" where
  "goLineFloor inp =
    (if \<not> directivesBindToolchain inp then []
     else case parseGoToolchainVersion (ti_goDirective inp) of
       None \<Rightarrow> []
     | Some v \<Rightarrow> formatGoToolchainVersion v)"

definition firstToolchainLineRelease :: goToolchainVersion where
  "firstToolchainLineRelease = gt_release 1 21 0"

definition unresolvedFact :: ToolchainFact where
  "unresolvedFact = \<lparr>tf_version = [], tf_bound = ToolchainBoundNone,
     tf_source = ToolchainSourceUnresolved, tf_contradiction = None\<rparr>"

definition resolveToolchainFloor :: "toolchainInputs \<Rightarrow> ToolchainFact \<times> goToolchainVersion option" where
  "resolveToolchainFloor inp =
    (if ti_bazelWorkspace inp \<or> \<not> directivesBindToolchain inp then (unresolvedFact, None)
     else case parseGoToolchainVersion (ti_goDirective inp) of
       None \<Rightarrow> (unresolvedFact, None)
     | Some parsed0 \<Rightarrow>
         (let parsed = (if ti_toolchainDirective inp \<noteq> [] \<and>
                           compareGoToolchain parsed0 firstToolchainLineRelease < 0
                        then firstToolchainLineRelease else parsed0)
          in (\<lparr>tf_version = formatGoToolchainVersion parsed, tf_bound = ToolchainBoundMinimum,
               tf_source = ToolchainSourceGoDirective, tf_contradiction = None\<rparr>, Some parsed)))"

definition exactSources :: "toolchainInputs \<Rightarrow> (gostring \<times> gostring) list" where
  "exactSources inp =
    (ti_subjectDeclared inp, ToolchainSourceSubjectDeclared) #
    (if ti_trustCIObserved inp then
       (ti_ciObserved inp, ToolchainSourceCIObserved) #
       (if \<not> directivesBindToolchain inp \<and> \<not> ti_bazelWorkspace inp
        then [(ti_buildResolved inp, ToolchainSourceBuildResolved)] else [])
     else [])"

fun resolve_exact ::
  "ToolchainFact \<Rightarrow> goToolchainVersion option \<Rightarrow> (gostring \<times> gostring) list \<Rightarrow> ToolchainFact" where
  "resolve_exact floorFact floorParsed [] = floorFact"
| "resolve_exact floorFact floorParsed ((raw, source) # rest) =
    (case parseGoToolchainVersion raw of
       None \<Rightarrow> resolve_exact floorFact floorParsed rest
     | Some parsed \<Rightarrow>
         (case floorParsed of
            Some f \<Rightarrow>
              if compareGoToolchain parsed f < 0 then
                floorFact\<lparr>tf_contradiction := Some
                  \<lparr>tc_claimed_version = formatGoToolchainVersion parsed, tc_claimed_source = source,
                   tc_floor_version = tf_version floorFact, tc_floor_source = tf_source floorFact\<rparr>\<rparr>
              else \<lparr>tf_version = formatGoToolchainVersion parsed, tf_bound = ToolchainBoundExact,
                    tf_source = source, tf_contradiction = None\<rparr>
          | None \<Rightarrow> \<lparr>tf_version = formatGoToolchainVersion parsed, tf_bound = ToolchainBoundExact,
                     tf_source = source, tf_contradiction = None\<rparr>))"

definition resolveToolchainFact :: "toolchainInputs \<Rightarrow> ToolchainFact" where
  "resolveToolchainFact inp =
    (let (floorFact, floorParsed) = resolveToolchainFloor inp
     in resolve_exact floorFact floorParsed (exactSources inp))"

record ToolchainScan =
  ts_requested :: gostring
  ts_actual :: gostring
  ts_subject :: bool

definition newToolchainScan :: "gostring \<Rightarrow> gostring \<Rightarrow> ToolchainScan" where
  "newToolchainScan requested actual =
    \<lparr>ts_requested = requested, ts_actual = actual,
     ts_subject = (requested \<noteq> [] \<and> actual = requested)\<rparr>"

section \<open>The order\<close>

definition gt_key :: "goToolchainVersion \<Rightarrow> int \<times> int \<times> int \<times> bool \<times> int" where
  "gt_key v = (gt_major v, gt_minor v, gt_patch v, \<not> pre_set (gt_pre v),
     if pre_set (gt_pre v) then pre_rank (gt_pre v) else 0)"

lemma pre_compare_ord:
  "(if pre_set p \<and> pre_set q then cmpInt (pre_rank p) (pre_rank q)
    else if pre_set p then -1 else if pre_set q then 1 else 0) =
   cmp_ord (\<not> pre_set p, if pre_set p then pre_rank p else 0) (\<not> pre_set q, if pre_set q then pre_rank q else 0)"
  by (cases "pre_set p"; cases "pre_set q") (simp_all add: cmpInt_ord cmp_ord_pair cmp_then_def cmp_ord_def)

interpretation toolchain_order: keyed compareGoToolchain gt_key
  by unfold_locales
    (simp only: compareGoToolchain_def gt_key_def cmpInt_ord cmp_ord_pair pre_compare_ord [unfolded cmpInt_ord cmp_ord_pair])

interpretation toolchain: version_scheme compareGoToolchain parseGoToolchainBound goToolchainVersionOutsideRange
  by unfold_locales (auto simp: goToolchainVersionOutsideRange_def split: option.splits)

section \<open>Printing and parsing\<close>

definition gt_wf :: "goToolchainVersion \<Rightarrow> bool" where
  "gt_wf v = (gt_pre v = no_pre \<and> 0 \<le> gt_major v \<and> gt_major v < 2 ^ 63 \<and>
    0 \<le> gt_minor v \<and> gt_minor v < 2 ^ 63 \<and> 0 \<le> gt_patch v \<and> gt_patch v < 2 ^ 63)"

lemma atoiNonNeg_wf: "atoiNonNeg s = Some n \<Longrightarrow> 0 \<le> n \<and> n < 2 ^ 63"
  by (auto simp: atoiNonNeg_def split: if_splits option.splits dest: atoi_bounds)

lemma toolchain_segments_wf: "toolchain_segments ps = Some ns \<Longrightarrow> list_all (\<lambda>n. 0 \<le> n \<and> n < 2 ^ 63) ns"
  by (induction ps arbitrary: ns) (auto split: option.splits dest: atoiNonNeg_wf)

lemma nth0_all: "list_all p ns \<Longrightarrow> p 0 \<Longrightarrow> p (nth0 ns i)"
  by (simp add: nth0_def list_all_length)

lemma parse_toolchain_wf: "parseGoToolchainVersion s = Some v \<Longrightarrow> gt_wf v"
  using nth0_all [where p = "\<lambda>n. 0 \<le> n \<and> n < 2 ^ 63"]
  by (auto simp: parseGoToolchainVersion_def Let_def gt_wf_def gt_release_def
      split: if_splits option.splits dest!: toolchain_segments_wf)

lemma show_int_digits: "0 \<le> n \<Longrightarrow> all_digits (show_int n)"
  by (simp add: show_int_def show_nat_digits)

lemma atoiNonNeg_show: "0 \<le> n \<Longrightarrow> n < 2 ^ 63 \<Longrightarrow> atoiNonNeg (show_int n) = Some n"
  using digit_not_sign [OF show_nat_digits, of "nat n"] show_nat_digits [of "nat n"]
  by (simp add: show_int_def atoiNonNeg_def atoi_show_nat all_digits_def)

lemma show_int_no_dot: "0 \<le> n \<Longrightarrow> CHR ''.'' \<notin> set (show_int n)"
  by (rule digits_not_mem [OF show_int_digits]) (auto simp: is_digit_def in_range_def less_eq_char_def)

lemma digit_plain: "is_digit c \<Longrightarrow> plain_char c"
  by (auto simp: is_digit_def in_range_def less_eq_char_def plain_char_def ascii_space_def)

lemma last_digits: "all_digits s \<Longrightarrow> is_digit (last s)"
  by (auto simp: all_digits_def list_all_iff)

lemma format_trim: "gt_wf v \<Longrightarrow> trim_space (formatGoToolchainVersion v) = formatGoToolchainVersion v"
proof -
  assume "gt_wf v"
  then have d: "all_digits (show_int (gt_patch v))" by (simp add: gt_wf_def show_int_digits)
  have ne: "formatGoToolchainVersion v \<noteq> []" "hd (formatGoToolchainVersion v) = CHR ''g''"
    "last (formatGoToolchainVersion v) = last (show_int (gt_patch v))"
    using d by (auto simp: formatGoToolchainVersion_def all_digits_def)
  have g: "plain_char CHR ''g''" by (simp add: plain_char_def ascii_space_def)
  show ?thesis
    using trim_space_plain [OF ne(1)] digit_plain [OF last_digits [OF d]] g ne(2,3) by simp
qed

lemma show_int_no_dash: "0 \<le> n \<Longrightarrow> CHR ''-'' \<notin> set (show_int n)"
  by (rule digits_not_mem [OF show_int_digits]) (auto simp: is_digit_def in_range_def less_eq_char_def)

lemma format_bound:
  assumes "gt_wf v"
  shows "parseGoToolchainBound (formatGoToolchainVersion v) = parseGoToolchainVersion (formatGoToolchainVersion v)"
proof -
  have "CHR ''-'' \<notin> set (formatGoToolchainVersion v)"
    using assms by (auto simp: formatGoToolchainVersion_def gt_wf_def dest: show_int_no_dash)
  then show ?thesis by (simp add: parseGoToolchainBound_def format_trim [OF assms] go_cut_byte_none)
qed

lemma parse_format:
  assumes "gt_wf v"
  shows "parseGoToolchainVersion (formatGoToolchainVersion v) = Some v"
proof -
  let ?a = "show_int (gt_major v)" and ?b = "show_int (gt_minor v)" and ?c = "show_int (gt_patch v)"
  have t: "trim_space (formatGoToolchainVersion v) = formatGoToolchainVersion v"
    by (rule format_trim [OF assms])
  have p: "trim_prefix (formatGoToolchainVersion v) ''go'' = ?a @ ''.'' @ ?b @ ''.'' @ ?c"
    by (simp add: formatGoToolchainVersion_def trim_prefix_def has_prefix_def)
  have s: "go_split (?a @ ''.'' @ ?b @ ''.'' @ ?c) ''.'' = [?a, ?b, ?c]"
    using assms by (simp add: gt_wf_def go_split_byte go_split_byte_none show_int_no_dot)
  have "gt_release (gt_major v) (gt_minor v) (gt_patch v) = v"
    using assms by (simp add: gt_wf_def gt_release_def)
  then show ?thesis
    using assms t p s
    by (auto simp: parseGoToolchainVersion_def Let_def gt_wf_def atoiNonNeg_show nth0_def
        formatGoToolchainVersion_def)
qed

text \<open>formatGoToolchainVersion and the two parsers are inverse: whatever string a release
  was parsed from, printing it and parsing the print, as a release or as a bound, gives the same
  release.\<close>
theorem toolchain_roundtrip:
  assumes "parseGoToolchainVersion s = Some v"
  shows "parseGoToolchainVersion (formatGoToolchainVersion v) = Some v \<and>
    parseGoToolchainBound (formatGoToolchainVersion v) = Some v"
  using parse_format format_bound parse_toolchain_wf [OF assms] by simp

theorem toolchain_roundtrip_witness:
  "\<exists>v. parseGoToolchainVersion ''go1.21.5'' = Some v \<and>
     parseGoToolchainBound (formatGoToolchainVersion v) = Some v"
proof -
  have p: "parseGoToolchainVersion ''go1.21.5'' = Some (the (parseGoToolchainVersion ''go1.21.5''))" by code_simp
  show ?thesis using p toolchain_roundtrip [OF p] by blast
qed

section \<open>What the fact promises\<close>

lemma floor_parsed:
  assumes "resolveToolchainFloor inp = (f, Some v)"
  shows "gt_wf v" "f = \<lparr>tf_version = formatGoToolchainVersion v, tf_bound = ToolchainBoundMinimum,
    tf_source = ToolchainSourceGoDirective, tf_contradiction = None\<rparr>"
  using assms parse_toolchain_wf
  by (auto simp: resolveToolchainFloor_def Let_def firstToolchainLineRelease_def gt_wf_def gt_release_def
      split: if_splits option.splits)

lemma floor_unresolved: "resolveToolchainFloor inp = (f, None) \<Longrightarrow> f = unresolvedFact"
  by (auto simp: resolveToolchainFloor_def Let_def split: if_splits option.splits)

text \<open>The three shapes of a resolved fact: the floor as it is, an exact claim that the floor
  does not refute, or the floor carrying the claim it refuted.\<close>

lemma resolve_exact_cases:
  "resolve_exact ff fp srcs = ff \<or>
   (\<exists>raw src v. (raw, src) \<in> set srcs \<and> parseGoToolchainVersion raw = Some v \<and>
      (\<forall>f. fp = Some f \<longrightarrow> 0 \<le> compareGoToolchain v f) \<and>
      resolve_exact ff fp srcs = \<lparr>tf_version = formatGoToolchainVersion v, tf_bound = ToolchainBoundExact,
        tf_source = src, tf_contradiction = None\<rparr>) \<or>
   (\<exists>raw src v f. (raw, src) \<in> set srcs \<and> parseGoToolchainVersion raw = Some v \<and> fp = Some f \<and>
      compareGoToolchain v f < 0 \<and>
      resolve_exact ff fp srcs = ff\<lparr>tf_contradiction := Some
        \<lparr>tc_claimed_version = formatGoToolchainVersion v, tc_claimed_source = src,
         tc_floor_version = tf_version ff, tc_floor_source = tf_source ff\<rparr>\<rparr>)"
proof (induction ff fp srcs rule: resolve_exact.induct)
  case (1 ff fp)
  then show ?case by simp
next
  case (2 ff fp raw src rest)
  show ?case
  proof (cases "parseGoToolchainVersion raw")
    case None
    then have "resolve_exact ff fp ((raw, src) # rest) = resolve_exact ff fp rest" by simp
    then show ?thesis using 2 [OF None] by (metis list.set_intros(2))
  next
    case (Some v)
    have m: "(raw, src) \<in> set ((raw, src) # rest)" by simp
    show ?thesis
    proof (cases "\<exists>f. fp = Some f \<and> compareGoToolchain v f < 0")
      case True
      then show ?thesis using Some m by (intro disjI2) fastforce
    next
      case False
      then have "\<forall>f. fp = Some f \<longrightarrow> 0 \<le> compareGoToolchain v f" by auto
      then show ?thesis using Some m False
        by (intro disjI2 disjI1 exI [of _ raw] exI [of _ src] exI [of _ v]) (cases fp, auto)
    qed
  qed
qed

text \<open>an exact fact is never below the subject's own floor. When resolution answers
  "exact", the recorded version parses, some admitted source states it, and it is at or above the
  go.mod floor whenever there is one; a claim below the floor is recorded as a contradiction and
  the bound is then the floor's.\<close>
theorem toolchain_exact_above_floor:
  "case resolveToolchainFloor inp of (ff, fp) \<Rightarrow>
    (let f = resolveToolchainFact inp in
     if tf_bound f = ToolchainBoundExact then
       (\<exists>raw v. (raw, tf_source f) \<in> set (exactSources inp) \<and> parseGoToolchainVersion raw = Some v \<and>
          tf_version f = formatGoToolchainVersion v \<and> tf_contradiction f = None \<and>
          (case fp of None \<Rightarrow> True | Some fl \<Rightarrow> 0 \<le> compareGoToolchain v fl))
     else tf_version f = tf_version ff \<and> tf_bound f = tf_bound ff \<and> tf_source f = tf_source ff \<and>
       (case tf_contradiction f of None \<Rightarrow> True | Some c \<Rightarrow> fp \<noteq> None))"
proof -
  obtain ff fp where fl: "resolveToolchainFloor inp = (ff, fp)" by (cases "resolveToolchainFloor inp")
  have ffs: "tf_bound ff \<noteq> ToolchainBoundExact" "tf_contradiction ff = None"
    using floor_parsed [of inp ff] floor_unresolved [of inp ff] fl
    by (cases fp; simp add: unresolvedFact_def toolchain_consts)+
  show ?thesis
    using resolve_exact_cases [of ff fp "exactSources inp"] ffs
    by (cases fp) (auto simp: fl resolveToolchainFact_def Let_def)
qed

text \<open>a floor past the fix proves the real toolchain past it. If the floor of the subject's
  go.mod is outside an upper bound, then so is every toolchain at or above the floor.\<close>
theorem toolchain_floor_monotone:
  assumes "resolveToolchainFloor inp = (f, Some fl)"
    and "goToolchainVersionOutsideRange (tf_version f) upper = Some True"
    and "parseGoToolchainBound t = Some v" and "0 \<le> compareGoToolchain v fl"
  shows "goToolchainVersionOutsideRange t upper = Some True"
proof -
  have wf: "gt_wf fl" and fv: "tf_version f = formatGoToolchainVersion fl"
    using floor_parsed [OF assms(1)] by simp_all
  have "parseGoToolchainBound (formatGoToolchainVersion fl) = Some fl"
    using format_bound [OF wf] parse_format [OF wf] by simp
  then have "goToolchainVersionOutsideRange t (formatGoToolchainVersion fl) = Some True"
    using assms(3,4) by (simp add: toolchain.outside_Some)
  then show ?thesis using assms(2) fv toolchain.outside_upward by metis
qed

definition sample_inputs :: toolchainInputs where
  "sample_inputs = \<lparr>ti_subjectDeclared = [], ti_ciObserved = [], ti_trustCIObserved = False, ti_buildResolved = [],
     ti_toolchainDirective = [], ti_goDirective = ''1.22.3'', ti_bazelWorkspace = False\<rparr>"

theorem toolchain_floor_monotone_witness:
  "goToolchainVersionOutsideRange ''1.23.0'' ''1.22.1'' = Some True"
proof -
  have "resolveToolchainFloor sample_inputs =
      (fst (resolveToolchainFloor sample_inputs), Some (the (snd (resolveToolchainFloor sample_inputs)))) \<and>
    goToolchainVersionOutsideRange (tf_version (fst (resolveToolchainFloor sample_inputs))) ''1.22.1'' = Some True"
    by code_simp
  moreover have "parseGoToolchainBound ''1.23.0'' = Some (the (parseGoToolchainBound ''1.23.0'')) \<and>
    0 \<le> compareGoToolchain (the (parseGoToolchainBound ''1.23.0'')) (the (snd (resolveToolchainFloor sample_inputs)))"
    by code_simp
  ultimately show ?thesis using toolchain_floor_monotone by blast
qed

lemma floor_untrusted:
  "resolveToolchainFloor (inp\<lparr>ti_trustCIObserved := b, ti_ciObserved := x, ti_buildResolved := y\<rparr>) =
   resolveToolchainFloor inp"
  by (cases "parseGoToolchainVersion (ti_goDirective inp)")
    (simp_all add: resolveToolchainFloor_def directivesBindToolchain_def Let_def)

lemma floor_line:
  "resolveToolchainFloor (inp\<lparr>ti_toolchainDirective := d # ds\<rparr>) =
   resolveToolchainFloor (inp\<lparr>ti_toolchainDirective := e # es\<rparr>)"
  by (cases "parseGoToolchainVersion (ti_goDirective inp)")
    (simp_all add: resolveToolchainFloor_def directivesBindToolchain_def Let_def)

text \<open>an observation nobody vouched for does not count. With trustCIObserved unset, the
  observed and the build-resolved toolchain change nothing.\<close>
theorem toolchain_untrusted_ignored:
  "resolveToolchainFact (inp\<lparr>ti_trustCIObserved := False, ti_ciObserved := x, ti_buildResolved := y\<rparr>) =
   resolveToolchainFact (inp\<lparr>ti_trustCIObserved := False, ti_ciObserved := [], ti_buildResolved := []\<rparr>)"
  by (simp add: resolveToolchainFact_def floor_untrusted exactSources_def)

text \<open>the version on the toolchain line is never read, only its presence.\<close>
theorem toolchain_line_presence:
  "resolveToolchainFact (inp\<lparr>ti_toolchainDirective := d # ds\<rparr>) =
   resolveToolchainFact (inp\<lparr>ti_toolchainDirective := ''go1.21.0''\<rparr>)"
proof -
  have "exactSources (inp\<lparr>ti_toolchainDirective := d # ds\<rparr>) =
      exactSources (inp\<lparr>ti_toolchainDirective := ''go1.21.0''\<rparr>)"
    by (simp add: exactSources_def directivesBindToolchain_def)
  then show ?thesis by (simp only: resolveToolchainFact_def floor_line [of d ds inp "CHR ''g''" "''o1.21.0''"])
qed

end
