(* ===== verification/Affected_Range.thy ===== *)
theory Affected_Range
  imports Npm_Version Maven_Version Nuget_Version Pep440 Go_Toolchain "HOL-Library.Multiset"
begin

text \<open>
  The affected set of an advisory on the version axis: src/pipeline/affected_bounds.go, the
  projection and the range reducers of src/pipeline/stages.go, and the readers of
  src/pipeline/advisory_range.go that need no store. The default Go scheme is ordered by
  golang.org/x/mod/semver, which is not in the repository: the record \<open>semver_lib\<close> stands for
  its three functions and is an argument of the definitions that use them. Lemmas: a range
  test with both bounds in the grammar is membership in a half-open interval, the two spellings of
  the upper-bound check agree, a floor past every range clears every version above it, and
  adding a range never clears more.
\<close>

record semver_lib =
  sv_isValid :: "gostring \<Rightarrow> bool"
  sv_prerelease :: "gostring \<Rightarrow> gostring"
  sv_compare :: "gostring \<Rightarrow> gostring \<Rightarrow> int"

record affectedRange =
  ar_upper :: gostring
  ar_scheme :: gostring
  ar_lower :: gostring
  ar_last :: gostring
  ar_type :: gostring

record osvRange =
  osv_introduced :: gostring
  osv_fixed :: gostring
  osv_last :: gostring
  osv_fixedVersion :: gostring
  osv_type :: gostring

section \<open>Projection of an advisory's ranges\<close>

definition build_affected_range :: "gostring \<Rightarrow> osvRange \<Rightarrow> affectedRange" where
  "build_affected_range scheme r =
    \<lparr>ar_upper = osv_fixed r, ar_scheme = scheme,
     ar_lower = (if osv_introduced r \<noteq> ''0'' \<and> osv_introduced r \<noteq> ''0.0.0'' then osv_introduced r else []),
     ar_last = osv_last r, ar_type = osv_type r\<rparr>"

definition buildAffectedRanges :: "osvRange list \<Rightarrow> gostring \<Rightarrow> gostring \<Rightarrow> affectedRange list" where
  "buildAffectedRanges ranges upperExclusive scheme =
    (if length ranges > 0 then map (build_affected_range scheme) ranges
     else if upperExclusive \<noteq> [] then
       [\<lparr>ar_upper = upperExclusive, ar_scheme = scheme, ar_lower = [], ar_last = [], ar_type = []\<rparr>]
     else [])"

text \<open>The greedy pairing of legacyRangesDisagree: the element ranges not yet used.\<close>

definition range_pairs :: "osvRange \<Rightarrow> osvRange \<Rightarrow> bool" where
  "range_pairs l e =
    (osv_fixed e = osv_fixed l \<and> osv_last e = osv_last l \<and>
     \<not> (osv_introduced l \<noteq> [] \<and> osv_introduced l \<noteq> osv_introduced e))"

fun take_first :: "('a \<Rightarrow> bool) \<Rightarrow> 'a list \<Rightarrow> 'a list option" where
  "take_first p [] = None"
| "take_first p (x # xs) = (if p x then Some xs else map_option (\<lambda>r. x # r) (take_first p xs))"

fun unpaired :: "osvRange list \<Rightarrow> osvRange list \<Rightarrow> bool" where
  "unpaired avail [] = False"
| "unpaired avail (l # ls) =
    (case take_first (range_pairs l) avail of None \<Rightarrow> True | Some rest \<Rightarrow> unpaired rest ls)"

definition legacyRangesDisagree :: "osvRange list \<Rightarrow> osvRange list \<Rightarrow> bool" where
  "legacyRangesDisagree elem legacy =
    (if length elem \<noteq> length legacy then True else unpaired elem legacy)"

record AffectedPackage =
  ap_module :: gostring
  ap_coordinate :: gostring
  ap_purl :: gostring
  ap_ranges :: "osvRange list"

definition describesPrimary :: "AffectedPackage \<Rightarrow> AffectedPackage \<Rightarrow> bool" where
  "describesPrimary pkg facts =
    (ap_purl pkg \<noteq> [] \<and> ap_purl pkg = ap_purl facts \<or>
     ap_coordinate pkg \<noteq> [] \<and> ap_coordinate pkg = ap_coordinate facts)"

definition withDisagreeingLegacyRanges ::
  "affectedRange list \<Rightarrow> AffectedPackage \<Rightarrow> AffectedPackage \<Rightarrow> gostring \<Rightarrow> affectedRange list" where
  "withDisagreeingLegacyRanges rngs pkg facts scheme =
    (if length (ap_ranges facts) = 0 \<or> \<not> describesPrimary pkg facts then rngs
     else if \<not> legacyRangesDisagree (ap_ranges pkg) (ap_ranges facts) then rngs
     else rngs @ buildAffectedRanges (ap_ranges facts) [] scheme)"

section \<open>Comparison under a scheme\<close>

definition rangeTypeOrderable :: "gostring \<Rightarrow> bool" where
  "rangeTypeOrderable t = (t = [] \<or> t = ''SEMVER'' \<or> t = ''ECOSYSTEM'')"

definition compare_parsed :: "(gostring \<Rightarrow> 'v option) \<Rightarrow> ('v \<Rightarrow> 'v \<Rightarrow> int) \<Rightarrow> gostring \<Rightarrow> gostring \<Rightarrow> int option" where
  "compare_parsed parse cmp a b =
    (case parse a of None \<Rightarrow> None | Some x \<Rightarrow>
     case parse b of None \<Rightarrow> None | Some y \<Rightarrow> Some (cmp x y))"

definition compareVersions :: "semver_lib \<Rightarrow> gostring \<Rightarrow> gostring \<Rightarrow> gostring \<Rightarrow> int option" where
  "compareVersions sv a b scheme =
    (if scheme = ''maven'' then compareMaven a b
     else if scheme = ''npm'' then compare_parsed parseNPMVersion compareNPMVersion a b
     else if scheme = ''pypi'' then compare_parsed parsePEP440 comparePEP440 a b
     else if scheme = ''nuget'' then compare_parsed parseNuGetVersion compareNuGetVersion a b
     else if scheme = ''go-toolchain'' then compare_parsed parseGoToolchainBound compareGoToolchain a b
     else if scheme = [] \<or> scheme = ''gomod'' then
       (if \<not> sv_isValid sv a \<or> \<not> sv_isValid sv b \<or> sv_prerelease sv a \<noteq> [] \<or> sv_prerelease sv b \<noteq> []
        then None else Some (sv_compare sv a b))
     else None)"

definition versionOutsideUpper :: "semver_lib \<Rightarrow> gostring \<Rightarrow> affectedRange \<Rightarrow> bool option" where
  "versionOutsideUpper sv ver rng =
    (if ar_scheme rng = ''maven'' then mavenVersionOutsideRange ver (ar_upper rng)
     else if ar_scheme rng = ''npm'' then npmDisqualifyOutside ver (ar_upper rng)
     else if ar_scheme rng = ''pypi'' then pypiVersionOutsideRange ver (ar_upper rng)
     else if ar_scheme rng = ''nuget'' then nugetVersionOutsideRange ver (ar_upper rng)
     else if ar_scheme rng = ''go-toolchain'' then goToolchainVersionOutsideRange ver (ar_upper rng)
     else
       (let upper = ar_upper rng in
        if \<not> sv_isValid sv ver \<or> \<not> sv_isValid sv upper then None
        else if sv_prerelease sv ver \<noteq> [] \<or> sv_prerelease sv upper \<noteq> [] then None
        else Some (sv_compare sv ver upper \<ge> 0)))"

definition versionBelowIntroduced :: "semver_lib \<Rightarrow> gostring \<Rightarrow> affectedRange \<Rightarrow> bool option" where
  "versionBelowIntroduced sv ver rng =
    (if ar_lower rng = [] \<or> ar_lower rng = ''0'' then Some False
     else case compareVersions sv ver (ar_lower rng) (ar_scheme rng) of
       None \<Rightarrow> None
     | Some c \<Rightarrow> Some (c < 0))"

definition versionAboveRangeTop :: "semver_lib \<Rightarrow> gostring \<Rightarrow> affectedRange \<Rightarrow> bool option" where
  "versionAboveRangeTop sv ver rng =
    (if ar_upper rng \<noteq> [] then versionOutsideUpper sv ver rng
     else if ar_last rng \<noteq> [] \<or> ar_lower rng \<noteq> [] then Some False
     else versionOutsideUpper sv ver rng)"

definition versionOutsideRange :: "semver_lib \<Rightarrow> gostring \<Rightarrow> affectedRange \<Rightarrow> bool option" where
  "versionOutsideRange sv ver rng =
    (if \<not> rangeTypeOrderable (ar_type rng) then None
     else
       (let below = versionBelowIntroduced sv ver rng in
        if below = Some True then Some True
        else
          (let above = versionAboveRangeTop sv ver rng in
           if above = Some True then Some True
           else if below \<noteq> None \<and> above \<noteq> None then Some False
           else None)))"

text \<open>The exported seam: one upper bound under a scheme.\<close>

definition VersionOutsideRange :: "semver_lib \<Rightarrow> gostring \<Rightarrow> gostring \<Rightarrow> gostring \<Rightarrow> bool option" where
  "VersionOutsideRange sv ver upperExclusive scheme =
    versionOutsideRange sv ver
      \<lparr>ar_upper = upperExclusive, ar_scheme = scheme, ar_lower = [], ar_last = [], ar_type = []\<rparr>"

fun outside_every :: "semver_lib \<Rightarrow> gostring \<Rightarrow> affectedRange list \<Rightarrow> bool option" where
  "outside_every sv ver [] = Some True"
| "outside_every sv ver (rng # rest) =
    (case versionOutsideRange sv ver rng of
       None \<Rightarrow> None
     | Some out \<Rightarrow> if \<not> out then Some False else outside_every sv ver rest)"

definition versionOutsideRanges :: "semver_lib \<Rightarrow> gostring \<Rightarrow> affectedRange list \<Rightarrow> bool option" where
  "versionOutsideRanges sv ver rngs = (if length rngs = 0 then None else outside_every sv ver rngs)"

definition range_boundless :: "affectedRange \<Rightarrow> bool" where
  "range_boundless r = (ar_upper r = [] \<and> ar_last r = [] \<and> ar_lower r = [])"

text \<open>(rngs, true) is Some rngs, (nil, false) is None.\<close>

definition validAffectedRanges :: "affectedRange list \<Rightarrow> affectedRange list option" where
  "validAffectedRanges rngs =
    (if length rngs = 0 then None else if list_ex range_boundless rngs then None else Some rngs)"

text \<open>rangesForToolchainFloor, given the subject's toolchain fact (None: no inventory).\<close>

definition drop_lower :: "affectedRange \<Rightarrow> affectedRange" where
  "drop_lower r = r\<lparr>ar_lower := []\<rparr>"

definition rangesForToolchainFloor :: "ToolchainFact option \<Rightarrow> affectedRange list \<Rightarrow> affectedRange list" where
  "rangesForToolchainFloor tc rngs =
    (case tc of
       None \<Rightarrow> rngs
     | Some f \<Rightarrow> if tf_bound f \<noteq> ToolchainBoundMinimum then rngs else map drop_lower rngs)"

definition anyBounded :: "affectedRange list \<Rightarrow> bool" where
  "anyBounded ranges = list_ex (\<lambda>r. rangeTypeOrderable (ar_type r)) ranges"

section \<open>The two spellings of the upper bound agree\<close>

text \<open>The scheme tokens compareVersions knows; under npm an upper bound may also be a range
  expression, and a NuGet floating token has no order.\<close>

definition upper_plain :: "affectedRange \<Rightarrow> gostring \<Rightarrow> bool" where
  "upper_plain rng ver =
    (ar_scheme rng \<in> {''maven'', ''pypi'', ''go-toolchain'', ''gomod'', []} \<or>
     ar_scheme rng = ''npm'' \<and> parseNPMVersion (ar_upper rng) \<noteq> None \<or>
     ar_scheme rng = ''nuget'' \<and> \<not> isNuGetFloating ver \<and> \<not> isNuGetFloating (ar_upper rng))"

lemma outside_parsed:
  "npmVersionOutsideRange v u = map_option (\<lambda>c. 0 \<le> c) (compare_parsed parseNPMVersion compareNPMVersion v u)"
  "pypiVersionOutsideRange v u = map_option (\<lambda>c. 0 \<le> c) (compare_parsed parsePEP440 comparePEP440 v u)"
  "goToolchainVersionOutsideRange v u =
     map_option (\<lambda>c. 0 \<le> c) (compare_parsed parseGoToolchainBound compareGoToolchain v u)"
  "mavenVersionOutsideRange v u = map_option (\<lambda>c. 0 \<le> c) (compareMaven v u)"
  "\<not> isNuGetFloating v \<Longrightarrow> \<not> isNuGetFloating u \<Longrightarrow> nugetVersionOutsideRange v u =
     map_option (\<lambda>c. 0 \<le> c) (compare_parsed parseNuGetVersion compareNuGetVersion v u)"
  by (simp_all add: npmVersionOutsideRange_def pypiVersionOutsideRange_def mavenVersionOutsideRange_def
      goToolchainVersionOutsideRange_def nugetVersionOutsideRange_def compare_parsed_def
      split: option.split)

lemma upper_agrees:
  assumes "upper_plain rng ver"
  shows "versionOutsideUpper sv ver rng =
    map_option (\<lambda>c. 0 \<le> c) (compareVersions sv ver (ar_upper rng) (ar_scheme rng))"
  using assms
  by (auto simp: upper_plain_def versionOutsideUpper_def compareVersions_def outside_parsed
      npmDisqualifyOutside_def Let_def split: option.splits)

section \<open>What the version axis clears\<close>

lemma outside_every_True:
  "outside_every sv v rngs = Some True \<longleftrightarrow> (\<forall>r\<in>set rngs. versionOutsideRange sv v r = Some True)"
  by (induction rngs) (auto split: option.splits)

lemma versionOutsideRanges_True:
  "versionOutsideRanges sv v rngs = Some True \<longleftrightarrow>
    rngs \<noteq> [] \<and> (\<forall>r\<in>set rngs. versionOutsideRange sv v r = Some True)"
  by (simp add: versionOutsideRanges_def outside_every_True)

lemma versionOutsideRange_True:
  "versionOutsideRange sv v rng = Some True \<longleftrightarrow> rangeTypeOrderable (ar_type rng) \<and>
    (versionBelowIntroduced sv v rng = Some True \<or> versionAboveRangeTop sv v rng = Some True)"
  by (simp add: versionOutsideRange_def Let_def)

text \<open>The abstract affected set of a range: at or above introduced when it states one above
  zero, and below the fix when it states one. A fix under npm that is not a version is a range
  expression, and then the window is what the expression matches, prereleases included. With no
  fix the window is open above, whether the range states a last affected version or only an
  introduced one. A range with no bound at all has no window (validAffectedRanges withholds every
  set that holds one).\<close>

definition at_or_above :: "semver_lib \<Rightarrow> gostring \<Rightarrow> affectedRange \<Rightarrow> bool" where
  "at_or_above sv v rng =
    (ar_lower rng = [] \<or> ar_lower rng = ''0'' \<or>
     (case compareVersions sv v (ar_lower rng) (ar_scheme rng) of None \<Rightarrow> False | Some c \<Rightarrow> 0 \<le> c))"

definition below_fix :: "semver_lib \<Rightarrow> gostring \<Rightarrow> affectedRange \<Rightarrow> bool" where
  "below_fix sv v rng =
    (if ar_upper rng = [] then ar_last rng \<noteq> [] \<or> ar_lower rng \<noteq> []
     else if ar_scheme rng = ''npm'' \<and> parseNPMVersion (ar_upper rng) = None then
       npmVersionInRangeIncludePrerelease v (ar_upper rng) = Some True
     else case compareVersions sv v (ar_upper rng) (ar_scheme rng) of None \<Rightarrow> False | Some c \<Rightarrow> c < 0)"

definition in_window :: "semver_lib \<Rightarrow> gostring \<Rightarrow> affectedRange \<Rightarrow> bool" where
  "in_window sv v rng = (at_or_above sv v rng \<and> below_fix sv v rng)"

lemma npm_expression_inside:
  "parseNPMVersion u = None \<Longrightarrow> npmVersionInRangeIncludePrerelease v u = Some True \<Longrightarrow>
   npmDisqualifyOutside v u = Some False"
  by (simp add: npmDisqualifyOutside_def)

text \<open>Where the two versions compare, the bound is plain, or it is a NuGet floating token, which
  the upper-bound check refuses to place.\<close>

lemma compared_upper_not_outside:
  assumes "compareVersions sv v (ar_upper rng) (ar_scheme rng) = Some c" "c < 0"
  shows "versionOutsideUpper sv v rng \<noteq> Some True"
proof (cases "upper_plain rng v")
  case True
  then show ?thesis using assms by (simp add: upper_agrees)
next
  case False
  then show ?thesis using assms
    by (auto simp: upper_plain_def versionOutsideUpper_def nugetVersionOutsideRange_def
        compareVersions_def compare_parsed_def split: option.splits if_splits)
qed

lemma below_fix_not_outside:
  assumes "below_fix sv v rng"
  shows "versionAboveRangeTop sv v rng \<noteq> Some True"
  using assms compared_upper_not_outside [of sv v rng] npm_expression_inside [of "ar_upper rng" v]
  by (auto simp: below_fix_def versionAboveRangeTop_def versionOutsideUpper_def
      split: option.splits if_splits)

lemma in_window_not_outside:
  assumes "in_window sv v rng"
  shows "versionOutsideRange sv v rng \<noteq> Some True"
  using assms below_fix_not_outside [of sv v rng]
  by (auto simp: in_window_def at_or_above_def versionOutsideRange_True
      versionBelowIntroduced_def split: option.splits)

text \<open>C4: no affected version is cleared. A version inside the window of any range of the
  advisory is never reported outside the affected set, whatever the other ranges are and
  whatever they leave undecided. The window is the range's own: from the introduced bound, when
  one above zero is stated, up to the fix; up to no end when there is no fix (only a last affected
  version, or only an introduced one); and under npm, when the fix is a range expression, what the
  expression matches. It holds under every scheme, known or not.\<close>
theorem affected_never_outside:
  assumes "rng \<in> set rngs" and "in_window sv v rng"
  shows "versionOutsideRanges sv v rngs \<noteq> Some True"
  using assms in_window_not_outside by (auto simp: versionOutsideRanges_True)

definition sample_sv :: semver_lib where
  "sample_sv = \<lparr>sv_isValid = \<lambda>_. False, sv_prerelease = \<lambda>_. [], sv_compare = \<lambda>_ _. 0\<rparr>"

definition sample_range :: affectedRange where
  "sample_range = \<lparr>ar_upper = ''2.0.0'', ar_scheme = ''npm'', ar_lower = ''1.0.0'', ar_last = [], ar_type = ''SEMVER''\<rparr>"

definition sample_open_range :: affectedRange where
  "sample_open_range = sample_range\<lparr>ar_upper := [], ar_last := ''1.9.0''\<rparr>"

definition sample_npm_window :: affectedRange where
  "sample_npm_window = sample_range\<lparr>ar_upper := ''^1.2.3 || ~2.1'', ar_lower := []\<rparr>"

theorem affected_never_outside_witness:
  "versionOutsideRanges sample_sv ''1.5.0'' [sample_range] \<noteq> Some True \<and>
   versionOutsideRanges sample_sv ''1.5.0'' [sample_range, sample_open_range] \<noteq> Some True \<and>
   versionOutsideRanges sample_sv ''1.4.0'' [sample_npm_window] \<noteq> Some True"
proof -
  have "in_window sample_sv ''1.5.0'' sample_range" "in_window sample_sv ''1.5.0'' sample_open_range"
    "in_window sample_sv ''1.4.0'' sample_npm_window" by code_simp+
  then show ?thesis
    using affected_never_outside [of sample_range "[sample_range]"]
      affected_never_outside [of sample_open_range "[sample_range, sample_open_range]"]
      affected_never_outside [of sample_npm_window "[sample_npm_window]"] by simp
qed

text \<open>C9: a range with both bounds is a half-open interval. When the version can be placed
  against the introduced and the fixed bound, the answer is definite, and it is "outside"
  exactly when the version is below introduced or at or above fixed.\<close>
theorem range_half_open:
  assumes "rangeTypeOrderable (ar_type rng)" and "upper_plain rng v"
    and "ar_upper rng \<noteq> []" and "ar_lower rng \<noteq> []" and "ar_lower rng \<noteq> ''0''"
    and "compareVersions sv v (ar_lower rng) (ar_scheme rng) = Some a"
    and "compareVersions sv v (ar_upper rng) (ar_scheme rng) = Some b"
  shows "versionOutsideRange sv v rng = Some (a < 0 \<or> 0 \<le> b)"
  using assms upper_agrees [OF assms(2), of sv]
  by (auto simp: versionOutsideRange_def versionBelowIntroduced_def versionAboveRangeTop_def Let_def)

theorem range_half_open_witness:
  "versionOutsideRange sample_sv ''2.0.0'' sample_range = Some True"
proof -
  have "rangeTypeOrderable (ar_type sample_range) \<and> upper_plain sample_range ''2.0.0'' \<and>
    ar_upper sample_range \<noteq> [] \<and> ar_lower sample_range \<noteq> [] \<and> ar_lower sample_range \<noteq> ''0''" by code_simp
  moreover have "compareVersions sample_sv ''2.0.0'' (ar_lower sample_range) (ar_scheme sample_range) = Some 1 \<and>
    compareVersions sample_sv ''2.0.0'' (ar_upper sample_range) (ar_scheme sample_range) = Some 0" by code_simp
  ultimately show ?thesis using range_half_open [of sample_range "''2.0.0''" sample_sv 1 0] by simp
qed

text \<open>adding legacy ranges to an element only ever admits more: what the widened set
  clears, the element alone clears.\<close>
lemma legacy_admits_more:
  "rngs \<noteq> [] \<Longrightarrow> versionOutsideRanges sv v (withDisagreeingLegacyRanges rngs pkg facts scheme) = Some True \<Longrightarrow>
   versionOutsideRanges sv v rngs = Some True"
  by (auto simp: withDisagreeingLegacyRanges_def versionOutsideRanges_True split: if_splits)

lemma drop_lower_True:
  "versionOutsideRange sv f (drop_lower rng) = Some True \<longleftrightarrow> rangeTypeOrderable (ar_type rng) \<and>
    (if ar_upper rng \<noteq> [] \<or> ar_last rng = [] then versionOutsideUpper sv f (drop_lower rng) = Some True else False)"
  by (auto simp: versionOutsideRange_True drop_lower_def versionBelowIntroduced_def versionAboveRangeTop_def)

lemma toolchain_parse_empty: "parseGoToolchainBound [] = None"
  by (simp add: parseGoToolchainBound_def parseGoToolchainVersion_def has_prefix_def)

text \<open>C19: judging a floor is safe. If the floor f of the subject's Go toolchain, with the
  introduced bounds dropped as rangesForToolchainFloor does, is outside every range, then every
  toolchain t at or above f is outside every range as the advisory states it, introduced bounds
  included.\<close>
theorem toolchain_floor_clears:
  assumes "list_all (\<lambda>r. ar_scheme r = ''go-toolchain'') rngs"
    and "tf_bound tc = ToolchainBoundMinimum"
    and "versionOutsideRanges sv f (rangesForToolchainFloor (Some tc) rngs) = Some True"
    and "goToolchainVersionOutsideRange t f = Some True"
  shows "versionOutsideRanges sv t rngs = Some True"
proof -
  have all: "rngs \<noteq> []" "versionOutsideRange sv f (drop_lower r) = Some True" if "r \<in> set rngs" for r
    using assms(2,3) that by (auto simp: rangesForToolchainFloor_def versionOutsideRanges_True)
  have ne: "rngs \<noteq> []"
    using assms(2,3) by (auto simp: rangesForToolchainFloor_def versionOutsideRanges_True)
  have "versionOutsideRange sv t r = Some True" if r: "r \<in> set rngs" for r
  proof -
    have sch: "ar_scheme r = ''go-toolchain''" using assms(1) r by (auto simp: list_all_iff)
    have o: "rangeTypeOrderable (ar_type r)"
      "goToolchainVersionOutsideRange f (ar_upper r) = Some True"
      using all(2) [OF r, unfolded drop_lower_True] sch
      by (auto simp: versionOutsideUpper_def drop_lower_def split: if_splits)
    then have u: "ar_upper r \<noteq> []" using toolchain_parse_empty by (auto simp: toolchain.outside_Some)
    have "goToolchainVersionOutsideRange t (ar_upper r) = Some True"
      by (rule toolchain.outside_upward [OF o(2) assms(4)])
    then show ?thesis
      using o(1) u sch by (simp add: versionOutsideRange_True versionAboveRangeTop_def versionOutsideUpper_def)
  qed
  then show ?thesis using ne by (simp add: versionOutsideRanges_True)
qed

definition sample_stdlib_range :: affectedRange where
  "sample_stdlib_range = \<lparr>ar_upper = ''1.21.5'', ar_scheme = ''go-toolchain'', ar_lower = ''1.20.0'', ar_last = [], ar_type = ''SEMVER''\<rparr>"

definition sample_floor :: ToolchainFact where
  "sample_floor = \<lparr>tf_version = ''1.22.0'', tf_bound = ToolchainBoundMinimum, tf_source = [], tf_contradiction = None\<rparr>"

theorem toolchain_floor_clears_witness:
  "versionOutsideRanges sample_sv ''1.23.1'' [sample_stdlib_range] = Some True"
proof (rule toolchain_floor_clears)
  show "list_all (\<lambda>r. ar_scheme r = ''go-toolchain'') [sample_stdlib_range]" by code_simp
  show "tf_bound sample_floor = ToolchainBoundMinimum" by code_simp
  show "versionOutsideRanges sample_sv ''1.22.0'' (rangesForToolchainFloor (Some sample_floor) [sample_stdlib_range]) =
    Some True" by code_simp
  show "goToolchainVersionOutsideRange ''1.23.1'' ''1.22.0'' = Some True" by code_simp
qed

section \<open>Pairing legacy ranges\<close>

lemma take_first_Some:
  "take_first p xs = Some rest \<Longrightarrow> \<exists>x us vs. xs = us @ x # vs \<and> rest = us @ vs \<and> p x"
proof (induction xs arbitrary: rest)
  case (Cons y ys)
  show ?case
  proof (cases "p y")
    case True
    then show ?thesis using Cons.prems by (intro exI [of _ y] exI [of _ "[]"] exI [of _ ys]) auto
  next
    case False
    then obtain r where r: "take_first p ys = Some r" "rest = y # r" using Cons.prems by auto
    obtain x us vs where "ys = us @ x # vs" "r = us @ vs" "p x" using Cons.IH [OF r(1)] by blast
    then show ?thesis using r(2) by (intro exI [of _ x] exI [of _ "y # us"] exI [of _ vs]) auto
  qed
qed simp

lemma not_unpaired_matches:
  "\<not> unpaired avail ls \<Longrightarrow> length avail = length ls \<Longrightarrow>
    \<exists>ys. mset ys = mset avail \<and> list_all2 range_pairs ls ys"
proof (induction ls arbitrary: avail)
  case (Cons l ls)
  obtain rest where t: "take_first (range_pairs l) avail = Some rest" and n: "\<not> unpaired rest ls"
    using Cons.prems by (auto split: option.splits)
  obtain x us vs where x: "avail = us @ x # vs" "rest = us @ vs" "range_pairs l x"
    using take_first_Some [OF t] by blast
  obtain ys where "mset ys = mset rest" "list_all2 range_pairs ls ys"
    using Cons.IH [OF n] Cons.prems x by auto
  then show ?case using x by (intro exI [of _ "x # ys"]) auto
qed simp

text \<open>agreement is a one-to-one pairing. When the legacy ranges are found to agree with
  the element's, some rearrangement of the element's ranges matches them one by one on the
  fixed and last-affected bounds and on introduced wherever the legacy range states one.\<close>
theorem legacy_agreement_pairs:
  assumes "\<not> legacyRangesDisagree elem legacy"
  shows "\<exists>ys. mset ys = mset elem \<and> list_all2 range_pairs legacy ys"
  using assms not_unpaired_matches by (auto simp: legacyRangesDisagree_def split: if_splits)

theorem legacy_agreement_pairs_witness:
  "\<exists>ys. mset ys = mset [\<lparr>osv_introduced = ''1'', osv_fixed = ''2'', osv_last = [], osv_fixedVersion = [], osv_type = []\<rparr>] \<and>
     list_all2 range_pairs [\<lparr>osv_introduced = [], osv_fixed = ''2'', osv_last = [], osv_fixedVersion = [], osv_type = []\<rparr>] ys"
  by (rule legacy_agreement_pairs) code_simp

end
