(* ===== verification/Go_Manifest.thy ===== *)
theory Go_Manifest
  imports Assay_Prelude
begin

text \<open>
  Whether a Go build carries a module: goModRequires and its helpers in
  src/pipeline/stages.go, goPathOwner in src/pipeline/root_package.go and Tree.MayRequire in
  src/checkout/gomodtree/gomodtree.go. What the source reads from the file system, from the
  go command or through golang.org/x/mod/modfile is a field of the record \<open>go_env\<close>, decoded
  (None where the read or the parse fails); go.sum and vendor/modules.txt are text the model
  parses itself, and go/version (standard library) is modelled. The lemmas bound what a proven
  absence rests on.
\<close>

section \<open>go/version\<close>

record gover =
  gv_major :: gostring
  gv_minor :: gostring
  gv_patch :: gostring
  gv_kind :: gostring
  gv_pre :: gostring

definition cutInt :: "gostring \<Rightarrow> (gostring \<times> gostring) option" where
  "cutInt x =
    (let d = takeWhile is_digit x in
     if d = [] \<or> has_prefix d ''0'' \<and> length d \<noteq> 1 then None else Some (d, drop (length d) x))"

definition lower_letter :: "char \<Rightarrow> bool" where
  "lower_letter c = in_range CHR ''a'' CHR ''z'' c"

definition gover_make :: "gostring \<Rightarrow> gostring \<Rightarrow> gostring \<Rightarrow> gostring \<Rightarrow> gostring \<Rightarrow> gover" where
  "gover_make a b c k p = \<lparr>gv_major = a, gv_minor = b, gv_patch = c, gv_kind = k, gv_pre = p\<rparr>"

definition digits_cmp :: "gostring \<Rightarrow> gostring \<Rightarrow> int" where
  "digits_cmp x y = cmp_then (cmp_ord (length x) (length y)) (strings_compare x y)"

definition gover_tail :: "gostring \<Rightarrow> gostring \<Rightarrow> gostring \<Rightarrow> gover option" where
  "gover_tail major minor x =
    (case x of
       [] \<Rightarrow> Some (gover_make major minor (if digits_cmp minor ''21'' < 0 then ''0'' else []) [] [])
     | c # r \<Rightarrow>
         if c = CHR ''.'' then
           (case cutInt r of
              None \<Rightarrow> None
            | Some (patch, rest) \<Rightarrow> if rest \<noteq> [] then None else Some (gover_make major minor patch [] []))
         else
           (let k = takeWhile (\<lambda>b. \<not> is_digit b) x; n = drop (length k) x in
            if k = [] \<or> \<not> list_all lower_letter k then None
            else if n = [] then Some (gover_make major minor [] k [])
            else case cutInt n of
              None \<Rightarrow> None
            | Some (p, rest) \<Rightarrow> if rest \<noteq> [] then None else Some (gover_make major minor [] k p)))"

definition gover_parse :: "gostring \<Rightarrow> gover option" where
  "gover_parse x0 =
    (case cutInt x0 of
       None \<Rightarrow> None
     | Some (major, x) \<Rightarrow>
         (case x of
            [] \<Rightarrow> Some (gover_make major ''0'' ''0'' [] [])
          | c # r \<Rightarrow>
              if c \<noteq> CHR ''.'' then None
              else case cutInt r of
                None \<Rightarrow> None
              | Some (minor, rest) \<Rightarrow> gover_tail major minor rest))"

definition gover_cmp :: "gover \<Rightarrow> gover \<Rightarrow> int" where
  "gover_cmp a b =
    cmp_then (digits_cmp (gv_major a) (gv_major b))
     (cmp_then (digits_cmp (gv_minor a) (gv_minor b))
       (cmp_then (digits_cmp (gv_patch a) (gv_patch b))
         (cmp_then (strings_compare (gv_kind a) (gv_kind b))
           (digits_cmp (gv_pre a) (gv_pre b)))))"

text \<open>go/version drops a "-suffix" before it parses.\<close>

definition strip_suffix :: "gostring \<Rightarrow> gostring" where
  "strip_suffix v = (case go_cut v ''-'' of None \<Rightarrow> v | Some (a, b) \<Rightarrow> a)"

definition goVersionAtLeast :: "gostring \<Rightarrow> gostring \<Rightarrow> bool" where
  "goVersionAtLeast v lo =
    (case gover_parse (strip_suffix v) of
       None \<Rightarrow> False
     | Some a \<Rightarrow> (case gover_parse (strip_suffix lo) of None \<Rightarrow> True | Some b \<Rightarrow> gover_cmp a b \<ge> 0))"

section \<open>The build\<close>

record go_mod =
  gm_module :: "gostring option"
  gm_requires :: "gostring list"
  gm_replaces :: "gostring list"
  gm_go :: "gostring option"

datatype file_read = NotExist | ReadError | Contents gostring

record tree_module =
  tm_path :: gostring
  tm_requires :: "gostring list"
  tm_bounded :: bool

record mod_tree =
  mt_complete :: bool
  mt_modules :: "tree_module list"

text \<open>\<open>ge_stat\<close> answers os.Stat on the go.mod of a directory below the build directory,
  given by its path elements (path.Join and filepath.FromSlash are in it);
  \<open>ge_tree\<close>, \<open>ge_work_modules\<close> and \<open>ge_work_requires\<close> are the results of
  goTreeModules, goWorkModules and goWorkRequires; \<open>ge_uses\<close> the parsed go.mod of each
  module the go.work uses (the list itself None when the go.work does not parse); \<open>ge_build_list\<close>
  the go command's build list as (path, main) pairs; \<open>ge_work_here\<close> whether a go.work file sits
  in the build directory.\<close>

record go_env =
  ge_buildDir :: gostring
  ge_ws_file :: gostring
  ge_gomod :: "go_mod option"
  ge_stat :: "gostring list \<Rightarrow> bool"
  ge_tree :: "(gostring list \<times> gostring list) option"
  ge_work_modules :: "gostring list option"
  ge_work_requires :: "gostring list option"
  ge_gosum :: file_read
  ge_vendor :: file_read
  ge_uses :: "go_mod option list option"
  ge_build_list :: "(gostring \<times> bool) list option"
  ge_work_here :: bool
  ge_nested :: mod_tree

definition under :: "gostring \<Rightarrow> gostring \<Rightarrow> bool" where
  "under p root = (root \<noteq> [] \<and> (p = root \<or> has_prefix p (root @ ''/'')))"

text \<open>The inline test \<open>module == path || strings.HasPrefix(module, path+"/")\<close>.\<close>

definition names :: "gostring \<Rightarrow> gostring \<Rightarrow> bool" where
  "names module p = (module = p \<or> has_prefix module (p @ ''/''))"

definition MayRequire :: "mod_tree \<Rightarrow> gostring \<Rightarrow> bool" where
  "MayRequire t module =
    (if \<not> mt_complete t then True
     else list_ex (\<lambda>m. \<not> tm_bounded m \<or> under module (tm_path m) \<or> list_ex (under module) (tm_requires m))
       (mt_modules t))"

section \<open>Who owns an import path\<close>

datatype goOwner = OwnedElsewhere | OwnedByRoot | OwnerAmbiguous

definition goMajorSuffix :: "gostring \<Rightarrow> bool" where
  "goMajorSuffix s = (case s of [] \<Rightarrow> False | c # r \<Rightarrow> c = CHR ''v'' \<and> all_digits r)"

definition claims :: "gostring \<Rightarrow> gostring \<Rightarrow> gostring \<Rightarrow> bool" where
  "claims md p m = (length m > length md \<and> (p = m \<or> has_prefix p (m @ ''/'')))"

definition sum_modules :: "file_read \<Rightarrow> gostring list" where
  "sum_modules f =
    (case f of
       Contents t \<Rightarrow> map hd (filter (\<lambda>fs. length fs > 0) (map go_fields (go_split t [CHR 0x0A])))
     | _ \<Rightarrow> [])"

definition goPathOwner :: "go_env \<Rightarrow> gostring \<Rightarrow> gostring \<Rightarrow> goOwner" where
  "goPathOwner env md p =
    (if p = md then OwnedByRoot
     else if \<not> has_prefix p (md @ ''/'') \<or> drop (length md + 1) p = [] then OwnedElsewhere
     else
       (let elems = go_split (drop (length md + 1) p) ''/'' in
        if goMajorSuffix (elems ! 0) then OwnedElsewhere
        else if list_ex (\<lambda>i. ge_stat env (take (i + 1) elems)) [0..<length elems] then OwnedElsewhere
        else case ge_tree env of None \<Rightarrow> OwnerAmbiguous | Some (others, outside) \<Rightarrow>
             case ge_work_modules env of None \<Rightarrow> OwnerAmbiguous | Some members \<Rightarrow>
             if list_ex (claims md p) (others @ members) then OwnedElsewhere
             else case ge_gomod env of None \<Rightarrow> OwnerAmbiguous | Some mf \<Rightarrow>
             if list_ex (claims md p) (gm_requires mf) then OwnedElsewhere
             else if list_ex (claims md p) (gm_replaces mf) then OwnedElsewhere
             else case ge_work_requires env of None \<Rightarrow> OwnerAmbiguous | Some work \<Rightarrow>
             if list_ex (claims md p) (outside @ work) then OwnerAmbiguous
             else if list_ex (claims md p) (sum_modules (ge_gosum env)) then OwnerAmbiguous
             else OwnedByRoot))"

section \<open>go.sum and vendor/modules.txt\<close>

fun sum_scan :: "gostring \<Rightarrow> gostring list \<Rightarrow> bool \<Rightarrow> bool \<times> bool" where
  "sum_scan module [] present = (present, True)"
| "sum_scan module (line # rest) present =
    (let f = go_fields line in
     if length f = 0 then sum_scan module rest present
     else if length f \<noteq> 3 \<or> \<not> has_prefix (f ! 2) ''h1:'' then (False, False)
     else if has_suffix (f ! 1) ''/go.mod'' then sum_scan module rest present
     else sum_scan module rest (if names module (f ! 0) then True else present))"

definition goSumHas :: "file_read \<Rightarrow> gostring \<Rightarrow> bool \<times> bool" where
  "goSumHas f module =
    (case f of Contents t \<Rightarrow> sum_scan module (go_split t [CHR 0x0A]) False | _ \<Rightarrow> (False, False))"

fun vendor_scan :: "gostring \<Rightarrow> gostring list \<Rightarrow> bool \<Rightarrow> bool \<times> bool" where
  "vendor_scan module [] present = (present, True)"
| "vendor_scan module (line # rest) present =
    (if \<not> has_prefix line ''#'' \<or> has_prefix line ''##'' then vendor_scan module rest present
     else
       (let f = go_fields line in
        if length f < 2 \<or> f ! 0 \<noteq> ''#'' then (False, False)
        else vendor_scan module rest (if names module (f ! 1) then True else present)))"

definition goVendorHas :: "file_read \<Rightarrow> gostring \<Rightarrow> bool \<times> bool" where
  "goVendorHas f module =
    (case f of
       NotExist \<Rightarrow> (False, True)
     | ReadError \<Rightarrow> (False, False)
     | Contents t \<Rightarrow> vendor_scan module (go_split t [CHR 0x0A]) False)"

definition goModBuilds :: "go_env \<Rightarrow> go_mod \<Rightarrow> gostring \<Rightarrow> bool \<times> bool" where
  "goModBuilds env mf module =
    (if list_ex (names module) (gm_replaces mf) then (True, True)
     else if (case gm_go mf of None \<Rightarrow> False | Some v \<Rightarrow> goVersionAtLeast v ''1.17'') then (False, True)
     else
       (let (present, ok) = goVendorHas (ge_vendor env) module in
        if present \<or> \<not> ok then (present, ok) else goSumHas (ge_gosum env) module))"

section \<open>Membership\<close>

definition declares :: "gostring \<Rightarrow> go_mod \<Rightarrow> bool" where
  "declares module mf = list_ex (names module) (gm_requires mf)"

text \<open>One module the go.work uses: Some answer ends the loop.\<close>

fun use_scan :: "gostring \<Rightarrow> gostring \<Rightarrow> go_mod option list \<Rightarrow> (bool \<times> bool) option" where
  "use_scan root module [] = None"
| "use_scan root module (u # us) =
    (case u of
       None \<Rightarrow> Some (False, False)
     | Some wm \<Rightarrow>
         (case gm_module wm of
            None \<Rightarrow> Some (False, False)
          | Some p \<Rightarrow>
              if p \<noteq> root \<and> names module p \<or> declares module wm then Some (True, True)
              else use_scan root module us))"

definition go_decide_rest :: "go_env \<Rightarrow> go_mod \<Rightarrow> gostring \<Rightarrow> bool \<times> bool" where
  "go_decide_rest env mf module =
    (if ge_ws_file env \<noteq> [] then
       (case ge_build_list env of
          None \<Rightarrow> (False, False)
        | Some mods \<Rightarrow>
            if list_ex (\<lambda>(p, main). \<not> main \<and> names module p) mods then (True, True)
            else if MayRequire (ge_nested env) module then (False, False) else (False, True))
     else if ge_work_here env then (False, False)
     else
       (let (present, known) = goModBuilds env mf module in
        if present \<or> \<not> known then (present, known)
        else if MayRequire (ge_nested env) module then (False, False) else (False, True)))"

definition goModRequires :: "go_env \<Rightarrow> gostring \<Rightarrow> bool \<times> bool" where
  "goModRequires env module =
    (if ge_buildDir env = [] \<or> module = [] then (False, False)
     else case ge_gomod env of
       None \<Rightarrow> (False, False)
     | Some mf \<Rightarrow>
         (let root = (case gm_module mf of None \<Rightarrow> [] | Some r \<Rightarrow> r) in
          if gm_module mf \<noteq> None \<and> goPathOwner env root module \<noteq> OwnedElsewhere then (True, True)
          else if declares module mf then (True, True)
          else case (if ge_ws_file env = [] then Some [] else ge_uses env) of
            None \<Rightarrow> (False, False)
          | Some uses \<Rightarrow>
              (case use_scan root module uses of
                 Some answer \<Rightarrow> answer
               | None \<Rightarrow> go_decide_rest env mf module)))"

section \<open>What a proven absence rests on\<close>

text \<open>A module of the go.work that was read and neither is nor declares the sought one.\<close>

definition use_free :: "gostring \<Rightarrow> gostring \<Rightarrow> go_mod option \<Rightarrow> bool" where
  "use_free root module u =
    (case u of None \<Rightarrow> False
     | Some wm \<Rightarrow> (case gm_module wm of None \<Rightarrow> False
         | Some p \<Rightarrow> (p = root \<or> \<not> names module p) \<and> \<not> declares module wm))"

text \<open>A vendor/modules.txt that is not there, or whose module lines are all in the grammar and name
  another module; a go.sum that was read, whose lines are all in the grammar and whose module
  lines (not those of a go.mod alone) name another module.\<close>

definition vendor_line_free :: "gostring \<Rightarrow> gostring \<Rightarrow> bool" where
  "vendor_line_free module line =
    (\<not> has_prefix line ''#'' \<or> has_prefix line ''##'' \<or>
     length (go_fields line) \<ge> 2 \<and> go_fields line ! 0 = ''#'' \<and> \<not> names module (go_fields line ! 1))"

definition vendor_free :: "gostring \<Rightarrow> file_read \<Rightarrow> bool" where
  "vendor_free module f =
    (case f of NotExist \<Rightarrow> True | ReadError \<Rightarrow> False
     | Contents t \<Rightarrow> list_all (vendor_line_free module) (go_split t [CHR 0x0A]))"

definition sum_line_free :: "gostring \<Rightarrow> gostring \<Rightarrow> bool" where
  "sum_line_free module line =
    (go_fields line = [] \<or>
     length (go_fields line) = 3 \<and> has_prefix (go_fields line ! 2) ''h1:'' \<and>
     (has_suffix (go_fields line ! 1) ''/go.mod'' \<or> \<not> names module (go_fields line ! 0)))"

definition sum_free :: "gostring \<Rightarrow> file_read \<Rightarrow> bool" where
  "sum_free module f =
    (case f of Contents t \<Rightarrow> list_all (sum_line_free module) (go_split t [CHR 0x0A]) | _ \<Rightarrow> False)"

text \<open>A checkout whose every other module is known, has bounded requirements, and neither is nor
  requires the sought one.\<close>

definition nested_free :: "gostring \<Rightarrow> mod_tree \<Rightarrow> bool" where
  "nested_free module t =
    (mt_complete t \<and> list_all (\<lambda>m. tm_bounded m \<and> \<not> under module (tm_path m) \<and>
       list_all (\<lambda>r. \<not> under module r) (tm_requires m)) (mt_modules t))"

lemma MayRequire_nested: "MayRequire t module \<longleftrightarrow> \<not> nested_free module t"
  by (auto simp: MayRequire_def nested_free_def list_all_iff list_ex_iff)

lemma use_scan_cases:
  "use_scan root module us = Some r \<Longrightarrow> r \<in> {(False, False), (True, True)}"
  "use_scan root module us = None \<longleftrightarrow> list_all (use_free root module) us"
  by (induction us) (auto simp: use_free_def split: option.splits if_splits)

lemma sum_scan_absent:
  "sum_scan module ls b = (False, True) \<longleftrightarrow> \<not> b \<and> list_all (sum_line_free module) ls"
  by (induction ls arbitrary: b) (auto simp: Let_def sum_line_free_def)

lemma vendor_scan_absent:
  "vendor_scan module ls b = (False, True) \<longleftrightarrow> \<not> b \<and> list_all (vendor_line_free module) ls"
  by (induction ls arbitrary: b) (auto simp: Let_def vendor_line_free_def)

lemma goSumHas_absent: "goSumHas f module = (False, True) \<longleftrightarrow> sum_free module f"
  by (cases f) (simp_all add: goSumHas_def sum_free_def sum_scan_absent)

lemma goVendorHas_absent: "goVendorHas f module = (False, True) \<longleftrightarrow> vendor_free module f"
  by (cases f) (simp_all add: goVendorHas_def vendor_free_def vendor_scan_absent)

lemma sum_scan_known: "sum_scan module ls b = (True, k) \<Longrightarrow> k"
  by (induction ls arbitrary: b) (auto simp: Let_def split: if_splits)

lemma vendor_scan_known: "vendor_scan module ls b = (True, k) \<Longrightarrow> k"
  by (induction ls arbitrary: b) (auto simp: Let_def split: if_splits)

lemma goModBuilds_known: "goModBuilds env mf module = (True, k) \<Longrightarrow> k"
  by (auto simp: goModBuilds_def goSumHas_def goVendorHas_def Let_def
      split: if_splits prod.splits file_read.splits dest: sum_scan_known vendor_scan_known)

lemma goModBuilds_absent:
  "goModBuilds env mf module = (False, True) \<longleftrightarrow>
    \<not> list_ex (names module) (gm_replaces mf) \<and>
    ((\<exists>v. gm_go mf = Some v \<and> goVersionAtLeast v ''1.17'') \<or>
     vendor_free module (ge_vendor env) \<and> sum_free module (ge_gosum env))"
proof -
  obtain p k where v: "goVendorHas (ge_vendor env) module = (p, k)" by fastforce
  show ?thesis
    using goVendorHas_absent [of "ge_vendor env" module] goSumHas_absent [of "ge_gosum env" module] v
    by (auto simp: goModBuilds_def split: option.split)
qed

lemma go_decide_rest_absent:
  "go_decide_rest env mf module = (False, True) \<longleftrightarrow> nested_free module (ge_nested env) \<and>
    (if ge_ws_file env = [] then \<not> ge_work_here env \<and> goModBuilds env mf module = (False, True)
     else (\<exists>mods. ge_build_list env = Some mods \<and> list_all (\<lambda>(p, main). main \<or> \<not> names module p) mods))"
proof (cases "ge_ws_file env = []")
  case True
  obtain p k where b: "goModBuilds env mf module = (p, k)" by fastforce
  show ?thesis using True b by (auto simp: go_decide_rest_def MayRequire_nested)
next
  case False
  then show ?thesis
    by (auto simp: go_decide_rest_def MayRequire_nested list_ex_iff list_all_iff split: option.split)
qed

lemma go_decide_rest_known: "go_decide_rest env mf module = (True, k) \<Longrightarrow> k"
  by (auto simp: go_decide_rest_def Let_def split: option.splits prod.splits if_splits
      dest: goModBuilds_known)

text \<open>An answer is presence, proven absence or unknown: the oracle never says "present" of a
  manifest it could not read.\<close>

lemma go_membership_known: "goModRequires env module = (True, k) \<Longrightarrow> k"
  by (auto simp: goModRequires_def Let_def split: option.splits if_splits
      dest: use_scan_cases(1) go_decide_rest_known)

text \<open>C20: exactly what a proven absence rests on. goModRequires proves a module absent exactly when there is a
  build directory and a module to look for; go.mod was read and parsed, does not require it, and the
  module path go.mod declares, if it declares one, does not own it; every other module of the checkout is
  known and may not require it; and, under a go.work, each module it uses was read, has a path,
  neither is the sought one (unless it is this module itself) nor requires it, and the build list was
  computed and names it only as a main module; or, without one, no go.work sits in the build
  directory, no replace names it, and go.mod is of go 1.17 or later, or else vendor/modules.txt is
  absent or was read, and go.sum was read, every line of them in the grammar and none naming it.\<close>
theorem go_absence_proof:
  "goModRequires env module = (False, True) \<longleftrightarrow>
    ge_buildDir env \<noteq> [] \<and> module \<noteq> [] \<and>
    (\<exists>mf root. ge_gomod env = Some mf \<and> root = (case gm_module mf of None \<Rightarrow> [] | Some r \<Rightarrow> r) \<and>
      (gm_module mf = None \<or> goPathOwner env root module = OwnedElsewhere) \<and>
      \<not> declares module mf \<and> nested_free module (ge_nested env) \<and>
      (if ge_ws_file env = []
       then \<not> ge_work_here env \<and> \<not> list_ex (names module) (gm_replaces mf) \<and>
         ((\<exists>v. gm_go mf = Some v \<and> goVersionAtLeast v ''1.17'') \<or>
          vendor_free module (ge_vendor env) \<and> sum_free module (ge_gosum env))
       else (\<exists>uses mods. ge_uses env = Some uses \<and> list_all (use_free root module) uses \<and>
         ge_build_list env = Some mods \<and> list_all (\<lambda>(p, main). main \<or> \<not> names module p) mods)))"
proof (cases "ge_buildDir env = [] \<or> module = [] \<or> ge_gomod env = None")
  case True
  then show ?thesis by (auto simp: goModRequires_def)
next
  case False
  then obtain mf where g: "ge_buildDir env \<noteq> []" "module \<noteq> []" "ge_gomod env = Some mf" by auto
  define root where "root = (case gm_module mf of None \<Rightarrow> [] | Some r \<Rightarrow> r)"
  let ?uses = "if ge_ws_file env = [] then Some [] else ge_uses env"
  have "goModRequires env module = (False, True) \<longleftrightarrow>
    (gm_module mf = None \<or> goPathOwner env root module = OwnedElsewhere) \<and> \<not> declares module mf \<and>
    (\<exists>uses. ?uses = Some uses \<and> use_scan root module uses = None) \<and> go_decide_rest env mf module = (False, True)"
  proof (cases ?uses)
    case None
    then show ?thesis using g by (auto simp: goModRequires_def root_def [symmetric] Let_def)
  next
    case (Some uses)
    have "use_scan root module uses \<noteq> Some (False, True)" using use_scan_cases(1) [of root module uses] by auto
    then show ?thesis
      using g Some by (cases "use_scan root module uses") (auto simp: goModRequires_def root_def [symmetric] Let_def)
  qed
  also have "(\<exists>uses. ?uses = Some uses \<and> use_scan root module uses = None) \<longleftrightarrow>
    (\<exists>uses. ?uses = Some uses \<and> list_all (use_free root module) uses)" by (simp add: use_scan_cases(2))
  finally show ?thesis
    using g unfolding go_decide_rest_absent goModBuilds_absent root_def
    by (cases "ge_ws_file env = []") (simp, auto)
qed

definition sample_gomod :: go_mod where
  "sample_gomod = \<lparr>gm_module = Some ''app'', gm_requires = [''a.com/b''], gm_replaces = [], gm_go = Some ''1.21''\<rparr>"

definition sample_env :: go_env where
  "sample_env = \<lparr>ge_buildDir = ''/app'', ge_ws_file = [], ge_gomod = Some sample_gomod, ge_stat = \<lambda>_. False,
     ge_tree = Some ([''app''], []), ge_work_modules = None, ge_work_requires = None,
     ge_gosum = Contents ''a.com/b v1.0.0 h1:x'', ge_vendor = NotExist, ge_uses = None, ge_build_list = None,
     ge_work_here = False, ge_nested = \<lparr>mt_complete = True, mt_modules = []\<rparr>\<rparr>"

definition sample_old_env :: go_env where
  "sample_old_env = sample_env
     \<lparr>ge_gomod := Some (sample_gomod\<lparr>gm_go := Some ''1.16''\<rparr>),
      ge_gosum := Contents (''a.com/b v1.0.0 h1:x'' @ [CHR 0x0A] @ ''c.com/d v1.0.0/go.mod h1:y'')\<rparr>"

theorem go_absence_proof_witness:
  "goModRequires sample_env ''c.com/d'' = (False, True) \<and> goModRequires sample_old_env ''c.com/d'' = (False, True) \<and>
   goModRequires (sample_old_env\<lparr>ge_gosum := ReadError\<rparr>) ''c.com/d'' \<noteq> (False, True)"
proof -
  have "declares ''c.com/d'' sample_gomod = False" "declares ''c.com/d'' (sample_gomod\<lparr>gm_go := Some ''1.16''\<rparr>) = False"
    "nested_free ''c.com/d'' (ge_nested sample_env) = True" "goPathOwner sample_env ''app'' ''c.com/d'' = OwnedElsewhere"
    "goPathOwner sample_old_env ''app'' ''c.com/d'' = OwnedElsewhere" "goVersionAtLeast ''1.21'' ''1.17'' = True"
    "goVersionAtLeast ''1.16'' ''1.17'' = False" "sum_free ''c.com/d'' (ge_gosum sample_old_env) = True"
    "list_ex (names ''c.com/d'') (gm_replaces sample_gomod) = False"
    by code_simp+
  then show ?thesis
    unfolding go_absence_proof
    by (simp add: sample_env_def sample_old_env_def vendor_free_def sum_free_def) (simp add: sample_gomod_def)
qed

end
