(* ===== verification/Disqualification.thy ===== *)
theory Disqualification
  imports Affected_Range Go_Manifest
begin

text \<open>
  The stages that settle an advisory before any call graph is built: malicious_presence and
  disqualification_discovery of src/pipeline/stages.go, with the readers they use and
  src/pipeline/manifest_membership.go. A query of the artifact store has four outcomes (type
  \<open>query\<close>); a payload is the decoded record of the fields the modelled readers take, so
  it decodes for all of them or for none. \<open>sv\<close> is golang.org/x/mod/semver and \<open>env\<close> the Go
  build (theory Go_Manifest). A stage returns an error or the artifact it puts, if any.
  The lemmas show that every uncertainty leaves the advisory open.
\<close>

section \<open>Artifacts\<close>

datatype 'a query = QueryError | NoArtifact | BadPayload | Payload 'a

definition decoded :: "'a query \<Rightarrow> 'a option" where
  "decoded q = (case q of Payload x \<Rightarrow> Some x | _ \<Rightarrow> None)"

record presentPackage =
  pp_module :: gostring
  pp_coordinate :: gostring
  pp_versions :: "gostring list"
  pp_complete :: bool

record manifestMembership =
  mm_ecosystem :: gostring
  mm_coordinates :: "gostring list"
  mm_present :: bool
  mm_known :: bool

record inventory =
  inv_language :: gostring
  inv_buildDir :: gostring
  inv_checkoutRoot :: gostring
  inv_resolvedVersion :: gostring
  inv_resolvedVersions :: "gostring list"
  inv_versionsComplete :: bool
  inv_presenceVersion :: gostring
  inv_selectedModule :: gostring
  inv_selectedCoordinate :: gostring
  inv_root :: bool
  inv_goFloor :: gostring
  inv_toolchain :: ToolchainFact
  inv_alsoPresent :: "presentPackage list"
  inv_membership :: "manifestMembership option"

record advisoryAffectedPackage =
  aap_module :: gostring
  aap_coordinate :: gostring
  aap_purl :: gostring
  aap_ranges :: "affectedRange list"
  aap_symbols :: "gostring list"

record advisory =
  adv_module :: gostring
  adv_coordinate :: gostring
  adv_purl :: gostring
  adv_ranges :: "affectedRange list"
  adv_packages :: "advisoryAffectedPackage list"
  adv_dropped :: "gostring list"
  adv_symbols :: "gostring list"
  adv_conditional :: "gostring list"
  adv_symbolPresence :: gostring
  adv_trustTier :: gostring
  adv_malicious :: "gostring list option"

record DisqualResult =
  dq_disqualified :: bool
  dq_reason :: gostring

record case_store =
  st_inventory :: "inventory query"
  st_advisory :: "advisory query"
  st_discovery :: "DisqualResult query"

definition inv_of :: "case_store \<Rightarrow> inventory option" where
  "inv_of st = decoded (st_inventory st)"

definition adv_of :: "case_store \<Rightarrow> advisory option" where
  "adv_of st = decoded (st_advisory st)"

definition ReasonVersionNotInRange :: gostring where
  "ReasonVersionNotInRange = ''version_not_in_affected_range''"
definition ReasonSymbolAbsent :: gostring where
  "ReasonSymbolAbsent = ''vulnerable_symbol_absent''"
definition ReasonInsufficient :: gostring where
  "ReasonInsufficient = ''insufficient_evidence_to_disqualify''"
definition ReasonAdvisoryEcosystemMismatch :: gostring where
  "ReasonAdvisoryEcosystemMismatch = ''advisory_ecosystem_mismatch''"
definition ReasonNoManifestEntry :: gostring where
  "ReasonNoManifestEntry = ''no_manifest_entry''"

lemmas reason_defs = ReasonVersionNotInRange_def ReasonSymbolAbsent_def ReasonInsufficient_def
  ReasonAdvisoryEcosystemMismatch_def ReasonNoManifestEntry_def

section \<open>Ecosystems\<close>

definition purlEcosystem :: "gostring \<Rightarrow> gostring" where
  "purlEcosystem purl =
    (if \<not> has_prefix purl ''pkg:'' then []
     else
       (let rest = drop 4 purl in
        case index_byte rest CHR ''/'' of
          None \<Rightarrow> []
        | Some i \<Rightarrow> if i = 0 then [] else to_lower (take i rest)))"

definition languageEcosystem :: "gostring \<Rightarrow> gostring" where
  "languageEcosystem language =
    (if language = ''go'' then ''golang''
     else if language = ''java'' then ''maven''
     else if language = ''kotlin'' then ''maven''
     else if language = ''javascript'' \<or> language = ''js'' then ''npm''
     else [])"

definition membershipEcosystem :: "gostring \<Rightarrow> gostring" where
  "membershipEcosystem language =
    (if language = ''python'' then ''pypi''
     else if language = ''javascript'' \<or> language = ''js'' then ''npm''
     else if language = ''java'' \<or> language = ''kotlin'' then ''maven''
     else if language = ''dotnet'' then ''nuget''
     else [])"

definition schemeFromPURL :: "gostring \<Rightarrow> gostring" where
  "schemeFromPURL purl =
    (let e = purlEcosystem purl in
     if e = ''maven'' then ''maven'' else if e = ''npm'' then ''npm'' else if e = ''pypi'' then ''pypi''
     else if e = ''nuget'' then ''nuget'' else if e = ''golang'' then ''gomod'' else [])"

definition cut_at :: "char \<Rightarrow> gostring \<Rightarrow> gostring" where
  "cut_at c s = (case index_byte s c of None \<Rightarrow> s | Some i \<Rightarrow> take i s)"

definition isGoStdlibPURL :: "gostring \<Rightarrow> bool" where
  "isGoStdlibPURL purl =
    (if purlEcosystem purl \<noteq> ''golang'' then False
     else
       (let name0 = drop 4 purl;
            name1 = (case index_byte name0 CHR ''/'' of None \<Rightarrow> name0 | Some i \<Rightarrow> drop (i + 1) name0)
        in equal_fold (cut_at CHR ''@'' (cut_at CHR ''?'' (cut_at CHR ''#'' name1))) ''stdlib''))"

section \<open>The selected package\<close>

text \<open>The loop of affectedPackageNamed: the merged entry so far, and whether some entry had no
  ranges or no symbols.\<close>

definition aap_named :: "gostring \<Rightarrow> gostring \<Rightarrow> advisoryAffectedPackage \<Rightarrow> bool" where
  "aap_named module coordinate p =
    (module \<noteq> [] \<and> aap_module p = module \<or> coordinate \<noteq> [] \<and> aap_coordinate p = coordinate)"

definition add_missing :: "gostring list \<Rightarrow> gostring list \<Rightarrow> gostring list" where
  "add_missing = foldl (\<lambda>out s. if s \<in> set out then out else out @ [s])"

fun merge_named ::
  "advisoryAffectedPackage list \<Rightarrow> gostring \<Rightarrow> gostring \<Rightarrow>
   advisoryAffectedPackage option \<Rightarrow> bool \<Rightarrow> bool \<Rightarrow> advisoryAffectedPackage option" where
  "merge_named [] module coordinate out rangeless blind =
    map_option (\<lambda>p.
      let p1 = (if rangeless then p\<lparr>aap_ranges := []\<rparr> else p)
      in if blind then p1\<lparr>aap_symbols := []\<rparr> else p1) out"
| "merge_named (p # ps) module coordinate out rangeless blind =
    (if \<not> aap_named module coordinate p then merge_named ps module coordinate out rangeless blind
     else
       merge_named ps module coordinate
         (case out of
            None \<Rightarrow> Some p
          | Some q \<Rightarrow> Some (q\<lparr>aap_ranges := aap_ranges q @ aap_ranges p,
                              aap_symbols := add_missing (aap_symbols q) (aap_symbols p)\<rparr>))
         (rangeless \<or> length (aap_ranges p) = 0) (blind \<or> length (aap_symbols p) = 0))"

definition affectedPackageNamed ::
  "advisoryAffectedPackage list \<Rightarrow> gostring \<Rightarrow> gostring \<Rightarrow> advisoryAffectedPackage option" where
  "affectedPackageNamed pkgs module coordinate = merge_named pkgs module coordinate None False False"

definition extractSelectedPackage :: "case_store \<Rightarrow> advisoryAffectedPackage option" where
  "extractSelectedPackage st =
    (case inv_of st of None \<Rightarrow> None | Some ivy \<Rightarrow>
     if inv_selectedModule ivy = [] \<and> inv_selectedCoordinate ivy = [] then None
     else case adv_of st of None \<Rightarrow> None | Some adv \<Rightarrow>
     affectedPackageNamed (adv_packages adv) (inv_selectedModule ivy) (inv_selectedCoordinate ivy))"

definition extractAdvisoryEcosystem :: "case_store \<Rightarrow> gostring" where
  "extractAdvisoryEcosystem st =
    (case extractSelectedPackage st of
       Some sel \<Rightarrow>
         if aap_purl sel \<noteq> [] then purlEcosystem (aap_purl sel)
         else (case adv_of st of None \<Rightarrow> [] | Some adv \<Rightarrow> purlEcosystem (adv_purl adv))
     | None \<Rightarrow> (case adv_of st of None \<Rightarrow> [] | Some adv \<Rightarrow> purlEcosystem (adv_purl adv)))"

definition extractCodebaseEcosystem :: "case_store \<Rightarrow> gostring" where
  "extractCodebaseEcosystem st =
    (case inv_of st of None \<Rightarrow> [] | Some ivy \<Rightarrow> languageEcosystem (inv_language ivy))"

definition extractAdvisoryModule :: "case_store \<Rightarrow> gostring option" where
  "extractAdvisoryModule st =
    (let m = (case extractSelectedPackage st of
                Some sel \<Rightarrow> aap_module sel
              | None \<Rightarrow> (case adv_of st of None \<Rightarrow> [] | Some adv \<Rightarrow> adv_module adv))
     in if m = [] then None else Some m)"

definition extractAffectedRange :: "case_store \<Rightarrow> affectedRange list option" where
  "extractAffectedRange st =
    (case extractSelectedPackage st of
       Some sel \<Rightarrow> validAffectedRanges (aap_ranges sel)
     | None \<Rightarrow> (case adv_of st of None \<Rightarrow> None | Some adv \<Rightarrow> validAffectedRanges (adv_ranges adv)))"

definition assessedRanges :: "case_store \<Rightarrow> affectedRange list option" where
  "assessedRanges st =
    (case extractSelectedPackage st of
       Some sel \<Rightarrow> Some (aap_ranges sel)
     | None \<Rightarrow> map_option adv_ranges (adv_of st))"

definition AdvisoryRangeAbsent :: "case_store \<Rightarrow> bool" where
  "AdvisoryRangeAbsent st =
    (case assessedRanges st of None \<Rightarrow> False | Some ranges \<Rightarrow> \<not> anyBounded ranges)"

record RecordedBound =
  rb_type :: gostring
  rb_introduced :: gostring
  rb_fixed :: gostring
  rb_last :: gostring

definition AdvisoryRecordedBounds :: "case_store \<Rightarrow> RecordedBound list" where
  "AdvisoryRecordedBounds st =
    (case assessedRanges st of
       None \<Rightarrow> []
     | Some ranges \<Rightarrow>
         if anyBounded ranges then []
         else map (\<lambda>r. \<lparr>rb_type = ar_type r, rb_introduced = ar_lower r, rb_fixed = ar_upper r, rb_last = ar_last r\<rparr>)
           (filter (\<lambda>r. ar_lower r \<noteq> [] \<or> ar_upper r \<noteq> [] \<or> ar_last r \<noteq> []) ranges))"

section \<open>The toolchain subject\<close>

definition Toolchain :: "case_store \<Rightarrow> ToolchainFact option" where
  "Toolchain st =
    (case inv_of st of None \<Rightarrow> None | Some ivy \<Rightarrow>
     if tf_bound (inv_toolchain ivy) = [] then Some unresolvedFact else Some (inv_toolchain ivy))"

definition toolchainSubject :: "gostring \<Rightarrow> affectedRange list \<Rightarrow> bool" where
  "toolchainSubject purl rngs =
    (isGoStdlibPURL purl \<or> list_ex (\<lambda>r. ar_scheme r = ''go-toolchain'') rngs)"

definition ToolchainSubject :: "case_store \<Rightarrow> bool" where
  "ToolchainSubject st =
    (case extractSelectedPackage st of
       Some sel \<Rightarrow> toolchainSubject (aap_purl sel) (aap_ranges sel)
     | None \<Rightarrow> (case adv_of st of None \<Rightarrow> False | Some adv \<Rightarrow> toolchainSubject (adv_purl adv) (adv_ranges adv)))"

definition rangesForFloorVersion :: "case_store \<Rightarrow> affectedRange list \<Rightarrow> affectedRange list" where
  "rangesForFloorVersion st rngs =
    (if \<not> ToolchainSubject st then rngs else rangesForToolchainFloor (Toolchain st) rngs)"

definition requestedToolchain :: "bool \<Rightarrow> case_store \<Rightarrow> gostring" where
  "requestedToolchain subjectToolchain st =
    (if \<not> subjectToolchain then []
     else case Toolchain st of
       None \<Rightarrow> []
     | Some f \<Rightarrow>
         if tf_bound f \<noteq> ToolchainBoundExact \<or> tf_source f = ToolchainSourceBuildResolved then []
         else tf_version f)"

definition toolchainFloor :: "case_store \<Rightarrow> gostring" where
  "toolchainFloor st = (case inv_of st of None \<Rightarrow> [] | Some ivy \<Rightarrow> inv_goFloor ivy)"

definition RootSubject :: "case_store \<Rightarrow> bool" where
  "RootSubject st = (case inv_of st of None \<Rightarrow> False | Some ivy \<Rightarrow> inv_root ivy)"

section \<open>Versions and signals\<close>

record versionAxis =
  ax_versions :: "gostring list"
  ax_complete :: bool

definition extractVersionAxis :: "case_store \<Rightarrow> versionAxis option" where
  "extractVersionAxis st =
    (case inv_of st of None \<Rightarrow> None | Some ivy \<Rightarrow>
     if length (inv_resolvedVersions ivy) > 0 then
       Some \<lparr>ax_versions = inv_resolvedVersions ivy, ax_complete = inv_versionsComplete ivy\<rparr>
     else if inv_resolvedVersion ivy \<noteq> [] then
       Some \<lparr>ax_versions = [inv_resolvedVersion ivy], ax_complete = False\<rparr>
     else None)"

record presentRanges =
  pr_package :: presentPackage
  pr_ranges :: "affectedRange list"
  pr_known :: bool

definition present_ranges :: "case_store \<Rightarrow> advisoryAffectedPackage list \<Rightarrow> presentPackage \<Rightarrow> presentRanges" where
  "present_ranges st pkgs p =
    (case affectedPackageNamed pkgs (pp_module p) (pp_coordinate p) of
       None \<Rightarrow> \<lparr>pr_package = p, pr_ranges = [], pr_known = False\<rparr>
     | Some a \<Rightarrow>
         (let (rngs, known) = (case validAffectedRanges (aap_ranges a) of
                                 None \<Rightarrow> ([], False) | Some r \<Rightarrow> (r, True))
          in \<lparr>pr_package = p,
              pr_ranges = (if toolchainSubject (aap_purl a) rngs
                           then rangesForToolchainFloor (Toolchain st) rngs else rngs),
              pr_known = known\<rparr>))"

definition extractAlsoPresent :: "case_store \<Rightarrow> presentRanges list" where
  "extractAlsoPresent st =
    (case inv_of st of None \<Rightarrow> [] | Some ivy \<Rightarrow>
     map (present_ranges st (case adv_of st of None \<Rightarrow> [] | Some adv \<Rightarrow> adv_packages adv))
       (inv_alsoPresent ivy))"

definition extractResolvedVersion :: "case_store \<Rightarrow> gostring option" where
  "extractResolvedVersion st =
    (case inv_of st of None \<Rightarrow> None | Some ivy \<Rightarrow>
     if inv_resolvedVersion ivy = [] then None else Some (inv_resolvedVersion ivy))"

definition extractPresenceVersion :: "case_store \<Rightarrow> gostring option" where
  "extractPresenceVersion st =
    (case inv_of st of None \<Rightarrow> None | Some ivy \<Rightarrow>
     if inv_presenceVersion ivy \<noteq> [] then Some (inv_presenceVersion ivy)
     else if inv_resolvedVersion ivy \<noteq> [] then Some (inv_resolvedVersion ivy) else None)"

definition extractSymbolSignal :: "case_store \<Rightarrow> gostring option" where
  "extractSymbolSignal st =
    (case adv_of st of None \<Rightarrow> None | Some adv \<Rightarrow>
     if adv_symbolPresence adv = [] then None else Some (adv_symbolPresence adv))"

definition TrustByO :: gostring where "TrustByO = ''byo''"
definition TrustThirdParty :: gostring where "TrustThirdParty = ''third_party''"
definition TrustFirstParty :: gostring where "TrustFirstParty = ''first_party''"

text \<open>The zero tier is the empty string.\<close>

definition extractAdvisoryTrust :: "case_store \<Rightarrow> gostring option" where
  "extractAdvisoryTrust st =
    (case adv_of st of None \<Rightarrow> None | Some adv \<Rightarrow>
     if adv_trustTier adv \<in> {TrustByO, TrustThirdParty, TrustFirstParty} then Some (adv_trustTier adv)
     else None)"

definition extractManifestMembership :: "case_store \<Rightarrow> manifestMembership option" where
  "extractManifestMembership st =
    (case inv_of st of None \<Rightarrow> None | Some ivy \<Rightarrow> inv_membership ivy)"

text \<open>The loop of resolveManifestMembership: \<open>ask\<close> is the plugin's dependency read, an error or
  the pair (found, exhaustive).\<close>

fun membership_scan ::
  "(gostring \<Rightarrow> (bool \<times> bool) option) \<Rightarrow> manifestMembership \<Rightarrow> gostring list \<Rightarrow> bool \<Rightarrow> manifestMembership option" where
  "membership_scan ask m [] exhaustive = Some (m\<lparr>mm_known := exhaustive\<rparr>)"
| "membership_scan ask m (coord # rest) exhaustive =
    (case ask coord of
       None \<Rightarrow> None
     | Some (found, exh) \<Rightarrow>
         if found then Some (m\<lparr>mm_present := True, mm_known := True\<rparr>)
         else membership_scan ask m rest (exhaustive \<and> exh))"

definition resolveManifestMembership ::
  "(gostring \<times> (gostring \<Rightarrow> (bool \<times> bool) option)) option \<Rightarrow> gostring \<Rightarrow> gostring \<Rightarrow>
   (gostring \<times> gostring) list \<Rightarrow> manifestMembership option" where
  "resolveManifestMembership plug buildDir language keys =
    (let eco = membershipEcosystem language in
     case plug of
       None \<Rightarrow> None
     | Some (plugLanguage, ask) \<Rightarrow>
         if buildDir = [] \<or> eco = [] \<or> plugLanguage \<noteq> language \<or> length keys = 0 then None
         else if list_ex (\<lambda>(e, n). e \<noteq> eco \<or> n = []) keys then None
         else membership_scan ask
           \<lparr>mm_ecosystem = eco, mm_coordinates = map snd keys, mm_present = False, mm_known = False\<rparr>
           (map snd keys) True)"

section \<open>The predicates\<close>

text \<open>(true, reason) and (false, insufficient) are pairs as in the source.\<close>

definition intakeDisqualify ::
  "gostring \<Rightarrow> gostring \<Rightarrow> gostring \<Rightarrow> bool \<Rightarrow> bool \<Rightarrow> bool \<times> gostring" where
  "intakeDisqualify advEco codeEco coordinate manifestHasCoord manifestKnown =
    (if advEco \<noteq> [] \<and> codeEco \<noteq> [] \<and> advEco \<noteq> codeEco then (True, ReasonAdvisoryEcosystemMismatch)
     else if coordinate \<noteq> [] \<and> manifestKnown \<and> \<not> manifestHasCoord then (True, ReasonNoManifestEntry)
     else (False, ReasonInsufficient))"

text \<open>An unknown range, version or symbol is None.\<close>

definition disqualify ::
  "semver_lib \<Rightarrow> affectedRange list option \<Rightarrow> gostring option \<Rightarrow> gostring option \<Rightarrow> gostring \<Rightarrow> bool \<times> gostring" where
  "disqualify sv rngs ver symbol trust =
    (if trust \<noteq> TrustFirstParty then (False, ReasonInsufficient)
     else if symbol = Some ''absent'' then (True, ReasonSymbolAbsent)
     else case (rngs, ver) of
       (Some rs, Some v) \<Rightarrow>
         if versionOutsideRanges sv v rs = Some True then (True, ReasonVersionNotInRange)
         else (False, ReasonInsufficient)
     | _ \<Rightarrow> (False, ReasonInsufficient))"

definition everyVersionOutside ::
  "semver_lib \<Rightarrow> gostring list \<Rightarrow> bool \<Rightarrow> affectedRange list option \<Rightarrow> gostring \<Rightarrow> bool" where
  "everyVersionOutside sv vers complete rngs trust =
    (if \<not> complete \<or> length vers = 0 then False
     else list_all (\<lambda>v. fst (disqualify sv rngs (Some v) None trust)) vers)"

definition pr_known_ranges :: "presentRanges \<Rightarrow> affectedRange list option" where
  "pr_known_ranges o1 = (if pr_known o1 then Some (pr_ranges o1) else None)"

definition disqualifyEvery ::
  "semver_lib \<Rightarrow> affectedRange list option \<Rightarrow> versionAxis option \<Rightarrow> presentRanges list \<Rightarrow>
   gostring option \<Rightarrow> gostring \<Rightarrow> bool \<times> gostring" where
  "disqualifyEvery sv rngs axis others symbol trust =
    (let (disq, reason) = disqualify sv rngs None symbol trust in
     if disq \<or> trust \<noteq> TrustFirstParty then (disq, reason)
     else case axis of
       None \<Rightarrow> (False, ReasonInsufficient)
     | Some ax \<Rightarrow>
         if \<not> everyVersionOutside sv (ax_versions ax) (ax_complete ax) rngs trust then (False, ReasonInsufficient)
         else if \<not> list_all (\<lambda>p. everyVersionOutside sv (pp_versions (pr_package p)) (pp_complete (pr_package p))
                                   (pr_known_ranges p) trust) others
         then (False, ReasonInsufficient)
         else (True, ReasonVersionNotInRange))"

section \<open>The stages\<close>

definition InventoryBuildDir :: "case_store \<Rightarrow> gostring option" where
  "InventoryBuildDir st =
    (case st_inventory st of QueryError \<Rightarrow> None | NoArtifact \<Rightarrow> Some [] | BadPayload \<Rightarrow> None
     | Payload ivy \<Rightarrow> Some (inv_buildDir ivy))"

text \<open>\<open>env\<close> gives the Go build for a build directory and a checkout root.\<close>

definition intakeManifestMembership ::
  "(gostring \<Rightarrow> gostring \<Rightarrow> go_env) \<Rightarrow> case_store \<Rightarrow> gostring \<Rightarrow> gostring \<Rightarrow> gostring \<times> bool \<times> bool" where
  "intakeManifestMembership env st buildDir advModule =
    (if advModule \<noteq> [] then
       (case (case st_inventory st of QueryError \<Rightarrow> None | NoArtifact \<Rightarrow> Some [] | BadPayload \<Rightarrow> None
              | Payload ivy \<Rightarrow> Some (inv_checkoutRoot ivy)) of
          None \<Rightarrow> (advModule, False, False)
        | Some root0 \<Rightarrow>
            (let root = (if root0 = [] then buildDir else root0);
                 (present, known) = goModRequires (env buildDir root) advModule
             in (advModule, present, known)))
     else case extractManifestMembership st of
       None \<Rightarrow> ([], False, False)
     | Some m \<Rightarrow>
         (case mm_coordinates m of
            [] \<Rightarrow> ([], False, False)
          | c # cs \<Rightarrow> (c, mm_present m, mm_known m)))"

text \<open>disqualificationDiscovery.Run: None is the error of the inventory readers; Some is the
  discovery artifact it puts.\<close>

definition disqualification_run ::
  "semver_lib \<Rightarrow> (gostring \<Rightarrow> gostring \<Rightarrow> go_env) \<Rightarrow> case_store \<Rightarrow> DisqualResult option" where
  "disqualification_run sv env st =
    (case InventoryBuildDir st of
       None \<Rightarrow> None
     | Some buildDir \<Rightarrow>
         (let advModule = (case extractAdvisoryModule st of None \<Rightarrow> [] | Some m \<Rightarrow> m);
              (coordinate, has, known) = intakeManifestMembership env st buildDir advModule;
              (disq, reason) = intakeDisqualify (extractAdvisoryEcosystem st) (extractCodebaseEcosystem st)
                                 coordinate has known
          in if disq then Some \<lparr>dq_disqualified = True, dq_reason = reason\<rparr>
             else
               (let rngs = map_option (rangesForFloorVersion st) (extractAffectedRange st);
                    trust = (case extractAdvisoryTrust st of None \<Rightarrow> [] | Some t \<Rightarrow> t);
                    (disq2, reason2) = disqualifyEvery sv rngs (extractVersionAxis st) (extractAlsoPresent st)
                                         (extractSymbolSignal st) trust
                in Some \<lparr>dq_disqualified = disq2, dq_reason = reason2\<rparr>)))"

definition disqualification_step ::
  "semver_lib \<Rightarrow> (gostring \<Rightarrow> gostring \<Rightarrow> go_env) \<Rightarrow> case_store \<Rightarrow> case_store option" where
  "disqualification_step sv env st =
    map_option (\<lambda>res. st\<lparr>st_discovery := Payload res\<rparr>) (disqualification_run sv env st)"

text \<open>settledByDisqualification: None is the store's error.\<close>

definition settledByDisqualification :: "case_store \<Rightarrow> bool option" where
  "settledByDisqualification st =
    (case st_discovery st of QueryError \<Rightarrow> None | NoArtifact \<Rightarrow> Some False | BadPayload \<Rightarrow> Some False
     | Payload r \<Rightarrow> Some (dq_disqualified r))"

text \<open>maliciousPresence.Run: Some v is the affirmative artifact with the matched version; None
  means the stage puts nothing.\<close>

definition extractMaliciousAffectedVersions :: "case_store \<Rightarrow> gostring list option" where
  "extractMaliciousAffectedVersions st = (case adv_of st of None \<Rightarrow> None | Some adv \<Rightarrow> adv_malicious adv)"

definition malicious_run :: "case_store \<Rightarrow> gostring option" where
  "malicious_run st =
    (case extractMaliciousAffectedVersions st of
       None \<Rightarrow> None
     | Some versions \<Rightarrow>
         (let presence = extractPresenceVersion st; axis = extractVersionAxis st;
              copies = (case axis of None \<Rightarrow> [] | Some ax \<Rightarrow> ax_versions ax)
          in if presence = None \<and> axis = None then None
             else find (\<lambda>v. v \<in> set versions)
               (case presence of None \<Rightarrow> copies | Some p \<Rightarrow> p # copies)))"

section \<open>Readers of the advisory\<close>

definition advisoryPURLAndSymbols :: "case_store \<Rightarrow> gostring \<times> gostring list" where
  "advisoryPURLAndSymbols st =
    (case extractSelectedPackage st of
       Some sel \<Rightarrow> (aap_purl sel, aap_symbols sel)
     | None \<Rightarrow> (case adv_of st of None \<Rightarrow> ([], []) | Some adv \<Rightarrow> (adv_purl adv, adv_symbols adv)))"

definition AdvisorySymbols :: "case_store \<Rightarrow> gostring list" where
  "AdvisorySymbols st = snd (advisoryPURLAndSymbols st)"

definition AdvisoryPURL :: "case_store \<Rightarrow> gostring" where
  "AdvisoryPURL st = fst (advisoryPURLAndSymbols st)"

definition AdvisoryTargetConditionalSymbols :: "case_store \<Rightarrow> gostring list" where
  "AdvisoryTargetConditionalSymbols st = (case adv_of st of None \<Rightarrow> [] | Some adv \<Rightarrow> adv_conditional adv)"

definition or_else :: "gostring \<Rightarrow> gostring \<Rightarrow> gostring" where
  "or_else a b = (if a \<noteq> [] then a else b)"

definition AdvisoryPackage :: "case_store \<Rightarrow> gostring \<times> gostring" where
  "AdvisoryPackage st =
    (case extractSelectedPackage st of
       Some sel \<Rightarrow> (or_else (aap_module sel) (aap_coordinate sel), aap_purl sel)
     | None \<Rightarrow>
         (case adv_of st of
            None \<Rightarrow> ([], [])
          | Some adv \<Rightarrow> (or_else (adv_module adv) (adv_coordinate adv), adv_purl adv)))"

definition AdvisoryPackagePURLs :: "case_store \<Rightarrow> gostring list" where
  "AdvisoryPackagePURLs st =
    (case adv_of st of
       None \<Rightarrow> []
     | Some adv \<Rightarrow>
         (if adv_purl adv \<noteq> [] then [adv_purl adv] else []) @ map aap_purl (adv_packages adv) @ adv_dropped adv)"

definition AdvisoryListsAffectedPackages :: "case_store \<Rightarrow> bool" where
  "AdvisoryListsAffectedPackages st =
    (case adv_of st of None \<Rightarrow> False | Some adv \<Rightarrow> length (adv_packages adv) > 0)"

text \<open>-1 when the byte is absent, as strings.LastIndexByte returns it.\<close>

definition last_index :: "gostring \<Rightarrow> char \<Rightarrow> int" where
  "last_index s c = (case last_index_byte s c of None \<Rightarrow> -1 | Some i \<Rightarrow> int i)"

definition cut_any :: "char list \<Rightarrow> gostring \<Rightarrow> gostring" where
  "cut_any cs s = takeWhile (\<lambda>c. c \<notin> set cs) s"

definition admittedPackagePURL :: "case_store \<Rightarrow> gostring" where
  "admittedPackagePURL st =
    (if RootSubject st then []
     else
       (let purl = AdvisoryPURL st in
        case extractResolvedVersion st of
          None \<Rightarrow> []
        | Some version \<Rightarrow>
            if purl = [] then []
            else
              (let p1 = cut_any ''?#'' purl;
                   at = last_index p1 CHR ''@'';
                   p2 = (if at > last_index p1 CHR ''/'' then take (nat at) p1 else p1)
               in p2 @ ''@'' @ version)))"

definition affectedInstalledVersions :: "semver_lib \<Rightarrow> case_store \<Rightarrow> gostring list" where
  "affectedInstalledVersions sv st =
    (if RootSubject st then []
     else if extractResolvedVersion st \<noteq> None then []
     else case extractVersionAxis st of
       None \<Rightarrow> []
     | Some ax \<Rightarrow>
         filter (\<lambda>v. \<not> (case extractAffectedRange st of
                            None \<Rightarrow> False
                          | Some rngs \<Rightarrow> versionOutsideRanges sv v rngs = Some True))
           (ax_versions ax))"

section \<open>Every disqualification has its proof\<close>

lemma disqualify_True:
  "disqualify sv rngs ver symbol trust = (True, reason) \<longleftrightarrow> trust = TrustFirstParty \<and>
    (if symbol = Some ''absent'' then reason = ReasonSymbolAbsent
     else reason = ReasonVersionNotInRange \<and>
       (\<exists>rs v. rngs = Some rs \<and> ver = Some v \<and> versionOutsideRanges sv v rs = Some True))"
  by (auto simp: disqualify_def split: option.splits)

lemma everyVersionOutside_True:
  "everyVersionOutside sv vers complete rngs trust \<longleftrightarrow> complete \<and> vers \<noteq> [] \<and> trust = TrustFirstParty \<and>
    (\<exists>rs. rngs = Some rs \<and> (\<forall>v\<in>set vers. versionOutsideRanges sv v rs = Some True))"
  by (cases rngs; cases vers)
    (auto simp: everyVersionOutside_def disqualify_def list_all_iff split: if_splits)

text \<open>What a settled set of versions is: complete, not empty, and each one outside the ranges.\<close>

definition all_cleared :: "semver_lib \<Rightarrow> affectedRange list option \<Rightarrow> gostring list \<Rightarrow> bool \<Rightarrow> bool" where
  "all_cleared sv rngs vers complete =
    (complete \<and> vers \<noteq> [] \<and>
     (case rngs of None \<Rightarrow> False | Some rs \<Rightarrow> list_all (\<lambda>v. versionOutsideRanges sv v rs = Some True) vers))"

lemma all_cleared_iff:
  "everyVersionOutside sv vers complete rngs trust \<longleftrightarrow> trust = TrustFirstParty \<and> all_cleared sv rngs vers complete"
  by (auto simp: everyVersionOutside_True all_cleared_def list_all_iff split: option.splits)

lemma disqualifyEvery_True:
  assumes "disqualifyEvery sv rngs axis others symbol trust = (True, reason)"
  shows "trust = TrustFirstParty \<and>
    (reason = ReasonSymbolAbsent \<and> symbol = Some ''absent'' \<or>
     reason = ReasonVersionNotInRange \<and>
       (\<exists>ax. axis = Some ax \<and> all_cleared sv rngs (ax_versions ax) (ax_complete ax)) \<and>
       (\<forall>p\<in>set others. all_cleared sv (pr_known_ranges p) (pp_versions (pr_package p)) (pp_complete (pr_package p))))"
proof (cases "fst (disqualify sv rngs None symbol trust)")
  case True
  then have "disqualify sv rngs None symbol trust = (True, snd (disqualify sv rngs None symbol trust))"
    by (metis prod.collapse)
  moreover have "reason = snd (disqualify sv rngs None symbol trust)"
    using True assms by (auto simp: disqualifyEvery_def split: prod.splits)
  ultimately show ?thesis by (auto simp: disqualify_True split: if_splits)
next
  case False
  then show ?thesis
    using assms
    by (auto simp: disqualifyEvery_def all_cleared_iff list_all_iff split: prod.splits if_splits option.splits)
qed

text \<open>The coordinate discovery checks, whether it is present, and whether that is known.\<close>

definition membership_of :: "(gostring \<Rightarrow> gostring \<Rightarrow> go_env) \<Rightarrow> case_store \<Rightarrow> gostring \<times> bool \<times> bool" where
  "membership_of env st =
    (case InventoryBuildDir st of
       None \<Rightarrow> ([], False, False)
     | Some dir \<Rightarrow> intakeManifestMembership env st dir
         (case extractAdvisoryModule st of None \<Rightarrow> [] | Some m \<Rightarrow> m))"

lemma disqualification_grounds:
  assumes "disqualification_run sv env st = Some r" and "dq_disqualified r"
  shows "dq_reason r = ReasonAdvisoryEcosystemMismatch \<and> extractAdvisoryEcosystem st \<noteq> [] \<and>
      extractCodebaseEcosystem st \<noteq> [] \<and> extractAdvisoryEcosystem st \<noteq> extractCodebaseEcosystem st \<or>
    dq_reason r = ReasonNoManifestEntry \<and>
      fst (membership_of env st) \<noteq> [] \<and> snd (membership_of env st) = (False, True) \<or>
    extractAdvisoryTrust st = Some TrustFirstParty \<and>
      (dq_reason r = ReasonSymbolAbsent \<and> extractSymbolSignal st = Some ''absent'' \<or>
       dq_reason r = ReasonVersionNotInRange \<and>
        (\<exists>ax. extractVersionAxis st = Some ax \<and>
           all_cleared sv (map_option (rangesForFloorVersion st) (extractAffectedRange st)) (ax_versions ax) (ax_complete ax)) \<and>
        (\<forall>p\<in>set (extractAlsoPresent st).
           all_cleared sv (pr_known_ranges p) (pp_versions (pr_package p)) (pp_complete (pr_package p))))"
proof -
  obtain dir where dir: "InventoryBuildDir st = Some dir"
    using assms(1) by (auto simp: disqualification_run_def split: option.splits)
  obtain co has kn where im: "membership_of env st = (co, has, kn)" by (metis prod_cases3)
  define trust where "trust = (case extractAdvisoryTrust st of None \<Rightarrow> [] | Some t \<Rightarrow> t)"
  let ?in = "intakeDisqualify (extractAdvisoryEcosystem st) (extractCodebaseEcosystem st) co has kn"
  let ?ev = "disqualifyEvery sv (map_option (rangesForFloorVersion st) (extractAffectedRange st))
      (extractVersionAxis st) (extractAlsoPresent st) (extractSymbolSignal st) trust"
  have r: "r = (if fst ?in then \<lparr>dq_disqualified = True, dq_reason = snd ?in\<rparr>
      else \<lparr>dq_disqualified = fst ?ev, dq_reason = snd ?ev\<rparr>)"
    using assms(1) im
    by (simp add: disqualification_run_def membership_of_def dir trust_def Let_def case_prod_beta split: if_splits)
  show ?thesis
  proof (cases "fst ?in")
    case True
    then have "dq_reason r = snd ?in" using r by simp
    then show ?thesis using True im by (fastforce simp: intakeDisqualify_def split: if_splits)
  next
    case False
    then have "?ev = (True, dq_reason r)" using r assms(2) by (metis DisqualResult.select_convs prod.collapse)
    moreover have "trust = TrustFirstParty \<Longrightarrow> extractAdvisoryTrust st = Some TrustFirstParty"
      by (auto simp: trust_def TrustFirstParty_def split: option.splits)
    ultimately show ?thesis using disqualifyEvery_True by (metis (no_types, lifting))
  qed
qed

text \<open>C1: every disqualification carries its proof. Whatever discovery records as disqualified rests
  on one of four grounds: two known and different ecosystems; a named coordinate that a readable manifest
  provably lacks; or, and then only on a first-party advisory, an advisory that states the symbol absent,
  or a complete, non-empty set of installed versions each outside every range, together with the
  same for every other affected package present.\<close>
theorem disqualification_proof:
  assumes "disqualification_run sv env st = Some r" and "dq_disqualified r"
  shows "dq_reason r = ReasonAdvisoryEcosystemMismatch \<and> extractAdvisoryEcosystem st \<noteq> [] \<and>
      extractCodebaseEcosystem st \<noteq> [] \<and> extractAdvisoryEcosystem st \<noteq> extractCodebaseEcosystem st \<or>
    dq_reason r = ReasonNoManifestEntry \<and>
      fst (membership_of env st) \<noteq> [] \<and> snd (membership_of env st) = (False, True) \<or>
    extractAdvisoryTrust st = Some TrustFirstParty \<and>
      (dq_reason r = ReasonSymbolAbsent \<and> extractSymbolSignal st = Some ''absent'' \<or>
       dq_reason r = ReasonVersionNotInRange \<and>
        (\<exists>ax. extractVersionAxis st = Some ax \<and>
           all_cleared sv (map_option (rangesForFloorVersion st) (extractAffectedRange st)) (ax_versions ax) (ax_complete ax)) \<and>
        (\<forall>p\<in>set (extractAlsoPresent st).
           all_cleared sv (pr_known_ranges p) (pp_versions (pr_package p)) (pp_complete (pr_package p))))"
  by (rule disqualification_grounds [OF assms])

definition sample_toolchain :: ToolchainFact where
  "sample_toolchain = \<lparr>tf_version = [], tf_bound = [], tf_source = [], tf_contradiction = None\<rparr>"

definition sample_inventory :: inventory where
  "sample_inventory = \<lparr>inv_language = ''javascript'', inv_buildDir = ''/app'', inv_checkoutRoot = [],
     inv_resolvedVersion = [], inv_resolvedVersions = [''2.1.0'', ''3.0.0''], inv_versionsComplete = True,
     inv_presenceVersion = [], inv_selectedModule = [], inv_selectedCoordinate = [], inv_root = False,
     inv_goFloor = [], inv_toolchain = sample_toolchain, inv_alsoPresent = [], inv_membership = None\<rparr>"

definition sample_advisory :: advisory where
  "sample_advisory = \<lparr>adv_module = [], adv_coordinate = ''lodash'', adv_purl = ''pkg:npm/lodash'',
     adv_ranges = [sample_range], adv_packages = [], adv_dropped = [], adv_symbols = [], adv_conditional = [],
     adv_symbolPresence = [], adv_trustTier = ''first_party'', adv_malicious = None\<rparr>"

definition sample_store :: case_store where
  "sample_store = \<lparr>st_inventory = Payload sample_inventory, st_advisory = Payload sample_advisory,
     st_discovery = NoArtifact\<rparr>"

theorem disqualification_proof_witness:
  "\<exists>ax. extractVersionAxis sample_store = Some ax \<and> ax_complete ax \<and>
     list_all (\<lambda>v. versionOutsideRanges sample_sv v [sample_range] = Some True) (ax_versions ax)"
proof -
  have r: "disqualification_run sample_sv (\<lambda>_ _. sample_env) sample_store =
      Some \<lparr>dq_disqualified = True, dq_reason = ReasonVersionNotInRange\<rparr>" by code_simp
  have n: "ReasonVersionNotInRange \<noteq> ReasonAdvisoryEcosystemMismatch \<and>
      ReasonVersionNotInRange \<noteq> ReasonNoManifestEntry \<and> ReasonVersionNotInRange \<noteq> ReasonSymbolAbsent" by code_simp
  have a: "map_option (rangesForFloorVersion sample_store) (extractAffectedRange sample_store) = Some [sample_range]"
    by code_simp
  from disqualification_proof [OF r] n show ?thesis by (auto simp: a all_cleared_def)
qed

section \<open>Merged entries\<close>

lemma merge_named_ranges:
  assumes "merge_named ps m c out rl bl = Some res"
  shows "aap_ranges res =
    (if rl \<or> list_ex (\<lambda>p. aap_named m c p \<and> aap_ranges p = []) ps then []
     else (case out of None \<Rightarrow> [] | Some q \<Rightarrow> aap_ranges q) @ concat (map aap_ranges (filter (aap_named m c) ps)))"
  using assms
proof (induction ps m c out rl bl rule: merge_named.induct)
  case (1 m c out rl bl)
  then show ?case by (auto simp: Let_def)
next
  case (2 p ps m c out rl bl)
  show ?case
  proof (cases "aap_named m c p")
    case False
    then show ?thesis using 2 by simp
  next
    case True
    then show ?thesis using 2 by (cases out) auto
  qed
qed

text \<open>an advisory may list one package in several entries, and clearing the merged entry
  clears each of them: a version outside the ranges of the merged entry is outside the ranges of
  every entry that names the package.\<close>
theorem merged_entry_sound:
  assumes "affectedPackageNamed pkgs m c = Some out"
    and "versionOutsideRanges sv v (aap_ranges out) = Some True"
    and "p \<in> set pkgs" and "aap_named m c p"
  shows "versionOutsideRanges sv v (aap_ranges p) = Some True"
proof -
  have r: "aap_ranges out = (if list_ex (\<lambda>p. aap_named m c p \<and> aap_ranges p = []) pkgs then []
      else concat (map aap_ranges (filter (aap_named m c) pkgs)))"
    using merge_named_ranges [OF assms(1) [unfolded affectedPackageNamed_def]] by simp
  have ne: "aap_ranges out \<noteq> []" using assms(2) by (auto simp: versionOutsideRanges_def)
  then have "\<not> list_ex (\<lambda>p. aap_named m c p \<and> aap_ranges p = []) pkgs" using r by auto
  then have "aap_ranges p \<noteq> []" "set (aap_ranges p) \<subseteq> set (aap_ranges out)"
    using assms(3,4) r by (auto simp: list_ex_iff)
  then show ?thesis using assms(2) by (auto simp: versionOutsideRanges_True)
qed

definition sample_entry :: "gostring \<Rightarrow> advisoryAffectedPackage" where
  "sample_entry hi = \<lparr>aap_module = [], aap_coordinate = ''lodash'', aap_purl = ''pkg:npm/lodash'',
     aap_ranges = [sample_range\<lparr>ar_upper := hi\<rparr>], aap_symbols = []\<rparr>"

theorem merged_entry_sound_witness:
  "versionOutsideRanges sample_sv ''3.0.0'' (aap_ranges (sample_entry ''2.0.0'')) = Some True"
proof (rule merged_entry_sound)
  let ?ps = "[sample_entry ''1.8.0'', sample_entry ''2.0.0'']"
  show "affectedPackageNamed ?ps [] ''lodash'' = Some (the (affectedPackageNamed ?ps [] ''lodash''))" by code_simp
  show "versionOutsideRanges sample_sv ''3.0.0'' (aap_ranges (the (affectedPackageNamed ?ps [] ''lodash''))) = Some True"
    by code_simp
  show "sample_entry ''2.0.0'' \<in> set ?ps" by simp
  show "aap_named [] ''lodash'' (sample_entry ''2.0.0'')" by code_simp
qed

lemma malicious_run_cases:
  "malicious_run st = (case extractMaliciousAffectedVersions st of
     None \<Rightarrow> None
   | Some versions \<Rightarrow> find (\<lambda>v. v \<in> set versions)
       ((case extractPresenceVersion st of None \<Rightarrow> [] | Some p \<Rightarrow> [p]) @
        (case extractVersionAxis st of None \<Rightarrow> [] | Some ax \<Rightarrow> ax_versions ax)))"
  by (auto simp: malicious_run_def Let_def split: option.splits)

text \<open>The copies the codebase carries: the first resolved one, then every listed one.\<close>

definition carried :: "case_store \<Rightarrow> gostring set" where
  "carried st = {v. extractPresenceVersion st = Some v} \<union>
    (case extractVersionAxis st of None \<Rightarrow> {} | Some ax \<Rightarrow> set (ax_versions ax))"

text \<open>the malicious-package stage affirms exactly the listed versions the codebase carries. It
  records a version only if the advisory lists it and the inventory carries it, and it records
  none only when there is no such version.\<close>
theorem malicious_exact:
  "case malicious_run st of
     Some v \<Rightarrow> v \<in> carried st \<and>
       (case extractMaliciousAffectedVersions st of None \<Rightarrow> False | Some versions \<Rightarrow> v \<in> set versions)
   | None \<Rightarrow> (case extractMaliciousAffectedVersions st of
       None \<Rightarrow> True | Some versions \<Rightarrow> carried st \<inter> set versions = {})"
  by (auto simp: malicious_run_cases carried_def find_None_iff split: option.splits if_splits dest!: find_SomeD)

end
