(* ===== verification/Poe_Verdict.thy ===== *)
theory Poe_Verdict
  imports Assay_Prelude Complex_Main
begin

text \<open>
  The Proof of Exploitability vocabulary: src/verdict/verdict.go and confidence.go. The closed
  string enums are strings, since a decoded document may hold any; a PoE is a record of the fields,
  an artifact reference the record of its id and type. Validate is the option of its first violation.
  The score is a rational in place of the float64. The lemmas characterize what a valid PoE
  claims: five cells, and the proof an entry into each one needs.
\<close>

section \<open>Vocabulary\<close>

definition DirectionExploitable :: gostring where "DirectionExploitable = ''exploitable''"
definition DirectionNotExploitable :: gostring where "DirectionNotExploitable = ''not_exploitable''"
definition DirectionIndeterminate :: gostring where "DirectionIndeterminate = ''indeterminate''"

lemmas direction_defs = DirectionExploitable_def DirectionNotExploitable_def DirectionIndeterminate_def

definition StrengthProven :: gostring where "StrengthProven = ''proven''"
definition StrengthReasoned :: gostring where "StrengthReasoned = ''reasoned''"
definition StrengthIndeterminate :: gostring where "StrengthIndeterminate = ''indeterminate''"

lemmas strength_defs = StrengthProven_def StrengthReasoned_def StrengthIndeterminate_def

definition BasisNone :: gostring where "BasisNone = []"
definition BasisVersionNotAffected :: gostring where
  "BasisVersionNotAffected = ''version_not_in_affected_range''"
definition BasisSymbolAbsent :: gostring where "BasisSymbolAbsent = ''vulnerable_symbol_absent''"
definition BasisSymbolUnreachable :: gostring where
  "BasisSymbolUnreachable = ''vulnerable_symbol_unreachable''"

definition FlagCanaryTriggered :: gostring where "FlagCanaryTriggered = ''canary_triggered''"
definition FlagSyscallConsistent :: gostring where
  "FlagSyscallConsistent = ''syscall_consistent_with_class''"

record Ref =
  ref_id :: gostring
  ref_type :: gostring

record CalibratedConfidence =
  cc_score :: rat
  cc_evidenceFlags :: "gostring list"

record PatchValidationRef =
  pvr_positiveTrace :: "Ref option"
  pvr_negativeTrace :: "Ref option"
  pvr_fixSource :: gostring

record Objection =
  ob_schemaVersion :: gostring
  ob_attackedLabel :: gostring
  ob_attackClass :: gostring
  ob_rationale :: gostring
  ob_fromLabel :: gostring
  ob_toLabel :: gostring
  ob_episode :: gostring
  ob_criticReport :: "Ref option"

record PoE =
  poe_schemaVersion :: gostring
  poe_artifactID :: gostring
  poe_assessmentID :: gostring
  poe_caseID :: gostring
  poe_direction :: gostring
  poe_strength :: gostring
  poe_conditions :: "gostring list"
  poe_reasonedGrounds :: gostring
  poe_confidence :: CalibratedConfidence
  poe_completionStatus :: gostring
  poe_vulnerableSymbol :: "Ref option"
  poe_callPath :: "Ref option"
  poe_ingress :: "Ref option"
  poe_feasibility :: "Ref option"
  poe_reproducer :: "Ref option"
  poe_observability :: "Ref option"
  poe_proofReport :: "Ref option"
  poe_episodes :: "gostring list"
  poe_objection :: "Objection option"
  poe_patchValidation :: "PatchValidationRef option"
  poe_basis :: gostring

section \<open>Operations\<close>

definition Label :: "PoE \<Rightarrow> gostring" where
  "Label p =
    (if poe_direction p = DirectionIndeterminate then DirectionIndeterminate
     else if poe_strength p = StrengthReasoned then ''reasoned_'' @ poe_direction p
     else poe_direction p)"

definition proofFlags :: "gostring \<Rightarrow> bool" where
  "proofFlags f = (f = FlagCanaryTriggered \<or> f = FlagSyscallConsistent)"

definition hasProofFlag :: "gostring list \<Rightarrow> bool" where
  "hasProofFlag flags = list_ex proofFlags flags"

datatype poe_error =
    IndeterminateUnpaired
  | IndeterminateProofFlag
  | IndeterminatePatchValidation
  | IndeterminateBasis
  | IndeterminateReproducer
  | IndeterminateGrounds
  | ReasonedWithoutGrounds
  | ReasonedUngrounded
  | ProvenWithoutFlags
  | ProvenWithoutProofFlag
  | ProvenWithoutReproducer
  | ProvenWithoutTraces
  | UnknownStrength
  | BasisOffReasoned

definition both_traces :: "PatchValidationRef option \<Rightarrow> bool" where
  "both_traces v = (case v of None \<Rightarrow> False | Some r \<Rightarrow> pvr_positiveTrace r \<noteq> None \<and> pvr_negativeTrace r \<noteq> None)"

text \<open>The switch on Strength: its error, if it returns one.\<close>

definition strength_error :: "PoE \<Rightarrow> poe_error option" where
  "strength_error p =
    (if poe_strength p = StrengthReasoned then
       (if poe_reasonedGrounds p = [] then Some ReasonedWithoutGrounds
        else if poe_direction p = DirectionNotExploitable \<and> poe_basis p = BasisNone then Some ReasonedUngrounded
        else None)
     else if poe_strength p = StrengthProven then
       (if length (cc_evidenceFlags (poe_confidence p)) = 0 then Some ProvenWithoutFlags
        else if \<not> hasProofFlag (cc_evidenceFlags (poe_confidence p)) then Some ProvenWithoutProofFlag
        else if poe_direction p = DirectionExploitable \<and> poe_reproducer p = None then Some ProvenWithoutReproducer
        else if poe_direction p = DirectionNotExploitable \<and> \<not> both_traces (poe_patchValidation p)
          then Some ProvenWithoutTraces
        else None)
     else Some UnknownStrength)"

definition PoE_Validate :: "PoE \<Rightarrow> poe_error option" where
  "PoE_Validate p =
    (if poe_direction p = DirectionIndeterminate \<or> poe_strength p = StrengthIndeterminate then
       (if poe_direction p \<noteq> DirectionIndeterminate \<or> poe_strength p \<noteq> StrengthIndeterminate
          then Some IndeterminateUnpaired
        else if hasProofFlag (cc_evidenceFlags (poe_confidence p)) then Some IndeterminateProofFlag
        else if poe_patchValidation p \<noteq> None then Some IndeterminatePatchValidation
        else if poe_basis p \<noteq> BasisNone then Some IndeterminateBasis
        else if poe_reproducer p \<noteq> None then Some IndeterminateReproducer
        else if poe_reasonedGrounds p \<noteq> [] then Some IndeterminateGrounds
        else None)
     else
       (case strength_error p of
          Some e \<Rightarrow> Some e
        | None \<Rightarrow>
            if poe_basis p \<noteq> BasisNone \<and>
               (poe_strength p \<noteq> StrengthReasoned \<or> poe_direction p \<noteq> DirectionNotExploitable)
            then Some BasisOffReasoned else None))"

text \<open>ConfidenceFromFlags: the loop over the flags is its running score and proof bit.\<close>

fun score_flags :: "gostring list \<Rightarrow> rat \<Rightarrow> bool \<Rightarrow> rat \<times> bool" where
  "score_flags [] score proof = (score, proof)"
| "score_flags (f # fs) score proof =
    (if proofFlags f then score_flags fs score True else score_flags fs (score + 3 / 10) proof)"

definition ConfidenceFromFlags :: "gostring list \<Rightarrow> CalibratedConfidence" where
  "ConfidenceFromFlags flags =
    (let (score, proof) = score_flags flags (1 / 10) False;
         s1 = (if proof \<and> score < 9 / 10 then 9 / 10 else score);
         s2 = (if s1 > 99 / 100 then 99 / 100 else s1)
     in \<lparr>cc_score = s2, cc_evidenceFlags = flags\<rparr>)"

section \<open>What a valid PoE claims\<close>

text \<open>The specification, by strength: an indeterminate verdict asserts nothing, a reasoned one
  states its grounds and is "not exploitable" exactly when a refutation backs it, a proven one
  rests on an observation, with the runnable reproducer or the two traces its direction needs.\<close>

definition poe_claims :: "PoE \<Rightarrow> bool" where
  "poe_claims p =
    (if poe_strength p = StrengthIndeterminate then
       poe_direction p = DirectionIndeterminate \<and> \<not> hasProofFlag (cc_evidenceFlags (poe_confidence p)) \<and>
       poe_patchValidation p = None \<and> poe_basis p = BasisNone \<and> poe_reproducer p = None \<and> poe_reasonedGrounds p = []
     else if poe_strength p = StrengthReasoned then
       poe_direction p \<noteq> DirectionIndeterminate \<and> poe_reasonedGrounds p \<noteq> [] \<and>
       (poe_direction p = DirectionNotExploitable) = (poe_basis p \<noteq> BasisNone)
     else
       poe_strength p = StrengthProven \<and> poe_direction p \<noteq> DirectionIndeterminate \<and> poe_basis p = BasisNone \<and>
       hasProofFlag (cc_evidenceFlags (poe_confidence p)) \<and>
       (poe_direction p \<noteq> DirectionExploitable \<or> poe_reproducer p \<noteq> None) \<and>
       (poe_direction p \<noteq> DirectionNotExploitable \<or> both_traces (poe_patchValidation p)))"

lemma hasProofFlag_Nil [simp]: "\<not> hasProofFlag []"
  by (simp add: hasProofFlag_def)

lemma strength_error_None:
  "strength_error p = None \<longleftrightarrow>
    poe_strength p = StrengthReasoned \<and> poe_reasonedGrounds p \<noteq> [] \<and>
      (poe_direction p \<noteq> DirectionNotExploitable \<or> poe_basis p \<noteq> BasisNone) \<or>
    poe_strength p = StrengthProven \<and> hasProofFlag (cc_evidenceFlags (poe_confidence p)) \<and>
      (poe_direction p \<noteq> DirectionExploitable \<or> poe_reproducer p \<noteq> None) \<and>
      (poe_direction p \<noteq> DirectionNotExploitable \<or> both_traces (poe_patchValidation p))"
  by (auto simp: strength_error_def StrengthReasoned_def StrengthProven_def)

lemma poe_claims_iff: "(PoE_Validate p = None) = poe_claims p"
proof (cases "poe_direction p = DirectionIndeterminate \<or> poe_strength p = StrengthIndeterminate")
  case True
  then show ?thesis by (auto simp: PoE_Validate_def poe_claims_def strength_defs)
next
  case False
  then have "(PoE_Validate p = None) = (strength_error p = None \<and>
      (poe_basis p = BasisNone \<or> poe_strength p = StrengthReasoned \<and> poe_direction p = DirectionNotExploitable))"
    by (auto simp: PoE_Validate_def split: option.splits)
  then show ?thesis
    using False by (auto simp: strength_error_None poe_claims_def strength_defs BasisNone_def)
qed

text \<open>Validate enforces the specification and nothing more: it accepts a PoE exactly when the
  claim of its strength is backed. In particular no proven verdict
  passes without a ground-truth observation, and no "not exploitable" without a refutation or the
  two traces.\<close>
theorem poe_validate_exact:
  "(PoE_Validate p = None) = poe_claims p"
  by (rule poe_claims_iff)

definition known_direction :: "gostring \<Rightarrow> bool" where
  "known_direction d = (d = DirectionExploitable \<or> d = DirectionNotExploitable \<or> d = DirectionIndeterminate)"

text \<open>the label says everything. Two valid PoEs whose direction is one of the three have the same
  label only if they agree on direction and strength.\<close>
theorem label_faithful:
  assumes "PoE_Validate p = None" and "PoE_Validate q = None"
    and "known_direction (poe_direction p)" and "known_direction (poe_direction q)"
    and "Label p = Label q"
  shows "poe_direction p = poe_direction q \<and> poe_strength p = poe_strength q"
proof -
  have t: "(Label r, poe_direction r, poe_strength r) \<in>
      {(''indeterminate'', ''indeterminate'', ''indeterminate''),
       (''reasoned_exploitable'', ''exploitable'', ''reasoned''),
       (''reasoned_not_exploitable'', ''not_exploitable'', ''reasoned''),
       (''exploitable'', ''exploitable'', ''proven''), (''not_exploitable'', ''not_exploitable'', ''proven'')}"
    if "PoE_Validate r = None" "known_direction (poe_direction r)" for r
  proof -
    have c: "poe_claims r" using that(1) poe_claims_iff by blast
    have d: "poe_direction r = DirectionExploitable \<or> poe_direction r = DirectionNotExploitable \<or>
        poe_direction r = DirectionIndeterminate" using that(2) by (simp only: known_direction_def)
    have "poe_strength r = StrengthIndeterminate \<and> poe_direction r = DirectionIndeterminate \<or>
      (poe_strength r = StrengthReasoned \<or> poe_strength r = StrengthProven) \<and> poe_direction r \<noteq> DirectionIndeterminate"
      using c unfolding poe_claims_def by metis
    with d consider (i) "poe_strength r = StrengthIndeterminate" "poe_direction r = DirectionIndeterminate"
      | (re) "poe_strength r = StrengthReasoned" "poe_direction r = DirectionExploitable"
      | (rn) "poe_strength r = StrengthReasoned" "poe_direction r = DirectionNotExploitable"
      | (pe) "poe_strength r = StrengthProven" "poe_direction r = DirectionExploitable"
      | (pn) "poe_strength r = StrengthProven" "poe_direction r = DirectionNotExploitable"
      by blast
    then show ?thesis
      by cases (simp_all add: Label_def direction_defs strength_defs)
  qed
  show ?thesis
    using t [OF assms(1,3)] t [OF assms(2,4)] assms(5) by (elim insertE emptyE) simp_all
qed

definition sample_poe :: "gostring \<Rightarrow> gostring \<Rightarrow> PoE" where
  "sample_poe grounds basis =
    \<lparr>poe_schemaVersion = ''tegron.poe.v2'', poe_artifactID = ''a'', poe_assessmentID = ''b'', poe_caseID = ''c'',
     poe_direction = DirectionNotExploitable, poe_strength = StrengthReasoned, poe_conditions = [],
     poe_reasonedGrounds = grounds, poe_confidence = ConfidenceFromFlags [], poe_completionStatus = ''completed'',
     poe_vulnerableSymbol = None, poe_callPath = None, poe_ingress = None, poe_feasibility = None,
     poe_reproducer = None, poe_observability = None, poe_proofReport = None, poe_episodes = [],
     poe_objection = None, poe_patchValidation = None, poe_basis = basis\<rparr>"

theorem label_faithful_witness:
  "poe_strength (sample_poe ''out of range'' BasisVersionNotAffected) =
   poe_strength (sample_poe ''no such symbol'' BasisSymbolAbsent)"
proof -
  have "PoE_Validate (sample_poe ''out of range'' BasisVersionNotAffected) = None"
    "PoE_Validate (sample_poe ''no such symbol'' BasisSymbolAbsent) = None" by code_simp+
  moreover have "known_direction (poe_direction (sample_poe g b))" for g b
    by (simp add: sample_poe_def known_direction_def)
  moreover have "Label (sample_poe g b) = Label (sample_poe g' b')" for g b g' b'
    by (simp add: sample_poe_def Label_def)
  ultimately show ?thesis using label_faithful by blast
qed

section \<open>Calibration\<close>

lemma score_flags_base: "s \<le> fst (score_flags fs s b)"
  by (induction fs s b rule: score_flags.induct) auto

lemma score_flags_proof: "snd (score_flags fs s b) = (b \<or> hasProofFlag fs)"
  by (induction fs s b rule: score_flags.induct) (auto simp: hasProofFlag_def)

lemma score_flags_count:
  "fst (score_flags fs s b) = s + 3 / 10 * of_nat (length (filter (\<lambda>f. \<not> proofFlags f) fs))"
  by (induction fs s b rule: score_flags.induct) (auto simp: algebra_simps)

text \<open>the score stays within its rungs: between 0.1 and 0.99, at least 0.9 with a proof flag, and
  without one it is the base plus 0.3 for each flag, capped.\<close>
theorem confidence_bounds:
  "1 / 10 \<le> cc_score (ConfidenceFromFlags fs) \<and> cc_score (ConfidenceFromFlags fs) \<le> 99 / 100 \<and>
   (if hasProofFlag fs then 9 / 10 \<le> cc_score (ConfidenceFromFlags fs)
    else cc_score (ConfidenceFromFlags fs) = min (99 / 100) (1 / 10 + 3 / 10 * of_nat (length fs)))"
proof -
  have p: "snd (score_flags fs (1 / 10) False) = hasProofFlag fs" by (simp add: score_flags_proof)
  have f: "length (filter (\<lambda>f. \<not> proofFlags f) fs) = length fs" if "\<not> hasProofFlag fs"
    using that by (auto simp: hasProofFlag_def list_ex_iff intro: arg_cong [where f = length])
  show ?thesis
    using score_flags_base [of "1 / 10" fs False] p f
    by (auto simp: ConfidenceFromFlags_def Let_def case_prod_beta score_flags_count min_def)
qed

end
