(* ===== verification/Report_Model.thy ===== *)
theory Report_Model
  imports Assay_Prelude Poe_Verdict
begin

text \<open>
  The scan report: the types of src/report/report.go, its Validate, and the two arms of
  src/report/partiality_class.go. A pointer field is an option, a JSON document its decoded record;
  a float64 is a rational and a time.Time the nanoseconds since Go's zero time. Validate is the
  option of its first violation. The lemmas state what a valid report cannot contain: a verdict of
  another tier, grounds on a verdict that has none, an unexplained "undetermined", a priority value
  without its stamp, an edge to a package that is not there.
\<close>

section \<open>Types\<close>

definition report_SchemaVersion :: gostring where "report_SchemaVersion = ''tegron.report.v3''"
definition SchemaVersionV2 :: gostring where "SchemaVersionV2 = ''tegron.report.v2''"
definition SchemaVersionV1 :: gostring where "SchemaVersionV1 = ''tegron.report.v1''"

lemmas schema_defs = report_SchemaVersion_def SchemaVersionV2_def SchemaVersionV1_def

definition VerdictDisqualified :: gostring where "VerdictDisqualified = ''disqualified''"
definition VerdictNotExploitable :: gostring where "VerdictNotExploitable = ''not_exploitable''"
definition VerdictReachableCandidate :: gostring where "VerdictReachableCandidate = ''reachable_candidate''"
definition VerdictUndetermined :: gostring where "VerdictUndetermined = ''undetermined''"
definition VerdictMaliciousPresent :: gostring where "VerdictMaliciousPresent = ''malicious_package_present''"

lemmas verdict_defs = VerdictDisqualified_def VerdictNotExploitable_def VerdictReachableCandidate_def
  VerdictUndetermined_def VerdictMaliciousPresent_def

definition Verdict_Valid :: "gostring \<Rightarrow> bool" where
  "Verdict_Valid v = (v = VerdictDisqualified \<or> v = VerdictNotExploitable \<or> v = VerdictReachableCandidate \<or>
     v = VerdictUndetermined \<or> v = VerdictMaliciousPresent)"

record Package =
  pkg_ecosystem :: gostring
  pkg_name :: gostring
  pkg_version :: gostring
  pkg_purl :: gostring
  pkg_direct :: bool
  pkg_root :: bool
  pkg_partialReason :: gostring
  pkg_replace :: gostring
  pkg_notInstalled :: bool

definition PartialReasonSourceUnpinned :: gostring where
  "PartialReasonSourceUnpinned = ''source_unpinned''"

definition PinUnresolved :: "Package \<Rightarrow> bool" where
  "PinUnresolved p = (pkg_version p \<noteq> [] \<and> has_prefix (pkg_partialReason p) PartialReasonSourceUnpinned)"

definition Package_Label :: "Package \<Rightarrow> gostring" where
  "Package_Label p =
    (if pkg_version p = [] then pkg_name p
     else if PinUnresolved p then pkg_name p @ '' (pinned '' @ pkg_version p @ '', not resolved)''
     else pkg_name p @ ''@'' @ pkg_version p)"

definition Package_Key :: "Package \<Rightarrow> gostring" where
  "Package_Key p =
    (if pkg_purl p \<noteq> [] then pkg_purl p
     else pkg_ecosystem p @ '':'' @ pkg_name p @ ''@'' @ pkg_version p)"

record Relationship =
  rel_parent :: gostring
  rel_child :: gostring

record SBOM =
  sb_packages :: "Package list"
  sb_relationships :: "Relationship list"
  sb_goBuildList :: gostring
  sb_goMainModule :: gostring
  sb_goWorkspaceModules :: "gostring list"

definition GradeControlFlowOnly :: gostring where "GradeControlFlowOnly = ''control_flow_only''"
definition GradeAttackerTainted :: gostring where "GradeAttackerTainted = ''attacker_tainted''"

definition Grade_Valid :: "gostring \<Rightarrow> bool" where
  "Grade_Valid g = (g = [] \<or> g = GradeControlFlowOnly \<or> g = GradeAttackerTainted)"

definition SymbolConfidenceHigh :: gostring where "SymbolConfidenceHigh = ''high''"
definition SymbolConfidenceModerate :: gostring where "SymbolConfidenceModerate = ''moderate''"

definition SymbolConfidence_Valid :: "gostring \<Rightarrow> bool" where
  "SymbolConfidence_Valid c = (c = [] \<or> c = SymbolConfidenceHigh \<or> c = SymbolConfidenceModerate)"

record ExploitPreconditions =
  ep_triggerCondition :: gostring
  ep_prerequisite :: gostring

definition ExploitPreconditions_Empty :: "ExploitPreconditions \<Rightarrow> bool" where
  "ExploitPreconditions_Empty p = (ep_triggerCondition p = [] \<and> ep_prerequisite p = [])"

definition GuardSufficiencySufficient :: gostring where "GuardSufficiencySufficient = ''sufficient''"
definition GuardSufficiencyInsufficient :: gostring where "GuardSufficiencyInsufficient = ''insufficient''"

definition GuardSufficiency_Valid :: "gostring \<Rightarrow> bool" where
  "GuardSufficiency_Valid l = (l = GuardSufficiencySufficient \<or> l = GuardSufficiencyInsufficient)"

definition SufficiencyLabel :: "bool \<Rightarrow> gostring" where
  "SufficiencyLabel sufficient = (if sufficient then GuardSufficiencySufficient else GuardSufficiencyInsufficient)"

record GuardSufficiencyNote =
  gs_symbol :: gostring
  gs_forBypass :: gostring
  gs_sufficiency :: gostring

record CallFrame =
  cf_symbol :: gostring
  cf_file :: gostring
  cf_line :: int

record EntryPoint =
  en_symbol :: gostring
  en_kind :: gostring
  en_attackerControllable :: bool

record AdvisoryBound =
  ab_type :: gostring
  ab_introduced :: gostring
  ab_fixed :: gostring
  ab_lastAffected :: gostring

record EvidenceSummary =
  ev_basis :: gostring
  ev_detail :: gostring
  ev_assumptions :: "gostring list"
  ev_reachablePath :: gostring
  ev_grade :: gostring
  ev_entryPoint :: "EntryPoint option"
  ev_callPath :: "CallFrame list"
  ev_mitigatingGuards :: "gostring list"
  ev_advisoryBounds :: "AdvisoryBound list"
  ev_symbolConfidence :: gostring
  ev_exploitPreconditions :: "ExploitPreconditions option"
  ev_guardSufficiency :: "GuardSufficiencyNote list"

record Priority =
  pr_epssScore :: rat
  pr_epssPercentile :: rat
  pr_hasPercentile :: bool
  pr_epssAsOf :: gostring
  pr_kevListed :: bool
  pr_kevDateAdded :: gostring
  pr_kevCatalogVersion :: gostring
  pr_kevDateReleased :: gostring

record Advisory =
  ad_id :: gostring
  ad_source :: gostring
  ad_aliases :: "gostring list"

record Annotation =
  an_reason :: gostring
  an_path :: gostring
  an_detail :: gostring

record AdvisoryFinding =
  af_advisory :: Advisory
  af_package :: "Package option"
  af_verdict :: gostring
  af_undeterminedReason :: gostring
  af_evidence :: EvidenceSummary
  af_annotations :: "Annotation list"
  af_priority :: "Priority option"

record StageTiming =
  tm_stage :: gostring
  tm_runs :: int
  tm_seconds :: rat

record RunTimings =
  rt_wallSeconds :: rat
  rt_stages :: "StageTiming list"

record CorpusSigner =
  sg_identity :: gostring
  sg_issuer :: gostring

record CorpusManifestProvenance =
  cm_generatedAt :: gostring
  cm_generator :: gostring
  cm_policyID :: gostring
  cm_policyQuery :: gostring
  cm_sourceCorpusDigest :: gostring
  cm_selectionIndexDigest :: gostring

record IntelProvenance =
  in_workSetSource :: gostring
  in_workSetSize :: int
  in_factSource :: gostring
  in_corpusDigest :: gostring
  in_corpusRecords :: int
  in_corpusPolicy :: gostring
  in_corpusManifest :: "CorpusManifestProvenance option"
  in_corpusSigner :: "CorpusSigner option"
  in_signalsDigest :: gostring

record Provenance =
  pv_commitSHA :: gostring
  pv_analyzerVersion :: gostring
  pv_capabilityManifestVersion :: gostring
  pv_advisoryCursor :: gostring
  pv_timestamp :: int
  pv_intel :: "IntelProvenance option"
  pv_timings :: "RunTimings option"

record PartialityNote =
  pn_reason :: gostring
  pn_ecosystem :: gostring
  pn_detail :: gostring
  pn_package :: gostring
  pn_path :: gostring
  pn_targets :: "gostring list"
  pn_class :: gostring
  pn_advisories :: "gostring list"

record BaselineRef =
  bl_commitSHA :: gostring
  bl_stateRef :: gostring
  bl_blobSHA :: gostring

record Cause =
  cs_kind :: gostring
  cs_detail :: gostring

record Sourced =
  so_source :: gostring
  so_cause :: "Cause option"

record ResolvedLibraryEntrypoints =
  le_ecosystem :: gostring
  le_source :: gostring
  le_input :: gostring
  le_packages :: "gostring list"
  le_unmatched :: "gostring list"

record Subject =
  sj_repo :: gostring
  sj_revision :: gostring
  sj_resolvedCommit :: gostring

record Report =
  rp_schemaVersion :: gostring
  rp_subject :: Subject
  rp_sbom :: SBOM
  rp_advisories :: "AdvisoryFinding list"
  rp_partiality :: "PartialityNote list"
  rp_provenance :: Provenance
  rp_baseline :: "BaselineRef option"
  rp_buildGraph :: "Sourced option"
  rp_libraryEntrypoints :: "ResolvedLibraryEntrypoints list"
  rp_dependencyCode :: "Sourced option"

text \<open>DependencyCodeCause.Describe; nil is None.\<close>

definition Cause_Describe :: "Cause option \<Rightarrow> gostring" where
  "Cause_Describe c =
    (case c of
       None \<Rightarrow> []
     | Some k \<Rightarrow> if cs_detail k = [] then cs_kind k else cs_kind k @ '': '' @ cs_detail k)"

section \<open>Validate\<close>

datatype priority_error =
    EPSSWithoutStamp
  | HalfKEVStamp
  | KEVWithoutStamp
  | KEVDateNotListed
  | EmptyPriority

datatype report_error =
    NoSchemaVersion
  | NonDeterministicVerdict gostring
  | CandidateWithBasis gostring
  | UndeterminedWithBasis gostring
  | UnreachableBasisElsewhere gostring
  | UndeterminedWithoutReason gostring
  | BoundsElsewhere gostring
  | ReasonElsewhere gostring
  | InvalidGrade gostring
  | GradeElsewhere gostring
  | InvalidConfidence gostring
  | ConfidenceElsewhere gostring
  | AssumptionsElsewhere gostring
  | PreconditionsElsewhere gostring
  | EmptyPreconditions gostring
  | SufficiencyElsewhere gostring
  | MalformedSufficiency gostring
  | BadPriority gostring priority_error
  | DanglingParent gostring
  | DanglingChild gostring

definition HasEPSS :: "Priority option \<Rightarrow> bool" where
  "HasEPSS p = (case p of None \<Rightarrow> False | Some q \<Rightarrow> pr_epssAsOf q \<noteq> [])"

definition HasEPSSPercentile :: "Priority option \<Rightarrow> bool" where
  "HasEPSSPercentile p =
    (HasEPSS p \<and> (case p of None \<Rightarrow> False | Some q \<Rightarrow> pr_hasPercentile q \<or> pr_epssPercentile q \<noteq> 0))"

definition HasKEV :: "Priority option \<Rightarrow> bool" where
  "HasKEV p = (case p of None \<Rightarrow> False | Some q \<Rightarrow> pr_kevCatalogVersion q \<noteq> [])"

definition Priority_validate :: "Priority \<Rightarrow> priority_error option" where
  "Priority_validate p =
    (if pr_epssAsOf p = [] \<and> (pr_epssScore p \<noteq> 0 \<or> pr_epssPercentile p \<noteq> 0 \<or> pr_hasPercentile p)
       then Some EPSSWithoutStamp
     else if (pr_kevCatalogVersion p = []) \<noteq> (pr_kevDateReleased p = []) then Some HalfKEVStamp
     else if pr_kevCatalogVersion p = [] \<and> (pr_kevListed p \<or> pr_kevDateAdded p \<noteq> []) then Some KEVWithoutStamp
     else if pr_kevDateAdded p \<noteq> [] \<and> \<not> pr_kevListed p then Some KEVDateNotListed
     else if pr_epssAsOf p = [] \<and> pr_kevCatalogVersion p = [] then Some EmptyPriority
     else None)"

definition ReasonAdvisoryRangeAbsent :: gostring where
  "ReasonAdvisoryRangeAbsent = ''advisory_range_absent''"

definition bad_sufficiency :: "GuardSufficiencyNote \<Rightarrow> bool" where
  "bad_sufficiency n = (gs_symbol n = [] \<or> \<not> GuardSufficiency_Valid (gs_sufficiency n))"

text \<open>The body of Validate's loop, without the priority check that ends it.\<close>

definition row_error :: "AdvisoryFinding \<Rightarrow> report_error option" where
  "row_error f =
    (let v = af_verdict f; e = af_evidence f; id = ad_id (af_advisory f) in
     if \<not> Verdict_Valid v then Some (NonDeterministicVerdict id)
     else if v = VerdictReachableCandidate \<and> ev_basis e \<noteq> BasisNone then Some (CandidateWithBasis id)
     else if v = VerdictUndetermined \<and> ev_basis e \<noteq> BasisNone then Some (UndeterminedWithBasis id)
     else if ev_basis e = BasisSymbolUnreachable \<and> v \<noteq> VerdictNotExploitable then Some (UnreachableBasisElsewhere id)
     else if v = VerdictUndetermined \<and> af_undeterminedReason f = [] then Some (UndeterminedWithoutReason id)
     else if length (ev_advisoryBounds e) > 0 \<and> af_undeterminedReason f \<noteq> ReasonAdvisoryRangeAbsent
       then Some (BoundsElsewhere id)
     else if af_undeterminedReason f \<noteq> [] \<and> v \<noteq> VerdictUndetermined then Some (ReasonElsewhere id)
     else if \<not> Grade_Valid (ev_grade e) then Some (InvalidGrade id)
     else if ev_grade e \<noteq> [] \<and> v \<noteq> VerdictReachableCandidate then Some (GradeElsewhere id)
     else if \<not> SymbolConfidence_Valid (ev_symbolConfidence e) then Some (InvalidConfidence id)
     else if ev_symbolConfidence e \<noteq> [] \<and> v \<noteq> VerdictReachableCandidate then Some (ConfidenceElsewhere id)
     else if length (ev_assumptions e) > 0 \<and> v \<noteq> VerdictNotExploitable then Some (AssumptionsElsewhere id)
     else if ev_exploitPreconditions e \<noteq> None \<and> v \<noteq> VerdictReachableCandidate then Some (PreconditionsElsewhere id)
     else if (case ev_exploitPreconditions e of None \<Rightarrow> False | Some p \<Rightarrow> ExploitPreconditions_Empty p)
       then Some (EmptyPreconditions id)
     else if length (ev_guardSufficiency e) > 0 \<and> v \<noteq> VerdictReachableCandidate then Some (SufficiencyElsewhere id)
     else if list_ex bad_sufficiency (ev_guardSufficiency e) then Some (MalformedSufficiency id)
     else None)"

definition finding_error :: "AdvisoryFinding \<Rightarrow> report_error option" where
  "finding_error f =
    (case row_error f of
       Some e \<Rightarrow> Some e
     | None \<Rightarrow>
         (case af_priority f of
            None \<Rightarrow> None
          | Some p \<Rightarrow> map_option (BadPriority (ad_id (af_advisory f))) (Priority_validate p)))"

text \<open>A loop that returns at the first error.\<close>

fun first_error :: "('a \<Rightarrow> 'e option) \<Rightarrow> 'a list \<Rightarrow> 'e option" where
  "first_error f [] = None"
| "first_error f (x # xs) = (case f x of Some e \<Rightarrow> Some e | None \<Rightarrow> first_error f xs)"

definition edge_error :: "gostring set \<Rightarrow> Relationship \<Rightarrow> report_error option" where
  "edge_error present r =
    (if rel_parent r \<notin> present then Some (DanglingParent (rel_parent r))
     else if rel_child r \<notin> present then Some (DanglingChild (rel_child r)) else None)"

definition Report_Validate :: "Report \<Rightarrow> report_error option" where
  "Report_Validate r =
    (if rp_schemaVersion r = [] then Some NoSchemaVersion
     else case first_error finding_error (rp_advisories r) of
       Some e \<Rightarrow> Some e
     | None \<Rightarrow>
         (let s = rp_sbom r in
          if length (sb_relationships s) > 0
          then first_error (edge_error (Package_Key ` set (sb_packages s))) (sb_relationships s)
          else None))"

section \<open>What a valid report cannot contain\<close>

lemma first_error_None: "first_error f xs = None \<longleftrightarrow> (\<forall>x\<in>set xs. f x = None)"
  by (induction xs) (auto split: option.splits)

lemma edge_error_None: "edge_error present r = None \<longleftrightarrow> rel_parent r \<in> present \<and> rel_child r \<in> present"
  by (simp add: edge_error_def)

definition edges_closed :: "SBOM \<Rightarrow> bool" where
  "edges_closed s = list_all (\<lambda>r. rel_parent r \<in> Package_Key ` set (sb_packages s) \<and>
     rel_child r \<in> Package_Key ` set (sb_packages s)) (sb_relationships s)"

lemma edges_ok: "first_error (edge_error present) rs = None \<longleftrightarrow>
    (\<forall>r\<in>set rs. rel_parent r \<in> present \<and> rel_child r \<in> present)"
  by (simp add: first_error_None edge_error_None)

lemma Report_Validate_None:
  "Report_Validate r = None \<longleftrightarrow> rp_schemaVersion r \<noteq> [] \<and>
     (\<forall>f\<in>set (rp_advisories r). finding_error f = None) \<and> edges_closed (rp_sbom r)"
proof (cases "first_error finding_error (rp_advisories r)")
  case None
  then have "\<forall>f\<in>set (rp_advisories r). finding_error f = None" by (simp add: first_error_None)
  then show ?thesis by (auto simp: Report_Validate_def None edges_ok edges_closed_def list_all_iff Let_def)
next
  case (Some e)
  then have "\<not> (\<forall>f\<in>set (rp_advisories r). finding_error f = None)"
    using first_error_None [of finding_error "rp_advisories r"] by simp
  then show ?thesis using Some by (simp add: Report_Validate_def)
qed

lemma finding_error_None:
  "finding_error f = None \<longleftrightarrow> row_error f = None \<and>
    (case af_priority f of None \<Rightarrow> True | Some p \<Rightarrow> Priority_validate p = None)"
  by (auto simp: finding_error_def split: option.splits)

text \<open>What the fields of a row may hold, by verdict.\<close>

definition candidate_only :: "EvidenceSummary \<Rightarrow> bool" where
  "candidate_only e = (ev_grade e \<noteq> [] \<or> ev_symbolConfidence e \<noteq> [] \<or> ev_exploitPreconditions e \<noteq> None \<or>
     ev_guardSufficiency e \<noteq> [])"

definition row_spec :: "AdvisoryFinding \<Rightarrow> bool" where
  "row_spec f =
    (let v = af_verdict f; e = af_evidence f in
     Verdict_Valid v \<and>
     (if v = VerdictReachableCandidate then
        ev_basis e = BasisNone \<and> Grade_Valid (ev_grade e) \<and> SymbolConfidence_Valid (ev_symbolConfidence e) \<and>
        (case ev_exploitPreconditions e of None \<Rightarrow> True | Some p \<Rightarrow> \<not> ExploitPreconditions_Empty p) \<and>
        list_all (\<lambda>n. \<not> bad_sufficiency n) (ev_guardSufficiency e)
      else \<not> candidate_only e) \<and>
     (if v = VerdictUndetermined then ev_basis e = BasisNone \<and> af_undeterminedReason f \<noteq> []
      else af_undeterminedReason f = []) \<and>
     (ev_basis e \<noteq> BasisSymbolUnreachable \<or> v = VerdictNotExploitable) \<and>
     (ev_assumptions e = [] \<or> v = VerdictNotExploitable) \<and>
     (ev_advisoryBounds e = [] \<or> v = VerdictUndetermined \<and> af_undeterminedReason f = ReasonAdvisoryRangeAbsent))"

lemma verdict_distinct:
  "VerdictReachableCandidate \<noteq> VerdictUndetermined" "VerdictReachableCandidate \<noteq> VerdictNotExploitable"
  "VerdictUndetermined \<noteq> VerdictNotExploitable" "VerdictDisqualified \<noteq> VerdictUndetermined"
  "VerdictDisqualified \<noteq> VerdictReachableCandidate" "VerdictDisqualified \<noteq> VerdictNotExploitable"
  "VerdictMaliciousPresent \<noteq> VerdictUndetermined" "VerdictMaliciousPresent \<noteq> VerdictReachableCandidate"
  "VerdictMaliciousPresent \<noteq> VerdictNotExploitable" "VerdictMaliciousPresent \<noteq> VerdictDisqualified"
  by (simp_all add: verdict_defs)

lemma basis_distinct: "BasisSymbolUnreachable \<noteq> BasisNone" "ReasonAdvisoryRangeAbsent \<noteq> []"
  by (simp_all add: BasisSymbolUnreachable_def BasisNone_def ReasonAdvisoryRangeAbsent_def)

lemma else_some: "(if b then Some e else x) = None \<longleftrightarrow> \<not> b \<and> x = None"
  by simp

lemma row_error_None: "row_error f = None \<longleftrightarrow> row_spec f"
proof -
  have "row_error f = None \<longleftrightarrow> Verdict_Valid (af_verdict f) \<and>
      \<not> (af_verdict f = VerdictReachableCandidate \<and> ev_basis (af_evidence f) \<noteq> BasisNone) \<and>
      \<not> (af_verdict f = VerdictUndetermined \<and> ev_basis (af_evidence f) \<noteq> BasisNone) \<and>
      \<not> (ev_basis (af_evidence f) = BasisSymbolUnreachable \<and> af_verdict f \<noteq> VerdictNotExploitable) \<and>
      \<not> (af_verdict f = VerdictUndetermined \<and> af_undeterminedReason f = []) \<and>
      \<not> (ev_advisoryBounds (af_evidence f) \<noteq> [] \<and> af_undeterminedReason f \<noteq> ReasonAdvisoryRangeAbsent) \<and>
      \<not> (af_undeterminedReason f \<noteq> [] \<and> af_verdict f \<noteq> VerdictUndetermined) \<and>
      Grade_Valid (ev_grade (af_evidence f)) \<and>
      \<not> (ev_grade (af_evidence f) \<noteq> [] \<and> af_verdict f \<noteq> VerdictReachableCandidate) \<and>
      SymbolConfidence_Valid (ev_symbolConfidence (af_evidence f)) \<and>
      \<not> (ev_symbolConfidence (af_evidence f) \<noteq> [] \<and> af_verdict f \<noteq> VerdictReachableCandidate) \<and>
      \<not> (ev_assumptions (af_evidence f) \<noteq> [] \<and> af_verdict f \<noteq> VerdictNotExploitable) \<and>
      \<not> (ev_exploitPreconditions (af_evidence f) \<noteq> None \<and> af_verdict f \<noteq> VerdictReachableCandidate) \<and>
      (case ev_exploitPreconditions (af_evidence f) of None \<Rightarrow> True | Some p \<Rightarrow> \<not> ExploitPreconditions_Empty p) \<and>
      \<not> (ev_guardSufficiency (af_evidence f) \<noteq> [] \<and> af_verdict f \<noteq> VerdictReachableCandidate) \<and>
      list_all (\<lambda>n. \<not> bad_sufficiency n) (ev_guardSufficiency (af_evidence f))"
    unfolding row_error_def Let_def else_some
    by (cases "ev_exploitPreconditions (af_evidence f)") (simp_all add: list_ex_iff list_all_iff)
  moreover have "\<not> candidate_only (af_evidence f) \<longleftrightarrow> ev_grade (af_evidence f) = [] \<and>
      ev_symbolConfidence (af_evidence f) = [] \<and> ev_exploitPreconditions (af_evidence f) = None \<and>
      ev_guardSufficiency (af_evidence f) = []" by (auto simp: candidate_only_def)
  moreover have "Grade_Valid []" "SymbolConfidence_Valid []"
    by (simp_all add: Grade_Valid_def SymbolConfidence_Valid_def)
  ultimately show ?thesis
    unfolding row_spec_def Let_def
    by (cases "af_verdict f = VerdictReachableCandidate"; cases "af_verdict f = VerdictUndetermined";
        cases "af_verdict f = VerdictNotExploitable")
      (auto simp: verdict_distinct basis_distinct)
qed

definition priority_stamped :: "Priority \<Rightarrow> bool" where
  "priority_stamped p = (
     (pr_epssAsOf p \<noteq> [] \<or> pr_epssScore p = 0 \<and> pr_epssPercentile p = 0 \<and> \<not> pr_hasPercentile p) \<and>
     (pr_kevCatalogVersion p = []) = (pr_kevDateReleased p = []) \<and>
     (pr_kevCatalogVersion p \<noteq> [] \<or> \<not> pr_kevListed p \<and> pr_kevDateAdded p = []) \<and>
     (pr_kevDateAdded p = [] \<or> pr_kevListed p) \<and>
     (HasEPSS (Some p) \<or> HasKEV (Some p)))"

lemma Priority_validate_None: "Priority_validate p = None \<longleftrightarrow> priority_stamped p"
  unfolding Priority_validate_def else_some priority_stamped_def HasEPSS_def HasKEV_def by auto

definition report_spec :: "Report \<Rightarrow> bool" where
  "report_spec r = (rp_schemaVersion r \<noteq> [] \<and> list_all row_spec (rp_advisories r) \<and>
     list_all (\<lambda>f. case af_priority f of None \<Rightarrow> True | Some p \<Rightarrow> priority_stamped p) (rp_advisories r) \<and>
     edges_closed (rp_sbom r))"

lemma Report_Validate_spec: "Report_Validate r = None \<longleftrightarrow> report_spec r"
  unfolding Report_Validate_None finding_error_None row_error_None Priority_validate_None report_spec_def
    list_all_iff by blast

text \<open>C18: Validate accepts exactly the reports of the specification: every verdict is one of the five,
  grounds and reasons and qualifiers sit only on the verdicts they belong to (an undetermined row has a
  reason and no grounds, a candidate no refutation, and only a candidate has a grade, a confidence,
  preconditions or guard notes), every priority value has its stamp, and every edge of the SBOM ends
  in packages it lists.\<close>
theorem report_validate_exact:
  "(Report_Validate r = None) = report_spec r"
  by (rule Report_Validate_spec)

section \<open>Partiality\<close>

definition PartialityInherentLimit :: gostring where "PartialityInherentLimit = ''inherent_limit''"
definition PartialityDidNotRun :: gostring where "PartialityDidNotRun = ''did_not_run''"

definition PartialReasonReflection :: gostring where "PartialReasonReflection = ''reflection''"
definition PartialReasonDynamicDispatch :: gostring where "PartialReasonDynamicDispatch = ''dynamic_dispatch''"
definition PartialReasonPolicyAdvisoryNoCoordinates :: gostring where
  "PartialReasonPolicyAdvisoryNoCoordinates = ''policy_advisory_no_coordinates''"
definition PartialReasonMacroExpansion :: gostring where "PartialReasonMacroExpansion = ''macro_expansion''"
definition PartialReasonNativeLinkBoundary :: gostring where
  "PartialReasonNativeLinkBoundary = ''native_link_boundary''"
definition PartialReasonToolFailure :: gostring where "PartialReasonToolFailure = ''tool_failure''"
definition AnnotationAssumptionPrefix :: gostring where "AnnotationAssumptionPrefix = ''assumption:''"

definition ClassifyPartialityReason :: "gostring \<Rightarrow> gostring" where
  "ClassifyPartialityReason reason =
    (if reason = PartialReasonReflection \<or> reason = PartialReasonDynamicDispatch \<or>
        reason = PartialReasonPolicyAdvisoryNoCoordinates \<or> reason = PartialReasonMacroExpansion
       then PartialityInherentLimit
     else if reason = PartialReasonDynamicDispatch @ '':fn_ptr'' \<or> reason = PartialReasonDynamicDispatch @ '':vtable''
       then PartialityInherentLimit
     else if reason = PartialReasonNativeLinkBoundary \<or> has_prefix reason (PartialReasonNativeLinkBoundary @ '':'')
       then PartialityInherentLimit
     else if has_prefix reason AnnotationAssumptionPrefix then PartialityInherentLimit
     else PartialityDidNotRun)"

definition EffectiveClass :: "PartialityNote \<Rightarrow> gostring" where
  "EffectiveClass n =
    (if pn_class n = PartialityInherentLimit then PartialityInherentLimit else PartialityDidNotRun)"

definition quiet_bases :: "gostring list" where
  "quiet_bases = [PartialReasonReflection, PartialReasonDynamicDispatch, PartialReasonPolicyAdvisoryNoCoordinates,
     PartialReasonMacroExpansion, PartialReasonNativeLinkBoundary]"

lemma has_prefixD: "has_prefix s p \<Longrightarrow> \<exists>t. s = p @ t"
  by (metis append_take_drop_id has_prefix_def)

lemma classify_quiet:
  assumes "ClassifyPartialityReason reason = PartialityInherentLimit"
  shows "has_prefix reason AnnotationAssumptionPrefix \<or>
    (\<exists>base\<in>set quiet_bases. reason = base \<or> has_prefix reason (base @ '':''))"
proof -
  have d: "PartialityDidNotRun \<noteq> PartialityInherentLimit"
    by (simp add: PartialityDidNotRun_def PartialityInherentLimit_def)
  have p: "has_prefix (PartialReasonDynamicDispatch @ '':fn_ptr'') (PartialReasonDynamicDispatch @ '':'')"
    "has_prefix (PartialReasonDynamicDispatch @ '':vtable'') (PartialReasonDynamicDispatch @ '':'')"
    by code_simp+
  show ?thesis
    using assms d p by (auto simp: ClassifyPartialityReason_def quiet_bases_def split: if_splits)
qed

lemma EffectiveClass_two: "EffectiveClass n \<in> {PartialityInherentLimit, PartialityDidNotRun}"
  by (simp add: EffectiveClass_def)

section \<open>Manifest files\<close>

definition ManifestForEcosystem :: "gostring \<Rightarrow> gostring" where
  "ManifestForEcosystem ecosystem =
    (let e = to_lower ecosystem in
     if e = ''go'' then ''go.mod''
     else if e = ''npm'' then ''package.json''
     else if e = ''maven'' then ''pom.xml''
     else if e = ''pypi'' then ''requirements.txt''
     else if e = ''cargo'' then ''Cargo.toml''
     else if e = ''rubygems'' then ''Gemfile''
     else [])"

end
