(* ===== verification/Report_Build.thy ===== *)
theory Report_Build
  imports Report_Model "HOL-Library.Multiset" "HOL-Library.Sublist"
begin

text \<open>
  How a report is put together: src/report/builder.go and the migration of stored documents,
  src/report/migrate.go. A method of Builder is a function on the builder; \<open>now\<close> is the clock
  Build reads when no timestamp is set. sort.Slice leaves the order of elements that compare
  equal open: the model sorts stably, and no lemma depends on that choice beyond what the sorted list
  holds. The lemmas: the canonical forms depend only on what was added, merging notes never
  narrows a disclosure, and migrating a document keeps every row and names every advisory a
  note withheld.
\<close>

section \<open>Small loops\<close>

text \<open>The elements at their first occurrence, the empty string left out on request: the loop over a
  \<open>seen\<close> map.\<close>

fun first_seen :: "'a list \<Rightarrow> 'a list \<Rightarrow> 'a list" where
  "first_seen seen [] = []"
| "first_seen seen (x # xs) =
    (if x \<in> set seen then first_seen seen xs else x # first_seen (x # seen) xs)"

definition sortedUnique :: "gostring list \<Rightarrow> gostring list" where
  "sortedUnique ids = sort (first_seen [] (filter (\<lambda>id. id \<noteq> []) ids))"

definition rel_key :: "Relationship \<Rightarrow> gostring \<times> gostring" where
  "rel_key r = (rel_parent r, rel_child r)"

definition sortedUniqueRelationships :: "Relationship list \<Rightarrow> Relationship list" where
  "sortedUniqueRelationships rels = sort_key rel_key (first_seen [] rels)"

lemma first_seen_set: "set (first_seen seen xs) = set xs - set seen"
  by (induction seen xs rule: first_seen.induct) auto

lemma first_seen_distinct: "distinct (first_seen seen xs)"
  by (induction seen xs rule: first_seen.induct) (auto simp: first_seen_set)

lemma first_seen_fix: "distinct xs \<Longrightarrow> set xs \<inter> set seen = {} \<Longrightarrow> first_seen seen xs = xs"
  by (induction seen xs rule: first_seen.induct) auto

lemma sortedUnique_set: "set (sortedUnique ids) = set ids - {[]}"
  by (auto simp: sortedUnique_def first_seen_set)

lemma sortedUnique_canonical: "sortedUnique ids = sorted_list_of_set (set ids - {[]})"
proof -
  have "sorted (sortedUnique ids) \<and> distinct (sortedUnique ids)"
    by (simp add: sortedUnique_def first_seen_distinct)
  then show ?thesis
    by (metis sorted_list_of_set.idem_if_sorted_distinct sortedUnique_set)
qed

lemma sortedUnique_idem [simp]: "sortedUnique (sortedUnique ids) = sortedUnique ids"
  by (simp add: sortedUnique_canonical)

lemma rel_key_inj: "inj rel_key"
  by (auto simp: inj_def rel_key_def intro: Relationship.equality)

lemma map_sort_key: "map f (sort_key f xs) = sort (map f xs)"
  by (rule sym, rule properties_for_sort) simp_all

lemma sort_key_canonical:
  assumes "inj_on f (set xs)" "mset xs = mset ys"
  shows "sort_key f xs = sort_key f ys"
proof -
  have "sort (map f xs) = sort (map f ys)"
    by (metis assms(2) mset_map properties_for_sort mset_sort sorted_sort)
  then have "map f (sort_key f xs) = map f (sort_key f ys)" by (simp add: map_sort_key)
  moreover have "set xs = set ys" using assms(2) by (metis set_mset_mset)
  ultimately show ?thesis using assms(1) by (auto intro: map_inj_on)
qed

lemma first_seen_mset: "set xs = set ys \<Longrightarrow> mset (first_seen [] xs) = mset (first_seen [] ys)"
  by (metis first_seen_distinct first_seen_set set_eq_iff_mset_eq_distinct)

lemma sortedUniqueRelationships_canonical:
  "set rs = set qs \<Longrightarrow> sortedUniqueRelationships rs = sortedUniqueRelationships qs"
  unfolding sortedUniqueRelationships_def
  by (rule sort_key_canonical) (auto intro: first_seen_mset inj_on_subset [OF rel_key_inj])

lemma sortedUniqueRelationships_set [simp]: "set (sortedUniqueRelationships rels) = set rels"
  by (simp add: sortedUniqueRelationships_def first_seen_set)

section \<open>The order of findings\<close>

definition is_1 :: "bool \<Rightarrow> int" where
  "is_1 b = (if b then 1 else 0)"

text \<open>findingRank: candidate, undetermined, kev, grade, epss, percentile.\<close>

definition findingRank :: "AdvisoryFinding \<Rightarrow> int \<times> int \<times> int \<times> int \<times> rat \<times> rat" where
  "findingRank f =
    (is_1 (af_verdict f = VerdictReachableCandidate),
     is_1 (af_verdict f = VerdictUndetermined),
     (case af_priority f of None \<Rightarrow> 0 | Some p \<Rightarrow> is_1 (pr_kevListed p)),
     (if ev_grade (af_evidence f) = GradeAttackerTainted then 2
      else if ev_grade (af_evidence f) = GradeControlFlowOnly then 1 else 0),
     (case af_priority f of None \<Rightarrow> 0 | Some p \<Rightarrow> pr_epssScore p),
     (case af_priority f of None \<Rightarrow> 0 | Some p \<Rightarrow> pr_epssPercentile p))"

text \<open>The comparison of sortFindings, as its switch reads.\<close>

definition finding_less :: "AdvisoryFinding \<Rightarrow> AdvisoryFinding \<Rightarrow> bool" where
  "finding_less a b =
    (let (ci, ui, ki, gi, ei, pi) = findingRank a; (cj, uj, kj, gj, ej, pj) = findingRank b in
     if ci \<noteq> cj then ci > cj
     else if ui \<noteq> uj then ui > uj
     else if ki \<noteq> kj then ki > kj
     else if gi \<noteq> gj then gi > gj
     else if ei \<noteq> ej then ei > ej
     else if pi \<noteq> pj then pi > pj
     else if ad_id (af_advisory a) \<noteq> ad_id (af_advisory b) then ad_id (af_advisory a) < ad_id (af_advisory b)
     else ad_source (af_advisory a) < ad_source (af_advisory b))"

text \<open>Its key: a strict weak order, so sorting by the key sorts by the comparison.\<close>

definition finding_key :: "AdvisoryFinding \<Rightarrow> int \<times> int \<times> int \<times> int \<times> rat \<times> rat \<times> gostring \<times> gostring" where
  "finding_key f =
    (let (c, u, k, g, e, p) = findingRank f in
     (- c, - u, - k, - g, - e, - p, ad_id (af_advisory f), ad_source (af_advisory f)))"

lemma finding_less_key: "finding_less a b \<longleftrightarrow> finding_key a < finding_key b"
  by (auto simp: finding_less_def finding_key_def case_prod_beta Let_def prod_less_def prod_le_def less_le split: prod.split)

definition sortFindings :: "AdvisoryFinding list \<Rightarrow> AdvisoryFinding list" where
  "sortFindings adv = sort_key finding_key adv"

lemma sortFindings_mset [simp]: "mset (sortFindings adv) = mset adv"
  by (simp add: sortFindings_def)

lemma sortFindings_set [simp]: "set (sortFindings adv) = set adv"
  by (simp add: sortFindings_def)

lemma sortFindings_ordered: "sorted_wrt (\<lambda>a b. \<not> finding_less b a) (sortFindings adv)"
proof -
  have "sorted (map finding_key (sortFindings adv))" by (simp add: sortFindings_def)
  then show ?thesis by (auto simp: sorted_wrt_map finding_less_key not_less elim: sorted_wrt_mono_rel [rotated])
qed

section \<open>Partiality notes\<close>

type_synonym note_key = "gostring \<times> gostring \<times> gostring \<times> gostring \<times> gostring"

definition note_id :: "PartialityNote \<Rightarrow> note_key" where
  "note_id n = (pn_reason n, pn_ecosystem n, pn_detail n, pn_package n, pn_path n)"

definition widen :: "PartialityNote \<Rightarrow> PartialityNote \<Rightarrow> PartialityNote" where
  "widen m n = m\<lparr>pn_advisories := pn_advisories m @ pn_advisories n,
     pn_targets := (if length (pn_targets m) = 0 \<or> length (pn_targets n) = 0 then []
                    else pn_targets m @ pn_targets n)\<rparr>"

text \<open>One turn of dedupPartiality's loop: \<open>out\<close> holds the notes merged so far, one for each key.\<close>

fun merge_note :: "PartialityNote \<Rightarrow> PartialityNote list \<Rightarrow> PartialityNote list" where
  "merge_note n [] = [n]"
| "merge_note n (m # out) = (if note_id m = note_id n then widen m n # out else m # merge_note n out)"

definition unique_lists :: "PartialityNote \<Rightarrow> PartialityNote" where
  "unique_lists n = n\<lparr>pn_advisories := sortedUnique (pn_advisories n), pn_targets := sortedUnique (pn_targets n)\<rparr>"

definition dedupPartiality :: "PartialityNote list \<Rightarrow> PartialityNote list" where
  "dedupPartiality notes = sort_key note_id (map unique_lists (fold merge_note notes []))"

definition addNotes :: "PartialityNote list \<Rightarrow> PartialityNote list \<Rightarrow> PartialityNote list" where
  "addNotes old notes =
    old @ map (\<lambda>n. if pn_class n = [] then n\<lparr>pn_class := ClassifyPartialityReason (pn_reason n)\<rparr> else n)
      (filter (\<lambda>n. pn_reason n \<noteq> []) notes)"

definition Report_AddPartiality :: "Report \<Rightarrow> PartialityNote list \<Rightarrow> Report" where
  "Report_AddPartiality r notes = r\<lparr>rp_partiality := dedupPartiality (addNotes (rp_partiality r) notes)\<rparr>"

definition SetAdvisories :: "Report \<Rightarrow> AdvisoryFinding list \<Rightarrow> Report" where
  "SetAdvisories r adv = r\<lparr>rp_advisories := sortFindings adv\<rparr>"

section \<open>The builder\<close>

record Builder =
  bd_subject :: Subject
  bd_packages :: "Package list"
  bd_relationships :: "Relationship list"
  bd_goBuildList :: SBOM
  bd_advisories :: "AdvisoryFinding list"
  bd_partiality :: "PartialityNote list"
  bd_provenance :: Provenance
  bd_baseline :: "BaselineRef option"
  bd_priority :: "(Advisory \<Rightarrow> Priority option) option"
  bd_entrypoints :: "ResolvedLibraryEntrypoints list"

definition empty_sbom :: SBOM where
  "empty_sbom = \<lparr>sb_packages = [], sb_relationships = [], sb_goBuildList = [], sb_goMainModule = [],
     sb_goWorkspaceModules = []\<rparr>"

definition NewBuilder :: "Subject \<Rightarrow> Builder" where
  "NewBuilder subject =
    \<lparr>bd_subject = subject, bd_packages = [], bd_relationships = [], bd_goBuildList = empty_sbom,
     bd_advisories = [], bd_partiality = [],
     bd_provenance = \<lparr>pv_commitSHA = sj_resolvedCommit subject, pv_analyzerVersion = [],
       pv_capabilityManifestVersion = [], pv_advisoryCursor = [], pv_timestamp = 0, pv_intel = None, pv_timings = None\<rparr>,
     bd_baseline = None, bd_priority = None, bd_entrypoints = []\<rparr>"

definition AddPackage :: "Package \<Rightarrow> Builder \<Rightarrow> Builder" where
  "AddPackage p b = b\<lparr>bd_packages := bd_packages b @ [p]\<rparr>"

definition AddPackages :: "Package list \<Rightarrow> Builder \<Rightarrow> Builder" where
  "AddPackages ps b = b\<lparr>bd_packages := bd_packages b @ ps\<rparr>"

definition SetRelationships :: "Relationship list \<Rightarrow> Builder \<Rightarrow> Builder" where
  "SetRelationships rels b = b\<lparr>bd_relationships := rels\<rparr>"

definition SetGoBuildList :: "SBOM \<Rightarrow> Builder \<Rightarrow> Builder" where
  "SetGoBuildList s b = b\<lparr>bd_goBuildList := empty_sbom\<lparr>sb_goBuildList := sb_goBuildList s,
     sb_goMainModule := sb_goMainModule s, sb_goWorkspaceModules := sb_goWorkspaceModules s\<rparr>\<rparr>"

definition AddFinding :: "AdvisoryFinding \<Rightarrow> Builder \<Rightarrow> Builder" where
  "AddFinding f b = b\<lparr>bd_advisories := bd_advisories b @ [f]\<rparr>"

definition no_evidence :: EvidenceSummary where
  "no_evidence = \<lparr>ev_basis = BasisNone, ev_detail = [], ev_assumptions = [], ev_reachablePath = [], ev_grade = [],
     ev_entryPoint = None, ev_callPath = [], ev_mitigatingGuards = [], ev_advisoryBounds = [],
     ev_symbolConfidence = [], ev_exploitPreconditions = None, ev_guardSufficiency = []\<rparr>"

definition new_row :: "Advisory \<Rightarrow> Package option \<Rightarrow> gostring \<Rightarrow> gostring \<Rightarrow> EvidenceSummary \<Rightarrow> AdvisoryFinding" where
  "new_row adv pkg v reason e =
    \<lparr>af_advisory = adv, af_package = pkg, af_verdict = v, af_undeterminedReason = reason, af_evidence = e,
     af_annotations = [], af_priority = None\<rparr>"

definition Disqualified :: "Advisory \<Rightarrow> Package option \<Rightarrow> gostring \<Rightarrow> gostring \<Rightarrow> Builder \<Rightarrow> Builder" where
  "Disqualified adv pkg basis detail =
    AddFinding (new_row adv pkg VerdictDisqualified [] (no_evidence\<lparr>ev_basis := basis, ev_detail := detail\<rparr>))"

definition NotExploitable :: "Advisory \<Rightarrow> Package option \<Rightarrow> gostring \<Rightarrow> gostring \<Rightarrow> Builder \<Rightarrow> Builder" where
  "NotExploitable adv pkg basis detail =
    AddFinding (new_row adv pkg VerdictNotExploitable [] (no_evidence\<lparr>ev_basis := basis, ev_detail := detail\<rparr>))"

definition ReachableCandidate :: "Advisory \<Rightarrow> Package option \<Rightarrow> gostring \<Rightarrow> gostring \<Rightarrow> Builder \<Rightarrow> Builder" where
  "ReachableCandidate adv pkg path detail =
    AddFinding (new_row adv pkg VerdictReachableCandidate []
      (no_evidence\<lparr>ev_reachablePath := path, ev_detail := detail\<rparr>))"

definition ReachableCandidateGraded ::
  "Advisory \<Rightarrow> Package option \<Rightarrow> gostring \<Rightarrow> EntryPoint option \<Rightarrow> CallFrame list \<Rightarrow> gostring \<Rightarrow> gostring \<Rightarrow>
   Builder \<Rightarrow> Builder" where
  "ReachableCandidateGraded adv pkg grade entry frames path detail =
    AddFinding (new_row adv pkg VerdictReachableCandidate []
      (no_evidence\<lparr>ev_reachablePath := path, ev_detail := detail, ev_grade := grade, ev_entryPoint := entry,
         ev_callPath := frames\<rparr>))"

definition Builder_AddPartiality :: "PartialityNote list \<Rightarrow> Builder \<Rightarrow> Builder" where
  "Builder_AddPartiality notes b = b\<lparr>bd_partiality := addNotes (bd_partiality b) notes\<rparr>"

definition WithProvenance :: "Provenance \<Rightarrow> Builder \<Rightarrow> Builder" where
  "WithProvenance p b =
    b\<lparr>bd_provenance :=
       (if pv_commitSHA p = [] then p\<lparr>pv_commitSHA := sj_resolvedCommit (bd_subject b)\<rparr> else p)\<rparr>"

definition add_entrypoint ::
  "ResolvedLibraryEntrypoints \<Rightarrow> ResolvedLibraryEntrypoints list \<Rightarrow> ResolvedLibraryEntrypoints list" where
  "add_entrypoint e es = (if list_ex (\<lambda>r. le_ecosystem r = le_ecosystem e) es then es else es @ [e])"

definition WithLibraryEntrypoints :: "ResolvedLibraryEntrypoints list \<Rightarrow> Builder \<Rightarrow> Builder" where
  "WithLibraryEntrypoints es b = b\<lparr>bd_entrypoints := fold add_entrypoint es (bd_entrypoints b)\<rparr>"

definition WithBaseline :: "BaselineRef \<Rightarrow> Builder \<Rightarrow> Builder" where
  "WithBaseline ref b = b\<lparr>bd_baseline := Some ref\<rparr>"

definition WithPriority :: "(Advisory \<Rightarrow> Priority option) option \<Rightarrow> Builder \<Rightarrow> Builder" where
  "WithPriority fn b = b\<lparr>bd_priority := fn\<rparr>"

definition pkg_key :: "Package \<Rightarrow> gostring \<times> gostring \<times> gostring" where
  "pkg_key p = (pkg_ecosystem p, pkg_name p, pkg_version p)"

definition prioritized :: "Builder \<Rightarrow> AdvisoryFinding list" where
  "prioritized b =
    (case bd_priority b of
       None \<Rightarrow> bd_advisories b
     | Some fn \<Rightarrow> map (\<lambda>f. f\<lparr>af_priority := fn (af_advisory f)\<rparr>) (bd_advisories b))"

definition Build :: "int \<Rightarrow> Builder \<Rightarrow> Report" where
  "Build now b =
    (let prov = bd_provenance b;
         prov1 = (if pv_timestamp prov = 0 then prov\<lparr>pv_timestamp := now\<rparr> else prov)
     in \<lparr>rp_schemaVersion = report_SchemaVersion,
         rp_subject = bd_subject b,
         rp_sbom = \<lparr>sb_packages = sort_key pkg_key (bd_packages b),
                    sb_relationships = sortedUniqueRelationships (bd_relationships b),
                    sb_goBuildList = sb_goBuildList (bd_goBuildList b),
                    sb_goMainModule = sb_goMainModule (bd_goBuildList b),
                    sb_goWorkspaceModules = sortedUnique (sb_goWorkspaceModules (bd_goBuildList b))\<rparr>,
         rp_advisories = sortFindings (prioritized b),
         rp_partiality = dedupPartiality (bd_partiality b),
         rp_provenance = prov1,
         rp_baseline = bd_baseline b,
         rp_buildGraph = None,
         rp_libraryEntrypoints = sort_key le_ecosystem (bd_entrypoints b),
         rp_dependencyCode = None\<rparr>)"

definition BuildValidated :: "int \<Rightarrow> Builder \<Rightarrow> report_error + Report" where
  "BuildValidated now b =
    (let r = Build now b in
     case Report_Validate r of Some e \<Rightarrow> Inl e | None \<Rightarrow> Inr r)"

section \<open>Reason texts\<close>

definition ReasonGoToolchainUnresolved :: gostring where
  "ReasonGoToolchainUnresolved = ''go_toolchain_unresolved''"
definition ReasonUnspecifiedLimit :: gostring where "ReasonUnspecifiedLimit = ''unspecified_limit''"
definition ReasonGoToolchainNotScanned :: gostring where
  "ReasonGoToolchainNotScanned = ''go_toolchain_not_scanned''"
definition ReasonAnalysisDidNotRun :: gostring where "ReasonAnalysisDidNotRun = ''analysis_did_not_run''"
definition ReasonPackageVersionUnresolved :: gostring where
  "ReasonPackageVersionUnresolved = ''package_version_unresolved''"
definition ReasonAdvisorySymbolAbsent :: gostring where "ReasonAdvisorySymbolAbsent = ''advisory_symbol_absent''"
definition ReasonVulnerableSymbolUnresolved :: gostring where
  "ReasonVulnerableSymbolUnresolved = ''vulnerable_symbol_unresolved''"
definition ReasonAdvisorySymbolsUnvetted :: gostring where
  "ReasonAdvisorySymbolsUnvetted = ''advisory_symbols_unvetted''"
definition ReasonAdvisoryUnknownToAnalyzer :: gostring where
  "ReasonAdvisoryUnknownToAnalyzer = ''advisory_unknown_to_analyzer''"
definition ReasonRefutationWithheld :: gostring where "ReasonRefutationWithheld = ''refutation_withheld''"
definition ReasonScanCutShort :: gostring where "ReasonScanCutShort = ''scan_cut_short''"
definition ReasonDependencyNotFetched :: gostring where
  "ReasonDependencyNotFetched = ''dependency_not_fetched''"

text \<open>The sentences of UndeterminedDetail, by reason code, in the order of its switch.\<close>

definition detail_texts :: "(gostring \<times> gostring) list" where
  "detail_texts =
    [(ReasonGoToolchainUnresolved,
      ''the Go toolchain version this codebase builds with could not be determined, so no verdict was established for an advisory affecting the toolchain itself''),
     (ReasonGoToolchainNotScanned,
      ''the analysis did not run under this codebase's own Go toolchain version, so no verdict was established for an advisory affecting the toolchain itself''),
     (ReasonAnalysisDidNotRun,
      ''the analysis steps that would locate this advisory's code in what this repository builds did not run, so no verdict was established: finding no path is a fact about the analysis here, not about this codebase''),
     (ReasonPackageVersionUnresolved,
      ''the installed version of the affected package could not be resolved, so no verdict was established''),
     (ReasonAdvisorySymbolAbsent,
      ''the advisory names no vulnerable function to search for, so no verdict was established''),
     (ReasonVulnerableSymbolUnresolved,
      ''the advisory's vulnerable functions were not all located inside the affected package and searched, so no verdict was established''),
     (ReasonAdvisorySymbolsUnvetted,
      ''no path reaches the vulnerable functions this advisory lists, but the list was not declared by the advisory database or curated, so it may leave out the vulnerable code and no verdict was established''),
     (ReasonAdvisoryUnknownToAnalyzer,
      ''the analyzer that traces calls to this advisory's vulnerable functions reported nothing about the advisory (it may not know the advisory, or may not analyze the affected module), so no verdict was established''),
     (ReasonRefutationWithheld,
      ''the analysis ran and found no path to this advisory's vulnerable code, but code that search did not cover may reach it, so no verdict was established''),
     (ReasonAdvisoryRangeAbsent,
      ''a path reaches this advisory's vulnerable code, but the advisory records no affected version range that can be checked against the installed version, so no verdict was established for it''),
     (ReasonScanCutShort,
      ''the scan stopped before this advisory was assessed, so no verdict was established''),
     (ReasonDependencyNotFetched,
      ''the run that last assessed this advisory did not read all the dependency code its lockfile pins, so the verdict it reached is not kept and no verdict was established; a run that reads that code assesses the advisory again''),
     (ReasonUnspecifiedLimit,
      ''no verdict was established for this advisory, and the stored report this row was migrated from did not record which limit prevented it'')]"

definition UndeterminedDetail :: "gostring \<Rightarrow> gostring" where
  "UndeterminedDetail reason =
    (case map_of detail_texts reason of
       Some t \<Rightarrow> t
     | None \<Rightarrow> ''no verdict was established for this advisory ('' @ reason @ '')'')"

definition undetermined_row :: "Advisory \<Rightarrow> Package option \<Rightarrow> gostring \<Rightarrow> AdvisoryFinding" where
  "undetermined_row adv pkg reason =
    new_row adv pkg VerdictUndetermined reason (no_evidence\<lparr>ev_detail := UndeterminedDetail reason\<rparr>)"

definition Undetermined :: "Advisory \<Rightarrow> Package option \<Rightarrow> gostring \<Rightarrow> Builder \<Rightarrow> Builder" where
  "Undetermined adv pkg reason = AddFinding (undetermined_row adv pkg reason)"

section \<open>Migration\<close>

text \<open>upgradeV1's inner loop over the ids a note withheld: the ids that have a row, and the rows.\<close>

fun withheld_rows :: "gostring \<Rightarrow> gostring list \<Rightarrow> gostring list \<times> AdvisoryFinding list \<Rightarrow>
    gostring list \<times> AdvisoryFinding list" where
  "withheld_rows reason [] (present, rows) = (present, rows)"
| "withheld_rows reason (aid # ids) (present, rows) =
    (if aid = [] \<or> aid \<in> set present then withheld_rows reason ids (present, rows)
     else withheld_rows reason ids
       (aid # present, rows @ [undetermined_row \<lparr>ad_id = aid, ad_source = [], ad_aliases = []\<rparr> None reason]))"

definition limit_reason :: "PartialityNote \<Rightarrow> gostring" where
  "limit_reason n = (if pn_reason n = [] then ReasonUnspecifiedLimit else pn_reason n)"

definition note_rows :: "PartialityNote \<Rightarrow> gostring list \<times> AdvisoryFinding list \<Rightarrow> gostring list \<times> AdvisoryFinding list" where
  "note_rows n = withheld_rows (limit_reason n) (pn_advisories n)"

definition upgradeV1 :: "Report \<Rightarrow> Report" where
  "upgradeV1 r =
    (let (present, rows) = fold note_rows (rp_partiality r)
           (map (\<lambda>f. ad_id (af_advisory f)) (rp_advisories r), rp_advisories r)
     in r\<lparr>rp_schemaVersion := SchemaVersionV2, rp_advisories := sortFindings rows,
          rp_partiality := map (\<lambda>n. n\<lparr>pn_advisories := []\<rparr>) (rp_partiality r)\<rparr>)"

definition drop_unstamped :: "AdvisoryFinding \<Rightarrow> AdvisoryFinding" where
  "drop_unstamped f =
    (case af_priority f of
       None \<Rightarrow> f
     | Some p \<Rightarrow> if Priority_validate p = None then f else f\<lparr>af_priority := None\<rparr>)"

definition dropUnstampedPriority :: "Report \<Rightarrow> Report" where
  "dropUnstampedPriority r = r\<lparr>rp_advisories := map drop_unstamped (rp_advisories r)\<rparr>"

definition upgradeV2 :: "Report \<Rightarrow> Report" where
  "upgradeV2 r = (dropUnstampedPriority r)\<lparr>rp_schemaVersion := report_SchemaVersion\<rparr>"

datatype upgrade_error = DocumentWithoutVersion | UnrecognizedVersion gostring

definition Upgrade :: "Report \<Rightarrow> upgrade_error + Report" where
  "Upgrade r =
    (if rp_schemaVersion r = report_SchemaVersion then Inr r
     else if rp_schemaVersion r = SchemaVersionV2 then Inr (upgradeV2 r)
     else if rp_schemaVersion r = SchemaVersionV1 then Inr (upgradeV2 (upgradeV1 r))
     else if rp_schemaVersion r = [] then Inl DocumentWithoutVersion
     else Inl (UnrecognizedVersion (rp_schemaVersion r)))"

section \<open>Merging notes\<close>

lemma note_id_widen [simp]: "note_id (widen m n) = note_id m"
  by (simp add: widen_def note_id_def)

lemma note_id_unique_lists [simp]: "note_id (unique_lists n) = note_id n"
  by (simp add: unique_lists_def note_id_def)

lemma merge_note_ids: "set (map note_id (merge_note n out)) = insert (note_id n) (set (map note_id out))"
  by (induction n out rule: merge_note.induct) auto

lemma merge_note_new: "note_id n \<notin> set (map note_id out) \<Longrightarrow> merge_note n out = out @ [n]"
  by (induction n out rule: merge_note.induct) auto

lemma merge_note_distinct: "distinct (map note_id out) \<Longrightarrow> distinct (map note_id (merge_note n out))"
proof (induction n out rule: merge_note.induct)
  case (2 n m out)
  then show ?case using merge_note_ids [of n out] by auto
qed simp

text \<open>What a merged note stands for: the notes of its key seen so far.\<close>

definition stands_for :: "PartialityNote \<Rightarrow> PartialityNote set \<Rightarrow> bool" where
  "stands_for m N = (
     set (pn_advisories m) = (\<Union>n\<in>N. set (pn_advisories n)) \<and>
     (if \<exists>n\<in>N. pn_targets n = [] then pn_targets m = []
      else pn_targets m \<noteq> [] \<and> set (pn_targets m) = (\<Union>n\<in>N. set (pn_targets n))))"

definition same_id :: "PartialityNote set \<Rightarrow> note_key \<Rightarrow> PartialityNote set" where
  "same_id N k = {n \<in> N. note_id n = k}"

lemma stands_for_one: "stands_for n {n}"
  by (simp add: stands_for_def)

lemma stands_for_widen: "stands_for m N \<Longrightarrow> stands_for (widen m n) (insert n N)"
  by (auto simp: stands_for_def widen_def)

lemma same_id_insert:
  "same_id (insert n N) k = (if note_id n = k then insert n (same_id N k) else same_id N k)"
  by (auto simp: same_id_def)

lemma merge_note_cases:
  assumes "distinct (map note_id out)" and "m \<in> set (merge_note n out)"
  shows "m \<in> set out \<and> note_id m \<noteq> note_id n \<or> m = n \<and> note_id n \<notin> note_id ` set out \<or>
    (\<exists>q\<in>set out. note_id q = note_id n \<and> m = widen q n)"
  using assms
proof (induction n out rule: merge_note.induct)
  case (2 n q out)
  show ?case
  proof (cases "note_id q = note_id n")
    case True
    have "note_id n \<notin> note_id ` set out" using True 2(2) by simp
    moreover have "m = widen q n \<or> m \<in> set out" using True 2(3) by simp
    moreover have "note_id m \<noteq> note_id n" if "m \<in> set out"
      using that \<open>note_id n \<notin> note_id ` set out\<close> by (metis imageI)
    ultimately show ?thesis using True by fastforce
  next
    case False
    have "m = q \<or> m \<in> set (merge_note n out)" using False 2(3) by simp
    then show ?thesis
    proof
      assume "m = q"
      then show ?thesis using False by simp
    next
      assume "m \<in> set (merge_note n out)"
      moreover have "distinct (map note_id out)" using 2(2) by simp
      ultimately have "m \<in> set out \<and> note_id m \<noteq> note_id n \<or> m = n \<and> note_id n \<notin> note_id ` set out \<or>
          (\<exists>q\<in>set out. note_id q = note_id n \<and> m = widen q n)" by (rule 2(1) [OF False, rotated])
      then show ?thesis
      proof (elim disjE)
        assume "m = n \<and> note_id n \<notin> note_id ` set out"
        then have "m = n \<and> note_id n \<notin> note_id ` set (q # out)" using False by simp
        then show ?thesis by (intro disjI2 disjI1)
      qed (simp_all only: list.set insert_iff bex_simps simp_thms, blast?)
    qed
  qed
qed simp

lemma fold_merge_note:
  "distinct (map note_id (fold merge_note ns [])) \<and>
   set (map note_id (fold merge_note ns [])) = note_id ` set ns \<and>
   (\<forall>m\<in>set (fold merge_note ns []). stands_for m (same_id (set ns) (note_id m)))"
proof (induction ns rule: rev_induct)
  case Nil
  then show ?case by simp
next
  case (snoc n ns)
  let ?out = "fold merge_note ns []"
  have e: "same_id (set ns) k = {}" if "k \<notin> set (map note_id ?out)" for k
    using that snoc unfolding same_id_def by blast
  have "stands_for m (same_id (insert n (set ns)) (note_id m))" if m: "m \<in> set (merge_note n ?out)" for m
    using merge_note_cases [OF conjunct1 [OF snoc] m]
  proof (elim disjE bexE conjE)
    assume "m \<in> set ?out" "note_id m \<noteq> note_id n"
    moreover from this(1) have "stands_for m (same_id (set ns) (note_id m))" using snoc by blast
    ultimately show ?thesis by (simp only: same_id_insert simp_thms if_False not_sym)
  next
    assume "m = n" "note_id n \<notin> note_id ` set ?out"
    then show ?thesis using e [of "note_id n"] by (simp add: same_id_insert stands_for_one)
  next
    fix q assume q: "q \<in> set ?out" "note_id q = note_id n" "m = widen q n"
    then have "stands_for q (same_id (set ns) (note_id n))" using snoc by metis
    then show ?thesis using q(2,3) by (simp add: same_id_insert stands_for_widen)
  qed
  then show ?case using snoc merge_note_ids [of n ?out] merge_note_distinct [of ?out n] by simp
qed

lemma unique_lists_idem [simp]: "unique_lists (unique_lists n) = unique_lists n"
  by (simp add: unique_lists_def)

lemma dedup_set: "set (dedupPartiality ns) = unique_lists ` set (fold merge_note ns [])"
  by (simp add: dedupPartiality_def)

lemma dedup_ids: "note_id ` set (dedupPartiality ns) = note_id ` set ns"
proof -
  have "note_id ` set (dedupPartiality ns) = set (map note_id (fold merge_note ns []))"
    by (simp add: dedup_set image_image)
  then show ?thesis using fold_merge_note [of ns] by simp
qed

lemma distinct_map_mset: "mset xs = mset ys \<Longrightarrow> distinct (map f xs) = distinct (map f ys)"
  by (metis mset_eq_imp_distinct_iff mset_map)

lemma dedup_distinct: "distinct (map note_id (dedupPartiality ns))"
proof -
  have "distinct (map note_id (map unique_lists (fold merge_note ns [])))"
    using fold_merge_note [of ns] by (simp add: comp_def)
  moreover have "mset (dedupPartiality ns) = mset (map unique_lists (fold merge_note ns []))"
    by (simp add: dedupPartiality_def)
  ultimately show ?thesis using distinct_map_mset by blast
qed

lemma fold_merge_distinct:
  "distinct (map note_id (out @ ns)) \<Longrightarrow> fold merge_note ns out = out @ ns"
proof (induction ns arbitrary: out)
  case (Cons n ns)
  then have "merge_note n out = out @ [n]" by (intro merge_note_new) simp
  then show ?case using Cons.IH [of "out @ [n]"] Cons.prems by simp
qed simp

text \<open>The disclosed bound of a note covers that of another when it is unbounded or lists all of its
  targets.\<close>

definition bound_covers :: "PartialityNote \<Rightarrow> PartialityNote \<Rightarrow> bool" where
  "bound_covers m n = (pn_targets m = [] \<or> pn_targets n \<noteq> [] \<and> set (pn_targets n) - {[]} \<subseteq> set (pn_targets m))"

text \<open>merging notes never narrows a disclosure. Every note given to dedupPartiality has exactly one
  note of its key in the result; that note names all the advisories it withheld, its bound covers
  the note's bound, and it names no advisory that no note of the key named. The notes are in
  order of their keys, and deduplicating again changes nothing.\<close>
theorem partiality_never_narrowed:
  "sorted (map note_id (dedupPartiality ns)) \<and> distinct (map note_id (dedupPartiality ns)) \<and>
   dedupPartiality (dedupPartiality ns) = dedupPartiality ns \<and>
   (\<forall>m\<in>set (dedupPartiality ns).
      set (pn_advisories m) = (\<Union>n\<in>same_id (set ns) (note_id m). set (pn_advisories n)) - {[]} \<and>
      (\<forall>n\<in>same_id (set ns) (note_id m). bound_covers m n)) \<and>
   note_id ` set (dedupPartiality ns) = note_id ` set ns"
proof (intro conjI ballI)
  show s: "sorted (map note_id (dedupPartiality ns))" by (simp add: dedupPartiality_def)
  show d: "distinct (map note_id (dedupPartiality ns))" by (rule dedup_distinct)
  have "map unique_lists (dedupPartiality ns) = dedupPartiality ns"
    by (rule map_idI) (auto simp: dedup_set)
  then show "dedupPartiality (dedupPartiality ns) = dedupPartiality ns"
    using fold_merge_distinct [of "[]" "dedupPartiality ns"] s d
    by (simp add: dedupPartiality_def [of "dedupPartiality ns"] sort_key_id_if_sorted)
  show "note_id ` set (dedupPartiality ns) = note_id ` set ns" by (rule dedup_ids)
next
  fix m assume "m \<in> set (dedupPartiality ns)"
  then obtain q where q: "q \<in> set (fold merge_note ns [])" "m = unique_lists q" by (auto simp: dedup_set)
  then have st: "stands_for q (same_id (set ns) (note_id m))" using fold_merge_note [of ns] by simp
  show "set (pn_advisories m) = (\<Union>n\<in>same_id (set ns) (note_id m). set (pn_advisories n)) - {[]}"
    using st q(2) by (simp add: stands_for_def unique_lists_def sortedUnique_set)
  fix n assume n: "n \<in> same_id (set ns) (note_id m)"
  show "bound_covers m n"
  proof (cases "pn_targets q = []")
    case True
    then show ?thesis using q(2) by (simp add: bound_covers_def unique_lists_def sortedUnique_def)
  next
    case False
    then have "pn_targets n \<noteq> [] \<and> set (pn_targets n) \<subseteq> set (pn_targets q)"
      using st n by (auto simp: stands_for_def split: if_splits)
    then show ?thesis using q(2) by (auto simp: bound_covers_def unique_lists_def sortedUnique_set)
  qed
qed

definition bounded_note :: "gostring list \<Rightarrow> gostring list \<Rightarrow> PartialityNote" where
  "bounded_note ids ts = \<lparr>pn_reason = ''tool_failure'', pn_ecosystem = ''npm'', pn_detail = [], pn_package = [],
     pn_path = [], pn_targets = ts, pn_class = PartialityDidNotRun, pn_advisories = ids\<rparr>"

theorem partiality_never_narrowed_witness:
  "\<exists>m. set (dedupPartiality [bounded_note [''B''] [''t''], bounded_note [''A''] []]) = {m} \<and>
     set (pn_advisories m) = {''A'', ''B''} \<and> bound_covers m (bounded_note [''A''] [])"
proof -
  let ?ns = "[bounded_note [''B''] [''t''], bounded_note [''A''] []]"
  obtain m where m: "dedupPartiality ?ns = [m]" "note_id m = note_id (bounded_note [] [])"
    by (simp add: dedupPartiality_def bounded_note_def widen_def unique_lists_def note_id_def)
  have "same_id (set ?ns) (note_id (bounded_note [] [])) = set ?ns"
    by (auto simp: same_id_def note_id_def bounded_note_def)
  then have s: "same_id (set ?ns) (note_id m) = set ?ns" unfolding m(2) .
  have "set (pn_advisories m) = (\<Union>n\<in>same_id (set ?ns) (note_id m). set (pn_advisories n)) - {[]} \<and>
      (\<forall>n\<in>same_id (set ?ns) (note_id m). bound_covers m n)"
    using partiality_never_narrowed [of ?ns] m(1) by simp
  then show ?thesis using m(1) unfolding s by (auto simp: bounded_note_def)
qed

section \<open>Fields of the builder\<close>

lemma Build_fields [simp]:
  "rp_schemaVersion (Build now b) = report_SchemaVersion" "rp_subject (Build now b) = bd_subject b"
  "rp_advisories (Build now b) = sortFindings (prioritized b)"
  "rp_partiality (Build now b) = dedupPartiality (bd_partiality b)"
  "sb_packages (rp_sbom (Build now b)) = sort_key pkg_key (bd_packages b)"
  "sb_relationships (rp_sbom (Build now b)) = sortedUniqueRelationships (bd_relationships b)"
  "rp_baseline (Build now b) = bd_baseline b"
  by (simp_all add: Build_def Let_def)

lemma WithProvenance_fields [simp]:
  "bd_packages (WithProvenance p b) = bd_packages b" "bd_relationships (WithProvenance p b) = bd_relationships b"
  "bd_advisories (WithProvenance p b) = bd_advisories b" "bd_partiality (WithProvenance p b) = bd_partiality b"
  "bd_priority (WithProvenance p b) = bd_priority b"
  by (simp_all add: WithProvenance_def)

lemma WithLibraryEntrypoints_fields [simp]:
  "bd_packages (WithLibraryEntrypoints es b) = bd_packages b"
  "bd_relationships (WithLibraryEntrypoints es b) = bd_relationships b"
  "bd_advisories (WithLibraryEntrypoints es b) = bd_advisories b"
  "bd_partiality (WithLibraryEntrypoints es b) = bd_partiality b"
  "bd_priority (WithLibraryEntrypoints es b) = bd_priority b"
  by (simp_all add: WithLibraryEntrypoints_def)

lemma SetGoBuildList_fields [simp]:
  "bd_packages (SetGoBuildList s b) = bd_packages b" "bd_relationships (SetGoBuildList s b) = bd_relationships b"
  "bd_advisories (SetGoBuildList s b) = bd_advisories b" "bd_partiality (SetGoBuildList s b) = bd_partiality b"
  "bd_priority (SetGoBuildList s b) = bd_priority b"
  by (simp_all add: SetGoBuildList_def)

lemma SetRelationships_fields [simp]:
  "bd_packages (SetRelationships rs b) = bd_packages b" "bd_relationships (SetRelationships rs b) = rs"
  "bd_advisories (SetRelationships rs b) = bd_advisories b" "bd_partiality (SetRelationships rs b) = bd_partiality b"
  "bd_priority (SetRelationships rs b) = bd_priority b"
  by (simp_all add: SetRelationships_def)

lemma AddPackages_fields [simp]:
  "bd_packages (AddPackages ps b) = bd_packages b @ ps" "bd_relationships (AddPackages ps b) = bd_relationships b"
  "bd_advisories (AddPackages ps b) = bd_advisories b" "bd_partiality (AddPackages ps b) = bd_partiality b"
  "bd_priority (AddPackages ps b) = bd_priority b"
  by (simp_all add: AddPackages_def)

lemma WithBaseline_fields [simp]:
  "bd_packages (WithBaseline l b) = bd_packages b" "bd_relationships (WithBaseline l b) = bd_relationships b"
  "bd_advisories (WithBaseline l b) = bd_advisories b" "bd_partiality (WithBaseline l b) = bd_partiality b"
  "bd_priority (WithBaseline l b) = bd_priority b"
  by (simp_all add: WithBaseline_def)

lemma Builder_AddPartiality_fields [simp]:
  "bd_packages (Builder_AddPartiality ns b) = bd_packages b"
  "bd_relationships (Builder_AddPartiality ns b) = bd_relationships b"
  "bd_advisories (Builder_AddPartiality ns b) = bd_advisories b"
  "bd_partiality (Builder_AddPartiality ns b) = addNotes (bd_partiality b) ns"
  "bd_priority (Builder_AddPartiality ns b) = bd_priority b"
  by (simp_all add: Builder_AddPartiality_def)

lemma NewBuilder_fields [simp]:
  "bd_packages (NewBuilder s) = []" "bd_relationships (NewBuilder s) = []" "bd_advisories (NewBuilder s) = []"
  "bd_partiality (NewBuilder s) = []" "bd_priority (NewBuilder s) = None"
  by (simp_all add: NewBuilder_def)

lemma prioritized_none: "bd_priority b = None \<Longrightarrow> prioritized b = bd_advisories b"
  by (simp add: prioritized_def)

section \<open>Build\<close>

text \<open>a report's bytes do not depend on the order of its inputs. Two builders that hold the same
  packages, findings and edges, added in any order and edges any number of times, build the same
  report, as long as no two packages share ecosystem, name and version and no two findings share
  id and source.\<close>
theorem build_canonical:
  assumes "mset (bd_packages b) = mset (bd_packages c)" and "inj_on pkg_key (set (bd_packages b))"
    and "mset (bd_advisories b) = mset (bd_advisories c)"
    and "inj_on (\<lambda>f. (ad_id (af_advisory f), ad_source (af_advisory f))) (set (bd_advisories b))"
    and "set (bd_relationships b) = set (bd_relationships c)"
    and "c = b\<lparr>bd_packages := bd_packages c, bd_advisories := bd_advisories c, bd_relationships := bd_relationships c\<rparr>"
  shows "Build now b = Build now c"
proof -
  have p: "sort_key pkg_key (bd_packages b) = sort_key pkg_key (bd_packages c)"
    by (rule sort_key_canonical [OF assms(2,1)])
  have r: "sortedUniqueRelationships (bd_relationships b) = sortedUniqueRelationships (bd_relationships c)"
    by (rule sortedUniqueRelationships_canonical [OF assms(5)])
  have pri: "bd_priority c = bd_priority b"
    using arg_cong [OF assms(6), of bd_priority] by simp
  have k: "inj_on finding_key (set (prioritized b))"
  proof (rule inj_onI)
    fix x y assume xy: "x \<in> set (prioritized b)" "y \<in> set (prioritized b)" "finding_key x = finding_key y"
    then have e: "ad_id (af_advisory x) = ad_id (af_advisory y)" "ad_source (af_advisory x) = ad_source (af_advisory y)"
      by (auto simp: finding_key_def Let_def case_prod_beta)
    show "x = y"
      using xy(1,2) e assms(4)
      by (cases "bd_priority b") (auto simp: prioritized_def dest: inj_onD)
  qed
  have "mset (prioritized b) = mset (prioritized c)"
    using assms(3) pri by (auto simp: prioritized_def split: option.splits)
  then have a: "sortFindings (prioritized b) = sortFindings (prioritized c)"
    unfolding sortFindings_def by (rule sort_key_canonical [OF k])
  have "bd_subject c = bd_subject b" "bd_goBuildList c = bd_goBuildList b" "bd_partiality c = bd_partiality b"
    "bd_provenance c = bd_provenance b" "bd_baseline c = bd_baseline b" "bd_entrypoints c = bd_entrypoints b"
    by (subst assms(6), simp)+
  then show ?thesis using p r a by (simp add: Build_def Let_def)
qed

definition sample_subject :: Subject where
  "sample_subject = \<lparr>sj_repo = ''r'', sj_revision = ''main'', sj_resolvedCommit = ''c1''\<rparr>"

definition sample_package :: "gostring \<Rightarrow> Package" where
  "sample_package n = \<lparr>pkg_ecosystem = ''Go'', pkg_name = n, pkg_version = ''v1.0.0'', pkg_purl = [], pkg_direct = True,
     pkg_root = False, pkg_partialReason = [], pkg_replace = [], pkg_notInstalled = False\<rparr>"

definition sample_advisory_id :: "gostring \<Rightarrow> Advisory" where
  "sample_advisory_id i = \<lparr>ad_id = i, ad_source = ''osv'', ad_aliases = []\<rparr>"

definition sample_builder :: "gostring list \<Rightarrow> gostring list \<Rightarrow> Builder" where
  "sample_builder pkgs ids =
    fold (\<lambda>i. Undetermined (sample_advisory_id i) None ReasonAnalysisDidNotRun) ids
      (AddPackages (map sample_package pkgs) (NewBuilder sample_subject))"

theorem build_canonical_witness:
  "Build 7 (sample_builder [''b'', ''a''] [''G2'', ''G1'']) = Build 7 (sample_builder [''a'', ''b''] [''G1'', ''G2''])"
proof (rule build_canonical)
  show "mset (bd_packages (sample_builder [''b'', ''a''] [''G2'', ''G1''])) =
      mset (bd_packages (sample_builder [''a'', ''b''] [''G1'', ''G2'']))"
    by (simp add: sample_builder_def Undetermined_def AddFinding_def)
  show "mset (bd_advisories (sample_builder [''b'', ''a''] [''G2'', ''G1''])) =
      mset (bd_advisories (sample_builder [''a'', ''b''] [''G1'', ''G2'']))"
    by (simp add: sample_builder_def Undetermined_def AddFinding_def)
  show "inj_on pkg_key (set (bd_packages (sample_builder [''b'', ''a''] [''G2'', ''G1''])))"
    by (simp add: sample_builder_def Undetermined_def AddFinding_def pkg_key_def sample_package_def)
  show "inj_on (\<lambda>f. (ad_id (af_advisory f), ad_source (af_advisory f)))
      (set (bd_advisories (sample_builder [''b'', ''a''] [''G2'', ''G1''])))"
    by (simp add: sample_builder_def Undetermined_def AddFinding_def undetermined_row_def new_row_def sample_advisory_id_def)
  show "set (bd_relationships (sample_builder [''b'', ''a''] [''G2'', ''G1''])) =
      set (bd_relationships (sample_builder [''a'', ''b''] [''G1'', ''G2'']))"
    by (simp add: sample_builder_def Undetermined_def AddFinding_def)
  show "sample_builder [''a'', ''b''] [''G1'', ''G2''] = (sample_builder [''b'', ''a''] [''G2'', ''G1''])
      \<lparr>bd_packages := bd_packages (sample_builder [''a'', ''b''] [''G1'', ''G2'']),
       bd_advisories := bd_advisories (sample_builder [''a'', ''b''] [''G1'', ''G2'']),
       bd_relationships := bd_relationships (sample_builder [''a'', ''b''] [''G1'', ''G2''])\<rparr>"
    by (simp add: sample_builder_def Undetermined_def AddFinding_def AddPackages_def NewBuilder_def)
qed

lemma Build_validate:
  "Report_Validate (Build now b) = None \<longleftrightarrow>
    (\<forall>f\<in>set (prioritized b). finding_error f = None) \<and>
    (\<forall>r\<in>set (bd_relationships b). rel_parent r \<in> Package_Key ` set (bd_packages b) \<and>
       rel_child r \<in> Package_Key ` set (bd_packages b))"
  by (simp add: Report_Validate_None Build_def Let_def edges_closed_def list_all_iff schema_defs)

section \<open>Migration keeps every row and names every advisory\<close>

definition id_row :: "gostring \<Rightarrow> gostring \<Rightarrow> AdvisoryFinding" where
  "id_row reason i = undetermined_row \<lparr>ad_id = i, ad_source = [], ad_aliases = []\<rparr> None reason"

definition row_id :: "AdvisoryFinding \<Rightarrow> gostring" where
  "row_id f = ad_id (af_advisory f)"

lemma row_id_id_row [simp]: "row_id (id_row reason i) = i"
  by (simp add: id_row_def row_id_def undetermined_row_def new_row_def)

lemma withheld_rows_spec:
  assumes "withheld_rows reason ids (present, rows) = (present', rows')"
  shows "\<exists>new. rows' = rows @ map (id_row reason) new \<and> distinct new \<and> set new \<inter> set present = {} \<and>
    set new \<subseteq> set ids - {[]} \<and> set present' = set present \<union> (set ids - {[]}) \<and> set ids - {[]} \<subseteq> set new \<union> set present"
  using assms
proof (induction reason ids "(present, rows)" arbitrary: present rows rule: withheld_rows.induct)
  case (1 reason present rows)
  then show ?case by simp
next
  case (2 reason i ids present rows)
  show ?case
  proof (cases "i = [] \<or> i \<in> set present")
    case True
    then have "withheld_rows reason ids (present, rows) = (present', rows')" using 2(3) by simp
    from 2(1) [OF True this] obtain new where "rows' = rows @ map (id_row reason) new" "distinct new"
      "set new \<inter> set present = {}" "set new \<subseteq> set ids - {[]}"
      "set present' = set present \<union> (set ids - {[]})" "set ids - {[]} \<subseteq> set new \<union> set present" by blast
    then show ?thesis using True by (intro exI [where x = new]) auto
  next
    case False
    then obtain new where new: "rows' = (rows @ [id_row reason i]) @ map (id_row reason) new" "distinct new"
      "set new \<inter> set (i # present) = {}" "set new \<subseteq> set ids - {[]}"
      "set present' = set (i # present) \<union> (set ids - {[]})" "set ids - {[]} \<subseteq> set new \<union> set (i # present)"
      using 2 by (auto simp: id_row_def)
    then show ?thesis using False by (intro exI [where x = "i # new"]) auto
  qed
qed

text \<open>A row that migration added: undetermined, for an id some note withheld, with that note's limit.\<close>

definition added_row :: "PartialityNote set \<Rightarrow> AdvisoryFinding \<Rightarrow> bool" where
  "added_row N f = (\<exists>n\<in>N. row_id f \<in> set (pn_advisories n) - {[]} \<and> f = id_row (limit_reason n) (row_id f))"

lemma fold_note_rows:
  assumes "fold note_rows ns (present, rows) = (present', rows')" and "set present = row_id ` set rows"
  shows "\<exists>new. rows' = rows @ new \<and> distinct (map row_id new) \<and> row_id ` set new \<inter> row_id ` set rows = {} \<and>
    list_all (added_row (set ns)) new \<and> set present' = row_id ` set rows' \<and>
    row_id ` set rows' = row_id ` set rows \<union> ((\<Union>n\<in>set ns. set (pn_advisories n)) - {[]})"
  using assms
proof (induction ns arbitrary: present rows)
  case Nil
  then show ?case by simp
next
  case (Cons n ns)
  obtain p1 r1 where s: "note_rows n (present, rows) = (p1, r1)" by (cases "note_rows n (present, rows)") auto
  obtain a where a: "r1 = rows @ map (id_row (limit_reason n)) a" "distinct a" "set a \<inter> set present = {}"
    "set a \<subseteq> set (pn_advisories n) - {[]}" "set p1 = set present \<union> (set (pn_advisories n) - {[]})"
    "set (pn_advisories n) - {[]} \<subseteq> set a \<union> set present"
    using withheld_rows_spec [OF s [unfolded note_rows_def]] by auto
  have ids: "row_id ` set r1 = row_id ` set rows \<union> set a"
    unfolding a(1) set_append image_Un set_map image_image row_id_id_row by simp
  then have p1: "set p1 = row_id ` set r1" using a Cons.prems(2) by auto
  obtain new where new: "rows' = r1 @ new" "distinct (map row_id new)" "row_id ` set new \<inter> row_id ` set r1 = {}"
    "list_all (added_row (set ns)) new" "set present' = row_id ` set rows'"
    "row_id ` set rows' = row_id ` set r1 \<union> ((\<Union>n\<in>set ns. set (pn_advisories n)) - {[]})"
    using Cons.IH [of p1 r1] Cons.prems(1) p1 s by auto
  let ?new = "map (id_row (limit_reason n)) a @ new"
  have 1: "list_all (added_row (set (n # ns))) ?new"
    using a(4) new(4) by (auto simp: list_all_iff added_row_def)
  have 2: "distinct (map row_id ?new)" using a(2) new(2,3) ids by (auto simp: comp_def)
  have 3: "row_id ` set ?new \<inter> row_id ` set rows = {}"
    using a(3) new(3) ids Cons.prems(2) by (auto simp: image_image)
  have 4: "row_id ` set rows' = row_id ` set rows \<union> ((\<Union>n\<in>set (n # ns). set (pn_advisories n)) - {[]})"
    using new(6) ids a(4,6) Cons.prems(2) by auto
  show ?case
    using new(1) a(1) 1 2 3 4 new(5) by (intro exI [where x = ?new]) simp
qed

lemma upgradeV1_rows:
  "\<exists>new. mset (rp_advisories (upgradeV1 r)) = mset (rp_advisories r) + mset new \<and> distinct (map row_id new) \<and>
    row_id ` set new \<inter> row_id ` set (rp_advisories r) = {} \<and> list_all (added_row (set (rp_partiality r))) new \<and>
    row_id ` set (rp_advisories (upgradeV1 r)) =
      row_id ` set (rp_advisories r) \<union> ((\<Union>n\<in>set (rp_partiality r). set (pn_advisories n)) - {[]})"
proof -
  obtain present rows where f: "fold note_rows (rp_partiality r)
      (map (\<lambda>f. ad_id (af_advisory f)) (rp_advisories r), rp_advisories r) = (present, rows)"
    by (cases "fold note_rows (rp_partiality r)
      (map (\<lambda>f. ad_id (af_advisory f)) (rp_advisories r), rp_advisories r)") auto
  then have "rp_advisories (upgradeV1 r) = sortFindings rows" by (simp add: upgradeV1_def)
  then show ?thesis using fold_note_rows [OF f] by (auto simp: row_id_def)
qed

lemma reasons_nonempty: "limit_reason n \<noteq> []"
  by (simp add: limit_reason_def ReasonUnspecifiedLimit_def)

lemma id_row_ok: "row_spec (id_row (limit_reason n) i) \<and> af_priority (id_row (limit_reason n) i) = None"
  using verdict_distinct basis_distinct
  by (auto simp: id_row_def undetermined_row_def new_row_def row_spec_def no_evidence_def
      candidate_only_def Verdict_Valid_def reasons_nonempty)

lemma added_row_ok: "added_row N f \<Longrightarrow> row_spec f \<and> af_priority f = None"
  unfolding added_row_def using id_row_ok by metis

lemma drop_unstamped_ok:
  "row_spec f \<Longrightarrow> finding_error (drop_unstamped f) = None"
proof -
  assume r: "row_spec f"
  have n: "row_spec (f\<lparr>af_priority := None\<rparr>) = row_spec f" by (simp add: row_spec_def)
  show ?thesis
    using r n by (cases "af_priority f") (auto simp: drop_unstamped_def finding_error_None row_error_None)
qed

lemma row_id_drop [simp]: "row_id (drop_unstamped f) = row_id f"
  by (simp add: drop_unstamped_def row_id_def split: option.splits)

lemma upgradeV1_specs:
  "list_all row_spec (rp_advisories r) \<Longrightarrow> list_all row_spec (rp_advisories (upgradeV1 r))"
proof -
  assume r: "list_all row_spec (rp_advisories r)"
  obtain new where n: "mset (rp_advisories (upgradeV1 r)) = mset (rp_advisories r) + mset new"
    "list_all (added_row (set (rp_partiality r))) new" using upgradeV1_rows by metis
  have "set (rp_advisories (upgradeV1 r)) = set (rp_advisories r) \<union> set new"
    using arg_cong [OF n(1), of set_mset] by simp
  then show ?thesis using r n(2) added_row_ok by (auto simp: list_all_iff)
qed

lemma upgraded_ids:
  "row_id ` set (rp_advisories (upgradeV2 q)) = row_id ` set (rp_advisories q)"
  "rp_schemaVersion (upgradeV2 q) = report_SchemaVersion"
  by (simp_all add: upgradeV2_def dropUnstampedPriority_def image_image)

lemma upgradeV2_valid:
  "list_all row_spec (rp_advisories q) \<Longrightarrow> edges_closed (rp_sbom q) \<Longrightarrow> Report_Validate (upgradeV2 q) = None"
  using drop_unstamped_ok
  by (auto simp: Report_Validate_None upgradeV2_def dropUnstampedPriority_def schema_defs list_all_iff)

text \<open>The ids a document names: those of its rows and, in version 1, those its notes withhold.\<close>

definition named_ids :: "Report \<Rightarrow> gostring set" where
  "named_ids r = row_id ` set (rp_advisories r) \<union>
    (if rp_schemaVersion r = SchemaVersionV1
     then (\<Union>n\<in>set (rp_partiality r). set (pn_advisories n)) - {[]} else {})"

text \<open>C39: an old document is readable and sound after migration, and an unknown one is refused. Upgrade
  succeeds exactly on the three known schema versions: a document without a version and a
  document of any other version are each refused with its own error. On success the document is
  of the current version, a current document is passed through untouched, a second upgrade
  changes nothing, the rows name exactly the advisories the document named, and a document of an older
  version whose rows and edges were sound passes Validate, whatever its priority values were dated by.\<close>
theorem upgrade_valid:
  "case Upgrade r of
     Inl e \<Rightarrow> rp_schemaVersion r \<notin> {SchemaVersionV1, SchemaVersionV2, report_SchemaVersion} \<and>
       e = (if rp_schemaVersion r = [] then DocumentWithoutVersion else UnrecognizedVersion (rp_schemaVersion r))
   | Inr r' \<Rightarrow> rp_schemaVersion r \<in> {SchemaVersionV1, SchemaVersionV2, report_SchemaVersion} \<and>
       rp_schemaVersion r' = report_SchemaVersion \<and> Upgrade r' = Inr r' \<and>
       row_id ` set (rp_advisories r') = named_ids r \<and>
       (if rp_schemaVersion r = report_SchemaVersion then r' = r
        else \<not> list_all row_spec (rp_advisories r) \<or> \<not> edges_closed (rp_sbom r) \<or> Report_Validate r' = None)"
proof -
  have sb: "rp_sbom (upgradeV1 r) = rp_sbom r" by (simp add: upgradeV1_def case_prod_beta Let_def)
  have v1: "Report_Validate (upgradeV2 (upgradeV1 r)) = None"
    if "list_all row_spec (rp_advisories r)" "edges_closed (rp_sbom r)"
    using upgradeV2_valid [of "upgradeV1 r"] upgradeV1_specs that sb by simp
  have ids: "row_id ` set (rp_advisories (upgradeV1 r)) =
      row_id ` set (rp_advisories r) \<union> ((\<Union>n\<in>set (rp_partiality r). set (pn_advisories n)) - {[]})"
    using upgradeV1_rows by metis
  consider "rp_schemaVersion r = report_SchemaVersion" | "rp_schemaVersion r = SchemaVersionV2"
    | "rp_schemaVersion r = SchemaVersionV1"
    | "rp_schemaVersion r \<notin> {SchemaVersionV1, SchemaVersionV2, report_SchemaVersion}" by blast
  then show ?thesis
  proof cases
    case 1
    then show ?thesis by (simp add: Upgrade_def named_ids_def schema_defs)
  next
    case 2
    then have u: "Upgrade r = Inr (upgradeV2 r)" by (simp add: Upgrade_def schema_defs)
    show ?thesis using 2 upgradeV2_valid [of r]
      by (auto simp: u Upgrade_def upgraded_ids named_ids_def schema_defs)
  next
    case 3
    then have u: "Upgrade r = Inr (upgradeV2 (upgradeV1 r))" by (simp add: Upgrade_def schema_defs)
    show ?thesis using 3 v1 ids unfolding u
      by (auto simp: Upgrade_def upgraded_ids named_ids_def schema_defs)
  next
    case 4
    then show ?thesis by (auto simp: Upgrade_def)
  qed
qed

definition sample_note :: "gostring list \<Rightarrow> PartialityNote" where
  "sample_note ids = \<lparr>pn_reason = ReasonGoToolchainNotScanned, pn_ecosystem = ''Go'', pn_detail = [], pn_package = [],
     pn_path = [], pn_targets = [], pn_class = [], pn_advisories = ids\<rparr>"

definition sample_v1 :: Report where
  "sample_v1 = (Report_AddPartiality (Build 7 (sample_builder [''a''] [''G1''])) [sample_note [''G2'', ''G1'']])
     \<lparr>rp_schemaVersion := SchemaVersionV1\<rparr>"

theorem upgrade_valid_witness:
  "Report_Validate (upgradeV2 (upgradeV1 sample_v1)) = None"
proof -
  have u: "Upgrade sample_v1 = Inr (upgradeV2 (upgradeV1 sample_v1))"
    by (simp add: sample_v1_def Upgrade_def schema_defs)
  have "list_all row_spec (rp_advisories sample_v1) \<and> edges_closed (rp_sbom sample_v1) \<and>
      rp_schemaVersion sample_v1 \<noteq> report_SchemaVersion"
    by code_simp
  then show ?thesis using upgrade_valid [of sample_v1] unfolding u sum.case by presburger
qed

text \<open>migration loses nothing. A version 1 document kept the advisories it could not decide in its
  notes; after the upgrade every row of the document is still there (less an undated priority), each
  advisory a note withheld has a row, the added rows are undetermined with the limit's reason, one for
  each advisory that had none, and the notes stay with their lists emptied.\<close>
theorem upgrade_names_withheld:
  assumes "rp_schemaVersion r = SchemaVersionV1" and "Upgrade r = Inr r'"
  shows "row_id ` set (rp_advisories r') =
      row_id ` set (rp_advisories r) \<union> ((\<Union>n\<in>set (rp_partiality r). set (pn_advisories n)) - {[]}) \<and>
    (\<exists>new. mset (rp_advisories r') = mset (map drop_unstamped (rp_advisories r)) + mset new \<and>
       distinct (map row_id new) \<and> row_id ` set new \<inter> row_id ` set (rp_advisories r) = {} \<and>
       list_all (added_row (set (rp_partiality r))) new) \<and>
    rp_partiality r' = map (\<lambda>n. n\<lparr>pn_advisories := []\<rparr>) (rp_partiality r)"
proof -
  have r': "r' = upgradeV2 (upgradeV1 r)" using assms by (simp add: Upgrade_def schema_defs)
  obtain new where n: "mset (rp_advisories (upgradeV1 r)) = mset (rp_advisories r) + mset new"
    "distinct (map row_id new)" "row_id ` set new \<inter> row_id ` set (rp_advisories r) = {}"
    "list_all (added_row (set (rp_partiality r))) new"
    "row_id ` set (rp_advisories (upgradeV1 r)) =
      row_id ` set (rp_advisories r) \<union> ((\<Union>n\<in>set (rp_partiality r). set (pn_advisories n)) - {[]})"
    using upgradeV1_rows by metis
  have "map drop_unstamped new = new"
    using n(4) added_row_ok by (intro map_idI) (auto simp: list_all_iff drop_unstamped_def)
  moreover have "mset (map drop_unstamped (rp_advisories (upgradeV1 r))) =
      mset (map drop_unstamped (rp_advisories r)) + mset (map drop_unstamped new)"
    using n(1) by simp
  ultimately have m: "mset (rp_advisories r') = mset (map drop_unstamped (rp_advisories r)) + mset new"
    by (simp add: r' upgradeV2_def dropUnstampedPriority_def)
  moreover have "row_id ` set (rp_advisories r') = row_id ` set (rp_advisories (upgradeV1 r))"
    by (simp add: r' upgradeV2_def dropUnstampedPriority_def image_image)
  moreover have "rp_partiality r' = map (\<lambda>n. n\<lparr>pn_advisories := []\<rparr>) (rp_partiality r)"
    by (simp add: r' upgradeV2_def dropUnstampedPriority_def upgradeV1_def case_prod_beta Let_def)
  ultimately show ?thesis using n(2-5) by (intro conjI exI [where x = new]) simp_all
qed

theorem upgrade_names_withheld_witness:
  "row_id ` set (rp_advisories (upgradeV2 (upgradeV1 sample_v1))) = {''G1'', ''G2''}"
proof -
  have u: "Upgrade sample_v1 = Inr (upgradeV2 (upgradeV1 sample_v1))"
    by (simp add: sample_v1_def Upgrade_def schema_defs)
  have v: "rp_schemaVersion sample_v1 = SchemaVersionV1" by (simp add: sample_v1_def)
  have r: "map row_id (rp_advisories sample_v1) = [''G1'']"
    and n: "map pn_advisories (rp_partiality sample_v1) = [[''G1'', ''G2'']]" by code_simp+
  have "row_id ` set (rp_advisories sample_v1) = {''G1''}" using arg_cong [OF r, of set] by simp
  moreover have "(\<Union>n\<in>set (rp_partiality sample_v1). set (pn_advisories n)) = {''G1'', ''G2''}"
    using arg_cong [OF n, of "\<lambda>l. \<Union> (set ` set l)"] by simp
  ultimately show ?thesis using upgrade_names_withheld [OF v u] by auto
qed

end
