(* ===== verification/Statestore.thy ===== *)
theory Statestore
  imports Report_Build "HOL-Library.AList"
begin

text \<open>
  The durable state of a repository and its compare-and-swap: src/statestore/statestore.go, merge.go,
  depfetch.go, mem.go and the retry loop of gitref.go. A Go map is an association list in some
  order of iteration; \<open>reencode\<close> stands for a decode and encode of a JSON text by encoding/json (None
  when it does not decode). A State's Remerge hook is an argument of the writes, since a record
  cannot hold a function on itself. The lemmas: what a merge keeps of its two sides, that a
  merged report is valid when they are, and that no interleaving of readers and writers loses an
  appended statement.
\<close>

section \<open>The dependency-fetch record\<close>

record RegistryFetch =
  rf_hasServed :: bool
  rf_heldRuns :: int
  rf_firstHeldAt :: int

record DepFetch =
  df_reportSHA256 :: gostring
  df_registries :: "(gostring \<times> RegistryFetch) list"
  df_reassess :: "gostring list"

definition rf_zero :: "RegistryFetch \<Rightarrow> bool" where
  "rf_zero r = (\<not> rf_hasServed r \<and> rf_heldRuns r = 0 \<and> rf_firstHeldAt r = 0)"

definition normalized :: "DepFetch option \<Rightarrow> DepFetch option" where
  "normalized d =
    (case d of
       None \<Rightarrow> None
     | Some f \<Rightarrow>
         (let regs = filter (\<lambda>(k, r). \<not> rf_zero r) (df_registries f);
              re = remdups_adj (sort (df_reassess f))
          in if length regs = 0 \<and> length re = 0 then None
             else Some \<lparr>df_reportSHA256 = [], df_registries = regs, df_reassess = re\<rparr>))"

definition join_fetch :: "RegistryFetch \<Rightarrow> RegistryFetch \<Rightarrow> RegistryFetch" where
  "join_fetch cur r =
    \<lparr>rf_hasServed = (rf_hasServed cur \<or> rf_hasServed r),
     rf_heldRuns = max (rf_heldRuns cur) (rf_heldRuns r),
     rf_firstHeldAt =
       (if rf_firstHeldAt r \<noteq> 0 \<and> (rf_firstHeldAt cur = 0 \<or> rf_firstHeldAt r < rf_firstHeldAt cur)
        then rf_firstHeldAt r else rf_firstHeldAt cur)\<rparr>"

definition add_registry :: "gostring \<times> RegistryFetch \<Rightarrow> (gostring \<times> RegistryFetch) list \<Rightarrow> (gostring \<times> RegistryFetch) list" where
  "add_registry kr regs =
    (case map_of regs (fst kr) of
       None \<Rightarrow> AList.update (fst kr) (snd kr) regs
     | Some cur \<Rightarrow> AList.update (fst kr) (join_fetch cur (snd kr)) regs)"

definition regs_of :: "DepFetch option \<Rightarrow> (gostring \<times> RegistryFetch) list" where
  "regs_of d = (case d of None \<Rightarrow> [] | Some f \<Rightarrow> df_registries f)"

definition reassess_of :: "DepFetch option \<Rightarrow> gostring list" where
  "reassess_of d = (case d of None \<Rightarrow> [] | Some f \<Rightarrow> df_reassess f)"

definition mergeDepFetch :: "DepFetch option \<Rightarrow> DepFetch option \<Rightarrow> DepFetch option" where
  "mergeDepFetch base mine =
    (if base = None \<and> mine = None then None
     else normalized (Some
       \<lparr>df_reportSHA256 = [],
        df_registries = fold add_registry (regs_of mine) (fold add_registry (regs_of base) []),
        df_reassess = reassess_of base @ reassess_of mine\<rparr>))"

section \<open>Reports\<close>

definition no_intel :: IntelProvenance where
  "no_intel = \<lparr>in_workSetSource = [], in_workSetSize = 0, in_factSource = [], in_corpusDigest = [], in_corpusRecords = 0,
     in_corpusPolicy = [], in_corpusManifest = None, in_corpusSigner = None, in_signalsDigest = []\<rparr>"

definition signalsDigestOf :: "Report \<Rightarrow> gostring" where
  "signalsDigestOf r = (case pv_intel (rp_provenance r) of None \<Rightarrow> [] | Some i \<Rightarrow> in_signalsDigest i)"

definition withoutSignalsDigest :: "IntelProvenance option \<Rightarrow> IntelProvenance option" where
  "withoutSignalsDigest i =
    (case i of
       None \<Rightarrow> None
     | Some j \<Rightarrow> (let out = j\<lparr>in_signalsDigest := []\<rparr> in if out = no_intel then None else Some out))"

type_synonym row_key = "gostring \<times> gostring"

definition finding_id :: "AdvisoryFinding \<Rightarrow> row_key" where
  "finding_id f = (ad_id (af_advisory f), ad_source (af_advisory f))"

text \<open>The maps \<open>chosen\<close> and \<open>from\<close> with the list \<open>order\<close> are one association list in the order of
  insertion; \<open>from\<close> holds the signals digest of the row's report, all the code reads of it.\<close>

definition add_row ::
  "gostring \<Rightarrow> bool \<Rightarrow> AdvisoryFinding \<Rightarrow> (row_key \<times> AdvisoryFinding \<times> gostring) list \<Rightarrow>
   (row_key \<times> AdvisoryFinding \<times> gostring) list" where
  "add_row src ts f chosen =
    (case map_of chosen (finding_id f) of
       Some prev \<Rightarrow> if ts then AList.update (finding_id f) (f, src) chosen else chosen
     | None \<Rightarrow> chosen @ [(finding_id f, f, src)])"

definition chosen_rows :: "Report \<Rightarrow> Report \<Rightarrow> (row_key \<times> AdvisoryFinding \<times> gostring) list" where
  "chosen_rows primary secondary =
    (let newer = (pv_timestamp (rp_provenance primary) > pv_timestamp (rp_provenance secondary) \<or>
                  pv_timestamp (rp_provenance primary) = pv_timestamp (rp_provenance secondary));
         seeded = fold (add_row (signalsDigestOf secondary) False) (rp_advisories secondary) []
     in fold (add_row (signalsDigestOf primary) newer) (rp_advisories primary) seeded)"

text \<open>A source-less undetermined row gives way to a row of the same id with a source.\<close>

definition superseded :: "(row_key \<times> AdvisoryFinding \<times> gostring) list \<Rightarrow> row_key \<times> AdvisoryFinding \<times> gostring \<Rightarrow> bool" where
  "superseded rows x =
    (case x of ((i, source), f, d) \<Rightarrow>
       source = [] \<and> af_verdict f = VerdictUndetermined \<and>
       list_ex (\<lambda>((i', source'), _). i' = i \<and> source' \<noteq> []) rows)"

definition kept_rows :: "Report \<Rightarrow> Report \<Rightarrow> (row_key \<times> AdvisoryFinding \<times> gostring) list" where
  "kept_rows primary secondary =
    (let rows = chosen_rows primary secondary in filter (\<lambda>x. \<not> superseded rows x) rows)"

definition merge_pair :: "int \<Rightarrow> Report \<Rightarrow> Report \<Rightarrow> Report" where
  "merge_pair now base mine =
    (let after = pv_timestamp (rp_provenance mine) > pv_timestamp (rp_provenance base);
         primary = (if after then mine else base);
         secondary = (if after then base else mine);
         kept = kept_rows primary secondary;
         prov = rp_provenance primary;
         prov1 = (if list_ex (\<lambda>(k, f, d). d \<noteq> signalsDigestOf primary) kept
                  then prov\<lparr>pv_intel := withoutSignalsDigest (pv_intel prov)\<rparr> else prov);
         b = NewBuilder (rp_subject primary);
         b = AddPackages (sb_packages (rp_sbom primary)) b;
         b = SetRelationships (sb_relationships (rp_sbom primary)) b;
         b = SetGoBuildList (rp_sbom primary) b;
         b = WithLibraryEntrypoints (rp_libraryEntrypoints primary) b;
         b = WithProvenance prov1 b;
         b = (case rp_baseline primary of None \<Rightarrow> b | Some l \<Rightarrow> WithBaseline l b);
         b = fold (\<lambda>(k, f, d). AddFinding f) kept b;
         b = Builder_AddPartiality (rp_partiality primary) b;
         b = Builder_AddPartiality (rp_partiality secondary) b
     in Build now b)"

definition mergeReports :: "int \<Rightarrow> Report option \<Rightarrow> Report option \<Rightarrow> Report option" where
  "mergeReports now base mine =
    (case (base, mine) of
       (None, None) \<Rightarrow> None
     | (None, Some m) \<Rightarrow> Some m
     | (Some b, None) \<Rightarrow> Some b
     | (Some b, Some m) \<Rightarrow> Some (merge_pair now b m))"

section \<open>States\<close>

record State =
  ss_report :: "Report option"
  ss_sbom :: SBOM
  ss_cursor :: gostring
  ss_vexLog :: "gostring list"
  ss_revokeCount :: int
  ss_depFetch :: "DepFetch option"
  ss_commitSHA :: gostring

definition canonicalJSON :: "(gostring \<Rightarrow> gostring option) \<Rightarrow> gostring \<Rightarrow> gostring" where
  "canonicalJSON reencode raw = (case reencode raw of None \<Rightarrow> raw | Some b \<Rightarrow> b)"

text \<open>The entries whose canonical form is not yet in \<open>seen\<close>: both loops of mergeVEXLogs.\<close>

fun unseen_entries :: "(gostring \<Rightarrow> gostring) \<Rightarrow> gostring list \<Rightarrow> gostring list \<Rightarrow> gostring list" where
  "unseen_entries c seen [] = []"
| "unseen_entries c seen (e # es) =
    (if c e \<in> set seen then unseen_entries c seen es else e # unseen_entries c (c e # seen) es)"

definition mergeVEXLogs :: "(gostring \<Rightarrow> gostring) \<Rightarrow> gostring list \<Rightarrow> gostring list \<Rightarrow> gostring list" where
  "mergeVEXLogs c base mine =
    (let first = unseen_entries c [] base in first @ unseen_entries c (map c first) mine)"

definition laterCursor :: "State \<Rightarrow> State \<Rightarrow> gostring" where
  "laterCursor base mine = (if ss_cursor mine \<noteq> [] then ss_cursor mine else ss_cursor base)"

definition Merge :: "(gostring \<Rightarrow> gostring option) \<Rightarrow> int \<Rightarrow> State \<Rightarrow> State \<Rightarrow> State" where
  "Merge reencode now base mine =
    (let rep = mergeReports now (ss_report base) (ss_report mine);
         cur = (case rep of None \<Rightarrow> [] | Some r \<Rightarrow> pv_advisoryCursor (rp_provenance r))
     in \<lparr>ss_report = rep,
         ss_sbom = (case rep of None \<Rightarrow> empty_sbom | Some r \<Rightarrow> rp_sbom r),
         ss_cursor = (if cur = [] then laterCursor base mine else cur),
         ss_vexLog = mergeVEXLogs (canonicalJSON reencode) (ss_vexLog base) (ss_vexLog mine),
         ss_revokeCount =
           (if ss_revokeCount mine > ss_revokeCount base then ss_revokeCount mine else ss_revokeCount base),
         ss_depFetch = mergeDepFetch (ss_depFetch base) (ss_depFetch mine),
         ss_commitSHA = ss_commitSHA base\<rparr>)"

text \<open>A Remerge hook, when there is one, rewrites the merged state or fails.\<close>

type_synonym remerge = "(State \<Rightarrow> State option) option"

definition mergeForRetry ::
  "(gostring \<Rightarrow> gostring option) \<Rightarrow> int \<Rightarrow> State \<Rightarrow> State \<Rightarrow> remerge \<Rightarrow> State option" where
  "mergeForRetry reencode now winner mine hook =
    (let out = Merge reencode now winner mine in
     case hook of None \<Rightarrow> Some out | Some h \<Rightarrow> h out)"

section \<open>What a merge keeps\<close>

lemma unseen_entries_set:
  "set (unseen_entries c seen es) \<subseteq> set es \<and> c ` set (unseen_entries c seen es) = c ` set es - set seen \<and>
   distinct (map c (unseen_entries c seen es))"
proof (induction c seen es rule: unseen_entries.induct)
  case (2 c seen e es)
  then show ?case by (cases "c e \<in> set seen") (auto simp: image_iff)
qed simp

lemma unseen_entries_fix:
  "distinct (map c es) \<Longrightarrow> c ` set es \<inter> set seen = {} \<Longrightarrow> unseen_entries c seen es = es"
  by (induction c seen es rule: unseen_entries.induct) auto

text \<open>the statement log only grows. A merge starts with the winner's log, keeping its order and every
  one of its statements (exactly as it is when it repeats none), and ends with what the local writer
  added: each statement of either side is there once, none is invented.\<close>
theorem vexlog_append_only:
  "\<exists>kept added. mergeVEXLogs c base mine = kept @ added \<and>
     (kept = base \<or> \<not> distinct (map c base)) \<and> set kept \<subseteq> set base \<and> set added \<subseteq> set mine \<and>
     c ` set kept = c ` set base \<and> c ` set (mergeVEXLogs c base mine) = c ` set base \<union> c ` set mine \<and>
     distinct (map c (mergeVEXLogs c base mine))"
proof -
  let ?k = "unseen_entries c [] base"
  let ?a = "unseen_entries c (map c ?k) mine"
  have k: "set ?k \<subseteq> set base" "c ` set ?k = c ` set base" "distinct (map c ?k)"
    using unseen_entries_set [of c "[]" base] by auto
  have a: "set ?a \<subseteq> set mine" "c ` set ?a = c ` set mine - set (map c ?k)" "distinct (map c ?a)"
    using unseen_entries_set [of c "map c ?k" mine] by auto
  have m: "mergeVEXLogs c base mine = ?k @ ?a" by (simp add: mergeVEXLogs_def Let_def)
  have u: "c ` set (mergeVEXLogs c base mine) = c ` set base \<union> c ` set mine"
    unfolding m set_append image_Un a(2) set_map k(2) by blast
  have d: "distinct (map c (mergeVEXLogs c base mine))"
    unfolding m map_append distinct_append using k(3) a(2,3) by auto
  have f: "?k = base \<or> \<not> distinct (map c base)" using unseen_entries_fix [of c base "[]"] by auto
  show ?thesis using m k a(1) u d f by blast
qed

theorem vexlog_append_only_witness:
  "\<exists>added. mergeVEXLogs id [''a'', ''b''] [''b'', ''c''] = [''a'', ''b''] @ added \<and> ''c'' \<in> set added"
proof -
  obtain kept added where m: "mergeVEXLogs id [''a'', ''b''] [''b'', ''c''] = kept @ added"
    "kept = [''a'', ''b''] \<or> \<not> distinct (map id [''a'', ''b''])"
    "id ` set (mergeVEXLogs id [''a'', ''b''] [''b'', ''c'']) = id ` set [''a'', ''b''] \<union> id ` set [''b'', ''c'']"
    using vexlog_append_only [of id "[''a'', ''b'']" "[''b'', ''c'']"] by (elim exE conjE) (rule that)
  have k: "kept = [''a'', ''b'']" using m(2) by simp
  have "''c'' \<in> id ` set (mergeVEXLogs id [''a'', ''b''] [''b'', ''c''])" unfolding m(3) by simp
  then have "''c'' \<in> set added" unfolding m(1) k by simp
  then show ?thesis using m(1) k by blast
qed

lemma add_row_update:
  "add_row src ts f rows =
    (if finding_id f \<in> fst ` set rows \<and> \<not> ts then rows else AList.update (finding_id f) (f, src) rows)"
proof (cases "map_of rows (finding_id f)")
  case None
  then have "finding_id f \<notin> fst ` set rows" by (simp add: map_of_eq_None_iff)
  then have "AList.update (finding_id f) (f, src) rows = rows @ [(finding_id f, f, src)]"
    by (induction rows) auto
  then show ?thesis using None \<open>finding_id f \<notin> fst ` set rows\<close> by (simp add: add_row_def)
next
  case (Some prev)
  then have "finding_id f \<in> fst ` set rows" by (metis map_of_eq_None_iff option.distinct(1))
  then show ?thesis using Some by (simp add: add_row_def)
qed

lemma add_row_keys:
  "fst ` set (add_row src ts f rows) = insert (finding_id f) (fst ` set rows)"
  unfolding add_row_update by (simp add: dom_update) blast

lemma add_row_distinct: "distinct (map fst rows) \<Longrightarrow> distinct (map fst (add_row src ts f rows))"
  by (simp add: add_row_update distinct_update)

lemma add_row_map:
  "map_of (add_row src ts f rows) = (if finding_id f \<in> dom (map_of rows) \<and> \<not> ts then map_of rows
     else (map_of rows)(finding_id f \<mapsto> (f, src)))"
  by (auto simp: add_row_update update_conv' dom_map_of_conv_image_fst)

text \<open>What every association list of the loop holds: rows under their own key, no key twice.\<close>

definition rows_ok :: "(row_key \<times> AdvisoryFinding \<times> gostring) list \<Rightarrow> AdvisoryFinding set \<Rightarrow> bool" where
  "rows_ok rows F = (distinct (map fst rows) \<and> fst ` set rows = finding_id ` F \<and>
     (\<forall>(k, f, d)\<in>set rows. k = finding_id f \<and> f \<in> F))"

lemma rows_ok_add:
  assumes "rows_ok rows F"
  shows "rows_ok (add_row src ts f rows) (insert f F)"
proof -
  have d: "distinct (map fst (add_row src ts f rows))" using assms add_row_distinct by (simp add: rows_ok_def)
  have "k = finding_id g \<and> g \<in> insert f F" if "(k, g, s) \<in> set (add_row src ts f rows)" for k g s
  proof -
    have "map_of (add_row src ts f rows) k = Some (g, s)" using that d by simp
    then have "map_of rows k = Some (g, s) \<or> k = finding_id f \<and> g = f"
      by (auto simp: add_row_map split: if_splits)
    then show ?thesis using assms by (auto simp: rows_ok_def dest!: map_of_SomeD)
  qed
  then show ?thesis using assms d add_row_keys [of src ts f rows] by (auto simp: rows_ok_def)
qed

lemma rows_ok_fold: "rows_ok rows F \<Longrightarrow> rows_ok (fold (add_row src ts) fs rows) (F \<union> set fs)"
proof (induction fs arbitrary: rows F)
  case (Cons f fs)
  then show ?case using Cons.IH [OF rows_ok_add [OF Cons.prems]] by simp
qed simp

lemma fold_override:
  "map_of (fold (add_row src True) fs rows) k =
    (case find (\<lambda>f. finding_id f = k) (rev fs) of Some f \<Rightarrow> Some (f, src) | None \<Rightarrow> map_of rows k)"
proof (induction fs rule: rev_induct)
  case (snoc f fs)
  then show ?case by (auto simp: add_row_map split: option.splits)
qed simp

definition primary_of :: "Report \<Rightarrow> Report \<Rightarrow> Report" where
  "primary_of base mine =
    (if pv_timestamp (rp_provenance mine) > pv_timestamp (rp_provenance base) then mine else base)"

definition secondary_of :: "Report \<Rightarrow> Report \<Rightarrow> Report" where
  "secondary_of base mine =
    (if pv_timestamp (rp_provenance mine) > pv_timestamp (rp_provenance base) then base else mine)"

definition merged_rows :: "Report \<Rightarrow> Report \<Rightarrow> AdvisoryFinding list" where
  "merged_rows base mine = map (\<lambda>(k, f, d). f) (kept_rows (primary_of base mine) (secondary_of base mine))"

lemma fold_AddFinding: "fold (\<lambda>(k, f, d). AddFinding f) kept b =
    b\<lparr>bd_advisories := bd_advisories b @ map (\<lambda>(k, f, d). f) kept\<rparr>"
  by (induction kept arbitrary: b) (auto simp: AddFinding_def)

lemma addNotes_append: "addNotes (addNotes old ns) ms = addNotes old (ns @ ms)"
  by (simp add: addNotes_def)

lemma merge_pair_advisories: "rp_advisories (merge_pair now base mine) = sortFindings (merged_rows base mine)"
  unfolding merge_pair_def Let_def fold_AddFinding
  by (cases "pv_timestamp (rp_provenance mine) > pv_timestamp (rp_provenance base)")
    (simp_all add: prioritized_none merged_rows_def primary_of_def secondary_of_def split: option.split)

lemma merge_pair_partiality:
  "rp_partiality (merge_pair now base mine) =
    dedupPartiality (addNotes [] (rp_partiality (primary_of base mine) @ rp_partiality (secondary_of base mine)))"
  unfolding merge_pair_def Let_def fold_AddFinding
  by (cases "pv_timestamp (rp_provenance mine) > pv_timestamp (rp_provenance base)")
    (simp_all add: addNotes_append primary_of_def secondary_of_def split: option.split)

lemma merge_pair_sbom:
  "sb_packages (rp_sbom (merge_pair now base mine)) = sort_key pkg_key (sb_packages (rp_sbom (primary_of base mine))) \<and>
   sb_relationships (rp_sbom (merge_pair now base mine)) =
     sortedUniqueRelationships (sb_relationships (rp_sbom (primary_of base mine))) \<and>
   rp_schemaVersion (merge_pair now base mine) = report_SchemaVersion"
  unfolding merge_pair_def Let_def fold_AddFinding
  by (cases "pv_timestamp (rp_provenance mine) > pv_timestamp (rp_provenance base)")
    (simp_all add: primary_of_def split: option.split)

lemma chosen_rows_ok:
  "rows_ok (chosen_rows primary secondary) (set (rp_advisories secondary) \<union> set (rp_advisories primary))"
proof -
  have "rows_ok [] {}" by (simp add: rows_ok_def)
  from rows_ok_fold [OF rows_ok_fold [OF this]] show ?thesis
    by (simp add: chosen_rows_def Let_def Un_commute)
qed

lemma map_of_single: "distinct (map fst rows) \<Longrightarrow> (k, v) \<in> set rows \<Longrightarrow> map_of rows k = Some v"
  by simp

text \<open>A key of the primary is the primary's last row of that key.\<close>

lemma chosen_primary:
  assumes "pv_timestamp (rp_provenance secondary) \<le> pv_timestamp (rp_provenance primary)"
    and "(k, f, d) \<in> set (chosen_rows primary secondary)" and "k \<in> finding_id ` set (rp_advisories primary)"
  shows "f \<in> set (rp_advisories primary)"
proof -
  have newer: "(pv_timestamp (rp_provenance primary) > pv_timestamp (rp_provenance secondary) \<or>
      pv_timestamp (rp_provenance primary) = pv_timestamp (rp_provenance secondary)) = True"
    using assms(1) by auto
  have "map_of (chosen_rows primary secondary) k = Some (f, d)"
    using assms(2) chosen_rows_ok [of primary secondary] by (simp add: rows_ok_def)
  then have m: "(case find (\<lambda>f. finding_id f = k) (rev (rp_advisories primary)) of
      Some f \<Rightarrow> Some (f, signalsDigestOf primary)
    | None \<Rightarrow> map_of (fold (add_row (signalsDigestOf secondary) False) (rp_advisories secondary) []) k) = Some (f, d)"
    using newer by (simp add: chosen_rows_def Let_def fold_override [symmetric])
  have "find (\<lambda>f. finding_id f = k) (rev (rp_advisories primary)) \<noteq> None"
    using assms(3) by (auto simp: find_None_iff)
  then have "find (\<lambda>f. finding_id f = k) (rev (rp_advisories primary)) = Some f" using m by auto
  then show ?thesis by (metis find_Some_iff nth_mem set_rev)
qed

lemma kept_ids:
  "row_id ` set (map (\<lambda>(k, f, d). f) (kept_rows primary secondary)) =
    row_id ` set (rp_advisories primary) \<union> row_id ` set (rp_advisories secondary)"
proof -
  let ?rows = "chosen_rows primary secondary"
  let ?F = "set (rp_advisories secondary) \<union> set (rp_advisories primary)"
  have ok: "rows_ok ?rows ?F" by (rule chosen_rows_ok)
  have ids: "fst ` fst ` set ?rows = row_id ` ?F"
    using ok by (auto simp: rows_ok_def image_image finding_id_def row_id_def)
  have key: "row_id f = fst k" if "(k, f, d) \<in> set ?rows" for k f d
    using ok that by (auto simp: rows_ok_def finding_id_def row_id_def)
  have "fst ` fst ` set (kept_rows primary secondary) = fst ` fst ` set ?rows"
  proof (intro equalityI subsetI)
    fix i assume "i \<in> fst ` fst ` set ?rows"
    then obtain s f d where x: "((i, s), f, d) \<in> set ?rows" by auto
    show "i \<in> fst ` fst ` set (kept_rows primary secondary)"
    proof (cases "superseded ?rows ((i, s), f, d)")
      case False
      then have "((i, s), f, d) \<in> set (kept_rows primary secondary)" using x by (simp add: kept_rows_def Let_def)
      then show ?thesis by force
    next
      case True
      then obtain s' f' d' where y: "((i, s'), f', d') \<in> set ?rows" "s' \<noteq> []"
        by (auto simp: superseded_def list_ex_iff)
      then have "((i, s'), f', d') \<in> set (kept_rows primary secondary)"
        by (simp add: kept_rows_def Let_def superseded_def)
      then show ?thesis by force
    qed
  qed (auto simp: kept_rows_def Let_def)
  moreover have "row_id ` set (map (\<lambda>(k, f, d). f) (kept_rows primary secondary)) =
      fst ` fst ` set (kept_rows primary secondary)"
    using key by (force simp: kept_rows_def Let_def image_image)
  ultimately show ?thesis using ids by (simp add: image_Un Un_commute)
qed

text \<open>A row that a merge may drop: a row without a source whose advisory is undetermined on a side,
  where the merged report has a row of the same id with a source.\<close>

definition gives_way :: "Report \<Rightarrow> Report \<Rightarrow> AdvisoryFinding list \<Rightarrow> AdvisoryFinding \<Rightarrow> bool" where
  "gives_way base mine merged g =
    (snd (finding_id g) = [] \<and>
     (\<exists>h\<in>set (rp_advisories base) \<union> set (rp_advisories mine).
        finding_id h = finding_id g \<and> af_verdict h = VerdictUndetermined) \<and>
     (\<exists>f\<in>set merged. row_id f = row_id g \<and> snd (finding_id f) \<noteq> []))"

lemma kept_or_superseded:
  assumes "g \<in> set (rp_advisories base) \<union> set (rp_advisories mine)"
  shows "finding_id g \<in> finding_id ` set (merged_rows base mine) \<or> gives_way base mine (merged_rows base mine) g"
proof -
  let ?p = "primary_of base mine" and ?s = "secondary_of base mine"
  let ?rows = "chosen_rows ?p ?s"
  have u: "set (rp_advisories ?s) \<union> set (rp_advisories ?p) = set (rp_advisories base) \<union> set (rp_advisories mine)"
    by (auto simp: primary_of_def secondary_of_def split: if_splits)
  have ok: "rows_ok ?rows (set (rp_advisories base) \<union> set (rp_advisories mine))"
    using chosen_rows_ok [of ?p ?s] by (simp only: u)
  have "finding_id g \<in> fst ` set ?rows" using ok assms by (simp add: rows_ok_def)
  then obtain f d where x: "(finding_id g, f, d) \<in> set ?rows" by auto
  have f: "finding_id g = finding_id f" "f \<in> set (rp_advisories base) \<union> set (rp_advisories mine)"
    using ok x by (auto simp: rows_ok_def)
  show ?thesis
  proof (cases "superseded ?rows (finding_id g, f, d)")
    case False
    then have "(finding_id g, f, d) \<in> set (kept_rows ?p ?s)" using x by (simp add: kept_rows_def Let_def)
    then have "f \<in> set (merged_rows base mine)" by (force simp: merged_rows_def)
    then show ?thesis using f(1) by auto
  next
    case True
    then have t: "snd (finding_id g) = []" "af_verdict f = VerdictUndetermined"
      by (auto simp: superseded_def split: prod.splits)
    obtain s f' d' where y: "((fst (finding_id g), s), f', d') \<in> set ?rows" "s \<noteq> []"
      using True by (auto simp: superseded_def list_ex_iff split: prod.splits)
    then have "((fst (finding_id g), s), f', d') \<in> set (kept_rows ?p ?s)"
      by (simp add: kept_rows_def Let_def superseded_def)
    then have m: "f' \<in> set (merged_rows base mine)" by (force simp: merged_rows_def)
    have "finding_id f' = (fst (finding_id g), s)" using ok y(1) by (auto simp: rows_ok_def)
    then have "row_id f' = row_id g" "snd (finding_id f') \<noteq> []"
      using y(2) by (auto simp: finding_id_def row_id_def)
    then show ?thesis using t f m unfolding gives_way_def by metis
  qed
qed

text \<open>C17: no advisory is lost in a merge. The merged report has a row for exactly the advisories either
  side evaluated; each row is one of the two sides' rows; a row of the strictly later report wins over the
  other side's row of the same id and source; no two rows share both; every id and source that
  either side has a row for has one, unless it is an undetermined row without a source and the
  merged report has a row of the id with a source; and every limit either side disclosed stays
  disclosed. Which side wins a tie is not part of the claim.\<close>
theorem merge_keeps_advisories:
  "row_id ` set (rp_advisories (merge_pair now base mine)) =
     row_id ` set (rp_advisories base) \<union> row_id ` set (rp_advisories mine) \<and>
   distinct (map finding_id (rp_advisories (merge_pair now base mine))) \<and>
   (\<forall>f\<in>set (rp_advisories (merge_pair now base mine)).
      f \<in> set (rp_advisories base) \<union> set (rp_advisories mine) \<and>
      (pv_timestamp (rp_provenance mine) > pv_timestamp (rp_provenance base) \<longrightarrow>
         finding_id f \<in> finding_id ` set (rp_advisories mine) \<longrightarrow> f \<in> set (rp_advisories mine)) \<and>
      (pv_timestamp (rp_provenance base) > pv_timestamp (rp_provenance mine) \<longrightarrow>
         finding_id f \<in> finding_id ` set (rp_advisories base) \<longrightarrow> f \<in> set (rp_advisories base))) \<and>
   (\<forall>g\<in>set (rp_advisories base) \<union> set (rp_advisories mine).
      finding_id g \<in> finding_id ` set (rp_advisories (merge_pair now base mine)) \<or>
      gives_way base mine (rp_advisories (merge_pair now base mine)) g) \<and>
   note_id ` set (rp_partiality (merge_pair now base mine)) =
     note_id ` {n \<in> set (rp_partiality base) \<union> set (rp_partiality mine). pn_reason n \<noteq> []}"
proof (intro conjI ballI)
  let ?p = "primary_of base mine" and ?s = "secondary_of base mine"
  have ps: "{?p, ?s} = {base, mine}" by (auto simp: primary_of_def secondary_of_def)
  have ok: "rows_ok (chosen_rows ?p ?s) (set (rp_advisories ?s) \<union> set (rp_advisories ?p))" by (rule chosen_rows_ok)
  show "row_id ` set (rp_advisories (merge_pair now base mine)) =
      row_id ` set (rp_advisories base) \<union> row_id ` set (rp_advisories mine)"
    using kept_ids [of ?p ?s] ps
    by (auto simp: merge_pair_advisories merged_rows_def primary_of_def secondary_of_def split: if_splits)
  have "map finding_id (merged_rows base mine) = map fst (kept_rows ?p ?s)"
    using ok by (auto simp: merged_rows_def kept_rows_def Let_def rows_ok_def)
  moreover have "distinct (map fst (kept_rows ?p ?s))"
    using ok by (auto simp: kept_rows_def Let_def rows_ok_def intro: distinct_map_filter)
  ultimately show "distinct (map finding_id (rp_advisories (merge_pair now base mine)))"
    using distinct_map_mset [of "sortFindings (merged_rows base mine)" "merged_rows base mine" finding_id]
    by (simp add: merge_pair_advisories)
  show "note_id ` set (rp_partiality (merge_pair now base mine)) =
      note_id ` {n \<in> set (rp_partiality base) \<union> set (rp_partiality mine). pn_reason n \<noteq> []}"
  proof -
    have i: "note_id (n\<lparr>pn_class := c\<rparr>) = note_id n" for n c by (simp add: note_id_def)
    have "note_id ` set (addNotes [] ns) = note_id ` {n \<in> set ns. pn_reason n \<noteq> []}" for ns
      unfolding addNotes_def append_Nil set_map image_image set_filter by (intro image_cong) (simp_all add: i)
    then show ?thesis
      unfolding merge_pair_partiality dedup_ids by (auto simp: primary_of_def secondary_of_def)
  qed
next
  fix f assume "f \<in> set (rp_advisories (merge_pair now base mine))"
  then obtain k d where x: "(k, f, d) \<in> set (chosen_rows (primary_of base mine) (secondary_of base mine))"
    by (auto simp: merge_pair_advisories merged_rows_def kept_rows_def Let_def)
  have k: "k = finding_id f" "f \<in> set (rp_advisories (secondary_of base mine)) \<union> set (rp_advisories (primary_of base mine))"
    using chosen_rows_ok [of "primary_of base mine" "secondary_of base mine"] x by (auto simp: rows_ok_def)
  have t: "pv_timestamp (rp_provenance (secondary_of base mine)) \<le> pv_timestamp (rp_provenance (primary_of base mine))"
    by (simp add: primary_of_def secondary_of_def)
  show "f \<in> set (rp_advisories base) \<union> set (rp_advisories mine)"
    using k(2) by (auto simp: primary_of_def secondary_of_def split: if_splits)
  show "pv_timestamp (rp_provenance mine) > pv_timestamp (rp_provenance base) \<longrightarrow>
      finding_id f \<in> finding_id ` set (rp_advisories mine) \<longrightarrow> f \<in> set (rp_advisories mine)"
    "pv_timestamp (rp_provenance base) > pv_timestamp (rp_provenance mine) \<longrightarrow>
      finding_id f \<in> finding_id ` set (rp_advisories base) \<longrightarrow> f \<in> set (rp_advisories base)"
    using chosen_primary [OF t x] k(1) by (auto simp: primary_of_def)
next
  fix g assume "g \<in> set (rp_advisories base) \<union> set (rp_advisories mine)"
  then show "finding_id g \<in> finding_id ` set (rp_advisories (merge_pair now base mine)) \<or>
      gives_way base mine (rp_advisories (merge_pair now base mine)) g"
    using kept_or_superseded [of g base mine]
    by (simp add: merge_pair_advisories gives_way_def)
qed

theorem merge_keeps_advisories_witness:
  "row_id ` set (rp_advisories (merge_pair 9 (Build 7 (sample_builder [''a''] [''G1''])) (Build 8 (sample_builder [''b''] [''G2''])))) =
    {''G1'', ''G2''}"
proof -
  have "row_id ` set (rp_advisories (Build n (sample_builder p [i]))) = {i}" for n p i
    by (simp add: sample_builder_def prioritized_def Undetermined_def AddFinding_def undetermined_row_def new_row_def
        sample_advisory_id_def row_id_def)
  then show ?thesis unfolding merge_keeps_advisories [THEN conjunct1] by (simp add: insert_commute)
qed

text \<open>merging preserves validity: two reports that pass Validate merge to one that passes it.\<close>
theorem merge_valid:
  assumes "Report_Validate base = None" and "Report_Validate mine = None"
  shows "Report_Validate (merge_pair now base mine) = None"
proof -
  have "set (merged_rows base mine) \<subseteq> set (rp_advisories base) \<union> set (rp_advisories mine)"
    using chosen_rows_ok [of "primary_of base mine" "secondary_of base mine"]
    by (auto simp: merged_rows_def kept_rows_def Let_def rows_ok_def primary_of_def secondary_of_def split: if_splits)
  then have "\<forall>f\<in>set (rp_advisories (merge_pair now base mine)). finding_error f = None"
    using assms by (auto simp: merge_pair_advisories Report_Validate_None)
  moreover have "edges_closed (rp_sbom (primary_of base mine))"
    using assms by (auto simp: Report_Validate_None primary_of_def)
  then have "edges_closed (rp_sbom (merge_pair now base mine))"
    using merge_pair_sbom [of now base mine] by (simp add: edges_closed_def list_all_iff)
  ultimately show ?thesis using merge_pair_sbom [of now base mine] by (simp add: Report_Validate_None schema_defs)
qed

theorem merge_valid_witness:
  "Report_Validate (merge_pair 9 (Build 7 (sample_builder [''a''] [''G1''])) (Build 8 (sample_builder [''b''] [''G2'']))) = None"
  by (rule merge_valid) code_simp+

section \<open>Merging fetch records\<close>

definition zero_fetch :: RegistryFetch where
  "zero_fetch = \<lparr>rf_hasServed = False, rf_heldRuns = 0, rf_firstHeldAt = 0\<rparr>"

definition fetch_in :: "(gostring \<times> RegistryFetch) list \<Rightarrow> gostring \<Rightarrow> RegistryFetch" where
  "fetch_in regs k = (case map_of regs k of None \<Rightarrow> zero_fetch | Some r \<Rightarrow> r)"

definition fetch_of :: "DepFetch option \<Rightarrow> gostring \<Rightarrow> RegistryFetch" where
  "fetch_of d k = fetch_in (regs_of d) k"

text \<open>A record as the code holds it: a map has each key once, and a run count is not negative.\<close>

definition depfetch_wf :: "DepFetch option \<Rightarrow> bool" where
  "depfetch_wf d = (distinct (map fst (regs_of d)) \<and> list_all (\<lambda>(k, r). 0 \<le> rf_heldRuns r) (regs_of d))"

lemma join_comm: "join_fetch a b = join_fetch b a"
  by (auto simp: join_fetch_def)

lemma join_zero [simp]: "0 \<le> rf_heldRuns r \<Longrightarrow> join_fetch r zero_fetch = r"
  by (simp add: join_fetch_def zero_fetch_def)

lemma join_idem [simp]: "join_fetch r r = r"
  by (simp add: join_fetch_def)

lemma map_of_held:
  "list_all (\<lambda>(k, r). 0 \<le> rf_heldRuns r) regs \<Longrightarrow> map_of regs k = Some r \<Longrightarrow> 0 \<le> rf_heldRuns r"
  by (auto simp: list_all_iff dest!: map_of_SomeD)

lemma fetch_in_held: "list_all (\<lambda>(k, r). 0 \<le> rf_heldRuns r) regs \<Longrightarrow> 0 \<le> rf_heldRuns (fetch_in regs k)"
  by (auto simp: fetch_in_def zero_fetch_def dest: map_of_held split: option.splits)

lemma map_of_add_registry:
  "map_of (add_registry (k, r) regs) =
    (map_of regs)(k \<mapsto> (case map_of regs k of None \<Rightarrow> r | Some cur \<Rightarrow> join_fetch cur r))"
  by (auto simp: add_registry_def update_conv' split: option.split)

lemma fold_add_registry:
  assumes "distinct (map fst rs)"
  shows "map_of (fold add_registry rs acc) k =
    (case map_of rs k of None \<Rightarrow> map_of acc k
     | Some r \<Rightarrow> Some (case map_of acc k of None \<Rightarrow> r | Some cur \<Rightarrow> join_fetch cur r))"
  using assms
proof (induction rs arbitrary: acc)
  case (Cons kr rs)
  obtain k' r where kr: "kr = (k', r)" by (cases kr)
  have ih: "map_of (fold add_registry rs (add_registry kr acc)) k =
    (case map_of rs k of None \<Rightarrow> map_of (add_registry kr acc) k
     | Some r \<Rightarrow> Some (case map_of (add_registry kr acc) k of None \<Rightarrow> r | Some cur \<Rightarrow> join_fetch cur r))"
    using Cons by simp
  show ?case
  proof (cases "k' = k")
    case True
    then have "map_of rs k = None" using Cons.prems kr by (simp add: map_of_eq_None_iff)
    then show ?thesis using True ih kr by (simp add: map_of_add_registry)
  next
    case False
    then have "map_of (add_registry kr acc) k = map_of acc k" using kr by (simp add: map_of_add_registry)
    then show ?thesis using False ih unfolding kr by (cases "map_of rs k") simp_all
  qed
qed simp

lemma add_registry_distinct: "distinct (map fst regs) \<Longrightarrow> distinct (map fst (fold add_registry rs regs))"
  by (induction rs arbitrary: regs) (auto simp: add_registry_def distinct_update split: option.split)

lemma rf_zero_iff: "rf_zero r \<longleftrightarrow> r = zero_fetch"
  by (cases r) (auto simp: rf_zero_def zero_fetch_def)

lemma fetch_in_filter:
  assumes "distinct (map fst regs)"
  shows "fetch_in (filter (\<lambda>(k, r). \<not> rf_zero r) regs) k = fetch_in regs k"
  using assms
proof (induction regs)
  case (Cons kr regs)
  obtain k' r where kr: "kr = (k', r)" by (cases kr)
  have ih: "fetch_in (filter (\<lambda>(k, r). \<not> rf_zero r) regs) k = fetch_in regs k" using Cons by simp
  show ?case
  proof (cases "k' = k \<and> rf_zero r")
    case True
    then have "map_of regs k = None" using Cons.prems kr by (simp add: map_of_eq_None_iff)
    then have "fetch_in regs k = zero_fetch" by (simp add: fetch_in_def)
    then show ?thesis using True ih kr by (simp add: fetch_in_def rf_zero_iff)
  next
    case False
    then show ?thesis using ih kr by (auto simp: fetch_in_def)
  qed
qed (simp add: fetch_in_def)

lemma normalized_fetch:
  assumes "distinct (map fst (df_registries f))"
  shows "fetch_of (normalized (Some f)) k = fetch_in (df_registries f) k"
  using fetch_in_filter [OF assms, of k]
  by (auto simp: normalized_def fetch_of_def regs_of_def Let_def fetch_in_def)

lemma merge_fetch:
  assumes "depfetch_wf a" and "depfetch_wf b"
  shows "fetch_of (mergeDepFetch a b) k = join_fetch (fetch_of a k) (fetch_of b k)"
proof (cases "a = None \<and> b = None")
  case True
  then show ?thesis by (simp add: mergeDepFetch_def fetch_of_def regs_of_def fetch_in_def)
next
  case False
  let ?r = "fold add_registry (regs_of b) (fold add_registry (regs_of a) [])"
  have d: "distinct (map fst ?r)" by (intro add_registry_distinct) simp
  have "fetch_of (mergeDepFetch a b) k = fetch_in ?r k"
    unfolding mergeDepFetch_def if_not_P [OF False] using normalized_fetch d by simp
  also have "\<dots> = join_fetch (fetch_of a k) (fetch_of b k)"
  proof -
    have h: "0 \<le> rf_heldRuns (fetch_of a k)" "0 \<le> rf_heldRuns (fetch_of b k)"
      using assms fetch_in_held by (auto simp: depfetch_wf_def fetch_of_def)
    have m: "map_of ?r k = (case map_of (regs_of b) k of None \<Rightarrow> map_of (regs_of a) k
       | Some r \<Rightarrow> Some (case map_of (regs_of a) k of None \<Rightarrow> r | Some cur \<Rightarrow> join_fetch cur r))"
      using assms by (simp add: fold_add_registry depfetch_wf_def split: option.split)
    show ?thesis
      unfolding fetch_in_def m fetch_of_def using h
      by (auto simp: fetch_of_def fetch_in_def join_comm [of zero_fetch] split: option.splits)
  qed
  finally show ?thesis .
qed

lemma normalized_reassess: "set (reassess_of (normalized (Some f))) = set (df_reassess f)"
proof -
  have "set (remdups_adj (sort (df_reassess f))) = set (df_reassess f)" by simp
  then show ?thesis by (auto simp: normalized_def reassess_of_def Let_def simp del: remdups_adj_set set_sort)
qed

text \<open>merging fetch records loses no evidence and has no favourite. For every registry the merged count of
  held runs is the larger one, it has served when either had, and its first-held time is the earlier
  of those set; the result is the same whichever side won the race, merging a record with itself
  changes no entry, and an advisory is to be assessed again when either side said so.\<close>
theorem depfetch_join:
  assumes "depfetch_wf a" and "depfetch_wf b"
  shows "fetch_of (mergeDepFetch a b) k = fetch_of (mergeDepFetch b a) k \<and>
    fetch_of (mergeDepFetch a a) k = fetch_of a k \<and>
    rf_heldRuns (fetch_of (mergeDepFetch a b) k) = max (rf_heldRuns (fetch_of a k)) (rf_heldRuns (fetch_of b k)) \<and>
    rf_hasServed (fetch_of (mergeDepFetch a b) k) = (rf_hasServed (fetch_of a k) \<or> rf_hasServed (fetch_of b k)) \<and>
    (rf_firstHeldAt (fetch_of (mergeDepFetch a b) k) =
      (if rf_firstHeldAt (fetch_of a k) = 0 then rf_firstHeldAt (fetch_of b k)
       else if rf_firstHeldAt (fetch_of b k) = 0 then rf_firstHeldAt (fetch_of a k)
       else min (rf_firstHeldAt (fetch_of a k)) (rf_firstHeldAt (fetch_of b k)))) \<and>
    set (reassess_of (mergeDepFetch a b)) = set (reassess_of a) \<union> set (reassess_of b)"
proof -
  have c: "fetch_of (mergeDepFetch a b) k = join_fetch (fetch_of a k) (fetch_of b k)"
    by (rule merge_fetch [OF assms])
  have s: "fetch_of (mergeDepFetch b a) k = fetch_of (mergeDepFetch a b) k"
    unfolding c merge_fetch [OF assms(2,1)] by (rule join_comm)
  have i: "fetch_of (mergeDepFetch a a) k = fetch_of a k"
    unfolding merge_fetch [OF assms(1,1)] by simp
  have r: "set (reassess_of (mergeDepFetch a b)) = set (reassess_of a) \<union> set (reassess_of b)"
  proof (cases "a = None \<and> b = None")
    case True
    then show ?thesis by (simp add: mergeDepFetch_def reassess_of_def)
  next
    case False
    then show ?thesis unfolding mergeDepFetch_def if_not_P [OF False] normalized_reassess by simp
  qed
  show ?thesis using s i r unfolding c by (simp add: join_fetch_def min_def)
qed

definition sample_fetch :: "int \<Rightarrow> int \<Rightarrow> DepFetch option" where
  "sample_fetch n t = Some \<lparr>df_reportSHA256 = [],
     df_registries = [(''npmjs'', \<lparr>rf_hasServed = True, rf_heldRuns = n, rf_firstHeldAt = t\<rparr>)], df_reassess = []\<rparr>"

theorem depfetch_join_witness:
  "rf_heldRuns (fetch_of (mergeDepFetch (sample_fetch 2 50) (sample_fetch 1 40)) ''npmjs'') = 2 \<and>
   rf_firstHeldAt (fetch_of (mergeDepFetch (sample_fetch 2 50) (sample_fetch 1 40)) ''npmjs'') = 40"
proof -
  have "depfetch_wf (sample_fetch 2 50)" "depfetch_wf (sample_fetch 1 40)" by code_simp+
  note j = depfetch_join [OF this, of "''npmjs''"]
  have "fetch_of (sample_fetch n t) ''npmjs'' = \<lparr>rf_hasServed = True, rf_heldRuns = n, rf_firstHeldAt = t\<rparr>" for n t
    by (simp add: sample_fetch_def fetch_of_def regs_of_def fetch_in_def)
  moreover from j have "rf_heldRuns (fetch_of (mergeDepFetch (sample_fetch 2 50) (sample_fetch 1 40)) ''npmjs'') =
      max (rf_heldRuns (fetch_of (sample_fetch 2 50) ''npmjs'')) (rf_heldRuns (fetch_of (sample_fetch 1 40) ''npmjs''))"
    by blast
  moreover from j have "rf_firstHeldAt (fetch_of (mergeDepFetch (sample_fetch 2 50) (sample_fetch 1 40)) ''npmjs'') =
      (if rf_firstHeldAt (fetch_of (sample_fetch 2 50) ''npmjs'') = 0 then rf_firstHeldAt (fetch_of (sample_fetch 1 40) ''npmjs'')
       else if rf_firstHeldAt (fetch_of (sample_fetch 1 40) ''npmjs'') = 0
       then rf_firstHeldAt (fetch_of (sample_fetch 2 50) ''npmjs'')
       else min (rf_firstHeldAt (fetch_of (sample_fetch 2 50) ''npmjs'')) (rf_firstHeldAt (fetch_of (sample_fetch 1 40) ''npmjs'')))"
    by blast
  ultimately show ?thesis by simp
qed

section \<open>Compare-and-swap\<close>

text \<open>MemStore. A write returns the store and the state committed, or None for its errors (a done
  context, a failing hook); the nil state is not represented.\<close>

record MemStore =
  ms_state :: "State option"
  ms_writes :: nat
  ms_written :: bool

definition NewMemStore :: MemStore where
  "NewMemStore = \<lparr>ms_state = None, ms_writes = 0, ms_written = False\<rparr>"

definition mem_token :: "nat \<Rightarrow> gostring" where
  "mem_token n = ''mem-'' @ show_nat n"

definition mem_read :: "MemStore \<Rightarrow> State option" where
  "mem_read s = (if \<not> ms_written s then None else ms_state s)"

record write_request =
  wr_next :: State
  wr_remerge :: remerge
  wr_now :: int
  wr_cancelled :: bool

definition mem_write ::
  "(gostring \<Rightarrow> gostring option) \<Rightarrow> MemStore \<Rightarrow> write_request \<Rightarrow> (MemStore \<times> State) option" where
  "mem_write reencode s q =
    (if wr_cancelled q then None
     else
       (let next = wr_next q;
            merged = (case ms_state s of
                        Some cur \<Rightarrow>
                          if ms_written s \<and> ss_commitSHA next \<noteq> ss_commitSHA cur
                          then mergeForRetry reencode (wr_now q) cur next (wr_remerge q) else Some next
                      | None \<Rightarrow> Some next)
        in map_option (\<lambda>m.
             let committed = m\<lparr>ss_commitSHA := mem_token (ms_writes s + 1)\<rparr>
             in (\<lparr>ms_state = Some committed, ms_writes = ms_writes s + 1, ms_written = True\<rparr>, committed)) merged))"

text \<open>The Write of gitref.go and github.go: at most MaxRetries + 1 attempts. \<open>cas\<close> stands for the git side of
  tryWrite (build the tree, commit it on the token, swap the ref from the token to the commit),
  \<open>rd\<close> for a Read, \<open>expired\<close> for a context that ends while the loop waits; the repository
  they act on, which other writers share, is of type \<open>'w\<close>.\<close>

datatype cas_outcome = Swapped gostring | Stale | GitError
datatype read_outcome = Winner State | NoRef | ReadError
datatype write_outcome = Done State | WriteError | Exhausted

definition committed_state :: "State \<Rightarrow> gostring \<Rightarrow> State" where
  "committed_state st sha =
    st\<lparr>ss_commitSHA := sha, ss_sbom := (case ss_report st of None \<Rightarrow> ss_sbom st | Some r \<Rightarrow> rp_sbom r)\<rparr>"

fun write_loop ::
  "('w \<Rightarrow> State \<Rightarrow> 'w \<times> cas_outcome) \<Rightarrow> ('w \<Rightarrow> 'w \<times> read_outcome) \<Rightarrow> ('w \<Rightarrow> bool) \<Rightarrow>
   (gostring \<Rightarrow> gostring option) \<Rightarrow> int \<Rightarrow> remerge \<Rightarrow> nat \<Rightarrow> 'w \<Rightarrow> State \<Rightarrow> 'w \<times> write_outcome" where
  "write_loop cas rd expired reencode now hook 0 w cur = (w, Exhausted)"
| "write_loop cas rd expired reencode now hook (Suc n) w cur =
    (case cas w cur of
       (w1, Swapped sha) \<Rightarrow> (w1, Done (committed_state cur sha))
     | (w1, GitError) \<Rightarrow> (w1, WriteError)
     | (w1, Stale) \<Rightarrow>
         (case rd w1 of
            (w2, ReadError) \<Rightarrow> (w2, WriteError)
          | (w2, NoRef) \<Rightarrow>
              if expired w2 then (w2, WriteError)
              else write_loop cas rd expired reencode now hook n w2 (cur\<lparr>ss_commitSHA := []\<rparr>)
          | (w2, Winner winner) \<Rightarrow>
              (case mergeForRetry reencode now winner cur hook of
                 None \<Rightarrow> (w2, WriteError)
               | Some m \<Rightarrow>
                   if expired w2 then (w2, WriteError)
                   else write_loop cas rd expired reencode now hook n w2 m)))"

definition store_Write ::
  "('w \<Rightarrow> State \<Rightarrow> 'w \<times> cas_outcome) \<Rightarrow> ('w \<Rightarrow> 'w \<times> read_outcome) \<Rightarrow> ('w \<Rightarrow> bool) \<Rightarrow>
   (gostring \<Rightarrow> gostring option) \<Rightarrow> int \<Rightarrow> remerge \<Rightarrow> nat \<Rightarrow> 'w \<Rightarrow> State \<Rightarrow> 'w \<times> write_outcome" where
  "store_Write cas rd expired reencode now hook maxRetries w next =
    write_loop cas rd expired reencode now hook (maxRetries + 1) w next"

section \<open>No statement is lost\<close>

text \<open>Clients of a store: each may read at any time, and each may write any content at any time, under
  the token of any state it was ever handed (read, or returned by its own write) or under the
  empty one. The ghost \<open>sy_views\<close> holds the states handed to each client, and \<open>sy_log\<close> the
  writes: the state whose token the write carries, the state the store held, the request, and
  the state committed.\<close>

record ('v, 'r) cas_entry =
  ce_seen :: "'v option"
  ce_before :: "'v option"
  ce_req :: 'r
  ce_after :: 'v

record ('s, 'v, 'r) cas_sys =
  sy_store :: 's
  sy_views :: "nat \<Rightarrow> 'v set"
  sy_log :: "('v, 'r) cas_entry list"

inductive cas_step ::
  "('s \<Rightarrow> 'v option) \<Rightarrow> ('s \<Rightarrow> 'r \<Rightarrow> ('s \<times> 'v) option) \<Rightarrow> ('v \<Rightarrow> 't) \<Rightarrow> ('r \<Rightarrow> 't) \<Rightarrow> 't \<Rightarrow> ('r \<Rightarrow> bool) \<Rightarrow>
   ('s, 'v, 'r) cas_sys \<Rightarrow> ('s, 'v, 'r) cas_sys \<Rightarrow> bool"
  for current wr token rtoken fresh allowed where
  cas_read: "current (sy_store s) = Some v \<Longrightarrow>
    cas_step current wr token rtoken fresh allowed s (s\<lparr>sy_views := (sy_views s)(i := insert v (sy_views s i))\<rparr>)"
| cas_write: "allowed q \<Longrightarrow>
    (case x of None \<Rightarrow> rtoken q = fresh | Some v \<Rightarrow> v \<in> sy_views s i \<and> rtoken q = token v) \<Longrightarrow>
    wr (sy_store s) q = Some (st', m) \<Longrightarrow>
    cas_step current wr token rtoken fresh allowed s
      (s\<lparr>sy_store := st', sy_views := (sy_views s)(i := insert m (sy_views s i)),
         sy_log := sy_log s @ [\<lparr>ce_seen = x, ce_before = current (sy_store s), ce_req = q, ce_after = m\<rparr>]\<rparr>)"

inductive_cases cas_stepE: "cas_step current wr token rtoken fresh allowed s s'"

text \<open>The one way an item may go: a write that replaced a state holding it, by a client that had been
  handed that very state, with a content that leaves the item out.\<close>

definition left_out :: "('v \<Rightarrow> 'e set) \<Rightarrow> ('r \<Rightarrow> 'e set) \<Rightarrow> 'e \<Rightarrow> ('v, 'r) cas_entry \<Rightarrow> bool" where
  "left_out content rcontent e en =
    (\<exists>v. ce_before en = Some v \<and> ce_seen en = Some v \<and> e \<in> content v \<and> e \<notin> rcontent (ce_req en))"

text \<open>The contract of a store under fast-forward-only compare-and-swap.\<close>

locale cas_store =
  fixes current :: "'s \<Rightarrow> 'v option" and wr :: "'s \<Rightarrow> 'r \<Rightarrow> ('s \<times> 'v) option"
    and token :: "'v \<Rightarrow> 't" and rtoken :: "'r \<Rightarrow> 't" and fresh :: 't
    and content :: "'v \<Rightarrow> 'e set" and rcontent :: "'r \<Rightarrow> 'e set" and allowed :: "'r \<Rightarrow> bool"
    and ok :: "'s \<Rightarrow> bool" and issued :: "'s \<Rightarrow> 't set"
  assumes issued_current: "ok s \<Longrightarrow> current s = Some u \<Longrightarrow> token u \<in> issued s \<and> token u \<noteq> fresh"
    and write_issues: "ok s \<Longrightarrow> wr s q = Some (s', m) \<Longrightarrow>
      ok s' \<and> current s' = Some m \<and> token m \<notin> issued s \<and> issued s' = insert (token m) (issued s)"
    and write_create: "ok s \<Longrightarrow> current s = None \<Longrightarrow> wr s q = Some (s', m) \<Longrightarrow> rcontent q \<subseteq> content m"
    and write_forward: "ok s \<Longrightarrow> current s = Some u \<Longrightarrow> rtoken q = token u \<Longrightarrow> wr s q = Some (s', m) \<Longrightarrow>
      rcontent q \<subseteq> content m"
    and write_stale: "ok s \<Longrightarrow> current s = Some u \<Longrightarrow> rtoken q \<noteq> token u \<Longrightarrow> allowed q \<Longrightarrow> wr s q = Some (s', m) \<Longrightarrow>
      content u \<union> rcontent q \<subseteq> content m"
begin

abbreviation step where "step \<equiv> cas_step current wr token rtoken fresh allowed"

definition log_ok :: "('s, 'v, 'r) cas_sys \<Rightarrow> bool" where
  "log_ok s \<longleftrightarrow> (\<forall>en\<in>set (sy_log s). rcontent (ce_req en) \<subseteq> content (ce_after en) \<and>
      token (ce_after en) \<in> issued (sy_store s)) \<and>
    distinct (map (\<lambda>en. token (ce_after en)) (sy_log s))"

definition sys_ok :: "('s, 'v, 'r) cas_sys \<Rightarrow> bool" where
  "sys_ok s \<longleftrightarrow> ok (sy_store s) \<and> log_ok s \<and>
    (\<forall>i. \<forall>v\<in>sy_views s i. token v \<in> issued (sy_store s) \<and>
       (\<forall>u. current (sy_store s) = Some u \<longrightarrow> token v = token u \<longrightarrow> v = u))"

lemma step_read:
  "sys_ok s \<Longrightarrow> current (sy_store s) = Some v \<Longrightarrow> sys_ok (s\<lparr>sy_views := (sy_views s)(i := insert v (sy_views s i))\<rparr>)"
  using issued_current by (auto simp: sys_ok_def log_ok_def)

lemma write_commits:
  assumes "sys_ok s" and "allowed q" and "wr (sy_store s) q = Some (st', m)"
  shows "rcontent q \<subseteq> content m"
proof (cases "current (sy_store s)")
  case None
  then show ?thesis using assms write_create [OF _ None assms(3)] by (auto simp: sys_ok_def)
next
  case (Some u)
  then show ?thesis
    using assms write_forward [OF _ Some _ assms(3)] write_stale [OF _ Some _ assms(2,3)]
    by (cases "rtoken q = token u") (auto simp: sys_ok_def)
qed

lemma write_keeps:
  assumes "sys_ok s" and "allowed q"
    and "case x of None \<Rightarrow> rtoken q = fresh | Some v \<Rightarrow> v \<in> sy_views s i \<and> rtoken q = token v"
    and "wr (sy_store s) q = Some (st', m)" and u: "current (sy_store s) = Some u" and "e \<in> content u"
  shows "e \<in> content m \<or>
    left_out content rcontent e \<lparr>ce_seen = x, ce_before = Some u, ce_req = q, ce_after = m\<rparr>"
proof (cases "rtoken q = token u")
  case True
  then obtain v where v: "x = Some v" "v \<in> sy_views s i" "token v = token u"
    using assms(1,3) issued_current [OF _ u] by (auto simp: sys_ok_def split: option.splits)
  then have "v = u" using assms(1) u by (auto simp: sys_ok_def)
  then show ?thesis using v write_commits [OF assms(1,2,4)] assms(6) by (auto simp: left_out_def)
next
  case False
  then show ?thesis using assms write_stale [OF _ u False assms(2,4)] by (auto simp: sys_ok_def)
qed

lemma step_ok: "step s s' \<Longrightarrow> sys_ok s \<Longrightarrow> sys_ok s'"
proof (induction rule: cas_step.induct)
  case (cas_read s v i)
  then show ?case by (intro step_read)
next
  case (cas_write q x s i st' m)
  have w: "ok st'" "current st' = Some m" "token m \<notin> issued (sy_store s)" "issued st' = insert (token m) (issued (sy_store s))"
    using cas_write write_issues by (auto simp: sys_ok_def)
  have c: "rcontent q \<subseteq> content m" using write_commits cas_write by blast
  have l: "log_ok s" using cas_write.prems by (simp add: sys_ok_def)
  have i: "token v \<in> issued (sy_store s)" if "v \<in> sy_views s j" for j v
    using cas_write.prems that by (auto simp: sys_ok_def)
  then have v: "token v \<noteq> token m" if "v \<in> sy_views s j" for j v using that w(3) by metis
  have "log_ok (s\<lparr>sy_store := st', sy_views := (sy_views s)(i := insert m (sy_views s i)),
         sy_log := sy_log s @ [\<lparr>ce_seen = x, ce_before = current (sy_store s), ce_req = q, ce_after = m\<rparr>]\<rparr>)"
    using l w c by (auto simp: log_ok_def)
  then show ?case using w(1,2,4) i v by (auto simp: sys_ok_def)
qed

lemma step_keeps:
  assumes "step s s'" and "sys_ok s" and "current (sy_store s) = Some u" and "e \<in> content u"
  shows "\<exists>new u'. sy_log s' = sy_log s @ new \<and> current (sy_store s') = Some u' \<and>
    (e \<in> content u' \<or> list_ex (left_out content rcontent e) new)"
  using assms(1)
proof (cases rule: cas_step.cases)
  case (cas_read v i)
  then show ?thesis using assms by simp
next
  case (cas_write q x i st' m)
  have "current st' = Some m" using cas_write assms(2) write_issues by (auto simp: sys_ok_def)
  then show ?thesis
    using write_keeps [OF assms(2) cas_write(2,3,4) assms(3,4)] cas_write(1) assms(3) by simp
qed

lemma steps_ok: "step\<^sup>*\<^sup>* s0 s \<Longrightarrow> sys_ok s0 \<Longrightarrow> sys_ok s"
  by (induction rule: rtranclp_induct) (auto intro: step_ok)

lemma log_grows: "step\<^sup>*\<^sup>* s t \<Longrightarrow> \<exists>new. sy_log t = sy_log s @ new"
  by (induction rule: rtranclp_induct) (auto elim!: cas_stepE)

lemma nothing_lost:
  assumes "step\<^sup>*\<^sup>* s t" and "sys_ok s" and "current (sy_store s) = Some u" and "e \<in> content u"
  shows "\<exists>new u'. sy_log t = sy_log s @ new \<and> current (sy_store t) = Some u' \<and>
    (e \<in> content u' \<or> list_ex (left_out content rcontent e) new)"
  using assms(1)
proof (induction rule: rtranclp_induct)
  case base
  then show ?case using assms by simp
next
  case (step t t')
  have ok: "sys_ok t" using steps_ok step.hyps(1) assms(2) by blast
  obtain new u' where n: "sy_log t = sy_log s @ new" "current (sy_store t) = Some u'"
    "e \<in> content u' \<or> list_ex (left_out content rcontent e) new" using step.IH by blast
  obtain new' where g: "sy_log t' = sy_log t @ new'" using log_grows step.hyps(2) by blast
  have c: "\<exists>u''. current (sy_store t') = Some u''"
    using step.hyps(2) ok n(2) write_issues by (auto simp: sys_ok_def elim!: cas_stepE)
  show ?case
  proof (cases "e \<in> content u'")
    case True
    then show ?thesis using step_keeps [OF step.hyps(2) ok n(2)] n(1) by fastforce
  next
    case False
    then show ?thesis using n g c by auto
  qed
qed

end

text \<open>MemStore keeps the contract. What must not be lost are the statements of the log and the
  advisories of the report; a request is allowed when its hook, if it has one, keeps both.\<close>

datatype kept_item = Statement gostring | AdvisoryId gostring

definition state_items :: "(gostring \<Rightarrow> gostring) \<Rightarrow> State \<Rightarrow> kept_item set" where
  "state_items c s = Statement ` c ` set (ss_vexLog s) \<union>
    (case ss_report s of None \<Rightarrow> {} | Some r \<Rightarrow> AdvisoryId ` row_id ` set (rp_advisories r))"

definition hook_keeps :: "(gostring \<Rightarrow> gostring) \<Rightarrow> remerge \<Rightarrow> bool" where
  "hook_keeps c hook = (case hook of None \<Rightarrow> True | Some h \<Rightarrow>
     (\<forall>s s'. h s = Some s' \<longrightarrow> state_items c s \<subseteq> state_items c s'))"

lemma merge_ids:
  "row_id ` set (rp_advisories (merge_pair now base mine)) =
    row_id ` set (rp_advisories base) \<union> row_id ` set (rp_advisories mine)"
  using kept_ids [of "primary_of base mine" "secondary_of base mine"]
  by (auto simp: merge_pair_advisories merged_rows_def primary_of_def secondary_of_def split: if_splits)

lemma mergeVEX_set: "c ` set (mergeVEXLogs c base mine) = c ` set base \<union> c ` set mine"
  using unseen_entries_set [of c "[]" base] unseen_entries_set [of c "map c (unseen_entries c [] base)" mine]
  by (auto simp: mergeVEXLogs_def Let_def image_Un)

lemma Merge_items:
  "state_items (canonicalJSON reencode) (Merge reencode now base mine) =
    state_items (canonicalJSON reencode) base \<union> state_items (canonicalJSON reencode) mine"
proof -
  let ?c = "canonicalJSON reencode"
  have "ss_vexLog (Merge reencode now base mine) = mergeVEXLogs ?c (ss_vexLog base) (ss_vexLog mine)"
    "ss_report (Merge reencode now base mine) = mergeReports now (ss_report base) (ss_report mine)"
    by (simp_all add: Merge_def Let_def)
  then show ?thesis
    unfolding state_items_def using mergeVEX_set [of ?c "ss_vexLog base" "ss_vexLog mine"]
    by (cases "ss_report base"; cases "ss_report mine")
      (auto simp: mergeReports_def merge_ids image_Un)
qed

lemma retry_items:
  assumes "mergeForRetry reencode now winner mine hook = Some m" and "hook_keeps (canonicalJSON reencode) hook"
  shows "state_items (canonicalJSON reencode) winner \<union> state_items (canonicalJSON reencode) mine \<subseteq>
    state_items (canonicalJSON reencode) m"
  using assms Merge_items [of reencode now winner mine]
  by (cases hook) (auto simp: mergeForRetry_def hook_keeps_def Let_def)

lemma state_items_token [simp]: "state_items c (s\<lparr>ss_commitSHA := t\<rparr>) = state_items c s"
  by (simp add: state_items_def)

lemma show_nat_inj: "show_nat m = show_nat n \<Longrightarrow> m = n"
  by (metis of_nat_eq_iff show_nat_val)

lemma mem_token_inj [simp]: "mem_token m = mem_token n \<longleftrightarrow> m = n"
  by (auto simp: mem_token_def dest: show_nat_inj)

text \<open>The store is empty, or holds the state of its last write, whose token is numbered by it.\<close>

definition mem_ok :: "MemStore \<Rightarrow> bool" where
  "mem_ok s = (if ms_writes s = 0 then ms_state s = None \<and> \<not> ms_written s
     else ms_written s \<and> (\<exists>u. ms_state s = Some u \<and> ss_commitSHA u = mem_token (ms_writes s)))"

definition mem_issued :: "MemStore \<Rightarrow> gostring set" where
  "mem_issued s = mem_token ` {0<..ms_writes s}"

lemma mem_write_cases:
  assumes "mem_write reencode s q = Some (s', m)"
  shows "\<exists>n. m = n\<lparr>ss_commitSHA := mem_token (ms_writes s + 1)\<rparr> \<and>
    s' = \<lparr>ms_state = Some m, ms_writes = ms_writes s + 1, ms_written = True\<rparr> \<and>
    (case ms_state s of
       None \<Rightarrow> n = wr_next q
     | Some cur \<Rightarrow> if ms_written s \<and> ss_commitSHA (wr_next q) \<noteq> ss_commitSHA cur
         then mergeForRetry reencode (wr_now q) cur (wr_next q) (wr_remerge q) = Some n else n = wr_next q)"
  using assms by (auto simp: mem_write_def Let_def split: if_splits option.splits)

interpretation mem: cas_store mem_read "mem_write reencode" ss_commitSHA "\<lambda>q. ss_commitSHA (wr_next q)" "[]"
  "state_items (canonicalJSON reencode)" "\<lambda>q. state_items (canonicalJSON reencode) (wr_next q)"
  "\<lambda>q. hook_keeps (canonicalJSON reencode) (wr_remerge q)" mem_ok mem_issued
  for reencode
proof
  fix s u assume "mem_ok s" "mem_read s = Some u"
  then show "ss_commitSHA u \<in> mem_issued s \<and> ss_commitSHA u \<noteq> []"
    by (auto simp: mem_ok_def mem_read_def mem_issued_def mem_token_def split: if_splits)
next
  fix s q s' m assume "mem_ok s" and w: "mem_write reencode s q = Some (s', m)"
  obtain n where "m = n\<lparr>ss_commitSHA := mem_token (ms_writes s + 1)\<rparr>"
    "s' = \<lparr>ms_state = Some m, ms_writes = ms_writes s + 1, ms_written = True\<rparr>"
    using mem_write_cases [OF w] by blast
  moreover have "{0<..Suc k} = insert (Suc k) {0<..k}" for k by auto
  ultimately show "mem_ok s' \<and> mem_read s' = Some m \<and> ss_commitSHA m \<notin> mem_issued s \<and>
      mem_issued s' = insert (ss_commitSHA m) (mem_issued s)"
    by (auto simp: mem_ok_def mem_read_def mem_issued_def)
next
  fix s q s' m
  assume "mem_ok s" "mem_read s = None" and w: "mem_write reencode s q = Some (s', m)"
  then have "ms_state s = None" by (auto simp: mem_ok_def mem_read_def split: if_splits)
  then show "state_items (canonicalJSON reencode) (wr_next q) \<subseteq> state_items (canonicalJSON reencode) m"
    using mem_write_cases [OF w] by auto
next
  fix s u q s' m
  assume "mem_ok s" "mem_read s = Some u" "ss_commitSHA (wr_next q) = ss_commitSHA u"
    and w: "mem_write reencode s q = Some (s', m)"
  then have "ms_state s = Some u" by (auto simp: mem_read_def split: if_splits)
  then show "state_items (canonicalJSON reencode) (wr_next q) \<subseteq> state_items (canonicalJSON reencode) m"
    using mem_write_cases [OF w] \<open>ss_commitSHA (wr_next q) = ss_commitSHA u\<close> by auto
next
  fix s u q s' m
  assume a: "mem_ok s" "mem_read s = Some u" "ss_commitSHA (wr_next q) \<noteq> ss_commitSHA u"
    "hook_keeps (canonicalJSON reencode) (wr_remerge q)" and w: "mem_write reencode s q = Some (s', m)"
  then have "ms_state s = Some u" "ms_written s" by (auto simp: mem_read_def split: if_splits)
  then obtain n where "m = n\<lparr>ss_commitSHA := mem_token (ms_writes s + 1)\<rparr>"
    "mergeForRetry reencode (wr_now q) u (wr_next q) (wr_remerge q) = Some n"
    using mem_write_cases [OF w] a(3) by auto
  then show "state_items (canonicalJSON reencode) u \<union> state_items (canonicalJSON reencode) (wr_next q) \<subseteq>
      state_items (canonicalJSON reencode) m"
    using retry_items a(4) by simp
qed

definition mem_step ::
  "(gostring \<Rightarrow> gostring option) \<Rightarrow> (MemStore, State, write_request) cas_sys \<Rightarrow>
   (MemStore, State, write_request) cas_sys \<Rightarrow> bool" where
  "mem_step reencode = cas_step mem_read (mem_write reencode) ss_commitSHA (\<lambda>q. ss_commitSHA (wr_next q)) []
     (\<lambda>q. hook_keeps (canonicalJSON reencode) (wr_remerge q))"

definition mem_start :: "(MemStore, State, write_request) cas_sys" where
  "mem_start = \<lparr>sy_store = NewMemStore, sy_views = (\<lambda>i. {}), sy_log = []\<rparr>"

text \<open>C12: no interleaving loses an update. Clients of a MemStore read and write in any order, each write
  with any content and under the token of any state the client was ever handed, stale or not, or
  none (its Remerge hook, if it has one, drops no item). Then a statement or an advisory the store once holds is
  still there later, unless a write since then replaced a state that held it, under the token of that very state
  and with a content that leaves it out: no item goes by a race. Every write commits at least what it was
  asked to, and no token is given out twice.\<close>
theorem mem_no_lost_update:
  assumes "(mem_step reencode)\<^sup>*\<^sup>* mem_start s" and "(mem_step reencode)\<^sup>*\<^sup>* s t"
    and "mem_read (sy_store s) = Some u" and "e \<in> state_items (canonicalJSON reencode) u"
  shows "(\<exists>u'. mem_read (sy_store t) = Some u' \<and>
      (e \<in> state_items (canonicalJSON reencode) u' \<or>
       list_ex (left_out (state_items (canonicalJSON reencode))
           (\<lambda>q. state_items (canonicalJSON reencode) (wr_next q)) e)
         (drop (length (sy_log s)) (sy_log t)))) \<and>
    list_all (\<lambda>en. state_items (canonicalJSON reencode) (wr_next (ce_req en)) \<subseteq>
      state_items (canonicalJSON reencode) (ce_after en)) (sy_log t) \<and>
    distinct (map (\<lambda>en. ss_commitSHA (ce_after en)) (sy_log t)) \<and> mem_ok (sy_store t)"
proof -
  have "mem.sys_ok reencode mem_start"
    by (simp add: mem.sys_ok_def mem.log_ok_def mem_start_def NewMemStore_def mem_ok_def)
  then have ok: "mem.sys_ok reencode s" "mem.sys_ok reencode t"
    using mem.steps_ok assms(1,2) unfolding mem_step_def by blast+
  obtain new u' where "sy_log t = sy_log s @ new" "mem_read (sy_store t) = Some u'"
    "e \<in> state_items (canonicalJSON reencode) u' \<or>
       list_ex (left_out (state_items (canonicalJSON reencode))
           (\<lambda>q. state_items (canonicalJSON reencode) (wr_next q)) e) new"
    using mem.nothing_lost [OF assms(2) [unfolded mem_step_def] ok(1) assms(3,4)] by blast
  then show ?thesis using ok(2) by (simp add: mem.sys_ok_def mem.log_ok_def list_all_iff)
qed

definition sample_state :: "gostring list \<Rightarrow> State" where
  "sample_state entries = \<lparr>ss_report = None, ss_sbom = empty_sbom, ss_cursor = ''c'', ss_vexLog = entries,
     ss_revokeCount = 0, ss_depFetch = None, ss_commitSHA = []\<rparr>"

definition sample_write :: "gostring list \<Rightarrow> write_request" where
  "sample_write entries = \<lparr>wr_next = sample_state entries, wr_remerge = None, wr_now = 1, wr_cancelled = False\<rparr>"

definition after_writes :: "gostring list \<Rightarrow> gostring list \<Rightarrow> (MemStore \<times> State) option" where
  "after_writes a b = (case mem_write (\<lambda>s. Some s) NewMemStore (sample_write a) of
     None \<Rightarrow> None | Some (s, u) \<Rightarrow> mem_write (\<lambda>s. Some s) s (sample_write b))"

text \<open>Two clients that each write without having read: the second write is merged onto the first.\<close>

theorem mem_no_lost_update_witness:
  "\<exists>s u. mem_read s = Some u \<and>
     {Statement ''x'', Statement ''y''} \<subseteq> state_items (canonicalJSON (\<lambda>s. Some s)) u"
proof -
  let ?e = "\<lambda>s :: gostring. Some s"
  obtain s1 u1 where w1: "mem_write ?e NewMemStore (sample_write [''x'']) = Some (s1, u1)"
    by (simp add: mem_write_def NewMemStore_def sample_write_def Let_def)
  have r1: "mem_read s1 = Some u1" "Statement ''x'' \<in> state_items (canonicalJSON ?e) u1"
    using w1 by (auto simp: mem_write_def NewMemStore_def sample_write_def sample_state_def Let_def mem_read_def
        state_items_def canonicalJSON_def)
  have "mem_write ?e s1 (sample_write [''y'']) \<noteq> None"
    using w1 by (auto simp: mem_write_def NewMemStore_def sample_write_def Let_def mergeForRetry_def)
  then obtain s2 u2 where w2: "mem_write ?e s1 (sample_write [''y'']) = Some (s2, u2)" by auto
  have r2: "mem_read s2 = Some u2" using mem_write_cases [OF w2] by (auto simp: mem_read_def)
  let ?e1 = "\<lparr>ce_seen = None, ce_before = mem_read (sy_store mem_start), ce_req = sample_write [''x''], ce_after = u1\<rparr>"
  let ?s1 = "mem_start\<lparr>sy_store := s1, sy_views := (sy_views mem_start)(0 := insert u1 (sy_views mem_start 0)),
    sy_log := sy_log mem_start @ [?e1]\<rparr>"
  let ?e2 = "\<lparr>ce_seen = None, ce_before = mem_read (sy_store ?s1), ce_req = sample_write [''y''], ce_after = u2\<rparr>"
  let ?s2 = "?s1\<lparr>sy_store := s2, sy_views := (sy_views ?s1)(1 := insert u2 (sy_views ?s1 1)),
    sy_log := sy_log ?s1 @ [?e2]\<rparr>"
  have 1: "mem_step ?e mem_start ?s1"
    unfolding mem_step_def
    by (rule cas_write) (use w1 in \<open>simp_all add: mem_start_def sample_write_def sample_state_def hook_keeps_def\<close>)
  have 2: "mem_step ?e ?s1 ?s2"
    unfolding mem_step_def
    by (rule cas_write) (use w2 in \<open>simp_all add: sample_write_def sample_state_def hook_keeps_def\<close>)
  have y: "Statement ''y'' \<in> state_items (canonicalJSON ?e) (wr_next (sample_write [''y'']))"
    by (simp add: state_items_def sample_write_def sample_state_def canonicalJSON_def)
  note kept = mem_no_lost_update [of ?e ?s1 ?s2 u1 "Statement ''x''", OF r_into_rtranclp r_into_rtranclp, OF 1 2]
  have "Statement ''x'' \<in> state_items (canonicalJSON ?e) u2"
    using kept r1 r2 by (simp add: left_out_def mem_start_def)
  moreover have "Statement ''y'' \<in> state_items (canonicalJSON ?e) u2"
    using kept r1 y by (auto simp: mem_start_def)
  ultimately show ?thesis using r2 by blast
qed

section \<open>The retry loop\<close>

lemma committed_items [simp]: "state_items c (committed_state st sha) = state_items c st"
  by (simp add: committed_state_def state_items_def)

lemma write_loop_items:
  assumes "write_loop cas rd expired reencode now hook n w cur = (w', Done s)"
    and "hook_keeps (canonicalJSON reencode) hook"
  shows "state_items (canonicalJSON reencode) cur \<subseteq> state_items (canonicalJSON reencode) s"
  using assms(1)
proof (induction n arbitrary: w cur)
  case (Suc n)
  show ?case
  proof (cases "snd (cas w cur)")
    case (Swapped sha)
    then show ?thesis using Suc.prems by (auto simp: case_prod_beta)
  next
    case GitError
    then show ?thesis using Suc.prems by (auto simp: case_prod_beta)
  next
    case Stale
    let ?w1 = "fst (cas w cur)"
    show ?thesis
    proof (cases "snd (rd ?w1)")
      case (Winner winner)
      then obtain m where m: "mergeForRetry reencode now winner cur hook = Some m"
        "write_loop cas rd expired reencode now hook n (fst (rd ?w1)) m = (w', Done s)"
        using Suc.prems Stale by (auto simp: case_prod_beta split: option.splits if_splits)
      then show ?thesis using Suc.IH [OF m(2)] retry_items [OF m(1) assms(2)] by blast
    next
      case NoRef
      then have "write_loop cas rd expired reencode now hook n (fst (rd ?w1)) (cur\<lparr>ss_commitSHA := []\<rparr>) = (w', Done s)"
        using Suc.prems Stale by (auto simp: case_prod_beta split: if_splits)
      then show ?thesis using Suc.IH by fastforce
    next
      case ReadError
      then show ?thesis using Suc.prems Stale by (auto simp: case_prod_beta)
    qed
  qed
qed simp

text \<open>C13: a write that succeeds after retries still carries what its caller asked for: whatever other writers
  did to the repository between the attempts, every statement and advisory of the state the caller
  handed in is in the state committed.\<close>
theorem retry_keeps_intent:
  assumes "store_Write cas rd expired reencode now hook maxRetries w next = (w', Done s)"
    and "hook_keeps (canonicalJSON reencode) hook"
  shows "state_items (canonicalJSON reencode) next \<subseteq> state_items (canonicalJSON reencode) s"
  by (rule write_loop_items [OF assms(1) [unfolded store_Write_def] assms(2)])

text \<open>A repository whose ref moved once: the first swap is stale, the second succeeds.\<close>

definition moved_once :: "nat \<Rightarrow> State \<Rightarrow> nat \<times> cas_outcome" where
  "moved_once n st = (Suc n, if n = 0 then Stale else Swapped ''sha'')"

theorem retry_keeps_intent_witness:
  "\<exists>w s. store_Write moved_once (\<lambda>w. (w, Winner (sample_state [''x'']))) (\<lambda>w. False) (\<lambda>s. Some s) 1 None 8 0
       (sample_state [''y'']) = (w, Done s) \<and> Statement ''y'' \<in> state_items (canonicalJSON (\<lambda>s. Some s)) s"
proof -
  obtain w s where "store_Write moved_once (\<lambda>w. (w, Winner (sample_state [''x'']))) (\<lambda>w. False) (\<lambda>s. Some s) 1 None 8 0
       (sample_state [''y'']) = (w, Done s)"
    by (simp add: store_Write_def moved_once_def mergeForRetry_def Let_def numeral_eq_Suc)
  moreover from retry_keeps_intent [OF this] have "Statement ''y'' \<in> state_items (canonicalJSON (\<lambda>s. Some s)) s"
    by (simp add: hook_keeps_def state_items_def sample_state_def canonicalJSON_def)
  ultimately show ?thesis by blast
qed

end
