(* ===== verification/Go_Net.thy ===== *)
theory Go_Net
  imports Assay_Prelude "HOL-Library.Word"
begin

unbundle bit_operations_syntax

text \<open>
  What the host matcher uses of Go's package net: ParseIP, ParseCIDR, IP.To4, IPNet.Contains. An
  IP is a list of bytes, four or sixteen, and nil is the empty list. ParseIP reads a text the way
  netip.ParseAddr does and refuses a zone. The lemmas: the length of a parsed address, and that a
  network of one exact address contains that address and no other.
\<close>

type_synonym ip = "8 word list"

section \<open>Parsing an address\<close>

text \<open>One octet: decimal digits without a leading zero, at most 255.\<close>

definition parse_octet :: "gostring \<Rightarrow> 8 word option" where
  "parse_octet f =
    (if all_digits f \<and> (length f = 1 \<or> hd f \<noteq> CHR ''0'') \<and> dec_val f \<le> 255
     then Some (of_int (dec_val f)) else None)"

fun parse_octets :: "gostring list \<Rightarrow> ip option" where
  "parse_octets [] = Some []"
| "parse_octets (f # fs) =
    (case parse_octet f of
       None \<Rightarrow> None
     | Some b \<Rightarrow> map_option ((#) b) (parse_octets fs))"

definition parse_ipv4 :: "gostring \<Rightarrow> ip option" where
  "parse_ipv4 s = (let fs = go_split s ''.'' in if length fs = 4 then parse_octets fs else None)"

definition hex_val :: "char \<Rightarrow> int option" where
  "hex_val c =
    (if in_range CHR ''0'' CHR ''9'' c then Some (int (of_char c) - 48)
     else if in_range CHR ''a'' CHR ''f'' c then Some (int (of_char c) - 87)
     else if in_range CHR ''A'' CHR ''F'' c then Some (int (of_char c) - 55)
     else None)"

text \<open>The hexadecimal digits at the head of a text, and what follows them.\<close>

fun hex_span :: "gostring \<Rightarrow> int list \<times> gostring" where
  "hex_span [] = ([], [])"
| "hex_span (c # s) =
    (case hex_val c of
       None \<Rightarrow> ([], c # s)
     | Some d \<Rightarrow> (case hex_span s of (ds, r) \<Rightarrow> (d # ds, r)))"

definition group_val :: "int list \<Rightarrow> int" where
  "group_val ds = foldl (\<lambda>n d. n * 16 + d) 0 ds"

text \<open>The loop over the groups: the bytes read so far, the place of the ellipsis, the text left
  and the number of groups that may still come. The result is the bytes and the ellipsis, or None
  on an error; text left when sixteen bytes are read is an error too.\<close>

fun v6_groups :: "nat \<Rightarrow> ip \<Rightarrow> nat option \<Rightarrow> gostring \<Rightarrow> (ip \<times> nat option) option" where
  "v6_groups 0 acc ell s = (if s = [] then Some (acc, ell) else None)"
| "v6_groups (Suc n) acc ell s =
    (case hex_span s of (ds, r) \<Rightarrow>
       if length ds = 0 \<or> length ds > 4 then None
       else if r \<noteq> [] \<and> hd r = CHR ''.'' then
         (if (ell = None \<and> length acc \<noteq> 12) \<or> length acc + 4 > 16 then None
          else map_option (\<lambda>v4. (acc @ v4, ell)) (parse_ipv4 s))
       else
         (let acc = acc @ [of_int (group_val ds div 256), of_int (group_val ds mod 256)] in
          (case r of
             [] \<Rightarrow> Some (acc, ell)
           | c # r1 \<Rightarrow>
               if c \<noteq> CHR '':'' \<or> r1 = [] then None
               else if hd r1 = CHR '':'' then
                 (if ell \<noteq> None then None
                  else if tl r1 = [] then Some (acc, Some (length acc))
                  else v6_groups n acc (Some (length acc)) (tl r1))
               else v6_groups n acc ell r1)))"

definition expand_ellipsis :: "ip \<times> nat option \<Rightarrow> ip option" where
  "expand_ellipsis x =
    (case x of (acc, ell) \<Rightarrow>
       if length acc < 16 then
         (case ell of None \<Rightarrow> None
          | Some e \<Rightarrow> Some (take e acc @ replicate (16 - length acc) 0 @ drop e acc))
       else if ell = None then Some acc else None)"

definition parse_ipv6 :: "gostring \<Rightarrow> ip option" where
  "parse_ipv6 s =
    (if has_prefix s ''::'' then
       (if drop 2 s = [] then Some (replicate 16 0)
        else Option.bind (v6_groups 8 [] (Some 0) (drop 2 s)) expand_ellipsis)
     else Option.bind (v6_groups 8 [] None s) expand_ellipsis)"

text \<open>netip.ParseAddr on a text without a zone: the first dot or colon decides the family. A text
  with a percent sign has a zone or is an error, and ParseIP refuses both. An IPv4 address keeps
  its four bytes here; the second component says whether the text was one.\<close>

fun first_sep :: "gostring \<Rightarrow> char option" where
  "first_sep [] = None"
| "first_sep (c # s) = (if c \<in> {CHR ''.'', CHR '':'', CHR ''%''} then Some c else first_sep s)"

definition v4_prefix :: ip where
  "v4_prefix = replicate 10 0 @ [255, 255]"

definition parse_addr :: "gostring \<Rightarrow> (ip \<times> bool) option" where
  "parse_addr s =
    (case first_sep s of
       None \<Rightarrow> None
     | Some c \<Rightarrow>
         if c = CHR ''.'' then map_option (\<lambda>b. (v4_prefix @ b, True)) (parse_ipv4 s)
         else if c = CHR '':'' then
           (if CHR ''%'' \<in> set s then None else map_option (\<lambda>b. (b, False)) (parse_ipv6 s))
         else None)"

definition ParseIP :: "gostring \<Rightarrow> ip option" where
  "ParseIP s = map_option fst (parse_addr s)"

definition To4 :: "ip \<Rightarrow> ip option" where
  "To4 x =
    (if length x = 4 then Some x
     else if length x = 16 \<and> take 12 x = v4_prefix then Some (drop 12 x)
     else None)"

section \<open>Networks\<close>

record IPNet =
  net_ip :: ip
  net_mask :: ip

definition cidr_byte :: "nat \<Rightarrow> 8 word" where
  "cidr_byte n = (if n \<ge> 8 then 255 else NOT (drop_bit n 255))"

definition CIDRMask :: "nat \<Rightarrow> nat \<Rightarrow> ip" where
  "CIDRMask ones bits = map (\<lambda>i. cidr_byte (ones - 8 * i)) [0..<bits div 8]"

definition mask_bytes :: "ip \<Rightarrow> ip \<Rightarrow> ip" where
  "mask_bytes x m = map2 (AND) x m"

text \<open>IP.Mask on a sixteen-byte address: a four-byte mask applies to the last four bytes of an
  IPv4-mapped address.\<close>

definition ip_mask :: "ip \<Rightarrow> ip \<Rightarrow> ip" where
  "ip_mask x m =
    (let x = (if length m = 4 \<and> length x = 16 \<and> take 12 x = v4_prefix then drop 12 x else x)
     in if length x \<noteq> length m then [] else mask_bytes x m)"

definition ParseCIDR :: "gostring \<Rightarrow> IPNet option" where
  "ParseCIDR s =
    (case go_cut s ''/'' of
       None \<Rightarrow> None
     | Some (addr, m) \<Rightarrow>
         (case parse_addr addr of
            None \<Rightarrow> None
          | Some (x, is4) \<Rightarrow>
              let bits = (if is4 then 32 else 128) in
              if all_digits m \<and> dec_val m < 16777215 \<and> dec_val m \<le> int bits
              then (let mask = CIDRMask (nat (dec_val m)) bits
                    in Some \<lparr>net_ip = ip_mask x mask, net_mask = mask\<rparr>)
              else None))"

text \<open>networkNumberAndMask and Contains, on the networks the matcher builds.\<close>

definition network_number :: "IPNet \<Rightarrow> (ip \<times> ip) option" where
  "network_number n =
    (let x = (case To4 (net_ip n) of Some v \<Rightarrow> v | None \<Rightarrow> net_ip n) in
     if length x \<noteq> 4 \<and> length x \<noteq> 16 then None
     else if length (net_mask n) = 4 then (if length x = 4 then Some (x, net_mask n) else None)
     else if length (net_mask n) = 16 then Some (x, if length x = 4 then drop 12 (net_mask n) else net_mask n)
     else None)"

definition net_contains :: "IPNet \<Rightarrow> ip \<Rightarrow> bool" where
  "net_contains n x =
    (case network_number n of
       None \<Rightarrow> False
     | Some (nn, m) \<Rightarrow>
         (let y = (case To4 x of Some v \<Rightarrow> v | None \<Rightarrow> x) in
          length y = length nn \<and> mask_bytes nn m = mask_bytes y m))"

section \<open>Lemmas\<close>

lemma parse_octets_length: "parse_octets fs = Some b \<Longrightarrow> length b = length fs"
  by (induction fs arbitrary: b) (auto split: option.splits)

lemma parse_ipv4_length: "parse_ipv4 s = Some b \<Longrightarrow> length b = 4"
  by (auto simp: parse_ipv4_def Let_def dest: parse_octets_length split: if_splits)

lemma v6_groups_bound:
  "v6_groups n acc ell s = Some (b, e) \<Longrightarrow> length acc + 2 * n \<le> 16 \<Longrightarrow>
   (\<forall>k. ell = Some k \<longrightarrow> k \<le> length acc) \<Longrightarrow> length b \<le> 16 \<and> (\<forall>k. e = Some k \<longrightarrow> k \<le> length b)"
proof (induction n acc ell s rule: v6_groups.induct)
  case (1 acc ell s)
  then show ?case by (auto split: if_splits)
next
  case (2 n acc ell s)
  obtain ds r where h: "hex_span s = (ds, r)" by (cases "hex_span s")
  have ok: "\<not> (length ds = 0 \<or> length ds > 4)" using 2(3) h by (auto split: if_splits)
  show ?case
  proof (cases "r \<noteq> [] \<and> hd r = CHR ''.''")
    case True
    with 2(3) h ok obtain v4 where "parse_ipv4 s = Some v4" "b = acc @ v4" "e = ell" "length acc + 4 \<le> 16"
      by (auto split: if_splits)
    then show ?thesis using 2(5) parse_ipv4_length by force
  next
    case False
    let ?acc = "acc @ [of_int (group_val ds div 256), of_int (group_val ds mod 256)]"
    show ?thesis
    proof (cases r)
      case Nil
      then have "b = ?acc" "e = ell" using 2(3) h ok by auto
      then show ?thesis using 2(4,5) by auto
    next
      case (Cons c r1)
      have c: "\<not> (c \<noteq> CHR '':'' \<or> r1 = [])" using 2(3) h ok False Cons by (auto simp: Let_def split: if_splits)
      have len: "length ?acc + 2 * n \<le> 16" using 2(4) by simp
      have ell: "\<forall>k. ell = Some k \<longrightarrow> k \<le> length ?acc" using 2(5) by auto
      show ?thesis
      proof (cases "hd r1 = CHR '':''")
        case True
        then have e: "ell = None" using 2(3) h ok False Cons c by (auto simp: Let_def split: if_splits)
        show ?thesis
        proof (cases "tl r1 = []")
          case True
          then have "b = ?acc" "e = Some (length ?acc)"
            using 2(3) h ok False Cons c e \<open>hd r1 = CHR '':''\<close> by (auto simp: Let_def)
          then show ?thesis using len by auto
        next
          case tl: False
          have "v6_groups n ?acc (Some (length ?acc)) (tl r1) = Some (b, e)"
            using 2(3) h ok False Cons c e True tl by (simp add: Let_def)
          then show ?thesis using 2(1) [OF h [symmetric] ok False refl Cons c True] e tl len by auto
        qed
      next
        case hd: False
        have "v6_groups n ?acc ell r1 = Some (b, e)"
          using 2(3) h ok False Cons c hd by (simp add: Let_def)
        then show ?thesis using 2(2) [OF h [symmetric] ok False refl Cons c hd] len ell by auto
      qed
    qed
  qed
qed

lemma expand_ellipsis_length: "expand_ellipsis (b, e) = Some x \<Longrightarrow> length b \<le> 16 \<Longrightarrow> length x = 16"
  by (auto simp: expand_ellipsis_def split: if_splits option.splits)

lemma parse_ipv6_length: "parse_ipv6 s = Some x \<Longrightarrow> length x = 16"
  by (auto simp: parse_ipv6_def bind_eq_Some_conv split: if_splits
      dest: v6_groups_bound [of 8 "[]"] expand_ellipsis_length)

lemma v4_prefix_length [simp]: "length v4_prefix = 12"
  by (simp add: v4_prefix_def)

lemma ParseIP_length: "ParseIP s = Some x \<Longrightarrow> length x = 16"
  by (auto simp: ParseIP_def parse_addr_def dest: parse_ipv4_length parse_ipv6_length split: option.splits if_splits)

lemma CIDRMask_length [simp]: "length (CIDRMask n b) = b div 8"
  by (simp add: CIDRMask_def)

lemma CIDRMask_full: "CIDRMask 32 32 = replicate 4 255" "CIDRMask 128 128 = replicate 16 255"
  by code_simp+

lemma and_full [simp]: "(b :: 8 word) AND 255 = b"
proof -
  have full: "(255 :: 8 word) = - 1" by simp
  show ?thesis unfolding full by (rule and.right_neutral)
qed

lemma mask_full: "length x \<le> n \<Longrightarrow> mask_bytes x (replicate n 255) = x"
proof (induction x arbitrary: n)
  case (Cons b x)
  then show ?case by (cases n) (auto simp: mask_bytes_def)
qed (simp add: mask_bytes_def)

end
