(* ===== verification/Hostmatch.thy ===== *)
theory Hostmatch
  imports Go_Net "HOL-Library.AList"
begin

text \<open>
  The host allowlist of src/hostmatch/matcher.go: patterns compiled into a trie over reversed
  labels and a list of networks, and the test of a host. A trie node is a datatype, so the writes
  through a pointer during New return the updated tree; the children are an association list. An
  error is a constructor of its own, without the text of the message. The lemmas: the trie accepts
  exactly the hosts some inserted pattern matches label by label, so the compiled matcher is the
  plain reading of the pattern list, and a wildcard never reaches the last two labels.
\<close>

section \<open>The trie\<close>

datatype node = Node (node_exact: "(gostring \<times> node) list") (node_wild: "node option") (node_terminal: bool)

definition newNode :: node where
  "newNode = Node [] None False"

fun node_match :: "node \<Rightarrow> gostring list \<Rightarrow> bool" where
  "node_match (Node ex w t) [] = t"
| "node_match (Node ex w t) (head # rest) =
    (if (case map_of ex head of Some c \<Rightarrow> node_match c rest | None \<Rightarrow> False) then True
     else (case w of Some v \<Rightarrow> node_match v rest | None \<Rightarrow> False))"

text \<open>The insertion loop, from the apex label on.\<close>

fun insert_labels :: "gostring list \<Rightarrow> node \<Rightarrow> node" where
  "insert_labels [] (Node ex w t) = Node ex w True"
| "insert_labels (l # ls) (Node ex w t) =
    (if l = ''*'' then Node ex (Some (insert_labels ls (case w of None \<Rightarrow> newNode | Some v \<Rightarrow> v))) t
     else Node (AList.update l (insert_labels ls (case map_of ex l of None \<Rightarrow> newNode | Some c \<Rightarrow> c)) ex) w t)"

section \<open>Labels and patterns\<close>

definition ldh_byte :: "char \<Rightarrow> bool" where
  "ldh_byte c = (in_range CHR ''a'' CHR ''z'' c \<or> in_range CHR ''0'' CHR ''9'' c \<or> c = CHR ''-'')"

definition validLabel :: "gostring \<Rightarrow> bool" where
  "validLabel l =
    (if length l = 0 then False
     else if length l > 63 then False
     else if \<not> list_all ldh_byte l then False
     else \<not> (hd l = CHR ''-'' \<or> last l = CHR ''-''))"

text \<open>The validation loop of insertName: the number of labels, the index, the wildcards so far.\<close>

fun check_labels :: "nat \<Rightarrow> nat \<Rightarrow> nat \<Rightarrow> gostring list \<Rightarrow> bool" where
  "check_labels n i wildCount [] = True"
| "check_labels n i wildCount (l # ls) =
    (if l = ''*'' then
       (if wildCount + 1 > 1 then False
        else if int n - 1 - int i < 2 then False
        else check_labels n (i + 1) (wildCount + 1) ls)
     else if go_contains l ''*'' then False
     else if \<not> validLabel l then False
     else check_labels n (i + 1) wildCount ls)"

definition host_labels :: "gostring \<Rightarrow> gostring list" where
  "host_labels s = go_split (to_lower s) ''.''"

definition insertName :: "gostring \<Rightarrow> node \<Rightarrow> node option" where
  "insertName p root =
    (let labels = host_labels p in
     if check_labels (length labels) 0 0 labels then Some (insert_labels (rev labels) root) else None)"

definition exactIPNet :: "ip \<Rightarrow> IPNet" where
  "exactIPNet x =
    (case To4 x of
       Some v4 \<Rightarrow> \<lparr>net_ip = v4, net_mask = CIDRMask 32 32\<rparr>
     | None \<Rightarrow> \<lparr>net_ip = x, net_mask = CIDRMask 128 128\<rparr>)"

section \<open>Compiling and matching\<close>

record Matcher =
  mt_root :: node
  mt_ipNets :: "IPNet list"

datatype MatchError = EmptyPattern | BadCIDR gostring | BadName gostring | ErrMalformedHost

fun New_from :: "Matcher \<Rightarrow> gostring list \<Rightarrow> MatchError + Matcher" where
  "New_from m [] = Inr m"
| "New_from m (raw # ps) =
    (let p = trim_space raw in
     if p = [] then Inl EmptyPattern
     else if go_contains p ''/'' then
       (case ParseCIDR p of
          None \<Rightarrow> Inl (BadCIDR p)
        | Some n \<Rightarrow> New_from (m\<lparr>mt_ipNets := mt_ipNets m @ [n]\<rparr>) ps)
     else
       (case ParseIP p of
          Some x \<Rightarrow> New_from (m\<lparr>mt_ipNets := mt_ipNets m @ [exactIPNet x]\<rparr>) ps
        | None \<Rightarrow>
            (case insertName p (mt_root m) of
               None \<Rightarrow> Inl (BadName p)
             | Some r \<Rightarrow> New_from (m\<lparr>mt_root := r\<rparr>) ps)))"

definition New :: "gostring list \<Rightarrow> MatchError + Matcher" where
  "New ps = New_from \<lparr>mt_root = newNode, mt_ipNets = []\<rparr> ps"

definition anyContains :: "Matcher \<Rightarrow> ip \<Rightarrow> bool" where
  "anyContains m x = list_ex (\<lambda>n. net_contains n x) (mt_ipNets m)"

definition Allows :: "Matcher \<Rightarrow> gostring \<Rightarrow> MatchError + bool" where
  "Allows m host =
    (if host = [] then Inl ErrMalformedHost
     else if go_contains host ''/'' then Inl ErrMalformedHost
     else if go_contains host ''%'' then Inl ErrMalformedHost
     else if list_ex (\<lambda>c. c \<in> {CHR ''['', CHR '']''}) host then Inl ErrMalformedHost
     else (case ParseIP host of
             Some x \<Rightarrow> Inr (anyContains m x)
           | None \<Rightarrow>
               (let labels = host_labels host in
                if \<not> list_all (\<lambda>l. l \<noteq> ''*'' \<and> validLabel l) labels then Inl ErrMalformedHost
                else Inr (node_match (mt_root m) (rev labels)))))"

section \<open>The plain reading of a pattern list\<close>

definition label_match :: "gostring \<Rightarrow> gostring \<Rightarrow> bool" where
  "label_match p h = (p = ''*'' \<or> p = h)"

definition pattern_net :: "gostring \<Rightarrow> IPNet option" where
  "pattern_net raw =
    (let p = trim_space raw in
     if go_contains p ''/'' then ParseCIDR p else map_option exactIPNet (ParseIP p))"

definition pattern_labels :: "gostring \<Rightarrow> gostring list" where
  "pattern_labels raw = host_labels (trim_space raw)"

definition malformed_host :: "gostring \<Rightarrow> bool" where
  "malformed_host h =
    (h = [] \<or> go_contains h ''/'' \<or> go_contains h ''%'' \<or> CHR ''['' \<in> set h \<or> CHR '']'' \<in> set h \<or>
     (ParseIP h = None \<and> \<not> list_all (\<lambda>l. l \<noteq> ''*'' \<and> validLabel l) (host_labels h)))"

definition admits :: "gostring \<Rightarrow> gostring \<Rightarrow> bool" where
  "admits p h =
    (case ParseIP h of
       Some x \<Rightarrow> (case pattern_net p of Some n \<Rightarrow> net_contains n x | None \<Rightarrow> False)
     | None \<Rightarrow> pattern_net p = None \<and> list_all2 label_match (pattern_labels p) (host_labels h))"

definition allows_spec :: "gostring list \<Rightarrow> gostring \<Rightarrow> MatchError + bool" where
  "allows_spec ps h = (if malformed_host h then Inl ErrMalformedHost else Inr (list_ex (\<lambda>p. admits p h) ps))"

section \<open>Lemmas\<close>

lemma node_match_new [simp]: "\<not> node_match newNode hs"
  by (cases hs) (simp_all add: newNode_def)

lemma match_insert: "node_match (insert_labels ls n) hs = (node_match n hs \<or> list_all2 label_match ls hs)"
proof (induction ls arbitrary: n hs)
  case Nil
  then show ?case by (cases n; cases hs) auto
next
  case (Cons l ls)
  obtain ex w t where n: "n = Node ex w t" by (cases n)
  show ?case
  proof (cases hs)
    case Nil
    then show ?thesis by (simp add: n)
  next
    case h: (Cons h r)
    show ?thesis
      by (cases "l = ''*''"; cases w; cases "map_of ex h"; cases "h = l")
        (auto simp: n h Cons.IH label_match_def update_conv' split: option.splits)
  qed
qed

text \<open>What New keeps while it reads the patterns: the trie and the networks answer for the
  patterns read so far.\<close>

definition reads :: "Matcher \<Rightarrow> gostring list \<Rightarrow> bool" where
  "reads m ps =
    ((\<forall>hs. node_match (mt_root m) hs =
       (\<exists>p\<in>set ps. pattern_net p = None \<and> list_all2 label_match (rev (pattern_labels p)) hs)) \<and>
     mt_ipNets m = List.map_filter pattern_net ps)"

definition wild_checked :: "gostring \<Rightarrow> bool" where
  "wild_checked p = (pattern_net p = None \<longrightarrow>
     check_labels (length (pattern_labels p)) 0 0 (pattern_labels p))"

lemma map_filter_snoc:
  "List.map_filter f (xs @ [x]) = List.map_filter f xs @ (case f x of None \<Rightarrow> [] | Some y \<Rightarrow> [y])"
  by (induction xs) (auto simp: List.map_filter_def split: option.splits)

lemma reads_net: "reads m qs \<Longrightarrow> pattern_net p = Some n \<Longrightarrow> reads (m\<lparr>mt_ipNets := mt_ipNets m @ [n]\<rparr>) (qs @ [p])"
  unfolding reads_def map_filter_snoc by auto

lemma reads_name:
  "reads m qs \<Longrightarrow> pattern_net p = None \<Longrightarrow> insertName (trim_space p) (mt_root m) = Some r \<Longrightarrow>
   reads (m\<lparr>mt_root := r\<rparr>) (qs @ [p])"
  unfolding reads_def map_filter_snoc insertName_def Let_def pattern_labels_def
  by (auto simp: match_insert split: if_splits)

lemma New_from_reads:
  "New_from m ps = Inr m' \<Longrightarrow> reads m qs \<Longrightarrow> reads m' (qs @ ps) \<and> list_all wild_checked ps"
proof (induction m ps arbitrary: qs rule: New_from.induct)
  case (1 m)
  then show ?case by simp
next
  case (2 m raw ps)
  let ?p = "trim_space raw"
  have ne: "?p \<noteq> []" using 2(4) by (auto simp: Let_def)
  show ?case
  proof (cases "go_contains ?p ''/''")
    case True
    then obtain n where n: "ParseCIDR ?p = Some n" and r: "New_from (m\<lparr>mt_ipNets := mt_ipNets m @ [n]\<rparr>) ps = Inr m'"
      using 2(4) ne by (auto simp: Let_def split: option.splits)
    have pn: "pattern_net raw = Some n" using True n by (simp add: pattern_net_def Let_def)
    show ?thesis using 2(1) [OF refl ne True n r reads_net [OF 2(5) pn]] pn by (simp add: wild_checked_def)
  next
    case name: False
    show ?thesis
    proof (cases "ParseIP ?p")
      case (Some x)
      then have r: "New_from (m\<lparr>mt_ipNets := mt_ipNets m @ [exactIPNet x]\<rparr>) ps = Inr m'"
        using 2(4) ne name by (simp add: Let_def)
      have pn: "pattern_net raw = Some (exactIPNet x)" using name Some by (simp add: pattern_net_def Let_def)
      show ?thesis using 2(3) [OF refl ne name Some r reads_net [OF 2(5) pn]] pn by (simp add: wild_checked_def)
    next
      case None
      then obtain r where i: "insertName ?p (mt_root m) = Some r" and c: "New_from (m\<lparr>mt_root := r\<rparr>) ps = Inr m'"
        using 2(4) ne name by (auto simp: Let_def split: option.splits)
      have pn: "pattern_net raw = None" using name None by (simp add: pattern_net_def Let_def)
      have "wild_checked raw"
        using i pn by (auto simp: wild_checked_def insertName_def Let_def pattern_labels_def split: if_splits)
      then show ?thesis using 2(2) [OF refl ne name None i c reads_name [OF 2(5) pn i]] by simp
    qed
  qed
qed

lemma New_reads: "New ps = Inr m \<Longrightarrow> reads m ps \<and> list_all wild_checked ps"
  using New_from_reads [of "\<lparr>mt_root = newNode, mt_ipNets = []\<rparr>" ps m "[]"]
  by (simp add: New_def reads_def List.map_filter_def)

lemma list_ex_map_filter:
  "list_ex P (List.map_filter f xs) = list_ex (\<lambda>x. case f x of Some y \<Rightarrow> P y | None \<Rightarrow> False) xs"
  by (induction xs) (auto simp: List.map_filter_def split: option.splits)

lemma reads_Allows:
  assumes "reads m ps"
  shows "Allows m h = allows_spec ps h"
proof -
  have br: "list_ex (\<lambda>c. c \<in> {CHR ''['', CHR '']''}) h = (CHR ''['' \<in> set h \<or> CHR '']'' \<in> set h)"
    by (auto simp: list_ex_iff)
  have nets: "anyContains m x = list_ex (\<lambda>p. case pattern_net p of Some n \<Rightarrow> net_contains n x | None \<Rightarrow> False) ps" for x
    using assms by (simp add: anyContains_def reads_def list_ex_map_filter)
  have names: "node_match (mt_root m) (rev ls) =
    list_ex (\<lambda>p. pattern_net p = None \<and> list_all2 label_match (pattern_labels p) ls) ps" for ls
    using assms by (simp add: reads_def list_ex_iff list_all2_rev)
  show ?thesis
    unfolding Allows_def allows_spec_def malformed_host_def admits_def br nets names Let_def
    by (cases "ParseIP h") auto
qed

lemma check_labels_wild:
  "check_labels n i w ls \<Longrightarrow> k < length ls \<Longrightarrow> ls ! k = ''*'' \<Longrightarrow> i + k + 3 \<le> n"
  by (induction n i w ls arbitrary: k rule: check_labels.induct)
    (auto simp: nth_Cons split: if_splits nat.splits)

lemma check_labels_one_wild: "check_labels n i w ls \<Longrightarrow> w \<le> 1 \<Longrightarrow> count_list ls ''*'' + w \<le> 1"
  by (induction n i w ls rule: check_labels.induct) (auto split: if_splits)

lemma last_two_fixed:
  assumes c: "check_labels (length pl) 0 0 pl" and m: "list_all2 label_match pl hl"
  shows "take 2 (rev pl) = take 2 (rev hl)"
proof (rule nth_equalityI)
  have len: "length pl = length hl" using m by (rule list_all2_lengthD)
  then show "length (take 2 (rev pl)) = length (take 2 (rev hl))" by simp
  fix i assume "i < length (take 2 (rev pl))"
  then have i: "i < 2" "i < length pl" by auto
  let ?k = "length pl - 1 - i"
  have "?k < length pl" using i by simp
  then have "pl ! ?k \<noteq> ''*''" using check_labels_wild [OF c, of ?k] i by linarith
  moreover have "label_match (pl ! ?k) (hl ! ?k)" using m i by (auto simp: list_all2_conv_all_nth)
  ultimately have "pl ! ?k = hl ! ?k" by (simp add: label_match_def)
  then show "take 2 (rev pl) ! i = take 2 (rev hl) ! i" using i len by (simp add: rev_nth)
qed

section \<open>Properties\<close>

text \<open>C38: New and Allows together are the plain reading of the pattern list: when the list
  compiles, a host is refused as malformed, or admitted exactly when some network of the list
  holds it (an IP) or some name of the list matches it label by label (a name). The trie, its
  order of trial and its backtracking change nothing.\<close>
theorem matcher_refines_patterns:
  assumes "New ps = Inr m"
  shows "Allows m host = allows_spec ps host"
  using New_reads [OF assms] by (blast intro: reads_Allows)


definition sample_patterns :: "gostring list" where
  "sample_patterns = [''*.ghe.com'', ''10.0.0.0/8'']"

definition sample_matcher :: Matcher where
  "sample_matcher = (case New sample_patterns of Inr m \<Rightarrow> m | Inl e \<Rightarrow> \<lparr>mt_root = newNode, mt_ipNets = []\<rparr>)"

lemma sample_New: "New sample_patterns = Inr sample_matcher"
  by code_simp

lemma sample_hosts:
  "Allows sample_matcher ''acme.ghe.com'' = Inr True" "ParseIP ''acme.ghe.com'' = None"
  "Allows sample_matcher ''::ffff:10.0.0.9'' = Inr True"
  by code_simp+

theorem matcher_refines_patterns_witness:
  "New sample_patterns = Inr sample_matcher \<and>
   Allows sample_matcher ''::ffff:10.0.0.9'' = allows_spec sample_patterns ''::ffff:10.0.0.9''"
  by (rule conjI [OF sample_New matcher_refines_patterns [OF sample_New]])

text \<open>A wildcard stays inside its label: an admitted name has as many labels as the pattern
  that admits it, agrees with it in the last two and differs from it in one label at most, so no
  pattern admits a host under another registrable domain.\<close>
theorem wildcard_one_label:
  assumes "New ps = Inr m" and "Allows m host = Inr True" and "ParseIP host = None"
  shows "\<exists>p\<in>set ps. length (pattern_labels p) = length (host_labels host) \<and>
     take 2 (rev (pattern_labels p)) = take 2 (rev (host_labels host)) \<and>
     count_list (pattern_labels p) ''*'' \<le> 1 \<and> list_all2 label_match (pattern_labels p) (host_labels host)"
proof -
  have r: "reads m ps" and w: "list_all wild_checked ps" using New_reads [OF assms(1)] by auto
  have "allows_spec ps host = Inr True" using reads_Allows [OF r] assms(2) by simp
  then obtain p where p: "p \<in> set ps" "admits p host"
    by (auto simp: allows_spec_def list_ex_iff split: if_splits)
  then have n: "pattern_net p = None" and m: "list_all2 label_match (pattern_labels p) (host_labels host)"
    using assms(3) by (auto simp: admits_def)
  have c: "check_labels (length (pattern_labels p)) 0 0 (pattern_labels p)"
    using w p n by (auto simp: list_all_iff wild_checked_def)
  show ?thesis
    using p m last_two_fixed [OF c m] check_labels_one_wild [OF c] list_all2_lengthD [OF m] by auto
qed

theorem wildcard_one_label_witness:
  "\<exists>p\<in>set sample_patterns. length (pattern_labels p) = length (host_labels ''acme.ghe.com'') \<and>
     take 2 (rev (pattern_labels p)) = take 2 (rev (host_labels ''acme.ghe.com'')) \<and>
     count_list (pattern_labels p) ''*'' \<le> 1 \<and>
     list_all2 label_match (pattern_labels p) (host_labels ''acme.ghe.com'')"
  by (rule wildcard_one_label [OF sample_New sample_hosts(1,2)])

end
