(* ===== verification/Trigger_Grounds.thy ===== *)
theory Trigger_Grounds
  imports Disqualification Report_Build
begin

text \<open>
  The positive grounds of a not_exploitable verdict: src/trigger/grounds.go, with the artifacts it
  reads. The artifacts of an assessment are a record: \<open>rs_case\<close> holds those of theory
  Disqualification; what the trigger reads besides from the inventory and the advisory is in
  \<open>rs_limits\<close> and \<open>rs_claims\<close>, read only when that artifact decodes. A leg of the reachability
  artifact is None when it does not decode. The build's module list \<open>goModules\<close> is None for Go's
  nil. Names are compared on ASCII text, where strings.ToLower and EqualFold are those of the
  prelude. The lemmas: the order of the switch never changes what a ground claims, and every ground
  speaks for the admitted package only.
\<close>

section \<open>What the analyzers report\<close>

record ScopedReason =
  sp_reason :: gostring
  sp_package :: gostring
  sp_path :: gostring
  sp_targets :: "gostring list"

record Partiality =
  pa_complete :: bool
  pa_reasons :: "gostring list"
  pa_scoped :: "ScopedReason list"

record ModuleSearch =
  ms_searched :: "gostring list"
  ms_declaring :: "gostring list"

text \<open>The maps Origins and Matched are association lists; a key that is absent reads as empty.\<close>

record SymbolResolution =
  sr_partiality :: Partiality
  sr_origins :: "(gostring \<times> gostring) list"
  sr_matched :: "(gostring \<times> gostring list) list"
  sr_moduleSearch :: "ModuleSearch option"

text \<open>A symbol is its SCIP id: the modelled code reads no other field of it.\<close>

record ReachPath =
  pt_sink :: gostring
  pt_ingress :: gostring
  pt_trace :: "gostring list"

record Refutation =
  ru_basis :: gostring
  ru_package :: gostring
  ru_detail :: gostring
  ru_assumptions :: "gostring list"

record ReachabilityResult =
  re_paths :: "ReachPath list"
  re_scanToolchain :: gostring
  re_searched :: "gostring list"
  re_refutation :: "Refutation option"
  re_libraryEntrypoints :: "ResolvedLibraryEntrypoints option"

record CallEdge =
  ce_caller :: gostring
  ce_callee :: gostring

record CallGraph =
  cg_partiality :: Partiality
  cg_edges :: "CallEdge list"

record ReachabilityRecord =
  rr_result :: "ReachabilityResult option"
  rr_callGraph :: "CallGraph option"
  rr_toolchainScan :: "ToolchainScan option"

record Ingress =
  ig_kind :: gostring
  ig_symbol :: gostring
  ig_selector :: gostring

record MaliciousPresenceResult =
  mp_present :: bool
  mp_matchedVersion :: gostring

record inventoryFacts =
  il_partialityFlags :: "gostring list"
  il_annotations :: "Annotation list"

record guardSufficiencyVariant =
  gv_symbol :: gostring
  gv_version :: gostring
  gv_forBypass :: gostring
  gv_sufficient :: bool

record advisoryClaims =
  ac_aliases :: "gostring list"
  ac_guards :: "gostring list"
  ac_symbolProvenance :: gostring
  ac_builtIn :: bool
  ac_triggerCondition :: gostring
  ac_prerequisite :: gostring
  ac_guardSufficiency :: "guardSufficiencyVariant list"

record ExposureFootprint =
  fp_partialityFlags :: "gostring list"
  fp_scopedPartiality :: "ScopedReason list"

text \<open>The ingress artifact decodes to its ingresses, or to the entrypoint of the stub payload. A
  candidate pair is None when its payload does not decode, else whether it names an ingress.\<close>

record IngressArtifact =
  ia_ingresses :: "Ingress list"
  ia_entrypoint :: gostring

record run_store =
  rs_case :: case_store
  rs_limits :: inventoryFacts
  rs_claims :: advisoryClaims
  rs_malicious :: "MaliciousPresenceResult query"
  rs_symbols :: "SymbolResolution query"
  rs_reachability :: "ReachabilityRecord query"
  rs_ingress :: "IngressArtifact query"
  rs_taint :: "ReachPath list query"
  rs_pairs :: "bool option list option"
  rs_footprint :: "ExposureFootprint query"

definition zero_reach :: ReachabilityResult where
  "zero_reach = \<lparr>re_paths = [], re_scanToolchain = [], re_searched = [], re_refutation = None,
     re_libraryEntrypoints = None\<rparr>"

definition reachabilityResult :: "run_store \<Rightarrow> ReachabilityResult option" where
  "reachabilityResult st =
    (case rs_reachability st of Payload r \<Rightarrow> rr_result r | _ \<Rightarrow> None)"

definition reach_of :: "run_store \<Rightarrow> ReachabilityResult" where
  "reach_of st = (case reachabilityResult st of None \<Rightarrow> zero_reach | Some r \<Rightarrow> r)"

definition zero_symbols :: SymbolResolution where
  "zero_symbols = \<lparr>sr_partiality = \<lparr>pa_complete = False, pa_reasons = [], pa_scoped = []\<rparr>, sr_origins = [],
     sr_matched = [], sr_moduleSearch = None\<rparr>"

text \<open>None is the error result.\<close>

definition VulnerableSymbols :: "run_store \<Rightarrow> SymbolResolution option" where
  "VulnerableSymbols st =
    (case rs_symbols st of
       QueryError \<Rightarrow> None
     | NoArtifact \<Rightarrow> Some zero_symbols
     | BadPayload \<Rightarrow> None
     | Payload r \<Rightarrow> Some r)"

definition refutationAssumptions :: "ReachabilityResult \<Rightarrow> gostring list" where
  "refutationAssumptions r = (case re_refutation r of None \<Rightarrow> [] | Some u \<Rightarrow> ru_assumptions u)"

definition libraryEntrypoints :: "run_store \<Rightarrow> ResolvedLibraryEntrypoints list" where
  "libraryEntrypoints st = (case re_libraryEntrypoints (reach_of st) of None \<Rightarrow> [] | Some l \<Rightarrow> [l])"

section \<open>Package keys\<close>

record pkgKey =
  pk_typ :: gostring
  pk_name :: gostring

text \<open>url.PathUnescape; None is its error.\<close>

definition unhex :: "char \<Rightarrow> nat option" where
  "unhex c =
    (if in_range CHR ''0'' CHR ''9'' c then Some (of_char c - 48)
     else if in_range CHR ''a'' CHR ''f'' c then Some (of_char c - 87)
     else if in_range CHR ''A'' CHR ''F'' c then Some (of_char c - 55)
     else None)"

fun PathUnescape :: "gostring \<Rightarrow> gostring option" where
  "PathUnescape [] = Some []"
| "PathUnescape (c # s) =
    (if c \<noteq> CHR ''%'' then map_option ((#) c) (PathUnescape s)
     else (case s of
             a # b # r \<Rightarrow>
               (case (unhex a, unhex b) of
                  (Some x, Some y) \<Rightarrow> map_option ((#) (char_of (16 * x + y))) (PathUnescape r)
                | _ \<Rightarrow> None)
           | _ \<Rightarrow> None))"

definition pep503_sep :: "char \<Rightarrow> bool" where
  "pep503_sep c = (c = CHR ''-'' \<or> c = CHR ''_'' \<or> c = CHR ''.'')"

text \<open>Each run of separators becomes one hyphen; the flag says whether one was just written.\<close>

fun pep503 :: "bool \<Rightarrow> gostring \<Rightarrow> gostring" where
  "pep503 inrun [] = []"
| "pep503 inrun (c # s) =
    (if pep503_sep c then (if inrun then pep503 True s else CHR ''-'' # pep503 True s)
     else c # pep503 False s)"

definition normalizePackageName :: "gostring \<Rightarrow> gostring \<Rightarrow> gostring" where
  "normalizePackageName typ name =
    (if typ = ''pypi'' then pep503 False (to_lower name)
     else if typ = ''nuget'' then to_lower name
     else name)"

text \<open>The part before the first occurrence of a separator, all of it without one.\<close>

definition before_first :: "gostring \<Rightarrow> gostring \<Rightarrow> gostring" where
  "before_first s t = (case go_cut s t of None \<Rightarrow> s | Some (a, b) \<Rightarrow> a)"

definition purlKey :: "gostring \<Rightarrow> pkgKey option" where
  "purlKey purl =
    (if \<not> has_prefix purl ''pkg:'' then None
     else
       (let rest = before_first (before_first (drop 4 purl) ''#'') ''?'' in
        case go_cut rest ''/'' of
          None \<Rightarrow> None
        | Some (typ, path) \<Rightarrow>
            if typ = [] \<or> path = [] then None
            else
              (let k = last_index path CHR ''@'';
                   p1 = (if k > last_index path CHR ''/'' then take (nat k) path else path);
                   p2 = (case PathUnescape p1 of Some d \<Rightarrow> d | None \<Rightarrow> p1);
                   typ = to_lower typ;
                   p3 = (if typ = ''maven''
                         then (case go_cut p2 ''/'' of Some (g, a) \<Rightarrow> g @ '':'' @ a | None \<Rightarrow> p2) else p2);
                   name = normalizePackageName typ p3
               in if name = [] then None else Some \<lparr>pk_typ = typ, pk_name = name\<rparr>)))"

definition PackageName :: "gostring \<Rightarrow> (gostring \<times> gostring) option" where
  "PackageName purl = map_option (\<lambda>k. (pk_typ k, pk_name k)) (purlKey purl)"

definition purlTypeFor :: "gostring \<Rightarrow> gostring option" where
  "purlTypeFor e =
    map_of [(''Go'', ''golang''), (''npm'', ''npm''), (''PyPI'', ''pypi''), (''Maven'', ''maven''), (''NuGet'', ''nuget'')] e"

section \<open>The build's modules\<close>

type_synonym goModules = "gostring list option"

definition BuildListGoModGraph :: gostring where "BuildListGoModGraph = ''go mod graph''"

definition goStdlib :: gostring where "goStdlib = ''stdlib''"

definition goModulesOf :: "SBOM \<Rightarrow> PartialityNote list \<Rightarrow> goModules" where
  "goModulesOf sb limits =
    (if sb_goBuildList sb \<noteq> BuildListGoModGraph \<or> sb_goMainModule sb = [] then None
     else if list_ex (\<lambda>n. pn_ecosystem n = [] \<or> pn_ecosystem n = ''Go'') limits then None
     else Some (sb_goMainModule sb # sb_goWorkspaceModules sb @
       concat (map (\<lambda>p. filter (\<lambda>path. path \<noteq> []) [pkg_name p, pkg_replace p])
         (filter (\<lambda>p. pkg_ecosystem p = ''Go'') (sb_packages sb)))))"

definition in_modules :: "goModules \<Rightarrow> gostring \<Rightarrow> bool" where
  "in_modules m p = (case m of None \<Rightarrow> False | Some ms \<Rightarrow> p \<in> set ms)"

lemma last_index_byte_less: "last_index_byte p c = Some i \<Longrightarrow> i < length p"
proof -
  have ib: "index_byte xs c = Some j \<Longrightarrow> j < length xs" for xs j
    by (induction xs c arbitrary: j rule: index_byte.induct) (auto split: if_splits option.splits)
  assume "last_index_byte p c = Some i"
  then obtain j where "index_byte (rev p) c = Some j" "i = length p - 1 - j"
    by (auto simp: last_index_byte_def split: option.splits)
  with ib [of "rev p" j] show ?thesis by simp
qed

text \<open>The loop of holding cuts the path at its last slash.\<close>

function holding :: "goModules \<Rightarrow> gostring \<Rightarrow> gostring" where
  "holding m p =
    (if in_modules m p then p
     else case last_index_byte p CHR ''/'' of None \<Rightarrow> [] | Some i \<Rightarrow> holding m (take i p))"
  by pat_completeness auto
termination by (relation "measure (\<lambda>(m, p). length p)") (auto dest: last_index_byte_less)

declare holding.simps [simp del]

definition holds_fold1 :: "gostring \<Rightarrow> gostring \<Rightarrow> bool" where
  "holds_fold1 path m =
    (length path \<ge> length m \<and> equal_fold (take (length m) path) m \<and>
     (length path = length m \<or> path ! length m = CHR ''/''))"

definition holdsFold :: "goModules \<Rightarrow> gostring \<Rightarrow> bool" where
  "holdsFold m path = (case m of None \<Rightarrow> False | Some ms \<Rightarrow> list_ex (holds_fold1 path) ms)"

definition stdlibRoots :: "gostring list" where
  "stdlibRoots =
    [''archive'', ''bufio'', ''builtin'', ''bytes'', ''cmp'', ''compress'',
     ''container'', ''context'', ''crypto'', ''database'', ''debug'',
     ''embed'', ''encoding'', ''errors'', ''expvar'', ''flag'', ''fmt'',
     ''go'', ''hash'', ''html'', ''image'', ''index'', ''internal'',
     ''io'', ''iter'', ''log'', ''maps'', ''math'', ''mime'', ''net'',
     ''os'', ''path'', ''plugin'', ''reflect'', ''regexp'', ''runtime'',
     ''slices'', ''sort'', ''strconv'', ''strings'', ''structs'', ''sync'',
     ''syscall'', ''testing'', ''text'', ''time'', ''unicode'', ''unique'',
     ''unsafe'', ''weak'']"

definition stdlibPath :: "gostring \<Rightarrow> bool" where
  "stdlibPath path = (before_first path ''/'' \<in> set stdlibRoots)"

definition outsideBuild :: "pkgKey \<Rightarrow> goModules \<Rightarrow> bool" where
  "outsideBuild key mods =
    (if pk_typ key \<noteq> ''golang'' \<or> mods = None then False
     else go_contains (before_first (pk_name key) ''/'') ''.'' \<and> \<not> holdsFold mods (pk_name key))"

definition samePackage :: "pkgKey \<Rightarrow> pkgKey \<Rightarrow> goModules \<Rightarrow> bool" where
  "samePackage key admitted mods =
    (if key = admitted then True
     else if pk_typ key \<noteq> ''golang'' \<or> pk_typ admitted \<noteq> ''golang'' then False
     else if pk_name admitted = goStdlib then stdlibPath (pk_name key)
     else holding mods (pk_name key) = pk_name admitted)"

definition namesOtherPackage :: "gostring list \<Rightarrow> pkgKey \<Rightarrow> goModules \<Rightarrow> bool" where
  "namesOtherPackage purls admitted mods =
    list_ex (\<lambda>p. case purlKey p of None \<Rightarrow> True
      | Some key \<Rightarrow> \<not> (samePackage key admitted mods \<or> outsideBuild key mods)) purls"

section \<open>The gate\<close>

definition inAdmitted :: "gostring \<Rightarrow> pkgKey \<Rightarrow> bool \<Rightarrow> bool" where
  "inAdmitted p admitted isroot = (if p = [] then isroot else purlKey p = Some admitted)"

definition matched_of :: "SymbolResolution \<Rightarrow> gostring \<Rightarrow> gostring list" where
  "matched_of res sy = (case map_of (sr_matched res) sy of None \<Rightarrow> [] | Some l \<Rightarrow> l)"

definition origin_of :: "SymbolResolution \<Rightarrow> gostring \<Rightarrow> gostring" where
  "origin_of res scip = (case map_of (sr_origins res) scip of None \<Rightarrow> [] | Some p \<Rightarrow> p)"

text \<open>The inner loop of searchedInPackage: None is its return of false, else the count.\<close>

fun in_package :: "SymbolResolution \<Rightarrow> gostring list \<Rightarrow> pkgKey \<Rightarrow> bool \<Rightarrow> nat \<Rightarrow> gostring list \<Rightarrow> nat option" where
  "in_package res searched admitted isroot n [] = Some n"
| "in_package res searched admitted isroot n (scip # r) =
    (if \<not> inAdmitted (origin_of res scip) admitted isroot then in_package res searched admitted isroot n r
     else if scip \<notin> set searched then None
     else in_package res searched admitted isroot (n + 1) r)"

fun searchedInPackage ::
  "gostring list \<Rightarrow> gostring list \<Rightarrow> SymbolResolution \<Rightarrow> gostring list \<Rightarrow> pkgKey \<Rightarrow> bool \<Rightarrow> bool" where
  "searchedInPackage [] absent res searched admitted isroot = True"
| "searchedInPackage (sy # syms) absent res searched admitted isroot =
    (if sy \<in> set absent then searchedInPackage syms absent res searched admitted isroot
     else (case in_package res searched admitted isroot 0 (matched_of res sy) of
             None \<Rightarrow> False
           | Some n \<Rightarrow> if n = 0 then False else searchedInPackage syms absent res searched admitted isroot))"

definition PartialReasonAdvisorySymbolUnresolved :: gostring where
  "PartialReasonAdvisorySymbolUnresolved = ''advisory_symbol_unresolved''"

fun unmatched :: "gostring list \<Rightarrow> SymbolResolution \<Rightarrow> gostring list \<Rightarrow> gostring list option" where
  "unmatched conditional res [] = Some []"
| "unmatched conditional res (sy # syms) =
    (if length (matched_of res sy) > 0 then unmatched conditional res syms
     else if sy \<notin> set conditional then None
     else map_option ((#) sy) (unmatched conditional res syms))"

definition targetConditionalAbsent ::
  "gostring list \<Rightarrow> gostring list \<Rightarrow> SymbolResolution \<Rightarrow> gostring list" where
  "targetConditionalAbsent symbols conditional res =
    (if pa_complete (sr_partiality res) \<or> length (pa_scoped (sr_partiality res)) > 0 then []
     else if list_ex (\<lambda>r. r \<noteq> PartialReasonAdvisorySymbolUnresolved) (pa_reasons (sr_partiality res)) then []
     else (case unmatched conditional res symbols of
             None \<Rightarrow> []
           | Some absent \<Rightarrow> if length absent = length symbols then [] else absent))"

definition vettedSymbols :: "run_store \<Rightarrow> bool" where
  "vettedSymbols st =
    (case adv_of (rs_case st) of
       None \<Rightarrow> False
     | Some adv \<Rightarrow>
         (let p = ac_symbolProvenance (rs_claims st) in
          if p = ''osv-declared'' \<or> p = ''curated'' then True
          else if p = [] then ac_builtIn (rs_claims st) else False))"

definition admittedPackage :: "run_store \<Rightarrow> Package option \<Rightarrow> (pkgKey \<times> gostring) option" where
  "admittedPackage st pkg =
    (if ToolchainSubject (rs_case st)
     then Some (\<lparr>pk_typ = ''golang'', pk_name = goStdlib\<rparr>, ''stdlib@'' @ re_scanToolchain (reach_of st))
     else case pkg of
       None \<Rightarrow> None
     | Some p \<Rightarrow>
         if pkg_version p = [] \<or> has_prefix (pkg_partialReason p) PartialReasonSourceUnpinned then None
         else
           (let label = pkg_name p @ ''@'' @ pkg_version p in
            case purlKey (AdvisoryPURL (rs_case st)) of
              Some key \<Rightarrow> Some (key, label)
            | None \<Rightarrow>
                (case purlKey (pkg_purl p) of
                   Some key \<Rightarrow> Some (key, label)
                 | None \<Rightarrow>
                     (case purlTypeFor (pkg_ecosystem p) of
                        None \<Rightarrow> None
                      | Some typ \<Rightarrow>
                          if pkg_name p = [] then None
                          else Some (\<lparr>pk_typ = typ, pk_name = normalizePackageName typ (pkg_name p)\<rparr>, label)))))"

definition RefutationPackageNotLoaded :: gostring where
  "RefutationPackageNotLoaded = ''package_not_loaded''"

record grounds =
  gr_detail :: gostring
  gr_basis :: gostring
  gr_assumptions :: "gostring list"

definition searched_detail :: "gostring list \<Rightarrow> gostring list \<Rightarrow> gostring \<Rightarrow> gostring" where
  "searched_detail symbols absent label =
    (if length absent = 0
     then ''no path from any entry point reaches '' @ go_join symbols '', '' @ '' in '' @ label
     else ''no path from any entry point reaches '' @
       go_join (filter (\<lambda>s. s \<notin> set absent) symbols) '', '' @ '' in '' @ label @
       '', whose build target does not define '' @ go_join absent '', '')"

definition refuted_detail :: "gostring \<Rightarrow> Refutation \<Rightarrow> gostring" where
  "refuted_detail label r =
    (if ru_detail r = [] then label @ '': '' @ ru_basis r
     else label @ '': '' @ ru_detail r @ '' ('' @ ru_basis r @ '')'')"

text \<open>Whether arm A holds, and on which absent symbols.\<close>

definition arm_a :: "run_store \<Rightarrow> pkgKey \<Rightarrow> bool \<Rightarrow> gostring list option" where
  "arm_a st admitted isroot =
    (let symbols = AdvisorySymbols (rs_case st) in
     if length symbols = 0 then None
     else (case VulnerableSymbols st of
             None \<Rightarrow> None
           | Some res \<Rightarrow>
               (let absent = targetConditionalAbsent symbols (AdvisoryTargetConditionalSymbols (rs_case st)) res in
                if searchedInPackage symbols absent res (re_searched (reach_of st)) admitted isroot
                then Some absent else None)))"

definition arm_b :: "run_store \<Rightarrow> pkgKey \<Rightarrow> bool \<Rightarrow> Refutation option" where
  "arm_b st admitted isroot =
    (case re_refutation (reach_of st) of
       None \<Rightarrow> None
     | Some r \<Rightarrow>
         if (ru_basis r \<noteq> RefutationPackageNotLoaded \<or>
             \<not> isroot \<and> AdvisoryListsAffectedPackages (rs_case st)) \<and>
            ru_package r \<noteq> [] \<and> inAdmitted (ru_package r) admitted isroot
         then Some r else None)"

text \<open>Inl is the reason there are no grounds.\<close>

definition notExploitableGrounds :: "run_store \<Rightarrow> Package option \<Rightarrow> goModules \<Rightarrow> gostring + grounds" where
  "notExploitableGrounds st pkg mods =
    (case admittedPackage st pkg of
       None \<Rightarrow> Inl ReasonPackageVersionUnresolved
     | Some (admitted, label) \<Rightarrow>
         (let isroot = (case pkg of None \<Rightarrow> False | Some p \<Rightarrow> pkg_root p);
              reach = reach_of st;
              symbols = AdvisorySymbols (rs_case st)
          in if namesOtherPackage (AdvisoryPackagePURLs (rs_case st)) admitted mods
             then Inl (if length symbols = 0 then ReasonAdvisorySymbolAbsent else ReasonVulnerableSymbolUnresolved)
             else
               (let a = arm_a st admitted isroot;
                    unvetted = (a \<noteq> None \<and> \<not> vettedSymbols st)
                in if a \<noteq> None \<and> vettedSymbols st
                   then Inr \<lparr>gr_detail = searched_detail symbols (the a) label,
                          gr_basis = BasisSymbolUnreachable, gr_assumptions = refutationAssumptions reach\<rparr>
                   else
                     (case arm_b st admitted isroot of
                        Some r \<Rightarrow> Inr \<lparr>gr_detail = refuted_detail label r, gr_basis = BasisSymbolUnreachable,
                                    gr_assumptions = ru_assumptions r\<rparr>
                      | None \<Rightarrow>
                          if unvetted then Inl ReasonAdvisorySymbolsUnvetted
                          else if length symbols = 0 then Inl ReasonAdvisorySymbolAbsent
                          else Inl ReasonVulnerableSymbolUnresolved))))"

text \<open>Inl is the reason, empty when none is given; Inr is the detail.\<close>

definition outsideBuildGrounds :: "run_store \<Rightarrow> Package option \<Rightarrow> goModules \<Rightarrow> gostring + gostring" where
  "outsideBuildGrounds st pkg mods =
    (let symbols = AdvisorySymbols (rs_case st); purls = AdvisoryPackagePURLs (rs_case st) in
     if pkg \<noteq> None \<or> mods = None \<or> length symbols = 0 \<or> length purls = 0 then Inl []
     else
       (case purlKey (hd purls) of
          None \<Rightarrow> Inl []
        | Some key \<Rightarrow>
            if \<not> outsideBuild key mods then Inl []
            else if list_ex (\<lambda>p. purlKey p \<noteq> Some key) (tl purls) then Inl []
            else
              (case VulnerableSymbols st of
                 None \<Rightarrow> Inl []
               | Some res \<Rightarrow>
                   (case sr_moduleSearch res of
                      None \<Rightarrow> Inl []
                    | Some search \<Rightarrow>
                        if length (ms_declaring search) > 0 then Inl []
                        else if list_ex (\<lambda>m. m \<notin> set (ms_searched search)) (the mods) then Inl []
                        else if \<not> vettedSymbols st then Inl ReasonAdvisorySymbolsUnvetted
                        else Inr (''no module in the build holds '' @ pk_name key @ '', and none of the build'' @
                          [CHR 0x27] @ ''s '' @ show_nat (length (remdups (the mods))) @ '' modules declares '' @
                          go_join symbols '', '')))))"

section \<open>What the gate's searches establish\<close>

lemma in_package_spec:
  "in_package res searched admitted isroot n ss =
    (let ins = filter (\<lambda>s. inAdmitted (origin_of res s) admitted isroot) ss in
     if set ins \<subseteq> set searched then Some (n + length ins) else None)"
  by (induction ss arbitrary: n) (auto simp: Let_def)

definition symbol_searched :: "SymbolResolution \<Rightarrow> gostring list \<Rightarrow> pkgKey \<Rightarrow> bool \<Rightarrow> gostring \<Rightarrow> bool" where
  "symbol_searched res searched admitted isroot sy =
    ((\<exists>s\<in>set (matched_of res sy). inAdmitted (origin_of res s) admitted isroot) \<and>
     (\<forall>s\<in>set (matched_of res sy). inAdmitted (origin_of res s) admitted isroot \<longrightarrow> s \<in> set searched))"

lemma searchedInPackage_spec:
  "searchedInPackage symbols absent res searched admitted isroot \<longleftrightarrow>
    (\<forall>sy\<in>set symbols. sy \<in> set absent \<or> symbol_searched res searched admitted isroot sy)"
  by (induction symbols)
    (auto simp: in_package_spec Let_def symbol_searched_def filter_empty_conv subset_iff)

lemma unmatched_spec:
  "unmatched conditional res symbols = Some absent \<Longrightarrow>
    absent = filter (\<lambda>sy. matched_of res sy = []) symbols \<and> set absent \<subseteq> set conditional"
  by (induction symbols arbitrary: absent) (auto split: if_splits)

lemma targetConditionalAbsent_spec:
  assumes "sy \<in> set (targetConditionalAbsent symbols conditional res)"
  shows "sy \<in> set symbols" "sy \<in> set conditional" "matched_of res sy = []"
    "\<exists>s\<in>set symbols. s \<notin> set (targetConditionalAbsent symbols conditional res)"
proof -
  let ?a = "targetConditionalAbsent symbols conditional res"
  have u: "unmatched conditional res symbols = Some ?a" and l: "length ?a \<noteq> length symbols"
    using assms
    by (cases "unmatched conditional res symbols"; simp add: targetConditionalAbsent_def split: if_splits)+
  from unmatched_spec [OF u] have f: "?a = filter (\<lambda>s. matched_of res s = []) symbols"
    and c: "set ?a \<subseteq> set conditional" by blast+
  show "sy \<in> set symbols" "sy \<in> set conditional" "matched_of res sy = []"
    using assms c by (auto simp: f)
  show "\<exists>s\<in>set symbols. s \<notin> set ?a"
  proof (rule ccontr)
    assume n: "\<not> ?thesis"
    have "\<forall>s\<in>set symbols. matched_of res s = []"
    proof
      fix s assume "s \<in> set symbols"
      with n have "s \<in> set ?a" by blast
      then show "matched_of res s = []" by (simp add: f)
    qed
    then have "filter (\<lambda>s. matched_of res s = []) symbols = symbols" by (simp add: filter_id_conv)
    with l f show False by simp
  qed
qed

text \<open>Arm A: some advisory symbol lies in the admitted package, and each one does and was searched
  there, but for those the advisory says some target does not compile, which matched nothing.\<close>

definition searched_grounds :: "run_store \<Rightarrow> pkgKey \<Rightarrow> bool \<Rightarrow> bool" where
  "searched_grounds st admitted isroot =
    (\<exists>res. VulnerableSymbols st = Some res \<and>
      (\<exists>sy\<in>set (AdvisorySymbols (rs_case st)).
         symbol_searched res (re_searched (reach_of st)) admitted isroot sy) \<and>
      (\<forall>sy\<in>set (AdvisorySymbols (rs_case st)).
         symbol_searched res (re_searched (reach_of st)) admitted isroot sy \<or>
         sy \<in> set (AdvisoryTargetConditionalSymbols (rs_case st)) \<and> matched_of res sy = []))"

lemma arm_a_grounds:
  assumes "arm_a st admitted isroot = Some absent"
  shows "searched_grounds st admitted isroot"
proof -
  let ?sy = "AdvisorySymbols (rs_case st)" and ?c = "AdvisoryTargetConditionalSymbols (rs_case st)"
  from assms obtain res where r: "VulnerableSymbols st = Some res"
    and ne: "?sy \<noteq> []" and ab: "absent = targetConditionalAbsent ?sy ?c res"
    and s: "searchedInPackage ?sy absent res (re_searched (reach_of st)) admitted isroot"
    by (auto simp: arm_a_def Let_def split: if_splits option.splits)
  have all: "\<forall>x\<in>set ?sy. x \<in> set absent \<or> symbol_searched res (re_searched (reach_of st)) admitted isroot x"
    using s by (simp add: searchedInPackage_spec)
  have some: "\<exists>x\<in>set ?sy. x \<notin> set absent"
  proof (cases "absent = []")
    case True
    with ne show ?thesis by (cases ?sy) auto
  next
    case False
    then obtain a where "a \<in> set absent" by (cases absent) auto
    then show ?thesis using targetConditionalAbsent_spec(4) [of a ?sy ?c res] by (simp add: ab)
  qed
  have "\<forall>x\<in>set ?sy. symbol_searched res (re_searched (reach_of st)) admitted isroot x \<or>
      x \<in> set ?c \<and> matched_of res x = []"
    using all targetConditionalAbsent_spec(2,3) [of _ ?sy ?c res] by (auto simp: ab)
  with r all some show ?thesis unfolding searched_grounds_def by blast
qed

text \<open>Arm B: the lane's refutation names the admitted package.\<close>

definition refuted_grounds :: "run_store \<Rightarrow> pkgKey \<Rightarrow> bool \<Rightarrow> bool" where
  "refuted_grounds st admitted isroot =
    (\<exists>r. re_refutation (reach_of st) = Some r \<and> inAdmitted (ru_package r) admitted isroot \<and> ru_package r \<noteq> [] \<and>
       (ru_basis r = RefutationPackageNotLoaded \<longrightarrow> \<not> isroot \<and> AdvisoryListsAffectedPackages (rs_case st)))"

lemma arm_b_grounds: "arm_b st admitted isroot = Some r \<Longrightarrow> refuted_grounds st admitted isroot"
  by (auto simp: arm_b_def refuted_grounds_def split: if_splits option.splits)

definition row_root :: "Package option \<Rightarrow> bool" where
  "row_root pkg = (case pkg of None \<Rightarrow> False | Some p \<Rightarrow> pkg_root p)"

lemma notExploitableGrounds_Inr:
  assumes "notExploitableGrounds st pkg mods = Inr g"
  shows "gr_basis g = BasisSymbolUnreachable \<and>
    (\<exists>admitted label. admittedPackage st pkg = Some (admitted, label) \<and>
      \<not> namesOtherPackage (AdvisoryPackagePURLs (rs_case st)) admitted mods \<and>
      (vettedSymbols st \<and> searched_grounds st admitted (row_root pkg) \<or>
       refuted_grounds st admitted (row_root pkg)))"
proof -
  obtain admitted label where ap: "admittedPackage st pkg = Some (admitted, label)"
    using assms by (auto simp: notExploitableGrounds_def split: option.splits)
  have n: "\<not> namesOtherPackage (AdvisoryPackagePURLs (rs_case st)) admitted mods"
    using assms by (auto simp: notExploitableGrounds_def ap Let_def split: if_splits)
  show ?thesis
  proof (cases "arm_a st admitted (row_root pkg) \<noteq> None \<and> vettedSymbols st")
    case True
    then obtain absent where "arm_a st admitted (row_root pkg) = Some absent" by auto
    then have "searched_grounds st admitted (row_root pkg)" by (rule arm_a_grounds)
    moreover have "gr_basis g = BasisSymbolUnreachable"
      using assms True n by (auto simp: notExploitableGrounds_def ap Let_def row_root_def)
    ultimately show ?thesis using True ap n by blast
  next
    case False
    then obtain r where r: "arm_b st admitted (row_root pkg) = Some r" and "gr_basis g = BasisSymbolUnreachable"
      using assms n by (auto simp: notExploitableGrounds_def ap Let_def row_root_def split: option.splits if_splits)
    then show ?thesis using arm_b_grounds [OF r] ap n by blast
  qed
qed

definition outside_grounds :: "run_store \<Rightarrow> goModules \<Rightarrow> bool" where
  "outside_grounds st mods =
    (\<exists>key ms res search. mods = Some ms \<and> outsideBuild key mods \<and> vettedSymbols st \<and>
       AdvisorySymbols (rs_case st) \<noteq> [] \<and> AdvisoryPackagePURLs (rs_case st) \<noteq> [] \<and>
       (\<forall>p\<in>set (AdvisoryPackagePURLs (rs_case st)). purlKey p = Some key) \<and>
       VulnerableSymbols st = Some res \<and> sr_moduleSearch res = Some search \<and>
       ms_declaring search = [] \<and> set ms \<subseteq> set (ms_searched search))"

lemma outsideBuildGrounds_Inr:
  assumes "outsideBuildGrounds st pkg mods = Inr d"
  shows "pkg = None \<and> outside_grounds st mods"
proof -
  from assms obtain ms where m: "pkg = None" "mods = Some ms" "AdvisorySymbols (rs_case st) \<noteq> []"
    "AdvisoryPackagePURLs (rs_case st) \<noteq> []"
    by (auto simp: outsideBuildGrounds_def Let_def split: if_splits)
  from assms m obtain key where k: "purlKey (hd (AdvisoryPackagePURLs (rs_case st))) = Some key"
    by (auto simp: outsideBuildGrounds_def Let_def split: option.splits)
  have r: "outsideBuild key mods" "\<not> list_ex (\<lambda>p. purlKey p \<noteq> Some key) (tl (AdvisoryPackagePURLs (rs_case st)))"
    using assms m k by (auto simp: outsideBuildGrounds_def Let_def split: if_splits)
  with assms m k obtain res search where s: "VulnerableSymbols st = Some res" "sr_moduleSearch res = Some search"
    by (auto simp: outsideBuildGrounds_def Let_def split: option.splits)
  have d: "ms_declaring search = []" "\<not> list_ex (\<lambda>m. m \<notin> set (ms_searched search)) ms" "vettedSymbols st"
    using assms m k r s by (auto simp: outsideBuildGrounds_def Let_def split: if_splits)
  have "\<forall>p\<in>set (AdvisoryPackagePURLs (rs_case st)). purlKey p = Some key"
    using k r(2) m(4) by (cases "AdvisoryPackagePURLs (rs_case st)") (auto simp: list_ex_iff)
  then show ?thesis using m r(1) s d unfolding outside_grounds_def by (auto simp: list_ex_iff)
qed

text \<open>holding finds the longest module whose path is the import path or a prefix of it at a slash.\<close>

lemma last_index_byte_none: "last_index_byte p c = None \<Longrightarrow> c \<notin> set p"
proof -
  have ib: "index_byte xs c = None \<Longrightarrow> c \<notin> set xs" for xs
    by (induction xs c rule: index_byte.induct) (auto split: if_splits)
  assume "last_index_byte p c = None"
  then have "index_byte (rev p) c = None" by (simp add: last_index_byte_def)
  from ib [OF this] show ?thesis by simp
qed

definition holds :: "gostring \<Rightarrow> gostring \<Rightarrow> bool" where
  "holds p q = (p = q \<or> has_prefix p (q @ ''/''))"

text \<open>What holds a path and is not the path holds its part before the last slash.\<close>

lemma holds_step:
  assumes "holds p q" "p \<noteq> q"
  shows "\<exists>i. last_index_byte p CHR ''/'' = Some i \<and> holds (take i p) q"
proof -
  obtain t where p: "p = q @ ''/'' @ t"
    using assms has_prefixD [of p "q @ ''/''"] by (auto simp: holds_def)
  have "CHR ''/'' \<in> set p" by (simp add: p)
  then obtain i where i: "last_index_byte p CHR ''/'' = Some i"
    using last_index_byte_none by (cases "last_index_byte p CHR ''/''") auto
  note s = last_index_byte_split [OF i]
  have le: "length q \<le> i"
  proof (rule ccontr)
    assume "\<not> length q \<le> i"
    then have "CHR ''/'' \<in> set (drop (Suc i) p)" by (simp add: p)
    then show False using s(3) by simp
  qed
  have "holds (take i p) q"
  proof (cases "i = length q")
    case True
    then show ?thesis by (simp add: holds_def p)
  next
    case False
    then have "take i p = q @ ''/'' @ take (i - length q - 1) t" using le
      by (simp add: p take_Cons')
    then show ?thesis by (simp add: holds_def has_prefix_def)
  qed
  with i show ?thesis by blast
qed

lemma has_prefix_app: "has_prefix (u @ t) u"
  by (simp add: has_prefix_def)

lemma holds_take: "last_index_byte p CHR ''/'' = Some i \<Longrightarrow> holds (take i p) q \<Longrightarrow> holds p q"
proof -
  assume i: "last_index_byte p CHR ''/'' = Some i" and h: "holds (take i p) q"
  have p: "p = take i p @ ''/'' @ drop (Suc i) p"
    using last_index_byte_split(1,2) [OF i] id_take_nth_drop [of i p] by simp
  show ?thesis
  proof (cases "take i p = q")
    case True
    have "p = (q @ ''/'') @ drop (Suc i) p" using p unfolding True by simp
    then show ?thesis unfolding holds_def by (metis has_prefix_app)
  next
    case False
    with h have "has_prefix (take i p) (q @ ''/'')" by (simp add: holds_def)
    from has_prefixD [OF this] obtain u where u: "take i p = (q @ ''/'') @ u" by blast
    have "p = (q @ ''/'') @ u @ ''/'' @ drop (Suc i) p" using p unfolding u by simp
    then show ?thesis unfolding holds_def by (metis has_prefix_app)
  qed
qed

lemma holds_length: "holds p q \<Longrightarrow> length q \<le> length p"
proof (unfold holds_def, elim disjE)
  assume "has_prefix p (q @ ''/'')"
  then have "take (length q + 1) p = q @ ''/''" by (simp add: has_prefix_def)
  then have "length (take (length q + 1) p) = length q + 1" by simp
  then show "length q \<le> length p" by simp
qed simp

lemma holding_spec:
  "(holding m p = [] \<or> in_modules m (holding m p) \<and> holds p (holding m p)) \<and>
   (\<forall>q. in_modules m q \<longrightarrow> holds p q \<longrightarrow> length q \<le> length (holding m p))"
proof (induction m p rule: holding.induct)
  case (1 m p)
  show ?case
  proof (cases "in_modules m p")
    case True
    then have "holding m p = p" by (simp add: holding.simps)
    then show ?thesis using True holds_length [of p] by (simp add: holds_def)
  next
    case nin: False
    show ?thesis
    proof (cases "last_index_byte p CHR ''/''")
      case None
      then have h: "holding m p = []" using nin by (subst holding.simps) simp
      have "\<not> (in_modules m q \<and> holds p q)" for q
        using holds_step [of p q] nin None by (cases "p = q") auto
      with h show ?thesis by auto
    next
      case (Some i)
      then have h: "holding m p = holding m (take i p)" using nin by (subst holding.simps) simp
      note ih = 1 [OF nin Some]
      have up: "in_modules m q \<Longrightarrow> holds p q \<Longrightarrow> holds (take i p) q" for q
        using holds_step [of p q] nin Some by (cases "p = q") auto
      show ?thesis using ih up holds_take [OF Some] unfolding h by blast
    qed
  qed
qed

end
