(* ===== verification/Trigger_Path.thy ===== *)
theory Trigger_Path
  imports Trigger_Grounds "HOL-Library.Multiset"
begin

text \<open>
  The evidence of a reachable candidate in src/trigger/assess.go: the path it is read from, the
  frames shown for a taint path, the breadth-first search callChain, the entry point and the grade,
  the guards on the path, and the candidate-only annotations. A symbol is its SCIP id. The search
  keeps its map \<open>seen\<close> as a list, the newest entry first, and its loop ends because every step
  takes one entry off the queue and adds none that is seen. The lemmas: the chain it returns is a
  shortest path of the call graph, and it returns one whenever there is one.
\<close>

section \<open>The search for a call chain\<close>

text \<open>The edges sorted by caller and callee, and the callees of a node in that order.\<close>

definition sorted_edges :: "CallEdge list \<Rightarrow> (gostring \<times> gostring) list" where
  "sorted_edges edges = sort (map (\<lambda>e. (ce_caller e, ce_callee e)) edges)"

definition callees_of :: "(gostring \<times> gostring) list \<Rightarrow> gostring \<Rightarrow> gostring list" where
  "callees_of es n = map snd (filter (\<lambda>e. fst e = n) es)"

type_synonym seen = "(gostring \<times> gostring) list"

definition nodes :: "seen \<Rightarrow> gostring set" where
  "nodes seen = fst ` set seen"

lemma nodes_simps [simp]:
  "nodes [] = {}" "nodes ((c, p) # s) = insert c (nodes s)" "nodes (xs @ ys) = nodes xs \<union> nodes ys"
  "nodes (map (\<lambda>c. (c, k)) cs) = set cs"
  by (auto simp: nodes_def image_image)

lemma map_of_nodes: "map_of s c = None \<longleftrightarrow> c \<notin> nodes s"
  by (simp add: nodes_def map_of_eq_None_iff)

fun visit :: "gostring \<Rightarrow> gostring list \<Rightarrow> seen \<times> gostring list \<Rightarrow> seen \<times> gostring list" where
  "visit cur [] (seen, queue) = (seen, queue)"
| "visit cur (c # cs) (seen, queue) =
    (if map_of seen c = None then visit cur cs ((c, cur) # seen, queue @ [c])
     else visit cur cs (seen, queue))"

definition unseen :: "(gostring \<times> gostring) list \<Rightarrow> seen \<Rightarrow> nat" where
  "unseen es seen = card (set (map snd es) - nodes seen)"

lemma visit_spec:
  "visit cur cs (seen, queue) = (seen', queue') \<Longrightarrow>
    \<exists>new. queue' = queue @ new \<and> seen' = map (\<lambda>c. (c, cur)) (rev new) @ seen \<and> distinct new \<and>
      set new = set cs - nodes seen"
proof (induction cs arbitrary: seen queue)
  case Nil
  then show ?case by simp
next
  case (Cons c cs)
  show ?case
  proof (cases "map_of seen c = None")
    case True
    then have "visit cur cs ((c, cur) # seen, queue @ [c]) = (seen', queue')" using Cons.prems by simp
    from Cons.IH [OF this] obtain new where n: "queue' = (queue @ [c]) @ new"
      "seen' = map (\<lambda>c. (c, cur)) (rev new) @ (c, cur) # seen" "distinct new"
      "set new = set cs - nodes ((c, cur) # seen)" by blast
    have "c \<notin> nodes seen" using True by (simp add: map_of_nodes)
    then show ?thesis using n by (intro exI [of _ "c # new"]) auto
  next
    case False
    then have "visit cur cs (seen, queue) = (seen', queue')" using Cons.prems by (simp only: visit.simps if_False)
    from Cons.IH [OF this] obtain new where n: "queue' = queue @ new"
      "seen' = map (\<lambda>c. (c, cur)) (rev new) @ seen" "distinct new" "set new = set cs - nodes seen" by blast
    have "c \<in> nodes seen" using False by (simp add: map_of_nodes)
    then show ?thesis using n by (intro exI [of _ new]) auto
  qed
qed

lemma visit_measure:
  assumes "visit cur (callees_of es cur) (seen, queue) = (seen', queue')"
  shows "2 * unseen es seen' + length queue' \<le> 2 * unseen es seen + length queue"
proof -
  from visit_spec [OF assms] obtain new where n: "queue' = queue @ new"
    "seen' = map (\<lambda>c. (c, cur)) (rev new) @ seen" "distinct new" "set new = set (callees_of es cur) - nodes seen"
    by blast
  have d: "nodes seen' = set new \<union> nodes seen" unfolding n(2) by simp
  have sub: "set new \<subseteq> set (map snd es) - nodes seen" using n by (auto simp: callees_of_def)
  have "set (map snd es) - nodes seen' = (set (map snd es) - nodes seen) - set new" using d by blast
  then have "unseen es seen' = unseen es seen - length new"
    using card_Diff_subset [OF _ sub] distinct_card [OF n(3)] by (simp add: unseen_def)
  moreover have "length new \<le> unseen es seen"
    using card_mono [OF _ sub] distinct_card [OF n(3)] by (simp add: unseen_def)
  ultimately show ?thesis using n(1) by simp
qed

text \<open>The loop over the queue; the result is the map when the target comes off the queue.\<close>

function search ::
  "(gostring \<times> gostring) list \<Rightarrow> gostring \<Rightarrow> seen \<Rightarrow> gostring list \<Rightarrow> seen option" where
  "search es to seen [] = None"
| "search es to seen (cur # queue) =
    (if cur = to then Some seen
     else search es to (fst (visit cur (callees_of es cur) (seen, queue)))
       (snd (visit cur (callees_of es cur) (seen, queue))))"
  by pat_completeness auto
termination
proof (relation "measure (\<lambda>(es, to, seen, queue). 2 * unseen es seen + length queue)")
  fix es to seen cur queue
  obtain s q where v: "visit cur (callees_of es cur) (seen, queue) = (s, q)" by (rule prod.exhaust)
  show "((es, to, fst (visit cur (callees_of es cur) (seen, queue)), snd (visit cur (callees_of es cur) (seen, queue))),
    (es, to, seen, cur # queue)) \<in> measure (\<lambda>(es, to, seen, queue). 2 * unseen es seen + length queue)"
    using visit_measure [OF v] by (simp add: v)
qed simp

declare search.simps [simp del]

text \<open>The loop that walks the parents back to the start; the fuel is the size of the map.\<close>

fun unwind :: "nat \<Rightarrow> seen \<Rightarrow> gostring \<Rightarrow> gostring \<Rightarrow> gostring list" where
  "unwind 0 seen start n = []"
| "unwind (Suc k) seen start n =
    (if n = start then []
     else n # unwind k seen start (case map_of seen n of None \<Rightarrow> [] | Some p \<Rightarrow> p))"

definition callChain :: "CallEdge list \<Rightarrow> gostring \<Rightarrow> gostring \<Rightarrow> gostring list option" where
  "callChain edges start to =
    (case search (sorted_edges edges) to [(start, [])] [start] of
       None \<Rightarrow> None
     | Some seen \<Rightarrow> Some (rev (unwind (length seen) seen start to @ [start])))"

section \<open>The chain is a shortest path\<close>

inductive wf_seen :: "(gostring \<times> gostring) list \<Rightarrow> gostring \<Rightarrow> seen \<Rightarrow> bool" for es start where
  base: "wf_seen es start [(start, [])]"
| step: "wf_seen es start seen \<Longrightarrow> c \<notin> nodes seen \<Longrightarrow> p \<in> nodes seen \<Longrightarrow> (p, c) \<in> set es \<Longrightarrow>
    wf_seen es start ((c, p) # seen)"

fun depth :: "seen \<Rightarrow> gostring \<Rightarrow> nat" where
  "depth [] n = 0"
| "depth ((c, p) # s) n = (if c = n then (if s = [] then 0 else Suc (depth s p)) else depth s n)"

lemma wf_seen_ne: "wf_seen es start seen \<Longrightarrow> seen \<noteq> [] \<and> start \<in> nodes seen"
  by (induction rule: wf_seen.induct) auto

lemma depth_old: "wf_seen es start ((c, p) # seen) \<Longrightarrow> seen \<noteq> [] \<Longrightarrow> n \<in> nodes seen \<Longrightarrow> depth ((c, p) # seen) n = depth seen n"
  by (cases rule: wf_seen.cases) auto

lemma depth_start: "wf_seen es start seen \<Longrightarrow> depth seen start = 0"
proof (induction rule: wf_seen.induct)
  case (step seen c p)
  then have "c \<noteq> start" using wf_seen_ne by blast
  then show ?case using step by simp
qed simp

lemma depth_parent:
  "wf_seen es start seen \<Longrightarrow> n \<in> nodes seen \<Longrightarrow> n \<noteq> start \<Longrightarrow>
    \<exists>p. map_of seen n = Some p \<and> p \<in> nodes seen \<and> (p, n) \<in> set es \<and> depth seen n = Suc (depth seen p)"
proof (induction rule: wf_seen.induct)
  case base
  then show ?case by simp
next
  case (step seen c p)
  have ne: "seen \<noteq> []" using step(1) wf_seen_ne by blast
  show ?case
  proof (cases "n = c")
    case True
    moreover have "c \<noteq> p" using step by blast
    ultimately show ?thesis using step ne by auto
  next
    case False
    then have "n \<in> nodes seen" using step by auto
    then obtain q where q: "map_of seen n = Some q" "q \<in> nodes seen" "(q, n) \<in> set es" "depth seen n = Suc (depth seen q)"
      using step by blast
    have "c \<noteq> q" using q(2) step(2) by blast
    then show ?thesis using q False by auto
  qed
qed

lemma depth_less: "wf_seen es start seen \<Longrightarrow> n \<in> nodes seen \<Longrightarrow> depth seen n < length seen"
  by (induction arbitrary: n rule: wf_seen.induct) (auto intro: less_SucI)

definition chain_in :: "(gostring \<times> gostring) set \<Rightarrow> gostring \<Rightarrow> gostring \<Rightarrow> gostring list \<Rightarrow> bool" where
  "chain_in E a b xs = (xs \<noteq> [] \<and> hd xs = a \<and> last xs = b \<and> successively (\<lambda>x y. (x, y) \<in> E) xs)"

lemma chain_in_snoc: "chain_in E a p xs \<Longrightarrow> (p, b) \<in> E \<Longrightarrow> chain_in E a b (xs @ [b])"
  by (auto simp: chain_in_def successively_append_iff)

lemma unwind_chain:
  "wf_seen es start seen \<Longrightarrow> n \<in> nodes seen \<Longrightarrow> depth seen n \<le> k \<Longrightarrow>
    length (unwind k seen start n) = depth seen n \<and>
    chain_in (set es) start n (rev (unwind k seen start n @ [start]))"
proof (induction k arbitrary: n)
  case 0
  then have "n = start" using depth_parent [of es start seen n] by force
  then show ?case using 0 by (simp add: chain_in_def)
next
  case (Suc k)
  show ?case
  proof (cases "n = start")
    case True
    then show ?thesis using depth_start [OF Suc.prems(1)] by (simp add: chain_in_def)
  next
    case False
    then obtain p where p: "map_of seen n = Some p" "p \<in> nodes seen" "(p, n) \<in> set es" "depth seen n = Suc (depth seen p)"
      using depth_parent Suc.prems by blast
    have "depth seen p \<le> k" using p(4) Suc.prems(3) by simp
    from Suc.IH [OF Suc.prems(1) p(2) this] show ?thesis
      using p(1,4) False chain_in_snoc [OF _ p(3), of start "rev (unwind k seen start p @ [start])"] by simp
  qed
qed

definition bfs_inv :: "(gostring \<times> gostring) list \<Rightarrow> gostring \<Rightarrow> gostring \<Rightarrow> seen \<Rightarrow> gostring list \<Rightarrow> bool" where
  "bfs_inv es start to seen queue =
    (wf_seen es start seen \<and> set queue \<subseteq> nodes seen \<and> sorted (map (depth seen) queue) \<and>
     (\<forall>n\<in>nodes seen. \<forall>q\<in>set queue. depth seen n \<le> depth seen q + 1) \<and>
     (\<forall>n\<in>nodes seen - set queue. \<forall>m. (n, m) \<in> set es \<longrightarrow> m \<in> nodes seen \<and> depth seen m \<le> depth seen n + 1) \<and>
     to \<notin> nodes seen - set queue)"

lemma wf_seen_grow:
  assumes "wf_seen es start seen" "distinct new" "set new \<inter> nodes seen = {}" "cur \<in> nodes seen"
    "\<forall>c\<in>set new. (cur, c) \<in> set es"
  shows "wf_seen es start (map (\<lambda>c. (c, cur)) new @ seen) \<and>
    (\<forall>n\<in>nodes seen. depth (map (\<lambda>c. (c, cur)) new @ seen) n = depth seen n) \<and>
    (\<forall>n\<in>set new. depth (map (\<lambda>c. (c, cur)) new @ seen) n = depth seen cur + 1)"
  using assms
proof (induction new)
  case Nil
  then show ?case by simp
next
  case (Cons c new)
  let ?s = "map (\<lambda>c. (c, cur)) new @ seen"
  have ih: "wf_seen es start ?s" "\<forall>n\<in>nodes seen. depth ?s n = depth seen n" "\<forall>n\<in>set new. depth ?s n = depth seen cur + 1"
    using Cons by auto
  have ns: "nodes ?s = set new \<union> nodes seen" by simp
  have c: "c \<notin> nodes ?s" using Cons.prems ns by auto
  have "wf_seen es start ((c, cur) # ?s)" using ih(1) c Cons.prems ns by (intro wf_seen.step) auto
  moreover have "seen \<noteq> []" using Cons.prems(4) by auto
  moreover have "\<forall>n\<in>nodes seen. n \<noteq> c" using c ns by auto
  ultimately show ?case using ih Cons.prems by auto
qed

lemma bfs_inv_step:
  assumes inv: "bfs_inv es start to seen (cur # queue)" and ne: "cur \<noteq> to"
    and v: "visit cur (callees_of es cur) (seen, queue) = (seen', queue')"
  shows "bfs_inv es start to seen' queue'"
proof -
  from visit_spec [OF v] obtain new where n: "queue' = queue @ new"
    "seen' = map (\<lambda>c. (c, cur)) (rev new) @ seen" "distinct new" "set new = set (callees_of es cur) - nodes seen"
    by blast
  from inv have i: "wf_seen es start seen" "cur \<in> nodes seen" "set queue \<subseteq> nodes seen"
    "sorted (map (depth seen) queue)" "\<forall>q\<in>set queue. depth seen cur \<le> depth seen q"
    "\<forall>n\<in>nodes seen. \<forall>q\<in>set (cur # queue). depth seen n \<le> depth seen q + 1"
    "\<forall>n\<in>nodes seen - set (cur # queue). \<forall>m. (n, m) \<in> set es \<longrightarrow> m \<in> nodes seen \<and> depth seen m \<le> depth seen n + 1"
    "to \<notin> nodes seen - set (cur # queue)"
    by (auto simp: bfs_inv_def)
  have new_es: "\<forall>c\<in>set (rev new). (cur, c) \<in> set es" using n(4) by (auto simp: callees_of_def)
  have disj: "set (rev new) \<inter> nodes seen = {}" using n(4) by auto
  have dis: "distinct (rev new)" using n(3) by simp
  note g = wf_seen_grow [OF i(1) dis disj i(2) new_es, folded n(2)]
  from g have wf: "wf_seen es start seen'" and old: "\<And>x. x \<in> nodes seen \<Longrightarrow> depth seen' x = depth seen x"
    and nw: "\<And>x. x \<in> set new \<Longrightarrow> depth seen' x = depth seen cur + 1" by auto
  have ns: "nodes seen' = set new \<union> nodes seen" unfolding n(2) by simp
  have sub: "set queue' \<subseteq> nodes seen'" using i(3) n(1) ns by auto
  have dq: "map (depth seen') queue' = map (depth seen) queue @ map (\<lambda>_. depth seen cur + 1) new"
    using i(3) old nw n(1) by auto
  have so: "sorted (map (depth seen') queue')"
    unfolding dq using i(3,4,6) by (auto simp: sorted_append map_replicate_const)
  have bound: "\<forall>x\<in>nodes seen'. depth seen' x \<le> depth seen cur + 1" using ns old nw i(6) by auto
  have lower: "\<forall>q\<in>set queue'. depth seen cur \<le> depth seen' q" using n(1) i(3,5) old nw by auto
  have b: "\<forall>x\<in>nodes seen'. \<forall>q\<in>set queue'. depth seen' x \<le> depth seen' q + 1"
    using bound lower by (meson add_le_mono1 le_trans)
  have p: "\<forall>x\<in>nodes seen' - set queue'. \<forall>m. (x, m) \<in> set es \<longrightarrow> m \<in> nodes seen' \<and> depth seen' m \<le> depth seen' x + 1"
  proof (intro ballI allI impI)
    fix x m assume x: "x \<in> nodes seen' - set queue'" and e: "(x, m) \<in> set es"
    then have xs: "x \<in> nodes seen" "x \<notin> set queue" using ns n(1) by auto
    show "m \<in> nodes seen' \<and> depth seen' m \<le> depth seen' x + 1"
    proof (cases "x = cur")
      case True
      then have "m \<in> set (callees_of es cur)" using e by (force simp: callees_of_def)
      then have "m \<in> nodes seen'" using n(4) ns by auto
      then show ?thesis using bound old [OF i(2)] True by auto
    next
      case False
      then have "x \<in> nodes seen - set (cur # queue)" using xs by simp
      with i(7) e have m: "m \<in> nodes seen" "depth seen m \<le> depth seen x + 1" by blast+
      have "m \<in> nodes seen'" unfolding ns using m(1) by (rule UnI2)
      then show ?thesis using m(2) unfolding old [OF xs(1)] old [OF m(1)] by blast
    qed
  qed
  have t: "to \<notin> nodes seen' - set queue'" using i(8) ne ns n(1) by auto
  show ?thesis unfolding bfs_inv_def using wf sub so b p t by blast
qed

lemma search_inv:
  "bfs_inv es start to seen queue \<Longrightarrow>
    (case search es to seen queue of
       None \<Rightarrow> \<exists>s. bfs_inv es start to s []
     | Some s \<Rightarrow> \<exists>q. bfs_inv es start to s (to # q))"
proof (induction es to seen queue rule: search.induct)
  case (1 es to seen)
  then show ?case by (auto simp: search.simps)
next
  case (2 es to seen cur queue)
  show ?case
  proof (cases "cur = to")
    case True
    then show ?thesis using 2(2) by (auto simp: search.simps)
  next
    case False
    obtain s q where v: "visit cur (callees_of es cur) (seen, queue) = (s, q)" by (rule prod.exhaust)
    have "search es to seen (cur # queue) = search es to s q" using False by (subst search.simps) (simp add: v)
    then show ?thesis using 2(1) [OF False] bfs_inv_step [OF 2(2) False v] by (simp add: v)
  qed
qed

lemma bfs_inv_start: "bfs_inv es start to [(start, [])] [start]"
  by (auto simp: bfs_inv_def intro: wf_seen.base)

text \<open>A path from the start either stays in the processed nodes, where depths grow by one, or
  meets the queue.\<close>

lemma inv_path:
  assumes inv: "bfs_inv es start to seen queue"
    and "chain_in (set es) start b xs"
  shows "(b \<in> nodes seen \<and> depth seen b + 1 \<le> length xs) \<or> (\<exists>q\<in>set queue. depth seen q + 1 < length xs)"
  using assms(2)
proof (induction xs arbitrary: b rule: rev_induct)
  case Nil
  then show ?case by (simp add: chain_in_def)
next
  case (snoc y ys)
  then have y: "y = b" by (simp add: chain_in_def)
  have wf: "wf_seen es start seen" using inv by (simp add: bfs_inv_def)
  show ?case
  proof (cases "ys = []")
    case True
    then have "b = start" using snoc(2) y by (auto simp: chain_in_def)
    then show ?thesis using wf_seen_ne [OF wf] depth_start [OF wf] by simp
  next
    case False
    then have c: "chain_in (set es) start (last ys) ys" and e: "(last ys, b) \<in> set es"
      using snoc(2) y by (auto simp: chain_in_def successively_append_iff)
    from snoc(1) [OF c] show ?thesis
    proof (elim disjE conjE bexE)
      assume l: "last ys \<in> nodes seen" "depth seen (last ys) + 1 \<le> length ys"
      show ?thesis
      proof (cases "last ys \<in> set queue")
        case True
        then show ?thesis using l by (intro disjI2 bexI [of _ "last ys"]) auto
      next
        case False
        then have "b \<in> nodes seen" "depth seen b \<le> depth seen (last ys) + 1"
          using inv l(1) e by (auto simp: bfs_inv_def)
        then show ?thesis using l by auto
      qed
    next
      fix q assume "q \<in> set queue" "depth seen q + 1 < length ys"
      then show ?thesis by (intro disjI2 bexI [of _ q]) auto
    qed
  qed
qed

definition call_pairs :: "CallEdge list \<Rightarrow> (gostring \<times> gostring) set" where
  "call_pairs edges = (\<lambda>e. (ce_caller e, ce_callee e)) ` set edges"

lemma sorted_edges_set: "set (sorted_edges edges) = call_pairs edges"
  by (simp add: sorted_edges_def call_pairs_def)

lemma callChain_shortest:
  assumes "callChain edges start to = Some xs"
  shows "chain_in (call_pairs edges) start to xs \<and>
    (\<forall>ys. chain_in (call_pairs edges) start to ys \<longrightarrow> length xs \<le> length ys)"
proof -
  let ?es = "sorted_edges edges"
  obtain seen where s: "search ?es to [(start, [])] [start] = Some seen"
    and xs: "xs = rev (unwind (length seen) seen start to @ [start])"
    using assms by (auto simp: callChain_def split: option.splits)
  from search_inv [OF bfs_inv_start, of ?es start to] s obtain q where i: "bfs_inv ?es start to seen (to # q)" by auto
  then have wf: "wf_seen ?es start seen" and t: "to \<in> nodes seen"
    and so: "\<forall>x\<in>set q. depth seen to \<le> depth seen x" by (auto simp: bfs_inv_def)
  have "depth seen to \<le> length seen" using depth_less [OF wf t] by simp
  from unwind_chain [OF wf t this] have u: "length xs = depth seen to + 1" "chain_in (set ?es) start to xs"
    unfolding xs by simp_all
  have "length xs \<le> length ys" if "chain_in (set ?es) start to ys" for ys
    using inv_path [OF i that] so u(1) by (auto dest: bspec)
  then show ?thesis using u(2) by (simp add: sorted_edges_set)
qed

lemma callChain_complete:
  assumes "callChain edges start to = None"
  shows "\<not> chain_in (call_pairs edges) start to ys"
proof
  let ?es = "sorted_edges edges"
  assume "chain_in (call_pairs edges) start to ys"
  then have c: "chain_in (set ?es) start to ys" by (simp add: sorted_edges_set)
  have "search ?es to [(start, [])] [start] = None" using assms by (auto simp: callChain_def split: option.splits)
  with search_inv [OF bfs_inv_start, of ?es start to] obtain s where i: "bfs_inv ?es start to s []" by auto
  from inv_path [OF i c] have "to \<in> nodes s" by simp
  then show False using i by (simp add: bfs_inv_def)
qed

lemma callChain_order: "mset edges = mset edges' \<Longrightarrow> callChain edges start to = callChain edges' start to"
proof -
  assume "mset edges = mset edges'"
  then have "sorted_edges edges = sorted_edges edges'"
    unfolding sorted_edges_def by (intro properties_for_sort) simp_all
  then show ?thesis by (simp add: callChain_def)
qed

section \<open>The path the evidence is read from\<close>

definition taintPaths :: "run_store \<Rightarrow> ReachPath list" where
  "taintPaths st = (case rs_taint st of Payload ps \<Rightarrow> ps | _ \<Rightarrow> [])"

definition reachPaths :: "run_store \<Rightarrow> ReachPath list" where
  "reachPaths st = (case reachabilityResult st of None \<Rightarrow> [] | Some r \<Rightarrow> re_paths r)"

definition callGraph :: "run_store \<Rightarrow> CallGraph option" where
  "callGraph st = (case rs_reachability st of Payload r \<Rightarrow> rr_callGraph r | _ \<Rightarrow> None)"

definition graph_edges :: "run_store \<Rightarrow> CallEdge list" where
  "graph_edges st = (case callGraph st of None \<Rightarrow> [] | Some g \<Rightarrow> cg_edges g)"

definition anchored :: "ReachPath \<Rightarrow> bool" where
  "anchored p = (pt_ingress p \<noteq> [])"

definition evidencePath :: "run_store \<Rightarrow> (ReachPath \<times> bool) option" where
  "evidencePath st =
    (case find anchored (taintPaths st) of
       Some p \<Rightarrow> Some (p, True)
     | None \<Rightarrow>
         (case find anchored (reachPaths st) of
            Some p \<Rightarrow> Some (p, False)
          | None \<Rightarrow>
              (case taintPaths st of
                 p # _ \<Rightarrow> Some (p, True)
               | [] \<Rightarrow> (case reachPaths st of p # _ \<Rightarrow> Some (p, False) | [] \<Rightarrow> None))))"

definition labelEntrypoint :: gostring where
  "labelEntrypoint = ''entrypoint '' @ [CHR 0xE2, CHR 0x86, CHR 0x92] @ '' advisory symbol''"

definition labelReachable :: gostring where
  "labelReachable = ''advisory symbol reachable''"

definition candidatePath :: "run_store \<Rightarrow> gostring option" where
  "candidatePath st =
    (case rs_pairs st of
       None \<Rightarrow> None
     | Some pairs \<Rightarrow>
         if list_ex (\<lambda>p. p = Some True) pairs then Some labelEntrypoint
         else if list_ex (\<lambda>p. p \<noteq> None) pairs then Some labelReachable
         else None)"

definition hasCandidate :: "run_store \<Rightarrow> bool" where
  "hasCandidate st = (candidatePath st \<noteq> None)"

definition reachableLabel :: "run_store \<Rightarrow> ReachPath option \<Rightarrow> gostring" where
  "reachableLabel st p =
    (case p of
       None \<Rightarrow> (case candidatePath st of None \<Rightarrow> [] | Some l \<Rightarrow> l)
     | Some q \<Rightarrow> if pt_ingress q \<noteq> [] then labelEntrypoint else labelReachable)"

definition framesOf :: "gostring list \<Rightarrow> CallFrame list" where
  "framesOf trace = map (\<lambda>s. \<lparr>cf_symbol = s, cf_file = [], cf_line = 0\<rparr>) trace"

definition compareTraces :: "gostring list \<Rightarrow> gostring list \<Rightarrow> int" where
  "compareTraces a b = cmp_then (cmp_ord (length a) (length b)) (cmp_list strings_compare a b)"

text \<open>The loop over the reachability paths: \<open>dropWhile\<close> is the suffix from the ingress on.\<close>

definition better_suffix :: "gostring \<Rightarrow> gostring \<Rightarrow> ReachPath \<Rightarrow> gostring list option \<Rightarrow> gostring list option" where
  "better_suffix ingress sink p best =
    (if length (pt_trace p) = 0 \<or> last (pt_trace p) \<noteq> sink then best
     else if ingress \<notin> set (pt_trace p) then best
     else
       (let suf = dropWhile (\<lambda>s. s \<noteq> ingress) (pt_trace p) in
        case best of
          None \<Rightarrow> Some suf
        | Some b \<Rightarrow> if compareTraces suf b < 0 then Some suf else best))"

definition taintFrames :: "ReachPath \<Rightarrow> ReachPath list \<Rightarrow> CallEdge list \<Rightarrow> gostring list" where
  "taintFrames tp paths edges =
    (case fold (better_suffix (pt_ingress tp) (pt_sink tp)) paths None of
       Some best \<Rightarrow> best
     | None \<Rightarrow>
         if pt_ingress tp = [] \<or> pt_ingress tp = pt_sink tp then pt_trace tp
         else (case callChain edges (pt_ingress tp) (pt_sink tp) of Some chain \<Rightarrow> chain | None \<Rightarrow> pt_trace tp))"

section \<open>The entry point and the grade\<close>

definition attackerControllableKinds :: "gostring \<Rightarrow> bool" where
  "attackerControllableKinds k =
    (k \<in> {''http_route'', ''handler'', ''rpc'', ''grpc'', ''http'', ''ssh''})"

definition entryPointOf :: "Ingress \<Rightarrow> EntryPoint" where
  "entryPointOf i =
    \<lparr>en_symbol = (if ig_selector i \<noteq> [] then ig_selector i else ig_symbol i),
     en_kind = ig_kind i, en_attackerControllable = attackerControllableKinds (ig_kind i)\<rparr>"

definition ingressMap :: "run_store \<Rightarrow> Ingress list" where
  "ingressMap st =
    (case rs_ingress st of
       Payload a \<Rightarrow>
         if length (ia_ingresses a) > 0 then ia_ingresses a
         else if ia_entrypoint a \<noteq> []
           then [\<lparr>ig_kind = ''http_route'', ig_symbol = [], ig_selector = ia_entrypoint a\<rparr>] else []
     | _ \<Rightarrow> [])"

text \<open>The map bySym holds the last ingress of each symbol.\<close>

definition by_sym :: "Ingress list \<Rightarrow> gostring \<Rightarrow> Ingress option" where
  "by_sym ingresses s = find (\<lambda>i. ig_symbol i = s) (rev (filter (\<lambda>i. ig_symbol i \<noteq> []) ingresses))"

fun attackerIngressInTrace :: "CallFrame list \<Rightarrow> Ingress list \<Rightarrow> EntryPoint option" where
  "attackerIngressInTrace [] ingresses = None"
| "attackerIngressInTrace (f # fs) ingresses =
    (case by_sym ingresses (cf_symbol f) of
       Some i \<Rightarrow> if attackerControllableKinds (ig_kind i) then Some (entryPointOf i)
                else attackerIngressInTrace fs ingresses
     | None \<Rightarrow> attackerIngressInTrace fs ingresses)"

definition reachingEntryPoint :: "gostring \<Rightarrow> Ingress list \<Rightarrow> EntryPoint option" where
  "reachingEntryPoint s ingresses =
    (if s = [] then None else map_option entryPointOf (find (\<lambda>i. ig_symbol i = s) ingresses))"

definition entryPointFor :: "gostring \<Rightarrow> Ingress list \<Rightarrow> EntryPoint option" where
  "entryPointFor s ingresses =
    (case reachingEntryPoint s ingresses of
       Some e \<Rightarrow> Some e
     | None \<Rightarrow>
         (let controllable = filter (\<lambda>i. attackerControllableKinds (ig_kind i)) ingresses in
          if length controllable = 1 then Some (entryPointOf (hd controllable))
          else if length ingresses = 1 then Some (entryPointOf (hd ingresses))
          else None))"

definition reachabilityEvidenceOn ::
  "run_store \<Rightarrow> (ReachPath \<times> bool) option \<Rightarrow> gostring \<times> EntryPoint option \<times> CallFrame list" where
  "reachabilityEvidenceOn st shown =
    (let ingresses = ingressMap st;
         credit = (case shown of None \<Rightarrow> [] | Some (p, _) \<Rightarrow> framesOf (pt_trace p));
         ingressSym = (case shown of None \<Rightarrow> [] | Some (p, _) \<Rightarrow> pt_ingress p);
         frames = (case shown of
             None \<Rightarrow> []
           | Some (p, fromTaint) \<Rightarrow>
               if fromTaint then framesOf (taintFrames p (reachPaths st) (graph_edges st)) else credit);
         entry = attackerIngressInTrace credit ingresses
     in if entry \<noteq> None then (GradeAttackerTainted, entry, frames)
        else if shown \<noteq> None then (GradeControlFlowOnly, reachingEntryPoint ingressSym ingresses, frames)
        else (GradeControlFlowOnly, entryPointFor ingressSym ingresses, frames))"

definition reachabilityEvidence :: "run_store \<Rightarrow> gostring \<times> EntryPoint option \<times> CallFrame list" where
  "reachabilityEvidence st = reachabilityEvidenceOn st (evidencePath st)"

section \<open>Guards and the candidate's annotations\<close>

definition after_last :: "gostring \<Rightarrow> char \<Rightarrow> gostring" where
  "after_last s c = (case last_index_byte s c of None \<Rightarrow> s | Some i \<Rightarrow> drop (i + 1) s)"

definition symbolLeaf :: "gostring \<Rightarrow> gostring" where
  "symbolLeaf scip =
    (let fields = go_fields scip in
     if length fields = 0 then []
     else
       (let leaf = trim_suffix (after_last (after_last (last fields) CHR ''/'') CHR ''#'') ''.'' in
        if has_suffix leaf '')''
        then (case last_index_byte leaf CHR ''('' of None \<Rightarrow> leaf | Some i \<Rightarrow> take i leaf) else leaf))"

definition claims_of :: "run_store \<Rightarrow> advisoryClaims option" where
  "claims_of st = (case adv_of (rs_case st) of None \<Rightarrow> None | Some _ \<Rightarrow> Some (rs_claims st))"

definition advisoryGuards :: "run_store \<Rightarrow> gostring list" where
  "advisoryGuards st = (case claims_of st of None \<Rightarrow> [] | Some c \<Rightarrow> ac_guards c)"

definition guardsOnPath :: "run_store \<Rightarrow> CallFrame list \<Rightarrow> gostring list" where
  "guardsOnPath st frames =
    (let declared = advisoryGuards st in
     if length declared = 0 \<or> length frames = 0 then []
     else if length (graph_edges st) = 0 then []
     else
       (let found = map (\<lambda>e. symbolLeaf (ce_callee e))
              (filter (\<lambda>e. ce_caller e \<in> set (map cf_symbol frames)) (graph_edges st))
        in filter (\<lambda>g. g \<in> set found) declared))"

definition advisorySymbolProvenance :: "run_store \<Rightarrow> gostring" where
  "advisorySymbolProvenance st = (case claims_of st of None \<Rightarrow> [] | Some c \<Rightarrow> ac_symbolProvenance c)"

definition symbolConfidenceFor :: "gostring \<Rightarrow> gostring" where
  "symbolConfidenceFor p =
    (if p = ''osv-declared'' \<or> p = ''curated'' then SymbolConfidenceHigh
     else if p = ''diff-lexed'' then SymbolConfidenceModerate else [])"

definition advisoryPreconditions :: "run_store \<Rightarrow> gostring \<times> gostring" where
  "advisoryPreconditions st =
    (case claims_of st of None \<Rightarrow> ([], []) | Some c \<Rightarrow> (ac_triggerCondition c, ac_prerequisite c))"

definition exploitPreconditionsFor :: "gostring \<Rightarrow> gostring \<Rightarrow> ExploitPreconditions option" where
  "exploitPreconditionsFor t p =
    (let e = \<lparr>ep_triggerCondition = t, ep_prerequisite = p\<rparr> in
     if ExploitPreconditions_Empty e then None else Some e)"

definition advisoryGuardSufficiency :: "run_store \<Rightarrow> guardSufficiencyVariant list" where
  "advisoryGuardSufficiency st = (case claims_of st of None \<Rightarrow> [] | Some c \<Rightarrow> ac_guardSufficiency c)"

definition guardSufficiencyFor :: "gostring list \<Rightarrow> guardSufficiencyVariant list \<Rightarrow> GuardSufficiencyNote list" where
  "guardSufficiencyFor onPath declared =
    concat (map (\<lambda>g. map (\<lambda>d. \<lparr>gs_symbol = gv_symbol d, gs_forBypass = gv_forBypass d,
         gs_sufficiency = SufficiencyLabel (gv_sufficient d)\<rparr>)
       (filter (\<lambda>d. gv_symbol d \<noteq> [] \<and> gv_symbol d = g) declared)) onPath)"

section \<open>What the evidence shows\<close>

lemma fold_better_suffix:
  assumes "fold (better_suffix ingress sink) paths best0 = Some best"
  shows "best0 = Some best \<or> (\<exists>p\<in>set paths. \<exists>pre. pt_trace p = pre @ best \<and> hd best = ingress \<and> last best = sink)"
  using assms
proof (induction paths arbitrary: best0)
  case Nil
  then show ?case by simp
next
  case (Cons p ps)
  let ?suf = "dropWhile (\<lambda>s. s \<noteq> ingress) (pt_trace p)"
  have suf: "better_suffix ingress sink p best0 = best0 \<or>
      (better_suffix ingress sink p best0 = Some ?suf \<and> ingress \<in> set (pt_trace p) \<and> last (pt_trace p) = sink)"
    by (auto simp: better_suffix_def Let_def split: option.splits)
  have ok: "\<exists>pre. pt_trace p = pre @ ?suf \<and> hd ?suf = ingress \<and> last ?suf = sink"
    if "ingress \<in> set (pt_trace p)" "last (pt_trace p) = sink"
  proof -
    have ne: "?suf \<noteq> []" using that by (auto simp: dropWhile_eq_Nil_conv)
    have e: "pt_trace p = takeWhile (\<lambda>s. s \<noteq> ingress) (pt_trace p) @ ?suf" by simp
    have "hd ?suf = ingress" using hd_dropWhile [OF ne] by simp
    moreover have "last ?suf = sink" using that(2) ne e by (metis last_appendR)
    ultimately show ?thesis using e by blast
  qed
  from Cons(2) have "fold (better_suffix ingress sink) ps (better_suffix ingress sink p best0) = Some best" by simp
  from Cons(1) [OF this] show ?case using suf ok by fastforce
qed

lemma taintFrames_cases:
  "taintFrames tp paths edges = pt_trace tp \<or>
   hd (taintFrames tp paths edges) = pt_ingress tp \<and> last (taintFrames tp paths edges) = pt_sink tp \<and>
   ((\<exists>p\<in>set paths. \<exists>pre. pt_trace p = pre @ taintFrames tp paths edges) \<or>
    chain_in (call_pairs edges) (pt_ingress tp) (pt_sink tp) (taintFrames tp paths edges))"
proof (cases "fold (better_suffix (pt_ingress tp) (pt_sink tp)) paths None")
  case (Some best)
  then show ?thesis using fold_better_suffix [OF Some] by (auto simp: taintFrames_def)
next
  case None
  show ?thesis
  proof (cases "pt_ingress tp = [] \<or> pt_ingress tp = pt_sink tp")
    case True
    then show ?thesis by (simp add: taintFrames_def None)
  next
    case False
    show ?thesis
    proof (cases "callChain edges (pt_ingress tp) (pt_sink tp)")
      case c: None
      then show ?thesis using False by (simp add: taintFrames_def None)
    next
      case (Some chain)
      have "chain_in (call_pairs edges) (pt_ingress tp) (pt_sink tp) chain" using callChain_shortest [OF Some] by blast
      then show ?thesis using False Some by (simp add: taintFrames_def None) (simp add: chain_in_def)
    qed
  qed
qed

lemma attackerIngress_Some:
  "attackerIngressInTrace (framesOf trace) ingresses = Some e \<Longrightarrow>
    \<exists>i\<in>set ingresses. ig_symbol i \<in> set trace \<and> ig_symbol i \<noteq> [] \<and>
      attackerControllableKinds (ig_kind i) \<and> e = entryPointOf i"
proof (induction trace)
  case Nil
  then show ?case by (simp add: framesOf_def)
next
  case (Cons s trace)
  show ?case
  proof (cases "by_sym ingresses s")
    case None
    then have "attackerIngressInTrace (framesOf trace) ingresses = Some e" using Cons.prems by (simp add: framesOf_def)
    from Cons.IH [OF this] show ?thesis by auto
  next
    case (Some i)
    then have i: "i \<in> set ingresses" "ig_symbol i = s" "ig_symbol i \<noteq> []"
      by (auto simp: by_sym_def dest: find_SomeD)
    show ?thesis
    proof (cases "attackerControllableKinds (ig_kind i)")
      case True
      then show ?thesis using Cons.prems Some i by (auto simp: framesOf_def)
    next
      case False
      then have "attackerIngressInTrace (framesOf trace) ingresses = Some e" using Cons.prems Some by (simp add: framesOf_def)
      from Cons.IH [OF this] show ?thesis by auto
    qed
  qed
qed

section \<open>Properties\<close>

text \<open>C5: callChain always ends, and answers exactly: a chain it returns runs along call-graph edges
  from the first symbol to the target and no such chain is shorter; it returns none only when the
  graph has none; and the order in which the edges were stored does not matter.\<close>
theorem call_chain_exact:
  "(\<forall>xs. callChain edges start to = Some xs \<longrightarrow>
      chain_in (call_pairs edges) start to xs \<and>
      (\<forall>ys. chain_in (call_pairs edges) start to ys \<longrightarrow> length xs \<le> length ys)) \<and>
   (callChain edges start to = None \<longrightarrow> (\<nexists>ys. chain_in (call_pairs edges) start to ys)) \<and>
   (\<forall>edges'. mset edges' = mset edges \<longrightarrow> callChain edges' start to = callChain edges start to)"
  using callChain_shortest callChain_complete callChain_order by blast

definition sample_edges :: "CallEdge list" where
  "sample_edges =
    [\<lparr>ce_caller = ''m'', ce_callee = ''b''\<rparr>, \<lparr>ce_caller = ''m'', ce_callee = ''a''\<rparr>,
     \<lparr>ce_caller = ''b'', ce_callee = ''s''\<rparr>, \<lparr>ce_caller = ''a'', ce_callee = ''s''\<rparr>,
     \<lparr>ce_caller = ''s'', ce_callee = ''m''\<rparr>]"

lemma sample_chain: "callChain sample_edges ''m'' ''s'' = Some [''m'', ''a'', ''s'']"
  by code_simp

theorem call_chain_exact_witness:
  "callChain sample_edges ''m'' ''s'' = Some [''m'', ''a'', ''s''] \<and>
   chain_in (call_pairs sample_edges) ''m'' ''s'' [''m'', ''a'', ''s'']"
  using call_chain_exact [of sample_edges "''m''" "''s''"] sample_chain by blast

text \<open>The strong grade rests on the recorded path: attacker_tainted is given only when a path is
  recorded and an ingress of an attacker-controllable kind lies on it, and the entry point named is
  that ingress.\<close>
theorem tainted_grade_on_path:
  assumes "reachabilityEvidenceOn st shown = (GradeAttackerTainted, entry, frames)"
  shows "\<exists>p t i. shown = Some (p, t) \<and> i \<in> set (ingressMap st) \<and> ig_symbol i \<in> set (pt_trace p) \<and>
    attackerControllableKinds (ig_kind i) \<and> entry = Some (entryPointOf i)"
proof -
  have ne: "GradeControlFlowOnly \<noteq> GradeAttackerTainted"
    by (simp add: GradeControlFlowOnly_def GradeAttackerTainted_def)
  let ?credit = "case shown of None \<Rightarrow> [] | Some (p, _) \<Rightarrow> framesOf (pt_trace p)"
  have e: "attackerIngressInTrace ?credit (ingressMap st) = entry" "entry \<noteq> None"
    using assms ne by (cases "attackerIngressInTrace ?credit (ingressMap st)";
      simp add: reachabilityEvidenceOn_def Let_def split: if_splits)+
  then obtain p t where s: "shown = Some (p, t)" by (cases shown) auto
  obtain en where "entry = Some en" using e(2) by auto
  then show ?thesis using e(1) attackerIngress_Some [of "pt_trace p" "ingressMap st" en] s by auto
qed

definition sample_path :: ReachPath where
  "sample_path = \<lparr>pt_sink = ''lib s().'', pt_ingress = ''app m().'', pt_trace = [''app m().'', ''lib s().'']\<rparr>"

definition sample_reach :: ReachabilityResult where
  "sample_reach = zero_reach\<lparr>re_paths := [sample_path]\<rparr>"

definition sample_graph :: CallGraph where
  "sample_graph = \<lparr>cg_partiality = \<lparr>pa_complete = True, pa_reasons = [], pa_scoped = []\<rparr>,
     cg_edges = [\<lparr>ce_caller = ''app m().'', ce_callee = ''lib s().''\<rparr>]\<rparr>"

definition sample_claims :: advisoryClaims where
  "sample_claims = \<lparr>ac_aliases = [], ac_guards = [], ac_symbolProvenance = ''osv-declared'', ac_builtIn = False,
     ac_triggerCondition = [], ac_prerequisite = [], ac_guardSufficiency = []\<rparr>"

definition sample_run :: run_store where
  "sample_run = \<lparr>rs_case = sample_store, rs_limits = \<lparr>il_partialityFlags = [], il_annotations = []\<rparr>,
     rs_claims = sample_claims, rs_malicious = NoArtifact, rs_symbols = NoArtifact,
     rs_reachability = Payload \<lparr>rr_result = Some sample_reach, rr_callGraph = Some sample_graph, rr_toolchainScan = None\<rparr>,
     rs_ingress = Payload \<lparr>ia_ingresses = [\<lparr>ig_kind = ''handler'', ig_symbol = ''app m().'', ig_selector = ''GET /x''\<rparr>],
       ia_entrypoint = []\<rparr>,
     rs_taint = NoArtifact, rs_pairs = Some [Some True], rs_footprint = NoArtifact\<rparr>"

lemma sample_evidence:
  "reachabilityEvidenceOn sample_run (Some (sample_path, False)) =
    (GradeAttackerTainted, Some \<lparr>en_symbol = ''GET /x'', en_kind = ''handler'', en_attackerControllable = True\<rparr>,
     framesOf [''app m().'', ''lib s().''])"
  by code_simp

theorem tainted_grade_on_path_witness:
  "\<exists>i. i \<in> set (ingressMap sample_run) \<and> ig_symbol i \<in> set (pt_trace sample_path) \<and>
    attackerControllableKinds (ig_kind i)"
  using tainted_grade_on_path [OF sample_evidence] by auto

end
