(* ===== verification/Trigger_Finding.thy ===== *)
theory Trigger_Finding
  imports Trigger_Path
begin

text \<open>
  The deterministic verdict rule of src/trigger/assess.go: what an assessment did not do
  (analysisDidNotRun and its helpers), the row of an advisory (findingInBuild) and the scan-level
  notes that go with it. An error is its failed step and its rendered text, which assessErrorText
  redacts with regular expressions that are not modelled. The lemmas: every row the rule builds is
  one the report's Validate accepts, and a not_exploitable verdict has the grounds the rule demands.
\<close>

section \<open>Reading the artifacts\<close>

definition inventory_limits :: "run_store \<Rightarrow> inventoryFacts option" where
  "inventory_limits st = (case inv_of (rs_case st) of None \<Rightarrow> None | Some _ \<Rightarrow> Some (rs_limits st))"

definition inventory_flags :: "run_store \<Rightarrow> gostring list" where
  "inventory_flags st = (case inventory_limits st of None \<Rightarrow> [] | Some l \<Rightarrow> il_partialityFlags l)"

definition finding_annotations :: "run_store \<Rightarrow> Annotation list" where
  "finding_annotations st = (case inventory_limits st of None \<Rightarrow> [] | Some l \<Rightarrow> il_annotations l)"

definition maliciousPresenceResult :: "run_store \<Rightarrow> MaliciousPresenceResult option" where
  "maliciousPresenceResult st =
    (case rs_malicious st of Payload r \<Rightarrow> if mp_present r then Some r else None | _ \<Rightarrow> None)"

definition maliciousPresent :: "run_store \<Rightarrow> bool" where
  "maliciousPresent st = (maliciousPresenceResult st \<noteq> None)"

definition maliciousPresentDetail :: "gostring \<Rightarrow> gostring" where
  "maliciousPresentDetail v =
    (if v \<noteq> [] then ''the resolved dependency version '' @ v @
       '' is listed by the advisory as a known-malicious package release''
     else ''the resolved dependency version is listed by the advisory as a known-malicious package release'')"

definition disqualResult :: "run_store \<Rightarrow> bool \<times> gostring" where
  "disqualResult st =
    (case st_discovery (rs_case st) of Payload r \<Rightarrow> (dq_disqualified r, dq_reason r) | _ \<Rightarrow> (False, []))"

definition disqualified :: "run_store \<Rightarrow> bool" where
  "disqualified st = fst (disqualResult st)"

definition disqualBasis :: "gostring \<Rightarrow> gostring" where
  "disqualBasis reason =
    (if reason = ReasonVersionNotInRange then BasisVersionNotAffected
     else if reason = ReasonSymbolAbsent then BasisSymbolAbsent
     else BasisNone)"

definition disqualDetail :: "gostring \<Rightarrow> gostring" where
  "disqualDetail reason =
    (if reason = ReasonVersionNotInRange
       then ''resolved dependency version is outside the advisory'' @ [CHR 0x27] @ ''s affected range''
     else if reason = ReasonSymbolAbsent then ''the vulnerable symbol is absent from the built artifact''
     else if reason = ReasonAdvisoryEcosystemMismatch
       then ''the advisory targets a different ecosystem than this codebase; no version or symbol comparison was performed''
     else if reason = ReasonNoManifestEntry
       then ''the advisory'' @ [CHR 0x27] @ ''s package is not installed by the build: its dependency manifest or build graph has no entry for it; no version or symbol comparison was performed''
     else ''disqualified on an axis that is neither a version nor a symbol comparison; neither comparison was performed'')"

definition exposureFootprint :: "run_store \<Rightarrow> ExposureFootprint option" where
  "exposureFootprint st = decoded (rs_footprint st)"

definition footprintPartialityFlags :: "run_store \<Rightarrow> gostring list" where
  "footprintPartialityFlags st = (case exposureFootprint st of None \<Rightarrow> [] | Some f \<Rightarrow> fp_partialityFlags f)"

definition footprintScoped :: "run_store \<Rightarrow> ScopedReason list" where
  "footprintScoped st = (case exposureFootprint st of None \<Rightarrow> [] | Some f \<Rightarrow> fp_scopedPartiality f)"

definition SubjectToolchainScanned :: "run_store \<Rightarrow> bool" where
  "SubjectToolchainScanned st =
    (case rs_reachability st of
       Payload r \<Rightarrow> (case rr_toolchainScan r of None \<Rightarrow> False | Some ts \<Rightarrow> ts_subject ts)
     | _ \<Rightarrow> False)"

definition ecosystemFor :: "gostring \<Rightarrow> gostring" where
  "ecosystemFor language =
    (if language = ''go'' then ''Go''
     else if language = ''java'' then ''Maven''
     else if language = ''kotlin'' then ''Maven''
     else if language = ''javascript'' \<or> language = ''js'' then ''npm''
     else if language = ''python'' \<or> language = ''py'' then ''PyPI''
     else if language = ''dotnet'' then ''NuGet''
     else language)"

section \<open>What did not run\<close>

definition PartialReasonAdvisoryUnknownToAnalyzer :: gostring where
  "PartialReasonAdvisoryUnknownToAnalyzer = ''advisory_unknown_to_analyzer''"
definition PartialReasonExcludedFiles :: gostring where "PartialReasonExcludedFiles = ''excluded_files''"
definition PartialReasonExcludedFilesAssembly :: gostring where
  "PartialReasonExcludedFilesAssembly = PartialReasonExcludedFiles @ '':assembly''"
definition PartialReasonExcludedFilesLinkname :: gostring where
  "PartialReasonExcludedFilesLinkname = PartialReasonExcludedFiles @ '':linkname''"
definition PartialReasonExcludedFilesCgoInclude :: gostring where
  "PartialReasonExcludedFilesCgoInclude = PartialReasonExcludedFiles @ '':cgo_include''"
definition PartialReasonUnsearchedMethods :: gostring where "PartialReasonUnsearchedMethods = ''unsearched_methods''"
definition PartialReasonLibraryEscape :: gostring where "PartialReasonLibraryEscape = ''library_escape''"
definition PartialReasonReflectiveCall :: gostring where
  "PartialReasonReflectiveCall = PartialReasonReflection @ '':call''"

definition refutationWithheldReasons :: "gostring list" where
  "refutationWithheldReasons =
    [PartialReasonExcludedFiles, PartialReasonExcludedFilesAssembly, PartialReasonExcludedFilesLinkname,
     PartialReasonExcludedFilesCgoInclude, PartialReasonUnsearchedMethods, PartialReasonLibraryEscape,
     PartialReasonReflectiveCall]"

definition outsideBuildExempt :: "gostring list" where
  "outsideBuildExempt =
    [PartialReasonAdvisoryUnknownToAnalyzer, PartialReasonReflectiveCall, PartialReasonExcludedFiles,
     PartialReasonExcludedFilesAssembly, PartialReasonExcludedFilesLinkname, PartialReasonExcludedFilesCgoInclude]"

definition toolchainUndetermined :: "run_store \<Rightarrow> gostring option" where
  "toolchainUndetermined st =
    (if \<not> ToolchainSubject (rs_case st) then None
     else case Toolchain (rs_case st) of
       None \<Rightarrow> Some ReasonGoToolchainUnresolved
     | Some tf \<Rightarrow>
         if tf_bound tf = ToolchainBoundNone then Some ReasonGoToolchainUnresolved
         else if tf_bound tf = ToolchainBoundExact \<and> SubjectToolchainScanned st then None
         else Some ReasonGoToolchainNotScanned)"

definition emptyGraphUncalledComplete :: "run_store \<Rightarrow> bool" where
  "emptyGraphUncalledComplete st =
    (case callGraph st of
       None \<Rightarrow> False
     | Some g \<Rightarrow> length (cg_edges g) = 0 \<and> \<not> pa_complete (cg_partiality g))"

definition goPathWithin :: "gostring \<Rightarrow> gostring \<Rightarrow> bool" where
  "goPathWithin p r = (to_lower p = to_lower r \<or> has_prefix (to_lower p) (to_lower r @ ''/''))"

definition scope_entry_counts :: "pkgKey \<Rightarrow> bool \<Rightarrow> gostring \<Rightarrow> bool" where
  "scope_entry_counts admitted isroot p =
    (if p = [] then isroot
     else case purlKey p of
       None \<Rightarrow> True
     | Some key \<Rightarrow>
         key = admitted \<or>
         (pk_typ key = ''golang'' \<and> pk_typ admitted = ''golang'' \<and>
          (goPathWithin (pk_name key) (pk_name admitted) \<or> goPathWithin (pk_name admitted) (pk_name key))))"

text \<open>The package is None when it did not resolve.\<close>

definition scopedLimitCounts :: "ScopedReason \<Rightarrow> pkgKey option \<Rightarrow> bool \<Rightarrow> bool" where
  "scopedLimitCounts r admitted isroot =
    (if length (sp_targets r) = 0 then True
     else case admitted of
       None \<Rightarrow> True
     | Some a \<Rightarrow> list_ex (scope_entry_counts a isroot) (sp_package r # sp_targets r))"

definition absent_symbols :: "run_store \<Rightarrow> bool" where
  "absent_symbols st =
    (case VulnerableSymbols st of
       None \<Rightarrow> False
     | Some res \<Rightarrow> length (targetConditionalAbsent (AdvisorySymbols (rs_case st))
         (AdvisoryTargetConditionalSymbols (rs_case st)) res) > 0)"

definition declared_reasons :: "run_store \<Rightarrow> Package option \<Rightarrow> gostring list" where
  "declared_reasons st pkg =
    (let flags = footprintPartialityFlags st;
         base = (if length flags = 0 then inventory_flags st else flags);
         admitted = map_option fst (admittedPackage st pkg)
     in base @ map sp_reason (filter (\<lambda>r. scopedLimitCounts r admitted (row_root pkg)) (footprintScoped st)))"

definition didNotRunReasons :: "run_store \<Rightarrow> Package option \<Rightarrow> gostring list" where
  "didNotRunReasons st pkg =
    filter (\<lambda>reason. \<not> (absent_symbols st \<and> reason = PartialReasonAdvisorySymbolUnresolved) \<and>
        ClassifyPartialityReason reason = PartialityDidNotRun)
      (declared_reasons st pkg)"

definition withoutVersionLimits :: "run_store \<Rightarrow> gostring list \<Rightarrow> gostring list" where
  "withoutVersionLimits st reasons = fold remove1 (inventory_flags st) reasons"

definition analysisDidNotRun :: "run_store \<Rightarrow> Package option \<Rightarrow> gostring option" where
  "analysisDidNotRun st pkg =
    (if emptyGraphUncalledComplete st then Some ReasonAnalysisDidNotRun
     else
       (let all = didNotRunReasons st pkg;
            kept = (if admittedPackage st pkg = None then withoutVersionLimits st all else all);
            versionHeld = (length kept < length all)
        in if length kept = 0 then None
           else if list_all (\<lambda>r. r = PartialReasonAdvisoryUnknownToAnalyzer) kept
             then (if versionHeld then None else Some ReasonAdvisoryUnknownToAnalyzer)
           else if list_all (\<lambda>r. r \<in> set refutationWithheldReasons) kept then Some ReasonRefutationWithheld
           else Some ReasonAnalysisDidNotRun))"

definition undeterminedReason :: "run_store \<Rightarrow> Package option \<Rightarrow> gostring option" where
  "undeterminedReason st pkg =
    (case toolchainUndetermined st of Some r \<Rightarrow> Some r | None \<Rightarrow> analysisDidNotRun st pkg)"

definition outsideBuildBlocked :: "run_store \<Rightarrow> Package option \<Rightarrow> bool" where
  "outsideBuildBlocked st pkg =
    (if toolchainUndetermined st \<noteq> None \<or> emptyGraphUncalledComplete st then True
     else list_ex (\<lambda>r. r \<notin> set outsideBuildExempt) (didNotRunReasons st pkg))"

section \<open>The row of an advisory\<close>

definition advisoryBounds :: "run_store \<Rightarrow> AdvisoryBound list" where
  "advisoryBounds st = map (\<lambda>b. \<lparr>ab_type = rb_type b, ab_introduced = rb_introduced b, ab_fixed = rb_fixed b,
     ab_lastAffected = rb_last b\<rparr>) (AdvisoryRecordedBounds (rs_case st))"

definition candidate_finding :: "run_store \<Rightarrow> Advisory \<Rightarrow> Package option \<Rightarrow> AdvisoryFinding" where
  "candidate_finding st adv pkg =
    (let shown = evidencePath st;
         path = reachableLabel st (map_option fst shown);
         (grade, entry, frames) = reachabilityEvidenceOn st shown;
         guards = guardsOnPath st frames;
         (trig, prereq) = advisoryPreconditions st
     in if AdvisoryRangeAbsent (rs_case st)
        then new_row adv pkg VerdictUndetermined ReasonAdvisoryRangeAbsent
          (no_evidence\<lparr>ev_detail := UndeterminedDetail ReasonAdvisoryRangeAbsent, ev_reachablePath := path,
             ev_entryPoint := entry, ev_callPath := frames, ev_mitigatingGuards := guards,
             ev_advisoryBounds := advisoryBounds st\<rparr>)
        else new_row adv pkg VerdictReachableCandidate []
          (no_evidence\<lparr>ev_reachablePath := path, ev_grade := grade, ev_entryPoint := entry, ev_callPath := frames,
             ev_mitigatingGuards := guards, ev_symbolConfidence := symbolConfidenceFor (advisorySymbolProvenance st),
             ev_exploitPreconditions := exploitPreconditionsFor trig prereq,
             ev_guardSufficiency := guardSufficiencyFor guards (advisoryGuardSufficiency st)\<rparr>))"

definition undetermined_finding :: "Advisory \<Rightarrow> Package option \<Rightarrow> gostring \<Rightarrow> AdvisoryFinding" where
  "undetermined_finding adv pkg reason =
    new_row adv pkg VerdictUndetermined reason (no_evidence\<lparr>ev_detail := UndeterminedDetail reason\<rparr>)"

text \<open>The default arm, from the reason undeterminedReason gave on.\<close>

definition grounded_finding ::
  "run_store \<Rightarrow> Advisory \<Rightarrow> Package option \<Rightarrow> goModules \<Rightarrow> gostring option \<Rightarrow> AdvisoryFinding" where
  "grounded_finding st adv pkg mods reason =
    (case reason of
       Some r \<Rightarrow> undetermined_finding adv pkg r
     | None \<Rightarrow>
         (case notExploitableGrounds st pkg mods of
            Inl r \<Rightarrow> undetermined_finding adv pkg r
          | Inr g \<Rightarrow> new_row adv pkg VerdictNotExploitable []
              (no_evidence\<lparr>ev_basis := gr_basis g, ev_detail := gr_detail g, ev_assumptions := gr_assumptions g\<rparr>)))"

definition default_finding :: "run_store \<Rightarrow> Advisory \<Rightarrow> Package option \<Rightarrow> goModules \<Rightarrow> AdvisoryFinding" where
  "default_finding st adv pkg mods =
    (if \<not> outsideBuildBlocked st pkg
     then (case outsideBuildGrounds st pkg mods of
             Inr detail \<Rightarrow> new_row adv None VerdictNotExploitable []
               (no_evidence\<lparr>ev_basis := BasisSymbolAbsent, ev_detail := detail\<rparr>)
           | Inl unvetted \<Rightarrow>
               grounded_finding st adv pkg mods (if unvetted \<noteq> [] then Some unvetted else undeterminedReason st pkg))
     else grounded_finding st adv pkg mods (undeterminedReason st pkg))"

definition findingInBuild :: "run_store \<Rightarrow> Advisory \<Rightarrow> Package option \<Rightarrow> goModules \<Rightarrow> AdvisoryFinding" where
  "findingInBuild st adv pkg mods =
    (let f =
       (case maliciousPresenceResult st of
          Some res \<Rightarrow> new_row adv pkg VerdictMaliciousPresent []
            (no_evidence\<lparr>ev_detail := maliciousPresentDetail (mp_matchedVersion res)\<rparr>)
        | None \<Rightarrow>
            if disqualified st then
              (let reason = snd (disqualResult st) in
               new_row adv pkg VerdictDisqualified []
                 (no_evidence\<lparr>ev_basis := disqualBasis reason, ev_detail := disqualDetail reason\<rparr>))
            else if hasCandidate st then candidate_finding st adv pkg
            else default_finding st adv pkg mods)
     in f\<lparr>af_annotations := finding_annotations st\<rparr>)"

definition finding :: "run_store \<Rightarrow> Advisory \<Rightarrow> Package option \<Rightarrow> AdvisoryFinding" where
  "finding st adv pkg = findingInBuild st adv pkg None"

section \<open>Scan-level notes\<close>

definition no_note :: PartialityNote where
  "no_note = \<lparr>pn_reason = [], pn_ecosystem = [], pn_detail = [], pn_package = [], pn_path = [], pn_targets = [],
     pn_class = [], pn_advisories = []\<rparr>"

definition toolchainLimitNote :: "gostring \<Rightarrow> PartialityNote" where
  "toolchainLimitNote reason = no_note\<lparr>pn_reason := reason, pn_ecosystem := ecosystemFor ''go''\<rparr>"

definition package_reasons :: "gostring list" where
  "package_reasons =
    [ReasonPackageVersionUnresolved, ReasonAdvisorySymbolAbsent, ReasonVulnerableSymbolUnresolved,
     ReasonAdvisorySymbolsUnvetted, ReasonAdvisoryRangeAbsent, ReasonDependencyNotFetched]"

definition limitNoteFor :: "AdvisoryFinding \<Rightarrow> PartialityNote option" where
  "limitNoteFor f =
    (if af_verdict f \<noteq> VerdictUndetermined \<or>
        af_undeterminedReason f = ReasonAnalysisDidNotRun \<or>
        af_undeterminedReason f = ReasonAdvisoryUnknownToAnalyzer \<or>
        af_undeterminedReason f = ReasonRefutationWithheld then None
     else if af_undeterminedReason f \<in> set package_reasons
       then Some (no_note\<lparr>pn_reason := af_undeterminedReason f,
         pn_ecosystem := (case af_package f of None \<Rightarrow> [] | Some p \<Rightarrow> pkg_ecosystem p)\<rparr>)
     else Some (toolchainLimitNote (af_undeterminedReason f)))"

definition partialityNotes :: "run_store \<Rightarrow> PartialityNote list" where
  "partialityNotes st =
    (let ecosystem = (case inv_of (rs_case st) of None \<Rightarrow> [] | Some i \<Rightarrow> ecosystemFor (inv_language i));
         notes = map (\<lambda>a. no_note\<lparr>pn_reason := an_reason a, pn_ecosystem := ecosystem, pn_path := an_path a,
           pn_detail := an_detail a\<rparr>) (finding_annotations st)
     in if disqualified st then notes
        else
          (let flags = footprintPartialityFlags st;
               reasons = (if length flags = 0 then inventory_flags st else flags)
           in notes @ map (\<lambda>r. no_note\<lparr>pn_reason := r, pn_ecosystem := ecosystem\<rparr>) reasons @
              map (\<lambda>r. no_note\<lparr>pn_reason := sp_reason r, pn_ecosystem := ecosystem, pn_package := sp_package r,
                pn_path := sp_path r\<rparr>) (footprintScoped st)))"

section \<open>The advisory and its package\<close>

record VulnRef =
  vr_id :: gostring
  vr_source :: gostring

definition cfamilyLanguage :: gostring where "cfamilyLanguage = ''cfamily''"

definition bare_package :: "gostring \<Rightarrow> gostring \<Rightarrow> gostring \<Rightarrow> Package" where
  "bare_package ecosystem name purl =
    \<lparr>pkg_ecosystem = ecosystem, pkg_name = name, pkg_version = [], pkg_purl = purl, pkg_direct = False,
     pkg_root = False, pkg_partialReason = [], pkg_replace = [], pkg_notInstalled = False\<rparr>"

definition cfamilyObservedPackage :: "gostring \<Rightarrow> gostring \<Rightarrow> run_store \<Rightarrow> inventory \<Rightarrow> Package list \<Rightarrow> Package" where
  "cfamilyObservedPackage name purl st i sbom =
    (let ecosystem = ecosystemFor (inv_language i);
         flags = inventory_flags st;
         pkg = bare_package ecosystem name purl
     in case find (\<lambda>f. has_prefix f PartialReasonSourceUnpinned) flags of
          None \<Rightarrow> (case flags of [] \<Rightarrow> pkg | f # _ \<Rightarrow> pkg\<lparr>pkg_partialReason := f\<rparr>)
        | Some reason \<Rightarrow>
            (let pkg = pkg\<lparr>pkg_partialReason := reason\<rparr>;
                 pins = remdups (map pkg_version
                   (filter (\<lambda>p. pkg_ecosystem p = ecosystem \<and> pkg_name p = name \<and> pkg_version p \<noteq> []) sbom))
             in if length pins = 1 then pkg\<lparr>pkg_version := hd pins\<rparr> else pkg))"

definition advisoryFromArtifacts :: "run_store \<Rightarrow> VulnRef \<Rightarrow> Package list \<Rightarrow> Advisory \<times> Package option" where
  "advisoryFromArtifacts st v sbom =
    (let adv0 = \<lparr>ad_id = vr_id v, ad_source = vr_source v, ad_aliases = []\<rparr> in
     case claims_of st of
       None \<Rightarrow> (adv0, None)
     | Some c \<Rightarrow>
         (let adv = adv0\<lparr>ad_aliases := ac_aliases c\<rparr>;
              name = fst (AdvisoryPackage (rs_case st)); purl = snd (AdvisoryPackage (rs_case st))
          in case inv_of (rs_case st) of
               None \<Rightarrow> (adv, None)
             | Some i \<Rightarrow>
                 if name = [] then (adv, None)
                 else if inv_resolvedVersion i = [] then
                   (if inv_language i = cfamilyLanguage
                    then (adv, Some (cfamilyObservedPackage name purl st i sbom))
                    else if length (inv_resolvedVersions i) > 0 \<and> \<not> ToolchainSubject (rs_case st)
                    then (adv, Some ((bare_package (ecosystemFor (inv_language i)) name purl)
                      \<lparr>pkg_root := RootSubject (rs_case st)\<rparr>))
                    else (adv, None))
                 else if ToolchainSubject (rs_case st) then (adv, None)
                 else (adv, Some ((bare_package (ecosystemFor (inv_language i)) name purl)
                   \<lparr>pkg_version := inv_resolvedVersion i, pkg_root := RootSubject (rs_case st)\<rparr>))))"

section \<open>A failed assessment\<close>

record assess_error =
  er_stage :: "gostring option"
  er_text :: gostring

definition failedStep :: "assess_error \<Rightarrow> gostring" where
  "failedStep e = (case er_stage e of Some s \<Rightarrow> if s \<noteq> [] then s else ''assess'' | None \<Rightarrow> ''assess'')"

definition assessFailureNote :: "VulnRef \<Rightarrow> assess_error \<Rightarrow> PartialityNote" where
  "assessFailureNote v e =
    no_note\<lparr>pn_reason := PartialReasonToolFailure, pn_detail := failedStep e @ '' ('' @ vr_id v @ '')''\<rparr>"

definition assessFailureFinding :: "VulnRef \<Rightarrow> assess_error \<Rightarrow> AdvisoryFinding" where
  "assessFailureFinding v e =
    new_row \<lparr>ad_id = vr_id v, ad_source = vr_source v, ad_aliases = []\<rparr> None VerdictUndetermined ReasonAnalysisDidNotRun
      (no_evidence\<lparr>ev_detail := ''the '' @ failedStep e @ '' step failed ('' @ er_text e @ ''), so no verdict was established''\<rparr>)"

section \<open>Every row the rule builds is valid\<close>

lemma new_row_fields [simp]:
  "af_advisory (new_row a p v r e) = a" "af_package (new_row a p v r e) = p" "af_verdict (new_row a p v r e) = v"
  "af_undeterminedReason (new_row a p v r e) = r" "af_evidence (new_row a p v r e) = e"
  "af_annotations (new_row a p v r e) = []" "af_priority (new_row a p v r e) = None"
  by (simp_all add: new_row_def)

lemma no_evidence_fields [simp]:
  "ev_basis no_evidence = BasisNone" "ev_assumptions no_evidence = []" "ev_grade no_evidence = []"
  "ev_advisoryBounds no_evidence = []" "ev_symbolConfidence no_evidence = []"
  "ev_exploitPreconditions no_evidence = None" "ev_guardSufficiency no_evidence = []"
  by (simp_all add: no_evidence_def)

lemma reasons_ne:
  "ReasonGoToolchainUnresolved \<noteq> []" "ReasonGoToolchainNotScanned \<noteq> []" "ReasonAnalysisDidNotRun \<noteq> []"
  "ReasonPackageVersionUnresolved \<noteq> []" "ReasonAdvisorySymbolAbsent \<noteq> []" "ReasonVulnerableSymbolUnresolved \<noteq> []"
  "ReasonAdvisorySymbolsUnvetted \<noteq> []" "ReasonAdvisoryUnknownToAnalyzer \<noteq> []" "ReasonRefutationWithheld \<noteq> []"
  "ReasonDependencyNotFetched \<noteq> []" "ReasonScanCutShort \<noteq> []"
  by (simp_all add: ReasonGoToolchainUnresolved_def ReasonGoToolchainNotScanned_def ReasonAnalysisDidNotRun_def
      ReasonPackageVersionUnresolved_def ReasonAdvisorySymbolAbsent_def ReasonVulnerableSymbolUnresolved_def
      ReasonAdvisorySymbolsUnvetted_def ReasonAdvisoryUnknownToAnalyzer_def ReasonRefutationWithheld_def
      ReasonDependencyNotFetched_def ReasonScanCutShort_def)

lemma undeterminedReason_ne: "undeterminedReason st pkg = Some r \<Longrightarrow> r \<noteq> []"
  by (auto simp: undeterminedReason_def toolchainUndetermined_def analysisDidNotRun_def Let_def reasons_ne
      split: if_splits option.splits)

lemma grounds_reason_ne: "notExploitableGrounds st pkg mods = Inl r \<Longrightarrow> r \<noteq> []"
  by (auto simp: notExploitableGrounds_def Let_def reasons_ne split: if_splits option.splits)

lemma outside_reason: "outsideBuildGrounds st pkg mods = Inl r \<Longrightarrow> r = [] \<or> r = ReasonAdvisorySymbolsUnvetted"
  by (auto simp: outsideBuildGrounds_def Let_def split: if_splits option.splits)

lemma undetermined_row_spec: "r \<noteq> [] \<Longrightarrow> row_spec (undetermined_finding adv pkg r)"
  by (simp add: row_spec_def undetermined_finding_def verdict_distinct candidate_only_def Verdict_Valid_def
      basis_distinct basis_distinct(1) [symmetric] Let_def verdict_distinct [symmetric])

lemma annotated_row_spec: "row_spec (f\<lparr>af_annotations := a\<rparr>) = row_spec f"
  by (simp add: row_spec_def)

lemma grade_of_evidence: "reachabilityEvidenceOn st shown = (grade, entry, frames) \<Longrightarrow> Grade_Valid grade"
  by (auto simp: reachabilityEvidenceOn_def Let_def Grade_Valid_def split: if_splits)

lemma confidence_valid: "SymbolConfidence_Valid (symbolConfidenceFor p)"
  by (simp add: symbolConfidenceFor_def SymbolConfidence_Valid_def)

lemma preconditions_ne: "exploitPreconditionsFor t p = Some e \<Longrightarrow> \<not> ExploitPreconditions_Empty e"
  by (auto simp: exploitPreconditionsFor_def Let_def split: if_splits)

lemma sufficiency_ok: "list_all (\<lambda>n. \<not> bad_sufficiency n) (guardSufficiencyFor gs ds)"
  by (auto simp: guardSufficiencyFor_def list_all_iff bad_sufficiency_def GuardSufficiency_Valid_def SufficiencyLabel_def)

lemma candidate_row_spec: "row_spec (candidate_finding st adv pkg)"
proof -
  obtain grade entry frames where e: "reachabilityEvidenceOn st (evidencePath st) = (grade, entry, frames)"
    by (rule prod_cases3)
  obtain trig prereq where p: "advisoryPreconditions st = (trig, prereq)" by (rule prod.exhaust)
  have pre: "case exploitPreconditionsFor trig prereq of None \<Rightarrow> True | Some x \<Rightarrow> \<not> ExploitPreconditions_Empty x"
    using preconditions_ne [of trig prereq] by (auto split: option.splits)
  show ?thesis
  proof (cases "AdvisoryRangeAbsent (rs_case st)")
    case True
    then show ?thesis
      by (simp add: candidate_finding_def e p Let_def row_spec_def verdict_distinct verdict_distinct(1) [symmetric]
          candidate_only_def Verdict_Valid_def basis_distinct basis_distinct(1) [symmetric])
  next
    case False
    then show ?thesis using pre
      by (simp add: candidate_finding_def e p Let_def row_spec_def verdict_distinct Verdict_Valid_def
          basis_distinct basis_distinct(1) [symmetric] grade_of_evidence [OF e] confidence_valid sufficiency_ok)
  qed
qed

lemma ne_row_spec:
  "row_spec (new_row adv pkg VerdictNotExploitable []
    (no_evidence\<lparr>ev_basis := b, ev_detail := d, ev_assumptions := a\<rparr>))"
  by (simp add: row_spec_def verdict_distinct verdict_distinct(1-3) [symmetric] candidate_only_def
      Verdict_Valid_def Let_def)

lemma ne_row_spec': "row_spec (new_row adv pkg VerdictNotExploitable [] (no_evidence\<lparr>ev_basis := b, ev_detail := d\<rparr>))"
  by (simp add: row_spec_def verdict_distinct verdict_distinct(1-3) [symmetric] candidate_only_def
      Verdict_Valid_def Let_def)

lemma grounded_row_spec:
  assumes "\<And>r. reason = Some r \<Longrightarrow> r \<noteq> []"
  shows "row_spec (grounded_finding st adv pkg mods reason)"
  using assms grounds_reason_ne [of st pkg mods] ne_row_spec
  by (auto simp: grounded_finding_def undetermined_row_spec split: option.split sum.split)

lemma default_row_spec: "row_spec (default_finding st adv pkg mods)"
  using undeterminedReason_ne [of st pkg]
  by (auto simp: default_finding_def ne_row_spec' intro!: grounded_row_spec split: sum.split)

lemma disqual_row_spec:
  "row_spec (new_row adv pkg VerdictDisqualified []
    (no_evidence\<lparr>ev_basis := disqualBasis reason, ev_detail := d\<rparr>))"
  by (simp add: row_spec_def verdict_distinct candidate_only_def Verdict_Valid_def Let_def disqualBasis_def
      BasisVersionNotAffected_def BasisSymbolAbsent_def BasisNone_def BasisSymbolUnreachable_def)

lemma malicious_row_spec: "row_spec (new_row adv pkg VerdictMaliciousPresent [] (no_evidence\<lparr>ev_detail := d\<rparr>))"
  by (simp add: row_spec_def verdict_distinct candidate_only_def Verdict_Valid_def Let_def
      basis_distinct(1) [symmetric])

lemma finding_row_spec: "row_spec (findingInBuild st adv pkg mods)"
  unfolding findingInBuild_def Let_def annotated_row_spec
  by (auto simp: malicious_row_spec disqual_row_spec candidate_row_spec default_row_spec split: option.split)

lemma finding_priority: "af_priority (findingInBuild st adv pkg mods) = None"
  by (simp add: findingInBuild_def Let_def candidate_finding_def default_finding_def grounded_finding_def
      undetermined_finding_def split: option.split sum.split prod.split)

section \<open>Properties\<close>

text \<open>C6: Whatever artifacts an assessment left behind, the row findingInBuild makes of them is one
  Validate accepts: one of the tool's verdicts, a reason exactly on an undetermined row, the
  unreachable basis and the assumptions only on not_exploitable, the candidate-only annotations only
  on a candidate, and no priority.\<close>
theorem finding_always_valid:
  "finding_error (findingInBuild st adv pkg mods) = None"
  by (simp add: finding_error_None row_error_None finding_row_spec finding_priority)

text \<open>C2: not_exploitable is never an absence of evidence. A row with that verdict comes from an
  assessment that is neither malicious, disqualified nor a candidate, and either (on the basis
  vulnerable_symbol_absent) no package the advisory names can be in the build and every module of
  the build's list was searched for the vetted symbols and declares none; or (on the basis
  vulnerable_symbol_unreachable) every step ran, the affected package's version resolved, the
  advisory names no other package, and the vetted symbols were found in that package and searched
  or the lane refuted that very package.\<close>
theorem not_exploitable_grounded:
  assumes "af_verdict (findingInBuild st adv pkg mods) = VerdictNotExploitable"
  shows "\<not> maliciousPresent st \<and> \<not> disqualified st \<and> \<not> hasCandidate st \<and>
    ((ev_basis (af_evidence (findingInBuild st adv pkg mods)) = BasisSymbolAbsent \<and>
      pkg = None \<and> outside_grounds st mods \<and> \<not> outsideBuildBlocked st pkg) \<or>
     (ev_basis (af_evidence (findingInBuild st adv pkg mods)) = BasisSymbolUnreachable \<and>
      undeterminedReason st pkg = None \<and>
      (\<exists>admitted label. admittedPackage st pkg = Some (admitted, label) \<and>
        \<not> namesOtherPackage (AdvisoryPackagePURLs (rs_case st)) admitted mods \<and>
        (vettedSymbols st \<and> searched_grounds st admitted (row_root pkg) \<or>
         refuted_grounds st admitted (row_root pkg)))))"
proof -
  have cand: "af_verdict (candidate_finding st adv pkg) \<noteq> VerdictNotExploitable"
    by (simp add: candidate_finding_def Let_def verdict_distinct split: prod.split)
  have und: "af_verdict (undetermined_finding adv p r) \<noteq> VerdictNotExploitable" for p r
    by (simp add: undetermined_finding_def verdict_distinct)
  have arms: "\<not> maliciousPresent st" "\<not> disqualified st" "\<not> hasCandidate st"
    using assms cand by (auto simp: findingInBuild_def maliciousPresent_def Let_def verdict_distinct split: option.splits if_splits)
  then have f: "findingInBuild st adv pkg mods = (default_finding st adv pkg mods)\<lparr>af_annotations := finding_annotations st\<rparr>"
    by (simp add: findingInBuild_def maliciousPresent_def)
  then have v: "af_verdict (default_finding st adv pkg mods) = VerdictNotExploitable" using assms by simp
  have g: "reason = None \<and> (\<exists>g. notExploitableGrounds st pkg mods = Inr g \<and>
      ev_basis (af_evidence (grounded_finding st adv pkg mods reason)) = gr_basis g)"
    if "af_verdict (grounded_finding st adv pkg mods reason) = VerdictNotExploitable" for reason
    using that und by (auto simp: grounded_finding_def split: option.splits sum.splits)
  show ?thesis
  proof (cases "\<not> outsideBuildBlocked st pkg \<and> (\<exists>d. outsideBuildGrounds st pkg mods = Inr d)")
    case True
    then obtain d where d: "outsideBuildGrounds st pkg mods = Inr d" by blast
    have "ev_basis (af_evidence (findingInBuild st adv pkg mods)) = BasisSymbolAbsent"
      using f True d by (simp add: default_finding_def)
    then show ?thesis using arms True outsideBuildGrounds_Inr [OF d] by blast
  next
    case False
    have dg: "\<exists>reason. default_finding st adv pkg mods = grounded_finding st adv pkg mods reason \<and>
        (reason = None \<longrightarrow> undeterminedReason st pkg = None)"
      using False by (cases "outsideBuildGrounds st pkg mods") (auto simp: default_finding_def)
    then obtain reason where r: "default_finding st adv pkg mods = grounded_finding st adv pkg mods reason"
      "reason = None \<longrightarrow> undeterminedReason st pkg = None" by blast
    with v g [of reason] obtain gr where gr: "reason = None" "notExploitableGrounds st pkg mods = Inr gr"
      "ev_basis (af_evidence (grounded_finding st adv pkg mods reason)) = gr_basis gr" by auto
    have "ev_basis (af_evidence (findingInBuild st adv pkg mods)) = gr_basis gr" using f r(1) gr(3) by simp
    then show ?thesis using arms r(2) gr notExploitableGrounds_Inr [OF gr(2)] by auto
  qed
qed

definition sample_ne_case :: case_store where
  "sample_ne_case = \<lparr>st_inventory = Payload (sample_inventory\<lparr>inv_resolvedVersion := ''2.1.0''\<rparr>),
     st_advisory = Payload (sample_advisory\<lparr>adv_symbols := [''template'']\<rparr>), st_discovery = NoArtifact\<rparr>"

definition sample_ne_run :: run_store where
  "sample_ne_run = sample_run\<lparr>rs_case := sample_ne_case,
     rs_symbols := Payload \<lparr>sr_partiality = \<lparr>pa_complete = True, pa_reasons = [], pa_scoped = []\<rparr>,
       sr_origins = [(''lib t().'', ''pkg:npm/lodash'')], sr_matched = [(''template'', [''lib t().''])],
       sr_moduleSearch = None\<rparr>,
     rs_reachability := Payload \<lparr>rr_result = Some (zero_reach\<lparr>re_searched := [''lib t().'']\<rparr>),
       rr_callGraph = Some sample_graph, rr_toolchainScan = None\<rparr>,
     rs_pairs := Some []\<rparr>"

definition sample_ne_package :: Package where
  "sample_ne_package = (bare_package ''npm'' ''lodash'' ''pkg:npm/lodash'')\<lparr>pkg_version := ''2.1.0''\<rparr>"

definition sample_adv :: Advisory where
  "sample_adv = \<lparr>ad_id = ''CVE-1'', ad_source = ''osv'', ad_aliases = []\<rparr>"

lemma sample_ne: "af_verdict (findingInBuild sample_ne_run sample_adv (Some sample_ne_package) None) = VerdictNotExploitable"
  by code_simp

theorem not_exploitable_grounded_witness:
  "\<exists>admitted label. admittedPackage sample_ne_run (Some sample_ne_package) = Some (admitted, label) \<and>
     (vettedSymbols sample_ne_run \<and> searched_grounds sample_ne_run admitted False \<or>
      refuted_grounds sample_ne_run admitted False)"
proof -
  have root: "row_root (Some sample_ne_package) = False" by code_simp
  from not_exploitable_grounded [OF sample_ne] show ?thesis unfolding root by blast
qed

end
