(* ===== verification/Trigger_Scan.thy ===== *)
theory Trigger_Scan
  imports Trigger_Finding Statestore
begin

text \<open>
  What a scan does around the verdict rule: the admission gate (src/trigger/admission.go), the
  projection of a dependency inventory to the SBOM and the limits it puts on rows
  (inventory_sbom.go), the rows and counts of a scan cut short (cutshort.go), and the withholding of
  verdicts reached without dependency code (not_fetched.go) with its Remerge hook. A Go map that is
  only read is a function or an association list; sort.Slice is modelled stably. The lemmas: the
  gate drops nothing, a limit only ever withholds, and the hook keeps what a store must keep.
\<close>

section \<open>Admission\<close>

definition BandUnknown :: gostring where "BandUnknown = []"
definition BandImmediate :: gostring where "BandImmediate = ''immediate''"
definition BandStandard :: gostring where "BandStandard = ''standard''"
definition BandDeferred :: gostring where "BandDeferred = ''deferred''"
definition BandExcluded :: gostring where "BandExcluded = ''excluded''"

datatype Admission = AdmitNow | AdmitDefer | AdmitSkip

record ScheduledAdvisory =
  sa_vuln :: VulnRef
  sa_band :: gostring

record AdmissionResult =
  ar_admitted :: "VulnRef list"
  ar_deferred :: "gostring list"
  ar_skipped :: "gostring list"

definition admit :: "gostring \<Rightarrow> Admission" where
  "admit band =
    (if band = BandDeferred then AdmitDefer
     else if band = BandExcluded then AdmitSkip
     else AdmitNow)"

definition bandRank :: "gostring \<Rightarrow> nat" where
  "bandRank band = (if band = BandImmediate then 0 else 1)"

text \<open>The entries \<open>ranked\<close>: rank, index and advisory, sorted by the first two.\<close>

definition ranked :: "ScheduledAdvisory list \<Rightarrow> (nat \<times> nat \<times> VulnRef) list" where
  "ranked scheduled =
    map (\<lambda>(i, s). (bandRank (sa_band s), i, sa_vuln s))
      (filter (\<lambda>(i, s). admit (sa_band s) = AdmitNow) (enumerate 0 scheduled))"

definition admitAdvisories :: "ScheduledAdvisory list \<Rightarrow> AdmissionResult" where
  "admitAdvisories scheduled =
    \<lparr>ar_admitted = map (\<lambda>(r, i, v). v) (sort_key (\<lambda>(r, i, v). (r, i)) (ranked scheduled)),
     ar_deferred = map (\<lambda>s. vr_id (sa_vuln s)) (filter (\<lambda>s. admit (sa_band s) = AdmitDefer) scheduled),
     ar_skipped = map (\<lambda>s. vr_id (sa_vuln s)) (filter (\<lambda>s. admit (sa_band s) = AdmitSkip) scheduled)\<rparr>"

text \<open>An id without a band reads as the empty band.\<close>

definition scheduleFor :: "VulnRef list \<Rightarrow> (gostring \<rightharpoonup> gostring) \<Rightarrow> ScheduledAdvisory list" where
  "scheduleFor advisories bands =
    map (\<lambda>v. \<lparr>sa_vuln = v, sa_band = (case bands (vr_id v) of None \<Rightarrow> BandUnknown | Some b \<Rightarrow> b)\<rparr>) advisories"

text \<open>The order of the gate: the immediate cases first, each group in the order it came.\<close>

definition rank_key :: "nat \<times> nat \<times> VulnRef \<Rightarrow> nat \<times> nat" where
  "rank_key x = (fst x, fst (snd x))"

lemma ranked_index: "sorted_wrt (\<lambda>x y. fst (snd x) < fst (snd y)) (ranked scheduled)"
proof -
  have "sorted_wrt (<) (map fst (enumerate 0 scheduled))" by (simp add: sorted_wrt_upt)
  then have "sorted_wrt (\<lambda>x y. fst x < fst y) (enumerate 0 scheduled)"
    by (simp only: sorted_wrt_map)
  then have "sorted_wrt (\<lambda>x y. fst x < fst y) (filter (\<lambda>(i, s). admit (sa_band s) = AdmitNow) (enumerate 0 scheduled))"
    by (rule sorted_wrt_filter)
  then show ?thesis by (simp add: ranked_def sorted_wrt_map case_prod_beta)
qed

lemma ranked_two: "x \<in> set (ranked scheduled) \<Longrightarrow> fst x = 0 \<or> fst x = 1"
  by (auto simp: ranked_def bandRank_def split: if_splits)

lemma sort_two_groups:
  assumes "sorted_wrt (\<lambda>x y. fst (snd x) < fst (snd y)) xs" and "\<forall>x\<in>set xs. fst x = 0 \<or> fst x = (1 :: nat)"
  shows "sort_key rank_key xs = filter (\<lambda>x. fst x = 0) xs @ filter (\<lambda>x. fst x = 1) xs"
proof -
  let ?t = "filter (\<lambda>x. fst x = 0) xs @ filter (\<lambda>x. fst x = 1) xs"
  have g: "filter (\<lambda>x. fst x = 1) xs = filter (\<lambda>x. \<not> fst x = 0) xs"
    using assms(2) by (intro filter_cong) auto
  have m: "mset ?t = mset xs" unfolding g by (simp add: mset_filter multiset_partition [symmetric])
  have inj: "inj_on rank_key (set xs)"
  proof (rule inj_onI)
    fix x y assume x: "x \<in> set xs" and y: "y \<in> set xs" and e: "rank_key x = rank_key y"
    then obtain i j where i: "i < length xs" "x = xs ! i" and j: "j < length xs" "y = xs ! j" by (metis in_set_conv_nth)
    have eq: "fst (snd (xs ! i)) = fst (snd (xs ! j))" using e i(2) j(2) by (simp add: rank_key_def)
    have "\<not> i < j" "\<not> j < i"
      using sorted_wrt_nth_less [OF assms(1), of i j] sorted_wrt_nth_less [OF assms(1), of j i] i(1) j(1) eq by auto
    then have "i = j" by simp
    then show "x = y" using i j by simp
  qed
  have le: "sorted_wrt (\<lambda>x y. fst (snd x) \<le> fst (snd y)) xs"
    using assms(1) by (rule sorted_wrt_mono_rel [rotated]) simp
  have part: "sorted (map rank_key (filter (\<lambda>x. fst x = k) xs))" for k
    using sorted_wrt_filter [OF le, of "\<lambda>x. fst x = k"]
    by (auto simp: sorted_wrt_map rank_key_def elim: sorted_wrt_mono_rel [rotated])
  have "sorted (map rank_key ?t)"
    using part [of 0] part [of 1] by (auto simp: sorted_append rank_key_def)
  then have "sort_key rank_key ?t = ?t" by (rule sort_key_id_if_sorted)
  moreover have "sort_key rank_key xs = sort_key rank_key ?t"
    using inj m by (intro sort_key_canonical) simp_all
  ultimately show ?thesis by simp
qed

lemma ranked_group:
  "map (\<lambda>x. snd (snd x)) (filter (\<lambda>x. fst x = k) (ranked scheduled)) =
    map sa_vuln (filter (\<lambda>s. admit (sa_band s) = AdmitNow \<and> bandRank (sa_band s) = k) scheduled)"
proof -
  have "map snd (filter (P \<circ> snd) (enumerate n scheduled)) = filter P scheduled" for P n
    by (induction scheduled arbitrary: n) auto
  from this [of "\<lambda>s. admit (sa_band s) = AdmitNow \<and> bandRank (sa_band s) = k" 0]
  have "map sa_vuln (map snd (filter (\<lambda>x. admit (sa_band (snd x)) = AdmitNow \<and> bandRank (sa_band (snd x)) = k)
      (enumerate 0 scheduled))) =
    map sa_vuln (filter (\<lambda>s. admit (sa_band s) = AdmitNow \<and> bandRank (sa_band s) = k) scheduled)"
    by (simp add: comp_def)
  then show ?thesis by (simp add: ranked_def filter_map comp_def case_prod_beta conj_commute)
qed

lemma admitted_groups:
  "ar_admitted (admitAdvisories scheduled) =
    map sa_vuln (filter (\<lambda>s. sa_band s = BandImmediate) scheduled) @
    map sa_vuln (filter (\<lambda>s. admit (sa_band s) = AdmitNow \<and> sa_band s \<noteq> BandImmediate) scheduled)"
proof -
  have k: "(\<lambda>(r, i, v). (r, i)) = rank_key" "(\<lambda>(r, i, v). v) = (\<lambda>x. snd (snd x))"
    by (auto simp: rank_key_def)
  have i: "admit s = AdmitNow \<and> bandRank s = 0 \<longleftrightarrow> s = BandImmediate" for s
    by (auto simp: admit_def bandRank_def BandImmediate_def BandDeferred_def BandExcluded_def)
  have n: "admit s = AdmitNow \<and> bandRank s = Suc 0 \<longleftrightarrow> admit s = AdmitNow \<and> s \<noteq> BandImmediate" for s
    by (auto simp: bandRank_def)
  show ?thesis
    unfolding admitAdvisories_def AdmissionResult.simps k
    by (subst sort_two_groups [OF ranked_index]) (use ranked_two in \<open>simp_all add: ranked_group i n\<close>)
qed

text \<open>The admission gate loses nothing and decides nothing else: the admitted advisories, the
  deferred ids and the skipped ids partition the input; an advisory is held back only by the bands
  deferred and excluded, so an absent or unknown band is admitted; the immediate ones come first,
  each group in input order; and without bands the whole input is admitted in its order.\<close>
theorem admission_partition:
  "mset (map vr_id (ar_admitted (admitAdvisories scheduled))) + mset (ar_deferred (admitAdvisories scheduled)) +
     mset (ar_skipped (admitAdvisories scheduled)) = mset (map (vr_id \<circ> sa_vuln) scheduled) \<and>
   ar_admitted (admitAdvisories scheduled) =
     map sa_vuln (filter (\<lambda>s. sa_band s = BandImmediate) scheduled) @
     map sa_vuln (filter (\<lambda>s. sa_band s \<notin> {BandImmediate, BandDeferred, BandExcluded}) scheduled) \<and>
   admitAdvisories (scheduleFor advisories Map.empty) =
     \<lparr>ar_admitted = advisories, ar_deferred = [], ar_skipped = []\<rparr>"
proof (intro conjI)
  have d: "admit b = AdmitNow \<and> b \<noteq> BandImmediate \<longleftrightarrow> b \<notin> {BandImmediate, BandDeferred, BandExcluded}" for b
    by (auto simp: admit_def)
  show a: "ar_admitted (admitAdvisories scheduled) =
     map sa_vuln (filter (\<lambda>s. sa_band s = BandImmediate) scheduled) @
     map sa_vuln (filter (\<lambda>s. sa_band s \<notin> {BandImmediate, BandDeferred, BandExcluded}) scheduled)" for scheduled
    unfolding admitted_groups d ..
  show "mset (map vr_id (ar_admitted (admitAdvisories scheduled))) + mset (ar_deferred (admitAdvisories scheduled)) +
     mset (ar_skipped (admitAdvisories scheduled)) = mset (map (vr_id \<circ> sa_vuln) scheduled)"
    unfolding a
    by (induction scheduled)
      (auto simp: admitAdvisories_def admit_def BandImmediate_def BandDeferred_def BandExcluded_def)
  have "ar_admitted (admitAdvisories (scheduleFor advisories Map.empty)) = advisories"
    unfolding a by (simp add: scheduleFor_def BandUnknown_def BandImmediate_def BandDeferred_def BandExcluded_def
        comp_def filter_map)
  then show "admitAdvisories (scheduleFor advisories Map.empty) =
     \<lparr>ar_admitted = advisories, ar_deferred = [], ar_skipped = []\<rparr>"
    by (simp add: admitAdvisories_def scheduleFor_def admit_def BandUnknown_def BandDeferred_def BandExcluded_def
        filter_empty_conv)
qed

section \<open>The inventory's SBOM\<close>

record DependencyNode =
  dn_id :: gostring
  dn_purl :: gostring
  dn_version :: gostring
  dn_direct :: bool
  dn_replace :: gostring
  dn_notInstalled :: bool
  dn_partiality :: Partiality

record DependencyInventory =
  di_partiality :: Partiality
  di_nodes :: "DependencyNode list"
  di_edges :: "(gostring \<times> gostring) list"
  di_buildList :: gostring
  di_mainModule :: gostring
  di_workspaceModules :: "gostring list"

definition purlTypeToEcosystem :: "gostring \<Rightarrow> gostring \<Rightarrow> gostring" where
  "purlTypeToEcosystem ptype fallback =
    (if ptype = ''golang'' then ''Go''
     else if ptype = ''maven'' then ''Maven''
     else if ptype = ''npm'' then ''npm''
     else if ptype = ''pypi'' then ''PyPI''
     else if ptype = ''nuget'' then ''NuGet''
     else if fallback \<noteq> [] then fallback else ptype)"

definition ecosystemAndNameFromPURL :: "gostring \<Rightarrow> gostring \<Rightarrow> gostring \<times> gostring" where
  "ecosystemAndNameFromPURL purl fallback =
    (if \<not> has_prefix purl ''pkg:'' then (fallback, [])
     else
       (let b1 = cut_any ''?#'' (drop 4 purl);
            b2 = (case last_index_byte b1 CHR ''@'' of None \<Rightarrow> b1 | Some i \<Rightarrow> take i b1)
        in case index_byte b2 CHR ''/'' of
             None \<Rightarrow> (fallback, [])
           | Some i \<Rightarrow>
               (let ptype = take i b2; name = drop (i + 1) b2;
                    name = (if ptype = ''maven''
                            then (case go_cut name ''/'' of None \<Rightarrow> name | Some (g, a) \<Rightarrow> g @ '':'' @ a) else name)
                in (purlTypeToEcosystem ptype fallback, name))))"

definition node_package :: "gostring \<Rightarrow> DependencyNode \<Rightarrow> Package" where
  "node_package ecosystem n =
    (case ecosystemAndNameFromPURL (dn_purl n) ecosystem of (eco, name) \<Rightarrow>
      \<lparr>pkg_ecosystem = eco, pkg_name = name, pkg_version = dn_version n, pkg_purl = dn_purl n, pkg_direct = dn_direct n,
       pkg_root = False,
       pkg_partialReason =
         (if \<not> pa_complete (dn_partiality n) \<and> length (pa_reasons (dn_partiality n)) > 0
          then hd (pa_reasons (dn_partiality n)) else []),
       pkg_replace = dn_replace n, pkg_notInstalled = dn_notInstalled n\<rparr>)"

text \<open>One package per key: the first instance stands, installed when any instance is.\<close>

fun add_instance :: "Package \<Rightarrow> Package list \<Rightarrow> Package list" where
  "add_instance p [] = [p]"
| "add_instance p (q # qs) =
    (if Package_Key q = Package_Key p
     then q\<lparr>pkg_notInstalled := (pkg_notInstalled q \<and> pkg_notInstalled p)\<rparr> # qs
     else q # add_instance p qs)"

definition collapse :: "gostring \<Rightarrow> DependencyNode list \<Rightarrow> Package list" where
  "collapse ecosystem ns = fold (\<lambda>n pkgs. add_instance (node_package ecosystem n) pkgs) ns []"

definition key_by_id :: "gostring \<Rightarrow> DependencyNode list \<Rightarrow> (gostring \<times> gostring) list" where
  "key_by_id ecosystem ns = rev (map (\<lambda>n. (dn_id n, Package_Key (node_package ecosystem n))) ns)"

definition edge_relationship :: "(gostring \<times> gostring) list \<Rightarrow> gostring \<times> gostring \<Rightarrow> Relationship option" where
  "edge_relationship keys e =
    (case (map_of keys (fst e), map_of keys (snd e)) of
       (Some p, Some c) \<Rightarrow> Some \<lparr>rel_parent = p, rel_child = c\<rparr>
     | _ \<Rightarrow> None)"

definition inventoryLimitDetail :: gostring where
  "inventoryLimitDetail =
    ''dependency inventory not fully resolved; the SBOM may omit packages for this ecosystem''"

definition inventoryPartialityNotes :: "Partiality \<Rightarrow> gostring \<Rightarrow> PartialityNote list" where
  "inventoryPartialityNotes p ecosystem =
    (if pa_complete p then []
     else
       (let reasons = fold (\<lambda>sr rs. if sp_reason sr \<in> set rs then rs else rs @ [sp_reason sr]) (pa_scoped p) (pa_reasons p);
            reasons = (if length reasons = 0 then [ReasonUnspecifiedLimit] else reasons);
            scoped = (\<lambda>r. filter (\<lambda>sr. sp_reason sr = r) (pa_scoped p));
            unbounded = (\<lambda>r. r \<in> set (pa_reasons p) \<or> list_ex (\<lambda>sr. length (sp_targets sr) = 0) (scoped r))
        in map (\<lambda>r. no_note\<lparr>pn_reason := r, pn_ecosystem := ecosystem, pn_detail := inventoryLimitDetail,
             pn_path := go_join (filter (\<lambda>x. x \<noteq> []) (map sp_path (scoped r))) '', '',
             pn_targets := (if unbounded r then [] else remdups_adj (sort (concat (map sp_targets (scoped r)))))\<rparr>) reasons))"

definition sbomFromInventory :: "DependencyInventory \<Rightarrow> gostring \<Rightarrow> SBOM \<times> PartialityNote list" where
  "sbomFromInventory i ecosystem =
    (let keys = key_by_id ecosystem (di_nodes i);
         isgo = (ecosystem = ''Go'')
     in (\<lparr>sb_packages = sort_key pkg_key (collapse ecosystem (di_nodes i)),
          sb_relationships = sort_key rel_key (first_seen [] (List.map_filter (edge_relationship keys) (di_edges i))),
          sb_goBuildList = (if isgo then di_buildList i else []),
          sb_goMainModule = (if isgo then di_mainModule i else []),
          sb_goWorkspaceModules = (if isgo then di_workspaceModules i else [])\<rparr>,
         inventoryPartialityNotes (di_partiality i) ecosystem))"

section \<open>Inventory limits on a row\<close>

definition inventoryLimits :: "PartialityNote list \<Rightarrow> PartialityNote list" where
  "inventoryLimits notes = filter (\<lambda>n. pn_detail n = inventoryLimitDetail) notes"

definition restsOnInventory :: "AdvisoryFinding \<Rightarrow> bool" where
  "restsOnInventory f =
    (if af_verdict f \<noteq> VerdictDisqualified then False
     else ev_basis (af_evidence f) = BasisVersionNotAffected \<or>
       ev_detail (af_evidence f) = disqualDetail ReasonNoManifestEntry)"

text \<open>None is the result known = false.\<close>

fun all_keys :: "gostring list \<Rightarrow> pkgKey list option" where
  "all_keys [] = Some []"
| "all_keys (p # ps) =
    (case purlKey p of None \<Rightarrow> None | Some k \<Rightarrow> map_option ((#) k) (all_keys ps))"

definition rowKeys :: "Package option \<Rightarrow> gostring list \<Rightarrow> pkgKey list option" where
  "rowKeys pkg purls =
    (if length purls = 0 then None
     else case all_keys purls of
       None \<Rightarrow> None
     | Some keys \<Rightarrow>
         (case pkg of
            None \<Rightarrow> Some keys
          | Some p \<Rightarrow>
              (case purlKey (pkg_purl p) of
                 Some k \<Rightarrow> Some (keys @ [k])
               | None \<Rightarrow>
                   (case purlTypeFor (pkg_ecosystem p) of
                      None \<Rightarrow> None
                    | Some typ \<Rightarrow>
                        if pkg_name p = [] then None
                        else Some (keys @ [\<lparr>pk_typ = typ, pk_name = normalizePackageName typ (pkg_name p)\<rparr>])))))"

definition limitCovers :: "PartialityNote \<Rightarrow> pkgKey list option \<Rightarrow> bool" where
  "limitCovers n keys =
    (case keys of
       None \<Rightarrow> True
     | Some ks \<Rightarrow>
         if length (pn_targets n) = 0 then True
         else list_ex (\<lambda>k. scopedLimitCounts
           \<lparr>sp_reason = [], sp_package = [], sp_path = [], sp_targets = pn_targets n\<rparr> (Some k) False) ks)"

definition limit_applies :: "AdvisoryFinding \<Rightarrow> pkgKey list option \<Rightarrow> PartialityNote \<Rightarrow> bool" where
  "limit_applies f keys n =
    (\<not> (pn_ecosystem n \<noteq> [] \<and> (case af_package f of None \<Rightarrow> False | Some p \<Rightarrow> pn_ecosystem n \<noteq> pkg_ecosystem p)) \<and>
     ClassifyPartialityReason (pn_reason n) = PartialityDidNotRun \<and> limitCovers n keys)"

definition withheld :: "gostring \<Rightarrow> AdvisoryFinding \<Rightarrow> AdvisoryFinding" where
  "withheld reason f =
    f\<lparr>af_verdict := VerdictUndetermined, af_undeterminedReason := reason,
      af_evidence := no_evidence\<lparr>ev_detail := UndeterminedDetail reason\<rparr>\<rparr>"

definition limit_exposed :: "AdvisoryFinding \<Rightarrow> bool" where
  "limit_exposed f =
    ((af_verdict f = VerdictNotExploitable \<or> restsOnInventory f) \<and>
     (af_package f \<noteq> None \<or>
      af_verdict f = VerdictDisqualified \<and> ev_detail (af_evidence f) = disqualDetail ReasonNoManifestEntry))"

definition withInventoryLimits ::
  "AdvisoryFinding \<Rightarrow> PartialityNote list \<Rightarrow> gostring list \<Rightarrow> AdvisoryFinding" where
  "withInventoryLimits f limits purls =
    (if \<not> limit_exposed f then f
     else if list_ex (limit_applies f (rowKeys (af_package f) purls)) limits
     then withheld ReasonAnalysisDidNotRun f else f)"

definition sameLimit :: "PartialityNote \<Rightarrow> PartialityNote \<Rightarrow> bool" where
  "sameLimit a b =
    (pn_reason a = pn_reason b \<and> pn_ecosystem a = pn_ecosystem b \<and> pn_detail a = pn_detail b \<and>
     pn_package a = pn_package b \<and> pn_path a = pn_path b \<and> pn_targets a = pn_targets b)"

definition inheritedLimits :: "PartialityNote list \<Rightarrow> Report option \<Rightarrow> PartialityNote list" where
  "inheritedLimits head base =
    (let carried = (case base of None \<Rightarrow> [] | Some r \<Rightarrow> inventoryLimits (rp_partiality r)) in
     filter (\<lambda>n. \<not> (length (pn_targets n) > 0 \<and> list_ex (sameLimit n) carried)) head)"

section \<open>A scan cut short\<close>

definition vuln_row :: "VulnRef \<Rightarrow> Advisory" where
  "vuln_row v = \<lparr>ad_id = vr_id v, ad_source = vr_source v, ad_aliases = []\<rparr>"

definition cutShortFinding :: "VulnRef \<Rightarrow> AdvisoryFinding" where
  "cutShortFinding v =
    new_row (vuln_row v) None VerdictUndetermined ReasonScanCutShort
      (no_evidence\<lparr>ev_detail := ''the scan stopped before this advisory was assessed''\<rparr>)"

definition cutShortCountSep :: gostring where
  "cutShortCountSep = '' advisories were not assessed: ''"

definition cutShortNote :: "nat \<Rightarrow> nat \<Rightarrow> gostring \<Rightarrow> PartialityNote" where
  "cutShortNote cuts tot cause =
    no_note\<lparr>pn_reason := ReasonScanCutShort,
      pn_detail := show_nat cuts @ '' of '' @ show_nat tot @ cutShortCountSep @ cause\<rparr>"

definition isCutShortCount :: "PartialityNote \<Rightarrow> bool" where
  "isCutShortCount n = (pn_reason n = ReasonScanCutShort \<and> go_contains (pn_detail n) cutShortCountSep)"

definition withoutCutShortCount :: "PartialityNote list \<Rightarrow> PartialityNote list" where
  "withoutCutShortCount notes = filter (\<lambda>n. \<not> isCutShortCount n) notes"

text \<open>The first carried note of that shape gives the cause, when the pass has none of its own.\<close>

definition carried_cause :: "PartialityNote \<Rightarrow> gostring \<Rightarrow> gostring" where
  "carried_cause n cause =
    (case go_cut (pn_detail n) cutShortCountSep of
       None \<Rightarrow> cause
     | Some (a, c) \<Rightarrow> if cause = [] \<and> pn_reason n = ReasonScanCutShort then c else cause)"

definition recountCutShort :: "AdvisoryFinding list \<Rightarrow> PartialityNote list \<Rightarrow> gostring \<Rightarrow> PartialityNote option" where
  "recountCutShort rows old cause =
    (let cuts = length (filter (\<lambda>f. af_undeterminedReason f = ReasonScanCutShort) rows) in
     if cuts = 0 then None
     else
       (let c = fold carried_cause old cause;
            c = (if c = [] then ''an earlier scan was cut short'' else c)
        in Some (cutShortNote cuts (length rows) c)))"

definition priorSBOMNote :: PartialityNote where
  "priorSBOMNote =
    no_note\<lparr>pn_reason := ReasonScanCutShort,
      pn_detail := ''the scan stopped before the dependency inventory was resolved; the SBOM is from the last baseline that resolved it, kept so CVE-watch still queries it''\<rparr>"

definition hasCutShort :: "PartialityNote list \<Rightarrow> bool" where
  "hasCutShort notes = list_ex (\<lambda>n. pn_reason n = ReasonScanCutShort) notes"

definition inventoryCutShort :: "PartialityNote list \<Rightarrow> bool" where
  "inventoryCutShort notes =
    list_ex (\<lambda>n. pn_reason n = ReasonScanCutShort \<and> pn_detail n = inventoryLimitDetail) notes"

definition ownStop :: "gostring \<Rightarrow> nat \<Rightarrow> gostring" where
  "ownStop stop cuts = (if cuts = 0 then [] else stop)"

section \<open>Verdicts reached without dependency code\<close>

definition listedNotFetched :: "AdvisoryFinding \<Rightarrow> gostring list \<Rightarrow> bool" where
  "listedNotFetched f reassess =
    (ad_id (af_advisory f) \<in> set reassess \<or>
     list_ex (\<lambda>a. a \<in> set reassess) (ad_aliases (af_advisory f)))"

definition refuting :: "AdvisoryFinding \<Rightarrow> bool" where
  "refuting f = (af_verdict f = VerdictDisqualified \<or> af_verdict f = VerdictNotExploitable)"

definition withhold_row :: "gostring list \<Rightarrow> AdvisoryFinding \<Rightarrow> AdvisoryFinding" where
  "withhold_row reassess f =
    (if refuting f \<and> listedNotFetched f reassess then withheld ReasonDependencyNotFetched f else f)"

text \<open>None is the error result.\<close>

definition withNotFetched :: "Report \<Rightarrow> DepFetch option \<Rightarrow> Report option" where
  "withNotFetched rep dep =
    (let rows = map (withhold_row (reassess_of dep)) (rp_advisories rep);
         notes = List.map_filter limitNoteFor
           (filter (\<lambda>f. af_undeterminedReason f = ReasonDependencyNotFetched) rows);
         out = SetAdvisories rep rows;
         out = out\<lparr>rp_partiality := filter (\<lambda>n. pn_reason n \<noteq> ReasonDependencyNotFetched) (rp_partiality rep)\<rparr>;
         out = Report_AddPartiality out notes
     in if Report_Validate out \<noteq> None then None else Some out)"

definition remergeNotFetched :: "State \<Rightarrow> State option" where
  "remergeNotFetched s =
    (case ss_report s of
       None \<Rightarrow> Some s
     | Some r \<Rightarrow> (case withNotFetched r (ss_depFetch s) of
                    None \<Rightarrow> None
                  | Some rep \<Rightarrow> Some (s\<lparr>ss_report := Some rep\<rparr>)))"

definition osvSource :: gostring where "osvSource = ''osv''"

text \<open>The key an advisory's row is merged by: id and source around a zero byte.\<close>

definition id_key :: "gostring \<Rightarrow> gostring \<Rightarrow> gostring" where
  "id_key i source = i @ [CHR 0x00] @ source"

definition merge_key :: "AdvisoryFinding \<Rightarrow> gostring" where
  "merge_key f = id_key (ad_id (af_advisory f)) (ad_source (af_advisory f))"

fun retry_rows :: "gostring list \<Rightarrow> gostring list \<Rightarrow> gostring list \<Rightarrow> AdvisoryFinding list \<Rightarrow> AdvisoryFinding list" where
  "retry_rows reassess newIDs seen [] = []"
| "retry_rows reassess newIDs seen (f # fs) =
    (if af_undeterminedReason f \<noteq> ReasonDependencyNotFetched \<and> \<not> listedNotFetched f reassess
     then retry_rows reassess newIDs seen fs
     else if merge_key f \<in> set seen \<or>
         (ad_source (af_advisory f) = osvSource \<and> ad_id (af_advisory f) \<in> set newIDs)
     then retry_rows reassess newIDs seen fs
     else f # retry_rows reassess newIDs (merge_key f # seen) fs)"

definition notFetchedRetry :: "Report \<Rightarrow> DepFetch option \<Rightarrow> gostring list \<Rightarrow> AdvisoryFinding list" where
  "notFetchedRetry prior dep newIDs = retry_rows (reassess_of dep) newIDs [] (rp_advisories prior)"

definition retriedIDs :: "AdvisoryFinding list \<Rightarrow> gostring list" where
  "retriedIDs rows = remdups_adj (sort (map (\<lambda>f. ad_id (af_advisory f)) rows))"

section \<open>A limit only withholds\<close>

lemma withheld_fields [simp]:
  "af_advisory (withheld r f) = af_advisory f" "af_verdict (withheld r f) = VerdictUndetermined"
  "af_undeterminedReason (withheld r f) = r" "af_package (withheld r f) = af_package f"
  "af_priority (withheld r f) = af_priority f" "af_annotations (withheld r f) = af_annotations f"
  by (simp_all add: withheld_def)

lemma withheld_row_spec: "r \<noteq> [] \<Longrightarrow> row_spec (withheld r f)"
  by (simp add: row_spec_def withheld_def verdict_distinct candidate_only_def Verdict_Valid_def
      basis_distinct basis_distinct(1) [symmetric] Let_def verdict_distinct [symmetric])

lemma withheld_valid: "r \<noteq> [] \<Longrightarrow> finding_error f = None \<Longrightarrow> finding_error (withheld r f) = None"
  using withheld_row_spec [of r f] by (simp add: finding_error_None row_error_None)

lemma withInventoryLimits_cases:
  "withInventoryLimits f limits purls = f \<or>
   (withInventoryLimits f limits purls = withheld ReasonAnalysisDidNotRun f \<and> refuting f)"
  by (auto simp: withInventoryLimits_def limit_exposed_def restsOnInventory_def refuting_def split: if_splits)

lemma withInventoryLimits_valid:
  "finding_error f = None \<Longrightarrow> finding_error (withInventoryLimits f limits purls) = None"
  using withInventoryLimits_cases [of f limits purls] withheld_valid reasons_ne by metis

lemma withInventoryLimits_advisory [simp]: "af_advisory (withInventoryLimits f limits purls) = af_advisory f"
  by (simp add: withInventoryLimits_def)

lemma withhold_row_valid: "finding_error f = None \<Longrightarrow> finding_error (withhold_row re f) = None"
  using withheld_valid reasons_ne by (simp add: withhold_row_def)

lemma withhold_row_advisory [simp]: "af_advisory (withhold_row re f) = af_advisory f"
  by (simp add: withhold_row_def)

lemma listed_withheld [simp]: "listedNotFetched (withheld r f) re = listedNotFetched f re"
  by (simp add: listedNotFetched_def)

lemma refuting_withheld [simp]: "\<not> refuting (withheld r f)"
  by (simp add: refuting_def verdict_distinct verdict_distinct(3,4) [symmetric])

lemma withhold_row_done: "\<not> (refuting (withhold_row re f) \<and> listedNotFetched (withhold_row re f) re)"
  by (auto simp: withhold_row_def)

lemma SetAdvisories_fields [simp]:
  "rp_advisories (SetAdvisories r adv) = sortFindings adv" "rp_schemaVersion (SetAdvisories r adv) = rp_schemaVersion r"
  "rp_sbom (SetAdvisories r adv) = rp_sbom r"
  by (simp_all add: SetAdvisories_def)

lemma Report_AddPartiality_fields [simp]:
  "rp_advisories (Report_AddPartiality r ns) = rp_advisories r"
  "rp_schemaVersion (Report_AddPartiality r ns) = rp_schemaVersion r" "rp_sbom (Report_AddPartiality r ns) = rp_sbom r"
  by (simp_all add: Report_AddPartiality_def)

lemma withNotFetched_rows:
  "withNotFetched rep dep = Some out \<Longrightarrow>
    set (rp_advisories out) = withhold_row (reassess_of dep) ` set (rp_advisories rep) \<and>
    Report_Validate out = None \<and> rp_sbom out = rp_sbom rep"
  by (auto simp: withNotFetched_def Let_def split: if_splits)

lemma withNotFetched_total:
  assumes "Report_Validate rep = None"
  shows "withNotFetched rep dep \<noteq> None"
  using assms by (auto simp: withNotFetched_def Let_def Report_Validate_None withhold_row_valid)

lemma withNotFetched_ids: "withNotFetched rep dep = Some out \<Longrightarrow>
    row_id ` set (rp_advisories out) = row_id ` set (rp_advisories rep)"
proof -
  have r: "row_id (withhold_row re f) = row_id f" for re f by (simp add: row_id_def)
  assume "withNotFetched rep dep = Some out"
  from withNotFetched_rows [OF this] show ?thesis by (simp add: image_image r)
qed

text \<open>The hook is one the stores allow: it keeps every statement and every advisory.\<close>

lemma remerge_hook_keeps: "hook_keeps c (Some remergeNotFetched)"
proof -
  have "state_items c s \<subseteq> state_items c s'" if h: "remergeNotFetched s = Some s'" for s s'
  proof (cases "ss_report s")
    case None
    then show ?thesis using h by (simp add: remergeNotFetched_def)
  next
    case (Some r)
    then obtain rep where "withNotFetched r (ss_depFetch s) = Some rep" "s' = s\<lparr>ss_report := Some rep\<rparr>"
      using h by (auto simp: remergeNotFetched_def split: option.splits)
    then show ?thesis using withNotFetched_ids Some by (simp add: state_items_def)
  qed
  then show ?thesis by (simp add: hook_keeps_def)
qed

section \<open>The SBOM is closed\<close>

lemma Package_Key_installed [simp]: "Package_Key (q\<lparr>pkg_notInstalled := x\<rparr>) = Package_Key q"
  by (simp add: Package_Key_def)

lemma add_instance_keys:
  "Package_Key ` set (add_instance p qs) = insert (Package_Key p) (Package_Key ` set qs)"
  by (induction p qs rule: add_instance.induct) auto

lemma add_instance_distinct:
  "distinct (map Package_Key qs) \<Longrightarrow> distinct (map Package_Key (add_instance p qs))"
proof (induction p qs rule: add_instance.induct)
  case (1 p)
  then show ?case by simp
next
  case (2 p q qs)
  show ?case
  proof (cases "Package_Key q = Package_Key p")
    case True
    then show ?thesis using 2(2) by simp
  next
    case False
    have "Package_Key q \<notin> Package_Key ` set (add_instance p qs)"
      using 2(2) False by (auto simp: add_instance_keys)
    then show ?thesis using 2 False by simp
  qed
qed

lemma collapse_snoc: "collapse e (ns @ [n]) = add_instance (node_package e n) (collapse e ns)"
  by (simp add: collapse_def)

lemma collapse_keys: "Package_Key ` set (collapse e ns) = (Package_Key \<circ> node_package e) ` set ns"
proof (induction ns rule: rev_induct)
  case Nil
  then show ?case by (simp add: collapse_def)
next
  case (snoc n ns)
  then show ?case by (simp add: collapse_snoc add_instance_keys)
qed

lemma collapse_distinct: "distinct (map Package_Key (collapse e ns))"
proof (induction ns rule: rev_induct)
  case Nil
  then show ?case by (simp add: collapse_def)
next
  case (snoc n ns)
  then show ?case by (simp add: collapse_snoc add_instance_distinct)
qed

lemma key_by_id_in:
  assumes "map_of (key_by_id e ns) i = Some k"
  shows "k \<in> Package_Key ` set (collapse e ns)"
proof -
  from map_of_SomeD [OF assms] have "k \<in> (Package_Key \<circ> node_package e) ` set ns"
    by (auto simp: key_by_id_def)
  then show ?thesis by (simp only: collapse_keys)
qed

lemma edge_relationship_in:
  assumes "edge_relationship (key_by_id e ns) x = Some r"
  shows "rel_parent r \<in> Package_Key ` set (collapse e ns) \<and> rel_child r \<in> Package_Key ` set (collapse e ns)"
  using assms key_by_id_in [of e ns] by (auto simp: edge_relationship_def split: option.splits)

lemma map_filter_set: "set (List.map_filter f xs) = {y. \<exists>x\<in>set xs. f x = Some y}"
  by (induction xs) (auto simp: List.map_filter_def)

lemma sbom_edges_closed: "edges_closed (fst (sbomFromInventory i e))"
  using edge_relationship_in [of e "di_nodes i"]
  by (auto simp: sbomFromInventory_def Let_def edges_closed_def list_all_iff first_seen_set map_filter_set)

text \<open>A package is marked not installed only when every instance of it is.\<close>

lemma add_instance_installed:
  "distinct (map Package_Key qs) \<Longrightarrow> q \<in> set (add_instance p qs) \<Longrightarrow>
    (q \<in> set qs \<and> Package_Key q \<noteq> Package_Key p) \<or>
    (q = p \<and> Package_Key p \<notin> Package_Key ` set qs) \<or>
    (\<exists>q0\<in>set qs. Package_Key q0 = Package_Key p \<and> q = q0\<lparr>pkg_notInstalled := (pkg_notInstalled q0 \<and> pkg_notInstalled p)\<rparr>)"
proof (induction p qs rule: add_instance.induct)
  case (1 p)
  then show ?case by simp
next
  case (2 p x qs)
  show ?case
  proof (cases "Package_Key x = Package_Key p")
    case True
    then have "q = x\<lparr>pkg_notInstalled := (pkg_notInstalled x \<and> pkg_notInstalled p)\<rparr> \<or> q \<in> set qs"
      using 2(3) by simp
    then show ?thesis
    proof
      assume "q = x\<lparr>pkg_notInstalled := (pkg_notInstalled x \<and> pkg_notInstalled p)\<rparr>"
      then show ?thesis using True by (intro disjI2 bexI [of _ x] conjI) simp_all
    next
      assume q: "q \<in> set qs"
      then have "Package_Key q \<noteq> Package_Key p" using 2(2) True by (metis distinct.simps(2) image_eqI list.set_map list.simps(9))
      then show ?thesis using q by (intro disjI1 conjI) simp_all
    qed
  next
    case False
    then have "q = x \<or> q \<in> set (add_instance p qs)" using 2(3) by simp
    then show ?thesis
    proof
      assume "q = x"
      then show ?thesis using False by (intro disjI1 conjI) simp_all
    next
      assume i: "q \<in> set (add_instance p qs)"
      have d: "distinct (map Package_Key qs)" using 2(2) by simp
      from 2(1) [OF False d i]
      consider (a) "q \<in> set qs" "Package_Key q \<noteq> Package_Key p"
        | (b) "q = p" "Package_Key p \<notin> Package_Key ` set qs"
        | (c) q0 where "q0 \<in> set qs" "Package_Key q0 = Package_Key p"
            "q = q0\<lparr>pkg_notInstalled := (pkg_notInstalled q0 \<and> pkg_notInstalled p)\<rparr>"
        by blast
      then show ?thesis
      proof cases
        case a
        then show ?thesis by (intro disjI1 conjI) simp_all
      next
        case b
        then show ?thesis using False by (intro disjI2 disjI1 conjI) auto
      next
        case (c q0)
        then show ?thesis by (intro disjI2 bexI [of _ q0] conjI) simp_all
      qed
    qed
  qed
qed

lemma collapse_not_installed:
  "q \<in> set (collapse e ns) \<Longrightarrow>
    pkg_notInstalled q = (\<forall>n\<in>set ns. Package_Key (node_package e n) = Package_Key q \<longrightarrow> dn_notInstalled n)"
proof (induction ns arbitrary: q rule: rev_induct)
  case Nil
  then show ?case by (simp add: collapse_def)
next
  case (snoc n ns)
  let ?p = "node_package e n"
  have pn: "pkg_notInstalled ?p = dn_notInstalled n" by (simp add: node_package_def split: prod.split)
  have q: "q \<in> set (add_instance ?p (collapse e ns))" using snoc.prems by (simp add: collapse_snoc)
  from add_instance_installed [OF collapse_distinct q]
  consider (old) "q \<in> set (collapse e ns)" "Package_Key q \<noteq> Package_Key ?p"
    | (new) "q = ?p" "Package_Key ?p \<notin> Package_Key ` set (collapse e ns)"
    | (both) q0 where "q0 \<in> set (collapse e ns)" "Package_Key q0 = Package_Key ?p"
        "q = q0\<lparr>pkg_notInstalled := (pkg_notInstalled q0 \<and> pkg_notInstalled ?p)\<rparr>"
    by blast
  then show ?case
  proof cases
    case old
    then show ?thesis using snoc.IH [OF old(1)] by auto
  next
    case new
    then have "Package_Key q \<notin> (Package_Key \<circ> node_package e) ` set ns" unfolding new(1) by (simp only: collapse_keys not_False_eq_True simp_thms)
    then have "\<forall>m\<in>set ns. Package_Key (node_package e m) \<noteq> Package_Key q" by force
    then show ?thesis using new(1) pn by auto
  next
    case (both q0)
    have k: "Package_Key q = Package_Key q0" unfolding both(3) by simp
    have "pkg_notInstalled q = (pkg_notInstalled q0 \<and> dn_notInstalled n)" unfolding both(3) by (simp add: pn)
    then show ?thesis using snoc.IH [OF both(1)] both(2) k by auto
  qed
qed

section \<open>Properties of the limits\<close>

text \<open>The SBOM a scan stores is well formed and complete: its packages have distinct keys and are
  exactly the keys of the inventory's nodes, a package counts as not installed only when every
  instance of it is, every edge joins two of its packages (so Validate accepts it), and it loses no
  edge of the inventory whose ends are nodes.\<close>
theorem sbom_projection:
  "edges_closed (fst (sbomFromInventory i e)) \<and>
   distinct (map Package_Key (sb_packages (fst (sbomFromInventory i e)))) \<and>
   Package_Key ` set (sb_packages (fst (sbomFromInventory i e))) =
     (\<lambda>n. Package_Key (node_package e n)) ` set (di_nodes i) \<and>
   (\<forall>q\<in>set (sb_packages (fst (sbomFromInventory i e))).
      pkg_notInstalled q = (\<forall>n\<in>set (di_nodes i). Package_Key (node_package e n) = Package_Key q \<longrightarrow> dn_notInstalled n)) \<and>
   set (sb_relationships (fst (sbomFromInventory i e))) =
     {r. \<exists>x\<in>set (di_edges i). edge_relationship (key_by_id e (di_nodes i)) x = Some r}"
proof (intro conjI)
  let ?ps = "sb_packages (fst (sbomFromInventory i e))"
  have s: "mset ?ps = mset (collapse e (di_nodes i))" by (simp add: sbomFromInventory_def Let_def)
  then have st: "set ?ps = set (collapse e (di_nodes i))" by (metis set_mset_mset)
  show "edges_closed (fst (sbomFromInventory i e))" by (rule sbom_edges_closed)
  show "distinct (map Package_Key ?ps)"
    using collapse_distinct [of e "di_nodes i"] distinct_map_mset [OF s, of Package_Key] by simp
  show "Package_Key ` set ?ps = (\<lambda>n. Package_Key (node_package e n)) ` set (di_nodes i)"
    unfolding st using collapse_keys [of e "di_nodes i"] by (simp add: comp_def)
  show "\<forall>q\<in>set ?ps. pkg_notInstalled q =
      (\<forall>n\<in>set (di_nodes i). Package_Key (node_package e n) = Package_Key q \<longrightarrow> dn_notInstalled n)"
    unfolding st using collapse_not_installed [of _ e "di_nodes i"] by blast
  show "set (sb_relationships (fst (sbomFromInventory i e))) =
      {r. \<exists>x\<in>set (di_edges i). edge_relationship (key_by_id e (di_nodes i)) x = Some r}"
    by (simp add: sbomFromInventory_def Let_def first_seen_set map_filter_set)
qed

definition sample_node :: "gostring \<Rightarrow> gostring \<Rightarrow> bool \<Rightarrow> DependencyNode" where
  "sample_node i purl skipped = \<lparr>dn_id = i, dn_purl = purl, dn_version = ''1.0.0'', dn_direct = True, dn_replace = [],
     dn_notInstalled = skipped, dn_partiality = \<lparr>pa_complete = True, pa_reasons = [], pa_scoped = []\<rparr>\<rparr>"

definition sample_inv :: DependencyInventory where
  "sample_inv = \<lparr>di_partiality = \<lparr>pa_complete = False, pa_reasons = [''tool_failure''], pa_scoped = []\<rparr>,
     di_nodes = [sample_node ''1'' ''pkg:npm/a@1.0.0'' True, sample_node ''2'' ''pkg:npm/b@1.0.0'' False,
       sample_node ''3'' ''pkg:npm/a@1.0.0'' False],
     di_edges = [(''2'', ''1''), (''2'', ''9'')], di_buildList = [], di_mainModule = [], di_workspaceModules = []\<rparr>"

theorem sbom_projection_witness:
  "pkg_notInstalled (hd (sb_packages (fst (sbomFromInventory sample_inv ''npm'')))) =
     (\<forall>n\<in>set (di_nodes sample_inv). Package_Key (node_package ''npm'' n) =
        Package_Key (hd (sb_packages (fst (sbomFromInventory sample_inv ''npm'')))) \<longrightarrow> dn_notInstalled n) \<and>
   length (sb_packages (fst (sbomFromInventory sample_inv ''npm''))) = 2"
proof -
  have l: "length (sb_packages (fst (sbomFromInventory sample_inv ''npm''))) = 2" by code_simp
  then have "hd (sb_packages (fst (sbomFromInventory sample_inv ''npm''))) \<in>
      set (sb_packages (fst (sbomFromInventory sample_inv ''npm'')))" by (intro hd_in_set) auto
  then show ?thesis using sbom_projection [of sample_inv "''npm''"] l by blast
qed

text \<open>The packages a row could be about: those of its advisory and its own. They are known when the advisory
  lists at least one, each is a package URL, and the row's own package, if it has one, has a
  key. Two keys may be one package when they are equal or, in Go, when one path lies under the
  other.\<close>

definition own_key :: "Package \<Rightarrow> pkgKey option" where
  "own_key p =
    (case purlKey (pkg_purl p) of
       Some k \<Rightarrow> Some k
     | None \<Rightarrow>
         (case purlTypeFor (pkg_ecosystem p) of
            None \<Rightarrow> None
          | Some typ \<Rightarrow> if pkg_name p = [] then None else Some \<lparr>pk_typ = typ, pk_name = normalizePackageName typ (pkg_name p)\<rparr>))"

definition row_packages :: "Package option \<Rightarrow> gostring list \<Rightarrow> pkgKey set" where
  "row_packages pkg purls = {k. Some k \<in> purlKey ` set purls \<or> (\<exists>p. pkg = Some p \<and> own_key p = Some k)}"

definition row_known :: "Package option \<Rightarrow> gostring list \<Rightarrow> bool" where
  "row_known pkg purls =
    (purls \<noteq> [] \<and> None \<notin> purlKey ` set purls \<and> (case pkg of None \<Rightarrow> True | Some p \<Rightarrow> own_key p \<noteq> None))"

definition may_be_same :: "pkgKey \<Rightarrow> pkgKey \<Rightarrow> bool" where
  "may_be_same a b =
    (a = b \<or> pk_typ a = ''golang'' \<and> pk_typ b = ''golang'' \<and>
      (goPathWithin (pk_name a) (pk_name b) \<or> goPathWithin (pk_name b) (pk_name a)))"

text \<open>A limit may hide a row when it is unbounded, when the row's packages are not known, or when one of its
  targets is no package URL or may be one of the row's packages.\<close>

definition may_hide :: "PartialityNote \<Rightarrow> Package option \<Rightarrow> gostring list \<Rightarrow> bool" where
  "may_hide n pkg purls =
    (pn_targets n = [] \<or> \<not> row_known pkg purls \<or>
     (\<exists>t\<in>set (pn_targets n). t \<noteq> [] \<and>
        (case purlKey t of None \<Rightarrow> True | Some k \<Rightarrow> \<exists>k'\<in>row_packages pkg purls. may_be_same k k')))"

lemma all_keys_Some: "all_keys ps = Some ks \<longleftrightarrow> map purlKey ps = map Some ks"
  by (induction ps arbitrary: ks) (auto split: option.splits simp: map_eq_Cons_conv Cons_eq_map_conv)

lemma all_keys_None: "all_keys ps = None \<longleftrightarrow> None \<in> purlKey ` set ps"
  by (induction ps) (auto split: option.splits)

lemma rowKeys_known:
  "(rowKeys pkg purls = None \<longleftrightarrow> \<not> row_known pkg purls) \<and>
   (\<forall>ks. rowKeys pkg purls = Some ks \<longrightarrow> set ks = row_packages pkg purls)"
proof (cases "all_keys purls")
  case None
  moreover have "None \<in> purlKey ` set purls" using None by (simp only: all_keys_None)
  ultimately show ?thesis by (simp add: rowKeys_def row_known_def)
next
  case (Some ks)
  have m: "purlKey ` set purls = Some ` set ks" using arg_cong [OF Some [unfolded all_keys_Some], of set] by simp
  have r: "rowKeys pkg purls = (if purls = [] then None else case pkg of None \<Rightarrow> Some ks
      | Some p \<Rightarrow> map_option (\<lambda>k. ks @ [k]) (own_key p))"
    using Some by (auto simp: rowKeys_def own_key_def split: option.split)
  show ?thesis unfolding r row_known_def row_packages_def m by (auto split: option.splits)
qed

lemma scope_entry_same:
  "scope_entry_counts k False t \<longleftrightarrow> t \<noteq> [] \<and> (case purlKey t of None \<Rightarrow> True | Some k' \<Rightarrow> may_be_same k' k)"
  by (auto simp: scope_entry_counts_def may_be_same_def split: option.split)

lemma limitCovers_hides: "limitCovers n (rowKeys pkg purls) \<longleftrightarrow> may_hide n pkg purls"
proof (cases "rowKeys pkg purls")
  case None
  then show ?thesis using rowKeys_known [of pkg purls] by (simp add: limitCovers_def may_hide_def)
next
  case (Some ks)
  then have k: "row_known pkg purls" "set ks = row_packages pkg purls" using rowKeys_known [of pkg purls] by auto
  obtain q where "q \<in> set purls" "purlKey q \<noteq> None"
    using k(1) unfolding row_known_def by (metis image_eqI list.set_intros(1) neq_Nil_conv)
  then have ne: "\<exists>k. k \<in> row_packages pkg purls" by (force simp: row_packages_def)
  have c: "limitCovers n (rowKeys pkg purls) \<longleftrightarrow>
      pn_targets n = [] \<or> (\<exists>t\<in>set (pn_targets n). \<exists>k\<in>row_packages pkg purls. scope_entry_counts k False t)"
    using Some by (auto simp: limitCovers_def scopedLimitCounts_def list_ex_iff k(2) [symmetric] scope_entry_same [of _ "[]"])
  have e: "(\<exists>k\<in>row_packages pkg purls. scope_entry_counts k False t) \<longleftrightarrow> t \<noteq> [] \<and>
      (case purlKey t of None \<Rightarrow> True | Some k \<Rightarrow> \<exists>k'\<in>row_packages pkg purls. may_be_same k k')" for t
    unfolding scope_entry_same using ne by (cases "purlKey t") auto
  show ?thesis unfolding c e using k(1) by (simp add: may_hide_def)
qed


definition sample_ne_row :: AdvisoryFinding where
  "sample_ne_row = new_row sample_adv (Some sample_ne_package) VerdictNotExploitable []
     (no_evidence\<lparr>ev_basis := BasisSymbolUnreachable, ev_detail := ''searched''\<rparr>)"

definition sample_limit :: PartialityNote where
  "sample_limit = no_note\<lparr>pn_reason := PartialReasonToolFailure, pn_ecosystem := ''npm'', pn_detail := inventoryLimitDetail\<rparr>"

definition sample_bounded :: "gostring list \<Rightarrow> PartialityNote" where
  "sample_bounded ts = sample_limit\<lparr>pn_targets := ts\<rparr>"


text \<open>What the hook establishes, and what a write with it leaves in the store.\<close>

definition no_listed_refuting :: "State \<Rightarrow> bool" where
  "no_listed_refuting s =
    (case ss_report s of
       None \<Rightarrow> True
     | Some r \<Rightarrow> list_all (\<lambda>f. \<not> (refuting f \<and> listedNotFetched f (reassess_of (ss_depFetch s)))) (rp_advisories r))"

lemma remerge_no_listed:
  assumes "remergeNotFetched s = Some s'"
  shows "no_listed_refuting s'"
proof (cases "ss_report s")
  case None
  then show ?thesis using assms by (simp add: remergeNotFetched_def no_listed_refuting_def)
next
  case (Some r)
  then obtain rep where rep: "withNotFetched r (ss_depFetch s) = Some rep" and s': "s' = s\<lparr>ss_report := Some rep\<rparr>"
    using assms by (auto simp: remergeNotFetched_def split: option.splits)
  have "set (rp_advisories rep) = withhold_row (reassess_of (ss_depFetch s)) ` set (rp_advisories r)"
    using withNotFetched_rows [OF rep] by blast
  then show ?thesis using withhold_row_done s' by (auto simp: no_listed_refuting_def list_all_iff)
qed

lemma no_listed_token [simp]: "no_listed_refuting (s\<lparr>ss_commitSHA := t\<rparr>) = no_listed_refuting s"
  by (cases "ss_report s") (simp_all add: no_listed_refuting_def)

lemma no_listed_committed [simp]: "no_listed_refuting (committed_state s sha) = no_listed_refuting s"
  by (cases "ss_report s") (simp_all add: no_listed_refuting_def committed_state_def)

lemma mem_write_no_listed:
  assumes "mem_write reencode s q = Some (s', m)" and "wr_remerge q = Some remergeNotFetched"
    and "no_listed_refuting (wr_next q)"
  shows "no_listed_refuting m"
  using mem_write_cases [OF assms(1)] assms(2,3) remerge_no_listed
  by (auto simp: mergeForRetry_def Let_def split: option.splits if_splits)

lemma write_loop_no_listed:
  "write_loop cas rd expired reencode now (Some remergeNotFetched) n w cur = (w', Done s) \<Longrightarrow>
    no_listed_refuting cur \<Longrightarrow> no_listed_refuting s"
proof (induction n arbitrary: w cur)
  case 0
  then show ?case by simp
next
  case (Suc n)
  obtain w1 oc where c: "cas w cur = (w1, oc)" by (rule prod.exhaust)
  show ?case
  proof (cases oc)
    case (Swapped sha)
    then show ?thesis using Suc.prems c by auto
  next
    case GitError
    then show ?thesis using Suc.prems c by simp
  next
    case Stale
    obtain w2 ro where r: "rd w1 = (w2, ro)" by (rule prod.exhaust)
    show ?thesis
    proof (cases ro)
      case (Winner winner)
      then obtain m where "mergeForRetry reencode now winner cur (Some remergeNotFetched) = Some m"
        "write_loop cas rd expired reencode now (Some remergeNotFetched) n w2 m = (w', Done s)"
        using Suc.prems(1) c r Stale by (auto split: option.splits if_splits)
      then show ?thesis using Suc.IH remerge_no_listed by (auto simp: mergeForRetry_def Let_def)
    next
      case NoRef
      then have "write_loop cas rd expired reencode now (Some remergeNotFetched) n w2 (cur\<lparr>ss_commitSHA := []\<rparr>) = (w', Done s)"
        using Suc.prems(1) c r Stale by (auto split: if_splits)
      then show ?thesis using Suc.IH Suc.prems(2) by auto
    next
      case ReadError
      then show ?thesis using Suc.prems c r Stale by simp
    qed
  qed
qed

end
