(* ===== verification/Intel_Signals.thy ===== *)
theory Intel_Signals
  imports Trigger_Finding
begin

text \<open>
  The signals file a run ranks its rows by: the validation of a record and its values, the claims of
  a run's advisories and the join of an advisory to a record (src/internal/intel/intel.go), and the
  ranking of a report by them (priorityFor, rankWith and withSignals of src/trigger/assess.go). A
  map is an association list whose newest entry comes first; float64 is a rational; time.Parse is the
  parameter \<open>tparse\<close> (layout and value to nanoseconds). The bytes of the file, its gzip stream and its
  digest are not modelled: a file is the list of its decoded records. The lemmas: a value is only ever
  attributed with its stamp, to the advisory its record is about, whatever the order of the aliases.
\<close>

section \<open>Identifiers\<close>

definition normalise :: "gostring \<Rightarrow> gostring" where
  "normalise i = to_upper (trim_space i)"

definition isCVE :: "gostring \<Rightarrow> bool" where
  "isCVE i = has_prefix i ''CVE-''"

section \<open>The file\<close>

record EPSS =
  ep_identifier :: gostring
  ep_score :: rat
  ep_percentile :: rat
  ep_hasPercentile :: bool
  ep_asOf :: gostring

record KEV =
  kv_identifier :: gostring
  kv_listed :: bool
  kv_dateAdded :: gostring
  kv_catalogVersion :: gostring
  kv_dateReleased :: gostring

record Signals =
  sg_digest :: gostring
  sg_records :: nat
  sg_epss :: "(gostring \<times> EPSS) list"
  sg_kev :: "(gostring \<times> KEV) list"
  sg_newest :: int
  sg_epssAsOf :: "int list"

record wireEPSS =
  we_score :: "rat option"
  we_percentile :: "rat option"
  we_asOf :: gostring

record wireKEV =
  wk_listed :: "bool option"
  wk_dateAdded :: gostring
  wk_catalogVersion :: gostring
  wk_dateReleased :: gostring

record wireRecord =
  wr_identifier :: gostring
  wr_epss :: "wireEPSS option"
  wr_kev :: "wireKEV option"

datatype signals_error =
    NoIdentifier
  | DuplicateIdentifier gostring
  | NeitherValue gostring
  | NoAsOf gostring
  | BadAsOf gostring gostring
  | NoScore gostring
  | ScoreRange gostring
  | PercentileRange gostring
  | NoCatalogStamp gostring
  | NoListed gostring

definition layout_DateOnly :: gostring where "layout_DateOnly = ''2006-01-02''"
definition layout_RFC3339Nano :: gostring where "layout_RFC3339Nano = ''2006-01-02T15:04:05.999999999Z07:00''"

definition parseAsOf :: "(gostring \<Rightarrow> gostring \<Rightarrow> int option) \<Rightarrow> gostring \<Rightarrow> int option" where
  "parseAsOf tparse v =
    (case tparse layout_DateOnly v of Some t \<Rightarrow> Some t | None \<Rightarrow> tparse layout_RFC3339Nano v)"

text \<open>The two halves of add: the EPSS value and the KEV observation of a record.\<close>

definition add_epss ::
  "(gostring \<Rightarrow> gostring \<Rightarrow> int option) \<Rightarrow> gostring \<Rightarrow> wireEPSS \<Rightarrow> Signals \<Rightarrow> signals_error + Signals" where
  "add_epss tparse i e s =
    (if we_asOf e = [] then Inl (NoAsOf i)
     else case parseAsOf tparse (we_asOf e) of
       None \<Rightarrow> Inl (BadAsOf i (we_asOf e))
     | Some t \<Rightarrow>
         (case we_score e of
            None \<Rightarrow> Inl (NoScore i)
          | Some sc \<Rightarrow>
              if sc < 0 \<or> sc > 1 then Inl (ScoreRange i)
              else if (case we_percentile e of None \<Rightarrow> False | Some p \<Rightarrow> p < 0 \<or> p > 1) then Inl (PercentileRange i)
              else
                (let v = \<lparr>ep_identifier = i, ep_score = sc,
                       ep_percentile = (case we_percentile e of None \<Rightarrow> 0 | Some p \<Rightarrow> p),
                       ep_hasPercentile = (we_percentile e \<noteq> None), ep_asOf = we_asOf e\<rparr>
                 in Inr (s\<lparr>sg_epss := (i, v) # sg_epss s, sg_epssAsOf := sg_epssAsOf s @ [t],
                          sg_newest := (if t > sg_newest s then t else sg_newest s)\<rparr>))))"

definition add_kev :: "gostring \<Rightarrow> wireKEV \<Rightarrow> Signals \<Rightarrow> signals_error + Signals" where
  "add_kev i k s =
    (if wk_catalogVersion k = [] \<or> wk_dateReleased k = [] then Inl (NoCatalogStamp i)
     else case wk_listed k of
       None \<Rightarrow> Inl (NoListed i)
     | Some l \<Rightarrow>
         Inr (s\<lparr>sg_kev := (i, \<lparr>kv_identifier = i, kv_listed = l, kv_dateAdded = (if l then wk_dateAdded k else []),
           kv_catalogVersion = wk_catalogVersion k, kv_dateReleased = wk_dateReleased k\<rparr>) # sg_kev s\<rparr>))"

definition signals_add ::
  "(gostring \<Rightarrow> gostring \<Rightarrow> int option) \<Rightarrow> wireRecord \<Rightarrow> gostring list \<Rightarrow> Signals \<Rightarrow>
   signals_error + (Signals \<times> gostring list)" where
  "signals_add tparse r seen s =
    (let i = normalise (wr_identifier r) in
     if i = [] then Inl NoIdentifier
     else if i \<in> set seen then Inl (DuplicateIdentifier i)
     else if wr_epss r = None \<and> wr_kev r = None then Inl (NeitherValue i)
     else case (case wr_epss r of None \<Rightarrow> Inr s | Some e \<Rightarrow> add_epss tparse i e s) of
       Inl e \<Rightarrow> Inl e
     | Inr s1 \<Rightarrow>
         (case (case wr_kev r of None \<Rightarrow> Inr s1 | Some k \<Rightarrow> add_kev i k s1) of
            Inl e \<Rightarrow> Inl e
          | Inr s2 \<Rightarrow> Inr (s2, i # seen)))"

text \<open>The loop of parse over the records: the first record that fails refuses the file.\<close>

fun add_records ::
  "(gostring \<Rightarrow> gostring \<Rightarrow> int option) \<Rightarrow> wireRecord list \<Rightarrow> gostring list \<Rightarrow> Signals \<Rightarrow> signals_error + Signals" where
  "add_records tparse [] seen s = Inr s"
| "add_records tparse (r # rs) seen s =
    (case signals_add tparse r seen s of
       Inl e \<Rightarrow> Inl e
     | Inr (s1, seen1) \<Rightarrow> add_records tparse rs seen1 s1)"

definition load_records ::
  "(gostring \<Rightarrow> gostring \<Rightarrow> int option) \<Rightarrow> gostring \<Rightarrow> wireRecord list \<Rightarrow> signals_error + Signals" where
  "load_records tparse digest rs =
    add_records tparse rs []
      \<lparr>sg_digest = digest, sg_records = length rs, sg_epss = [], sg_kev = [], sg_newest = 0, sg_epssAsOf = []\<rparr>"

text \<open>A nil file holds nothing.\<close>

definition Records :: "Signals option \<Rightarrow> nat" where
  "Records s = (case s of None \<Rightarrow> 0 | Some f \<Rightarrow> sg_records f)"

definition NewestEPSSAsOf :: "Signals option \<Rightarrow> int option" where
  "NewestEPSSAsOf s = (case s of None \<Rightarrow> None | Some f \<Rightarrow> if sg_newest f = 0 then None else Some (sg_newest f))"

definition StaleEPSS :: "Signals option \<Rightarrow> int \<Rightarrow> int \<Rightarrow> nat \<times> nat" where
  "StaleEPSS s now maxAge =
    (case s of None \<Rightarrow> (0, 0)
     | Some f \<Rightarrow> (length (filter (\<lambda>t. now - t > maxAge) (sg_epssAsOf f)), length (sg_epssAsOf f)))"

definition Signals_EPSS :: "Signals option \<Rightarrow> gostring \<Rightarrow> EPSS option" where
  "Signals_EPSS s i = (case s of None \<Rightarrow> None | Some f \<Rightarrow> map_of (sg_epss f) (normalise i))"

definition Signals_KEV :: "Signals option \<Rightarrow> gostring \<Rightarrow> KEV option" where
  "Signals_KEV s i = (case s of None \<Rightarrow> None | Some f \<Rightarrow> map_of (sg_kev f) (normalise i))"

definition signals_has :: "Signals \<Rightarrow> gostring \<Rightarrow> bool" where
  "signals_has s i = (map_of (sg_epss s) i \<noteq> None \<or> map_of (sg_kev s) i \<noteq> None)"

section \<open>Claims\<close>

text \<open>Pairs of an identifier and the id of an advisory that names it.\<close>

type_synonym Claims = "(gostring \<times> gostring) list"

definition Claims_Add :: "gostring \<Rightarrow> gostring list \<Rightarrow> Claims \<Rightarrow> Claims" where
  "Claims_Add i aliases c =
    (if normalise i = [] then c
     else c @ map (\<lambda>x. (x, normalise i)) (filter (\<lambda>x. x \<noteq> []) (map normalise (i # aliases))))"

definition ClaimedByOther :: "Claims \<Rightarrow> gostring \<Rightarrow> gostring \<Rightarrow> bool" where
  "ClaimedByOther c ident i = list_ex (\<lambda>(x, other). x = normalise ident \<and> other \<noteq> normalise i) c"

section \<open>The join\<close>

record Match =
  mt_identifier :: gostring
  mt_epss :: "EPSS option"
  mt_kev :: "KEV option"

definition sameValues :: "Match \<Rightarrow> Match \<Rightarrow> bool" where
  "sameValues m o' =
    (map_option (\<lambda>e. e\<lparr>ep_identifier := []\<rparr>) (mt_epss m) = map_option (\<lambda>e. e\<lparr>ep_identifier := []\<rparr>) (mt_epss o') \<and>
     map_option (\<lambda>k. k\<lparr>kv_identifier := []\<rparr>) (mt_kev m) = map_option (\<lambda>k. k\<lparr>kv_identifier := []\<rparr>) (mt_kev o'))"

definition match_record :: "Signals \<Rightarrow> gostring \<Rightarrow> Match" where
  "match_record s i = \<lparr>mt_identifier = i, mt_epss = map_of (sg_epss s) i, mt_kev = map_of (sg_kev s) i\<rparr>"

text \<open>The loop of Attribute: \<open>voted\<close> is \<open>first\<close> once it is set, the result the match so far. The outer
  None is the early return of a disagreement.\<close>

fun alias_loop ::
  "Signals \<Rightarrow> gostring \<Rightarrow> Claims \<Rightarrow> gostring list \<Rightarrow> Match option \<Rightarrow> Match option \<Rightarrow> Match option" where
  "alias_loop s own cl [] voted found = found"
| "alias_loop s own cl (al # als) voted found =
    (let a = normalise al in
     if a = own \<or> \<not> isCVE a \<or> \<not> signals_has s a then alias_loop s own cl als voted found
     else
       (let c = match_record s a;
            found1 = (if found = None \<and> \<not> ClaimedByOther cl a own then Some c else found)
        in case voted of
             None \<Rightarrow> alias_loop s own cl als (Some c) found1
           | Some f \<Rightarrow> if \<not> sameValues f c then None else alias_loop s own cl als voted found1))"

definition Attribute :: "Signals option \<Rightarrow> gostring \<Rightarrow> gostring list \<Rightarrow> Claims \<Rightarrow> Match option" where
  "Attribute sig i aliases cl =
    (case sig of
       None \<Rightarrow> None
     | Some s \<Rightarrow>
         (let own = normalise i in
          if signals_has s own then Some (match_record s own)
          else if isCVE own then None
          else alias_loop s own cl aliases None None))"

section \<open>Ranking\<close>

definition zero_priority :: Priority where
  "zero_priority = \<lparr>pr_epssScore = 0, pr_epssPercentile = 0, pr_hasPercentile = False, pr_epssAsOf = [],
     pr_kevListed = False, pr_kevDateAdded = [], pr_kevCatalogVersion = [], pr_kevDateReleased = []\<rparr>"

definition with_epss :: "EPSS \<Rightarrow> Priority \<Rightarrow> Priority" where
  "with_epss e p = p\<lparr>pr_epssScore := ep_score e, pr_epssAsOf := ep_asOf e,
     pr_epssPercentile := ep_percentile e, pr_hasPercentile := ep_hasPercentile e\<rparr>"

definition with_kev :: "KEV \<Rightarrow> Priority \<Rightarrow> Priority" where
  "with_kev k p = p\<lparr>pr_kevListed := kv_listed k, pr_kevDateAdded := kv_dateAdded k,
     pr_kevCatalogVersion := kv_catalogVersion k, pr_kevDateReleased := kv_dateReleased k\<rparr>"

definition match_priority :: "Match \<Rightarrow> Priority option" where
  "match_priority m =
    (let p1 = (case mt_epss m of None \<Rightarrow> zero_priority | Some e \<Rightarrow> with_epss e zero_priority);
         p2 = (case mt_kev m of None \<Rightarrow> p1 | Some k \<Rightarrow> with_kev k p1)
     in if \<not> HasEPSS (Some p2) \<and> \<not> HasKEV (Some p2) then None else Some p2)"

definition priorityFor :: "Advisory \<Rightarrow> Signals option \<Rightarrow> Claims \<Rightarrow> Priority option" where
  "priorityFor adv sig cl =
    (case Attribute sig (ad_id adv) (ad_aliases adv) cl of None \<Rightarrow> None | Some m \<Rightarrow> match_priority m)"

text \<open>\<open>facts\<close> is the run's fact source: the aliases of an id's record, none for an id it does not
  resolve. Build, which rankWith calls for its rows, reads no clock here.\<close>

definition run_claims :: "VulnRef list \<Rightarrow> (gostring \<Rightarrow> gostring list) \<Rightarrow> AdvisoryFinding list \<Rightarrow> Claims" where
  "run_claims workSet facts rows =
    fold (\<lambda>f. Claims_Add (ad_id (af_advisory f)) (ad_aliases (af_advisory f))) rows
      (fold (\<lambda>v. Claims_Add (vr_id v) (facts (vr_id v))) workSet [])"

definition rank_claims :: "Signals option \<Rightarrow> VulnRef list \<Rightarrow> (gostring \<Rightarrow> gostring list) \<Rightarrow> Builder \<Rightarrow> Claims" where
  "rank_claims sig workSet facts b =
    (case sig of None \<Rightarrow> [] | Some s \<Rightarrow> run_claims workSet facts (rp_advisories (Build 0 b)))"

definition rankWith :: "Signals option \<Rightarrow> VulnRef list \<Rightarrow> (gostring \<Rightarrow> gostring list) \<Rightarrow> Builder \<Rightarrow> Builder" where
  "rankWith sig workSet facts b =
    WithPriority (Some (\<lambda>adv. priorityFor adv sig (rank_claims sig workSet facts b))) b"

definition withSignals :: "Provenance \<Rightarrow> Signals option \<Rightarrow> Provenance" where
  "withSignals p sig =
    (case sig of
       None \<Rightarrow> p
     | Some s \<Rightarrow> if sg_digest s = [] then p
         else p\<lparr>pv_intel := Some \<lparr>in_workSetSource = [], in_workSetSize = 0, in_factSource = [], in_corpusDigest = [],
           in_corpusRecords = 0, in_corpusPolicy = [], in_corpusManifest = None, in_corpusSigner = None,
           in_signalsDigest = sg_digest s\<rparr>\<rparr>)"


section \<open>What the join takes\<close>

text \<open>The values of a match, without the names of its records.\<close>

definition values_of :: "Match \<Rightarrow> EPSS option \<times> KEV option" where
  "values_of m = (map_option (\<lambda>e. e\<lparr>ep_identifier := []\<rparr>) (mt_epss m), map_option (\<lambda>k. k\<lparr>kv_identifier := []\<rparr>) (mt_kev m))"

lemma sameValues_values: "sameValues m n = (values_of m = values_of n)"
  by (simp add: sameValues_def values_of_def)

text \<open>The CVE aliases with a record, in order.\<close>

definition votes :: "Signals \<Rightarrow> gostring \<Rightarrow> gostring list \<Rightarrow> gostring list" where
  "votes s own aliases = filter (\<lambda>a. a \<noteq> own \<and> isCVE a \<and> signals_has s a) (map normalise aliases)"

definition agreed :: "Signals \<Rightarrow> gostring list \<Rightarrow> bool" where
  "agreed s vs = (\<forall>a\<in>set vs. \<forall>b\<in>set vs. values_of (match_record s a) = values_of (match_record s b))"

lemma agreedD:
  "agreed s vs \<Longrightarrow> a \<in> set vs \<Longrightarrow> b \<in> set vs \<Longrightarrow> values_of (match_record s a) = values_of (match_record s b)"
  unfolding agreed_def by blast

lemma votes_Cons:
  "votes s own (al # als) =
    (if normalise al = own \<or> \<not> isCVE (normalise al) \<or> \<not> signals_has s (normalise al)
     then votes s own als else normalise al # votes s own als)"
  by (simp add: votes_def)

lemma alias_loop_votes:
  "alias_loop s own cl als voted found =
    (if (case voted of None \<Rightarrow> agreed s (votes s own als)
         | Some f \<Rightarrow> \<forall>a\<in>set (votes s own als). values_of f = values_of (match_record s a))
     then (if found = None then map_option (match_record s) (find (\<lambda>a. \<not> ClaimedByOther cl a own) (votes s own als)) else found)
     else None)"
proof (induction als arbitrary: voted found)
  case Nil
  then show ?case by (cases voted) (auto simp: votes_def agreed_def)
next
  case (Cons al als)
  show ?case
  proof (cases "normalise al = own \<or> \<not> isCVE (normalise al) \<or> \<not> signals_has s (normalise al)")
    case True
    then have v: "votes s own (al # als) = votes s own als" by (simp add: votes_Cons)
    have "alias_loop s own cl (al # als) voted found = alias_loop s own cl als voted found"
      unfolding alias_loop.simps Let_def if_P [OF True] ..
    then show ?thesis unfolding v using Cons.IH by simp
  next
    case False
    let ?a = "normalise al"
    let ?f1 = "if found = None \<and> \<not> ClaimedByOther cl ?a own then Some (match_record s ?a) else found"
    have v: "votes s own (al # als) = ?a # votes s own als" using False by (simp add: votes_Cons)
    have ag: "agreed s (?a # votes s own als) =
        (\<forall>b\<in>set (votes s own als). values_of (match_record s ?a) = values_of (match_record s b))"
      unfolding agreed_def by (simp, metis)
    have f1: "(if ?f1 = None then map_option (match_record s) (find (\<lambda>a. \<not> ClaimedByOther cl a own) (votes s own als)) else ?f1) =
        (if found = None then map_option (match_record s) (find (\<lambda>a. \<not> ClaimedByOther cl a own) (?a # votes s own als)) else found)"
      by (cases found) simp_all
    have step: "alias_loop s own cl (al # als) voted found =
        (case voted of None \<Rightarrow> alias_loop s own cl als (Some (match_record s ?a)) ?f1
         | Some f \<Rightarrow> if \<not> sameValues f (match_record s ?a) then None else alias_loop s own cl als voted ?f1)"
      unfolding alias_loop.simps Let_def if_not_P [OF False] ..
    show ?thesis
    proof (cases voted)
      case None
      then show ?thesis unfolding step v ag Cons.IH f1 by simp
    next
      case (Some f)
      then show ?thesis unfolding step v Cons.IH f1 by (simp add: sameValues_values)
    qed
  qed
qed

lemma Attribute_exact:
  "Attribute (Some s) i als cl =
    (if signals_has s (normalise i) then Some (match_record s (normalise i))
     else if isCVE (normalise i) \<or> \<not> agreed s (votes s (normalise i) als) then None
     else map_option (match_record s) (find (\<lambda>a. \<not> ClaimedByOther cl a (normalise i)) (votes s (normalise i) als)))"
  by (simp add: Attribute_def alias_loop_votes Let_def)

lemma votes_set: "set als = set als' \<Longrightarrow> set (votes s own als) = set (votes s own als')"
  by (simp add: votes_def)

text \<open>The claims of a run.\<close>

lemma Claims_Add_claimed:
  "ClaimedByOther (Claims_Add j al c) ident i =
    (ClaimedByOther c ident i \<or>
     normalise j \<noteq> [] \<and> normalise j \<noteq> normalise i \<and> normalise ident \<noteq> [] \<and> normalise ident \<in> normalise ` set (j # al))"
  by (auto simp: ClaimedByOther_def Claims_Add_def list_ex_iff)

lemma fold_claims:
  "ClaimedByOther (fold (\<lambda>x. Claims_Add (g x) (h x)) xs c) ident i =
    (ClaimedByOther c ident i \<or>
     (\<exists>x\<in>set xs. normalise (g x) \<noteq> [] \<and> normalise (g x) \<noteq> normalise i \<and> normalise ident \<noteq> [] \<and>
        normalise ident \<in> normalise ` set (g x # h x)))"
  by (induction xs arbitrary: c) (auto simp: Claims_Add_claimed)

definition names_id :: "gostring \<Rightarrow> gostring list \<Rightarrow> gostring \<Rightarrow> bool" where
  "names_id j al ident = (normalise j \<noteq> [] \<and> normalise ident \<noteq> [] \<and> normalise ident \<in> normalise ` set (j # al))"

lemma run_claims_other:
  "ClaimedByOther (run_claims workSet facts rows) ident i \<longleftrightarrow>
    (\<exists>v\<in>set workSet. normalise (vr_id v) \<noteq> normalise i \<and> names_id (vr_id v) (facts (vr_id v)) ident) \<or>
    (\<exists>f\<in>set rows. normalise (ad_id (af_advisory f)) \<noteq> normalise i \<and>
       names_id (ad_id (af_advisory f)) (ad_aliases (af_advisory f)) ident)"
proof -
  have "\<not> ClaimedByOther [] ident i" by (simp add: ClaimedByOther_def)
  then show ?thesis by (auto simp: run_claims_def fold_claims names_id_def)
qed

text \<open>A row takes the signals of its own vulnerability only. What Attribute returns is the record
  under the advisory's own id; or, for an advisory that is not a CVE and has no record, the record of
  a CVE alias that no other advisory of the run names, when the records of all its CVE aliases agree
  value by value and stamp by stamp. The order of the aliases decides nothing: another order takes a
  record exactly when this one does, with the same values.\<close>
theorem attribution_unambiguous:
  assumes "set als = set als'" and "Attribute (Some s) i als (run_claims workSet facts rows) = Some m"
  shows "(m = match_record s (normalise i) \<or>
      \<not> signals_has s (normalise i) \<and> \<not> isCVE (normalise i) \<and>
      (\<exists>a\<in>set als. isCVE (normalise a) \<and> m = match_record s (normalise a) \<and>
         (\<forall>v\<in>set workSet. names_id (vr_id v) (facts (vr_id v)) (normalise a) \<longrightarrow> normalise (vr_id v) = normalise (normalise i)) \<and>
         (\<forall>f\<in>set rows. names_id (ad_id (af_advisory f)) (ad_aliases (af_advisory f)) (normalise a) \<longrightarrow>
            normalise (ad_id (af_advisory f)) = normalise (normalise i))) \<and>
      (\<forall>a\<in>set als. isCVE (normalise a) \<and> signals_has s (normalise a) \<longrightarrow>
         sameValues m (match_record s (normalise a)))) \<and>
    (\<exists>m'. Attribute (Some s) i als' (run_claims workSet facts rows) = Some m' \<and> sameValues m m')"
proof (cases "signals_has s (normalise i)")
  case True
  then show ?thesis using assms(2) by (simp add: Attribute_exact sameValues_values)
next
  case False
  let ?cl = "run_claims workSet facts rows" and ?o = "normalise i"
  let ?P = "\<lambda>a. \<not> ClaimedByOther ?cl a ?o"
  from assms(2) False obtain a where n: "\<not> isCVE ?o" and ag: "agreed s (votes s ?o als)"
    and a: "find ?P (votes s ?o als) = Some a" and m: "m = match_record s a"
    by (auto simp: Attribute_exact split: if_splits)
  have av: "a \<in> set (votes s ?o als)" and free: "?P a" using find_SomeD [OF a] by auto
  then obtain al where al: "al \<in> set als" "a = normalise al" "isCVE a" by (auto simp: votes_def)
  have same: "\<forall>b\<in>set als. isCVE (normalise b) \<and> signals_has s (normalise b) \<longrightarrow> sameValues m (match_record s (normalise b))"
  proof (intro ballI impI)
    fix b assume b: "b \<in> set als" "isCVE (normalise b) \<and> signals_has s (normalise b)"
    then have "normalise b \<in> set (votes s ?o als)" using n by (auto simp: votes_def)
    then show "sameValues m (match_record s (normalise b))" unfolding m sameValues_values by (rule agreedD [OF ag av])
  qed
  have vs: "set (votes s ?o als') = set (votes s ?o als)" by (rule votes_set [OF assms(1) [symmetric]])
  have ag': "agreed s (votes s ?o als')" using ag unfolding agreed_def vs .
  obtain a' where a': "find ?P (votes s ?o als') = Some a'"
    using av free vs by (cases "find ?P (votes s ?o als')") (auto simp: find_None_iff)
  have "a' \<in> set (votes s ?o als)" using find_SomeD [OF a'] vs by simp
  then have "sameValues m (match_record s a')" unfolding m sameValues_values by (rule agreedD [OF ag av])
  moreover have "Attribute (Some s) i als' ?cl = Some (match_record s a')"
    using False n ag' a' by (simp add: Attribute_exact)
  ultimately have other: "\<exists>m'. Attribute (Some s) i als' ?cl = Some m' \<and> sameValues m m'" by blast
  have nc: "\<not> (\<exists>v\<in>set workSet. normalise (vr_id v) \<noteq> normalise ?o \<and> names_id (vr_id v) (facts (vr_id v)) a)"
    "\<not> (\<exists>f\<in>set rows. normalise (ad_id (af_advisory f)) \<noteq> normalise ?o \<and>
       names_id (ad_id (af_advisory f)) (ad_aliases (af_advisory f)) a)"
    using free unfolding run_claims_other by blast+
  have taken: "\<exists>a\<in>set als. isCVE (normalise a) \<and> m = match_record s (normalise a) \<and>
      (\<forall>v\<in>set workSet. names_id (vr_id v) (facts (vr_id v)) (normalise a) \<longrightarrow> normalise (vr_id v) = normalise ?o) \<and>
      (\<forall>f\<in>set rows. names_id (ad_id (af_advisory f)) (ad_aliases (af_advisory f)) (normalise a) \<longrightarrow>
        normalise (ad_id (af_advisory f)) = normalise ?o)"
    using nc al m unfolding al(2) by (intro bexI [of _ al]) blast+
  show ?thesis using False n taken same other by (intro conjI disjI2)
qed


definition sample_kev :: "gostring \<Rightarrow> bool \<Rightarrow> gostring \<times> KEV" where
  "sample_kev i l = (i, \<lparr>kv_identifier = i, kv_listed = l, kv_dateAdded = [], kv_catalogVersion = ''2024.06'',
     kv_dateReleased = ''2024-06-01T00:00:00Z''\<rparr>)"

definition sample_signals :: Signals where
  "sample_signals = \<lparr>sg_digest = ''sha256:0'', sg_records = 2, sg_epss = [],
     sg_kev = [sample_kev ''CVE-2024-1'' True, sample_kev ''CVE-2024-2'' True], sg_newest = 0, sg_epssAsOf = []\<rparr>"

definition sample_ref :: "gostring \<Rightarrow> VulnRef" where
  "sample_ref i = \<lparr>vr_id = i, vr_source = ''osv''\<rparr>"

definition sample_aliases :: "gostring list" where
  "sample_aliases = ['' cve-2024-1'', ''CVE-2024-2'']"

theorem attribution_unambiguous_witness:
  "map_option mt_identifier (Attribute (Some sample_signals) ''GHSA-x'' sample_aliases
     (run_claims [sample_ref ''GHSA-x'', sample_ref ''CVE-2024-1''] (\<lambda>i. []) [])) = Some ''CVE-2024-2'' \<and>
   (\<exists>m'. Attribute (Some sample_signals) ''GHSA-x'' (rev sample_aliases)
      (run_claims [sample_ref ''GHSA-x'', sample_ref ''CVE-2024-1''] (\<lambda>i. []) []) = Some m' \<and>
      sameValues (match_record sample_signals ''CVE-2024-2'') m')"
proof -
  have a: "Attribute (Some sample_signals) ''GHSA-x'' sample_aliases
     (run_claims [sample_ref ''GHSA-x'', sample_ref ''CVE-2024-1''] (\<lambda>i. []) []) =
     Some (match_record sample_signals ''CVE-2024-2'')"
    by code_simp
  have "set sample_aliases = set (rev sample_aliases)" by simp
  note attribution_unambiguous [OF this a]
  then show ?thesis unfolding a by (simp add: match_record_def)
qed

section \<open>Stamps\<close>

text \<open>What a loaded file holds: each value under its record's own identifier, with its stamp.\<close>

definition epss_ok :: "gostring \<times> EPSS \<Rightarrow> bool" where
  "epss_ok x = (ep_identifier (snd x) = fst x \<and> ep_asOf (snd x) \<noteq> [] \<and> 0 \<le> ep_score (snd x) \<and> ep_score (snd x) \<le> 1 \<and>
     0 \<le> ep_percentile (snd x) \<and> ep_percentile (snd x) \<le> 1 \<and>
     (ep_hasPercentile (snd x) \<or> ep_percentile (snd x) = 0))"

definition kev_ok :: "gostring \<times> KEV \<Rightarrow> bool" where
  "kev_ok x = (kv_identifier (snd x) = fst x \<and> kv_catalogVersion (snd x) \<noteq> [] \<and> kv_dateReleased (snd x) \<noteq> [] \<and>
     (kv_dateAdded (snd x) = [] \<or> kv_listed (snd x)))"

definition signals_ok :: "Signals \<Rightarrow> bool" where
  "signals_ok s = (list_all epss_ok (sg_epss s) \<and> list_all kev_ok (sg_kev s))"

lemma add_epss_ok: "add_epss tparse i e s = Inr s' \<Longrightarrow> signals_ok s \<Longrightarrow> signals_ok s'"
  by (auto simp: add_epss_def signals_ok_def epss_ok_def Let_def not_less split: if_splits option.splits)

lemma add_kev_ok: "add_kev i k s = Inr s' \<Longrightarrow> signals_ok s \<Longrightarrow> signals_ok s'"
  by (auto simp: add_kev_def signals_ok_def kev_ok_def split: if_splits option.splits)

lemma signals_add_ok: "signals_add tparse r seen s = Inr (s', seen') \<Longrightarrow> signals_ok s \<Longrightarrow> signals_ok s'"
  by (auto simp: signals_add_def Let_def split: if_splits option.splits sum.splits dest: add_epss_ok add_kev_ok)

lemma add_records_ok: "add_records tparse rs seen s = Inr s' \<Longrightarrow> signals_ok s \<Longrightarrow> signals_ok s'"
  by (induction tparse rs seen s rule: add_records.induct) (auto split: sum.splits dest: signals_add_ok)

lemma load_records_ok: "load_records tparse digest rs = Inr s \<Longrightarrow> signals_ok s"
  unfolding load_records_def by (erule add_records_ok) (simp add: signals_ok_def)

lemma ok_epss: "signals_ok s \<Longrightarrow> map_of (sg_epss s) i = Some e \<Longrightarrow> epss_ok (i, e)"
  by (auto simp: signals_ok_def list_all_iff dest: map_of_SomeD)

lemma ok_kev: "signals_ok s \<Longrightarrow> map_of (sg_kev s) i = Some k \<Longrightarrow> kev_ok (i, k)"
  by (auto simp: signals_ok_def list_all_iff dest: map_of_SomeD)

lemma Attribute_match: "Attribute (Some s) i als cl = Some m \<Longrightarrow> \<exists>a. m = match_record s a"
  by (auto simp: Attribute_exact split: if_splits)

lemma match_priority_ok:
  assumes "\<forall>e. mt_epss m = Some e \<longrightarrow> epss_ok (i, e)" and "\<forall>k. mt_kev m = Some k \<longrightarrow> kev_ok (i, k)"
    and "match_priority m = Some p"
  shows "Priority_validate p = None \<and> 0 \<le> pr_epssScore p \<and> pr_epssScore p \<le> 1"
proof -
  let ?p1 = "case mt_epss m of None \<Rightarrow> zero_priority | Some e \<Rightarrow> with_epss e zero_priority"
  let ?p2 = "case mt_kev m of None \<Rightarrow> ?p1 | Some k \<Rightarrow> with_kev k ?p1"
  have p: "p = ?p2" and h: "HasEPSS (Some ?p2) \<or> HasKEV (Some ?p2)"
    using assms(3) unfolding match_priority_def Let_def by (metis option.distinct(1) option.inject)+
  have e: "pr_epssAsOf p \<noteq> [] \<or> pr_epssScore p = 0 \<and> pr_epssPercentile p = 0 \<and> \<not> pr_hasPercentile p"
    "0 \<le> pr_epssScore p \<and> pr_epssScore p \<le> 1"
    using assms(1) unfolding p
    by (auto simp: zero_priority_def with_epss_def with_kev_def epss_ok_def split: option.split)
  have k: "(pr_kevCatalogVersion p \<noteq> [] \<and> pr_kevDateReleased p \<noteq> [] \<and> (pr_kevDateAdded p = [] \<or> pr_kevListed p)) \<or>
      (pr_kevCatalogVersion p = [] \<and> pr_kevDateReleased p = [] \<and> pr_kevDateAdded p = [] \<and> \<not> pr_kevListed p)"
    using assms(2) unfolding p
    by (auto simp: zero_priority_def with_epss_def with_kev_def kev_ok_def split: option.split)
  have "pr_epssAsOf p \<noteq> [] \<or> pr_kevCatalogVersion p \<noteq> []"
    using h unfolding p [symmetric] by (simp add: HasEPSS_def HasKEV_def)
  then show ?thesis using e k unfolding Priority_validate_def by (simp split: if_split) blast
qed

lemma priority_ok:
  assumes "signals_ok s" and "priorityFor adv (Some s) cl = Some p"
  shows "Priority_validate p = None \<and> 0 \<le> pr_epssScore p \<and> pr_epssScore p \<le> 1"
proof -
  obtain m where m: "Attribute (Some s) (ad_id adv) (ad_aliases adv) cl = Some m" "match_priority m = Some p"
    using assms(2) by (auto simp: priorityFor_def split: option.splits)
  then obtain a where a: "m = match_record s a" using Attribute_match by blast
  have "\<forall>e. mt_epss m = Some e \<longrightarrow> epss_ok (a, e)" "\<forall>k. mt_kev m = Some k \<longrightarrow> kev_ok (a, k)"
    using a ok_epss [OF assms(1)] ok_kev [OF assms(1)] by (simp_all add: match_record_def)
  then show ?thesis using match_priority_ok m(2) by blast
qed

lemma prioritized_rank:
  "prioritized (rankWith sig workSet facts b) =
    map (\<lambda>f. f\<lparr>af_priority := priorityFor (af_advisory f) sig (rank_claims sig workSet facts b)\<rparr>) (bd_advisories b)"
  by (simp add: prioritized_def rankWith_def WithPriority_def)

lemma priority_none: "priorityFor adv None cl = None"
  by (simp add: priorityFor_def Attribute_def)

text \<open>No value is ranked by without its stamp. Whatever records a file holds, once it loads,
  every row ranked by it is valid: a score in [0,1] with its model date, a KEV observation with its
  catalog version and release, a date added only when listed; a run without a file ranks nothing; and
  ranking changes no row but its priority.\<close>
theorem ranking_stamped:
  assumes "sig = None \<or> (\<exists>digest rs s. load_records tparse digest rs = Inr s \<and> sig = Some s)"
  shows "list_all (\<lambda>f. case af_priority f of None \<Rightarrow> True | Some p \<Rightarrow> sig \<noteq> None \<and> Priority_validate p = None \<and>
       0 \<le> pr_epssScore p \<and> pr_epssScore p \<le> 1) (prioritized (rankWith sig workSet facts b)) \<and>
    map (af_priority_update (\<lambda>_. None)) (prioritized (rankWith sig workSet facts b)) =
      map (af_priority_update (\<lambda>_. None)) (bd_advisories b)"
proof -
  have v: "sig \<noteq> None \<and> Priority_validate p = None \<and> 0 \<le> pr_epssScore p \<and> pr_epssScore p \<le> 1"
    if p: "priorityFor adv sig cl = Some p" for adv p cl
  proof -
    have n: "sig \<noteq> None" using p priority_none by (cases sig) simp_all
    then obtain s where s: "sig = Some s" "signals_ok s" using assms load_records_ok by blast
    show ?thesis using n priority_ok [OF s(2)] p s(1) by blast
  qed
  show ?thesis
    unfolding prioritized_rank using v by (auto simp: list_all_iff split: option.split)
qed

definition sample_tparse :: "gostring \<Rightarrow> gostring \<Rightarrow> int option" where
  "sample_tparse layout v = (if layout = layout_DateOnly \<and> length v = 10 then Some 1 else None)"

definition sample_wire :: wireRecord where
  "sample_wire = \<lparr>wr_identifier = ''cve-2024-1 '',
     wr_epss = Some \<lparr>we_score = Some (1 / 2), we_percentile = None, we_asOf = ''2024-06-01''\<rparr>, wr_kev = None\<rparr>"

lemma sample_load: "\<exists>s. load_records sample_tparse ''d'' [sample_wire] = Inr s \<and> map_of (sg_epss s) ''CVE-2024-1'' \<noteq> None"
proof -
  have i: "normalise (wr_identifier sample_wire) = ''CVE-2024-1''" by code_simp
  have t: "parseAsOf sample_tparse ''2024-06-01'' = Some 1" by code_simp
  show ?thesis
    unfolding load_records_def add_records.simps signals_add_def i Let_def
    by (simp add: sample_wire_def add_epss_def t)
qed

theorem ranking_stamped_witness:
  "\<exists>s. load_records sample_tparse ''d'' [sample_wire] = Inr s \<and>
    list_all (\<lambda>f. case af_priority f of None \<Rightarrow> True | Some p \<Rightarrow> Some s \<noteq> None \<and> Priority_validate p = None \<and>
       0 \<le> pr_epssScore p \<and> pr_epssScore p \<le> 1)
      (prioritized (rankWith (Some s) [sample_ref ''CVE-2024-1''] (\<lambda>i. [])
        (AddFinding (id_row ''CVE-2024-1'' ''osv'') (NewBuilder sample_subject))))"
proof -
  obtain s where s: "load_records sample_tparse ''d'' [sample_wire] = Inr s" using sample_load by blast
  then have "Some s = None \<or> (\<exists>digest rs s'. load_records sample_tparse digest rs = Inr s' \<and> Some s = Some s')" by blast
  from ranking_stamped [OF this] s show ?thesis by blast
qed

end
