(* ===== verification/Trigger_Diff.thy ===== *)
theory Trigger_Diff
  imports Trigger_Scan
begin

text \<open>
  The dependency diff of a pull-request run (src/trigger/state.go): the signature of every copy of
  a package, the packages whose signatures changed, and whether an advisory affects one of them. A
  Go map is an association list whose newest entry is last written; slices.SortFunc orders by all
  fields of a signature, so its result is determined. The lemmas: a package is changed exactly when
  the multisets of its copies' signatures differ, whatever the order of the two SBOMs.
\<close>

section \<open>Signatures\<close>

record packageSignature =
  ps_version :: gostring
  ps_direct :: bool
  ps_notInstalled :: bool
  ps_parents :: gostring
  ps_children :: gostring

text \<open>The comparisons of the sort: compareBool puts false first, as the order of bool does.\<close>

definition compareBool :: "bool \<Rightarrow> bool \<Rightarrow> int" where
  "compareBool a b = (if a = b then 0 else if a then 1 else -1)"

definition compare_signatures :: "packageSignature \<Rightarrow> packageSignature \<Rightarrow> int" where
  "compare_signatures a b =
    cmp_then (strings_compare (ps_version a) (ps_version b))
      (cmp_then (compareBool (ps_direct a) (ps_direct b))
        (cmp_then (compareBool (ps_notInstalled a) (ps_notInstalled b))
          (cmp_then (strings_compare (ps_parents a) (ps_parents b))
            (strings_compare (ps_children a) (ps_children b)))))"

definition sig_key :: "packageSignature \<Rightarrow> gostring \<times> bool \<times> bool \<times> gostring \<times> gostring" where
  "sig_key s = (ps_version s, ps_direct s, ps_notInstalled s, ps_parents s, ps_children s)"

text \<open>The name a package is compared by: ecosystem and name around a zero byte.\<close>

definition package_name :: "Package \<Rightarrow> gostring" where
  "package_name p = id_key (pkg_ecosystem p) (pkg_name p)"

definition joinSortedUnique :: "gostring list \<Rightarrow> gostring" where
  "joinSortedUnique ns = (if length ns = 0 then [] else go_join (remdups_adj (sort ns)) [CHR 0x00])"

text \<open>keyToName, a later package overriding an earlier one with its key.\<close>

definition key_names :: "SBOM \<Rightarrow> (gostring \<times> gostring) list" where
  "key_names s = rev (map (\<lambda>p. (Package_Key p, package_name p)) (sb_packages s))"

text \<open>The edges by name: parent and child, those with an unknown end dropped.\<close>

definition named_edges :: "SBOM \<Rightarrow> (gostring \<times> gostring) list" where
  "named_edges s =
    List.map_filter (\<lambda>e.
      case (map_of (key_names s) (rel_parent e), map_of (key_names s) (rel_child e)) of
        (Some p, Some c) \<Rightarrow> Some (p, c) | _ \<Rightarrow> None) (sb_relationships s)"

definition signature_of :: "SBOM \<Rightarrow> Package \<Rightarrow> packageSignature" where
  "signature_of s p =
    (let name = package_name p in
     \<lparr>ps_version = pkg_version p, ps_direct = pkg_direct p, ps_notInstalled = pkg_notInstalled p,
      ps_parents = joinSortedUnique (map fst (filter (\<lambda>e. snd e = name) (named_edges s))),
      ps_children = joinSortedUnique (map snd (filter (\<lambda>e. fst e = name) (named_edges s)))\<rparr>)"

definition indexSignatures :: "SBOM \<Rightarrow> (gostring \<times> packageSignature list) list" where
  "indexSignatures s =
    map (\<lambda>name. (name, sort_key sig_key (map (signature_of s) (filter (\<lambda>p. package_name p = name) (sb_packages s)))))
      (first_seen [] (map package_name (sb_packages s)))"

definition changedPackages :: "SBOM \<Rightarrow> SBOM \<Rightarrow> gostring list" where
  "changedPackages baseline candidate =
    (let base = indexSignatures baseline; cand = indexSignatures candidate;
         gone = map fst (filter (\<lambda>(key, bsigs). map_of cand key \<noteq> Some bsigs) base);
         added = map fst (filter (\<lambda>(key, csigs). map_of base key = None) cand)
     in sort (first_seen [] (gone @ added)))"

section \<open>Affected packages\<close>

definition CanonicalName :: "gostring \<Rightarrow> gostring \<Rightarrow> gostring" where
  "CanonicalName purlType name =
    (if purlType = ''pypi'' then pep503 False (to_lower name)
     else if purlType = ''nuget'' then to_lower name
     else name)"

definition canonicalKey :: "gostring \<Rightarrow> gostring \<Rightarrow> gostring" where
  "canonicalKey ecosystem name =
    id_key ecosystem
      (if ecosystem = ''PyPI'' then CanonicalName ''pypi'' name
       else if ecosystem = ''NuGet'' then CanonicalName ''nuget'' name else name)"

text \<open>The changed set is a list, searched as a set.\<close>

definition named_changed :: "gostring list \<Rightarrow> gostring \<Rightarrow> gostring \<Rightarrow> bool" where
  "named_changed changed ecosystem name =
    (if ecosystem \<noteq> [] then canonicalKey ecosystem name \<in> set changed
     else list_ex (\<lambda>key. canonicalKey (before_first key [CHR 0x00]) name = key) changed)"

definition affectedPackageChanged :: "run_store \<Rightarrow> Package option \<Rightarrow> gostring list \<Rightarrow> bool" where
  "affectedPackageChanged st pkg changed =
    (if (case pkg of None \<Rightarrow> False | Some p \<Rightarrow> canonicalKey (pkg_ecosystem p) (pkg_name p) \<in> set changed) then True
     else (case st_advisory (rs_case st) of
       Payload adv \<Rightarrow>
         (let ecosystem =
                (case pkg of
                   Some p \<Rightarrow> pkg_ecosystem p
                 | None \<Rightarrow> (case inv_of (rs_case st) of
                              Some i \<Rightarrow> if inv_language i \<noteq> [] then ecosystemFor (inv_language i) else []
                            | None \<Rightarrow> []));
              affected = map (\<lambda>a. or_else (aap_module a) (aap_coordinate a)) (adv_packages adv);
              ns = filter (\<lambda>n. n \<noteq> []) (affected @ [or_else (adv_module adv) (adv_coordinate adv)])
          in if [] \<in> set affected then True
             else if list_ex (named_changed changed ecosystem) ns then True
             else length ns = 0)
     | _ \<Rightarrow> True))"

section \<open>The diff is exact\<close>

lemma compareBool_ord: "compareBool a b = cmp_ord a b"
  by (cases a; cases b) (simp_all add: compareBool_def cmp_ord_def)

lemma compare_signatures_ord: "compare_signatures a b = cmp_ord (sig_key a) (sig_key b)"
  by (simp add: compare_signatures_def sig_key_def cmp_ord_pair strings_compare_def compareBool_ord)

lemma sig_key_inj: "inj sig_key"
  by (auto simp: inj_def sig_key_def intro: packageSignature.equality)

text \<open>The copies of a package an SBOM carries, as a multiset of signatures.\<close>

definition copies :: "SBOM \<Rightarrow> gostring \<Rightarrow> packageSignature multiset" where
  "copies s name = image_mset (signature_of s) (filter_mset (\<lambda>p. package_name p = name) (mset (sb_packages s)))"

lemma copies_list: "copies s name = mset (map (signature_of s) (filter (\<lambda>p. package_name p = name) (sb_packages s)))"
  by (simp add: copies_def)

lemma index_keys: "map fst (indexSignatures s) = first_seen [] (map package_name (sb_packages s))"
  by (simp add: indexSignatures_def comp_def)

lemma index_map:
  "map_of (indexSignatures s) name =
    (if name \<in> package_name ` set (sb_packages s)
     then Some (sort_key sig_key (map (signature_of s) (filter (\<lambda>p. package_name p = name) (sb_packages s)))) else None)"
  by (simp add: indexSignatures_def map_of_map_restrict first_seen_set restrict_map_def)

lemma copies_empty: "copies s name = {#} \<longleftrightarrow> name \<notin> package_name ` set (sb_packages s)"
  by (auto simp: copies_list filter_empty_conv)

lemma index_eq:
  "map_of (indexSignatures s) name = map_of (indexSignatures t) name \<longleftrightarrow> copies s name = copies t name"
proof -
  let ?l = "\<lambda>s. map (signature_of s) (filter (\<lambda>p. package_name p = name) (sb_packages s))"
  have k: "sort_key sig_key (?l s) = sort_key sig_key (?l t) \<longleftrightarrow> copies s name = copies t name"
  proof
    assume e: "sort_key sig_key (?l s) = sort_key sig_key (?l t)"
    have "mset (sort_key sig_key (?l s)) = mset (sort_key sig_key (?l t))" by (simp only: e)
    then show "copies s name = copies t name" by (simp only: copies_list mset_sort)
  next
    assume "copies s name = copies t name"
    then show "sort_key sig_key (?l s) = sort_key sig_key (?l t)"
      unfolding copies_list by (intro sort_key_canonical inj_on_subset [OF sig_key_inj]) auto
  qed
  show ?thesis
  proof (cases "name \<in> package_name ` set (sb_packages s) \<longleftrightarrow> name \<in> package_name ` set (sb_packages t)")
    case True
    then show ?thesis using copies_empty [of s name] copies_empty [of t name] unfolding index_map k [symmetric]
      by (cases "name \<in> package_name ` set (sb_packages s)") (simp_all add: k)
  next
    case False
    then have "map_of (indexSignatures s) name \<noteq> map_of (indexSignatures t) name" unfolding index_map
      by (cases "name \<in> package_name ` set (sb_packages s)") simp_all
    moreover have "copies s name \<noteq> copies t name" using False copies_empty [of s name] copies_empty [of t name] by metis
    ultimately show ?thesis by simp
  qed
qed

lemma changed_set: "set (changedPackages b c) = {name. copies b name \<noteq> copies c name}"
proof -
  let ?b = "map_of (indexSignatures b)" and ?c = "map_of (indexSignatures c)"
  have d: "distinct (map fst (indexSignatures s))" for s by (simp add: index_keys first_seen_distinct)
  have "set (changedPackages b c) = {n. (\<exists>x. ?b n = Some x \<and> ?c n \<noteq> Some x) \<or> (\<exists>x. ?c n = Some x \<and> ?b n = None)}"
    unfolding map_of_eq_Some_iff [OF d [of b]] map_of_eq_Some_iff [OF d [of c]]
    by (simp add: changedPackages_def Let_def first_seen_set) (auto simp: image_iff map_of_eq_Some_iff [OF d])
  also have "\<dots> = {n. ?b n \<noteq> ?c n}"
  proof (intro Collect_cong)
    fix n
    show "((\<exists>x. ?b n = Some x \<and> ?c n \<noteq> Some x) \<or> (\<exists>x. ?c n = Some x \<and> ?b n = None)) = (?b n \<noteq> ?c n)"
      by (cases "?b n"; cases "?c n") auto
  qed
  finally show ?thesis by (simp add: index_eq)
qed

lemma changed_canonical: "changedPackages b c = sorted_list_of_set {name. copies b name \<noteq> copies c name}"
proof -
  have "sorted (changedPackages b c) \<and> distinct (changedPackages b c)"
    by (simp add: changedPackages_def Let_def first_seen_distinct)
  then show ?thesis
    by (metis changed_set sorted_list_of_set.idem_if_sorted_distinct)
qed

text \<open>C36: The diff that decides whether a pull request inherits misses no copy of a package: a name
  is changed exactly when the multiset of its copies' signatures (version, direct, installed and
  neighbours) differs, each changed name once and sorted; so nothing is changed between an SBOM
  and itself, the two directions report the same names, and the fast path is taken exactly when
  every name carries the same copies on both sides.\<close>
theorem changed_packages_exact:
  "changedPackages b c = sorted_list_of_set {name. copies b name \<noteq> copies c name} \<and>
   finite {name. copies b name \<noteq> copies c name} \<and>
   changedPackages c b = changedPackages b c \<and> changedPackages b b = [] \<and>
   (changedPackages b c = [] \<longleftrightarrow> (\<forall>name. copies b name = copies c name))"
proof -
  have f: "finite {name. copies b name \<noteq> copies c name}" by (metis List.finite_set changed_set)
  have s: "{name. copies c name \<noteq> copies b name} = {name. copies b name \<noteq> copies c name}" by auto
  show ?thesis using f s by (auto simp: changed_canonical)
qed

end
