(* ===== verification/Trigger_Run.thy ===== *)
theory Trigger_Run
  imports Trigger_Diff Intel_Signals
begin

text \<open>
  The three run modes of src/trigger/trigger.go and state.go: the baseline, the pull-request run that
  inherits or re-analyses, and the scheduled CVE watch, with their parts of cutshort.go and osv.go.
  What a run meets is the record \<open>run_env\<close>: the inventory, the assessment of an advisory (artifacts or
  an error), the moment the analysis context ends, the clock. Moments count the steps of a run: the
  n-th step runs from moment n to moment n + 1, and a context that is done stays done. The store is a
  pair of functions on the repository \<open>'w\<close>, as in theory Statestore. The lemmas: a run never loses an
  advisory of its work set, whatever fails or stops, and what it writes validates.
\<close>

section \<open>What a run meets\<close>

record run_env =
  en_stop :: "nat option"
  en_cause :: gostring
  en_inventory :: DependencyInventory
  en_language :: gostring
  en_inventoryFails :: bool
  en_assess :: "nat \<Rightarrow> VulnRef \<Rightarrow> assess_error + run_store"
  en_facts :: "gostring \<Rightarrow> gostring list"
  en_analyzer :: gostring
  en_now :: int

definition analysis_done :: "run_env \<Rightarrow> nat \<Rightarrow> bool" where
  "analysis_done env t = (case en_stop env of None \<Rightarrow> False | Some n \<Rightarrow> n \<le> t)"

datatype outcome = Stopped | Failed assess_error | Completed run_store

definition assessWithin :: "run_env \<Rightarrow> nat \<Rightarrow> VulnRef \<Rightarrow> outcome" where
  "assessWithin env t v =
    (if analysis_done env t then Stopped
     else
       (let res = en_assess env t v in
        if analysis_done env (t + 1) then Stopped
        else case res of Inl e \<Rightarrow> Failed e | Inr st \<Rightarrow> Completed st))"

text \<open>The inventory is the first step of a baseline; None is its error.\<close>

definition inventoryWithin :: "run_env \<Rightarrow> (DependencyInventory \<times> gostring) option" where
  "inventoryWithin env =
    (if analysis_done env 1
     then Some (\<lparr>di_partiality = \<lparr>pa_complete = False, pa_reasons = [ReasonScanCutShort], pa_scoped = []\<rparr>,
       di_nodes = [], di_edges = [], di_buildList = [], di_mainModule = [], di_workspaceModules = []\<rparr>, en_language env)
     else if en_inventoryFails env then None
     else Some (en_inventory env, en_language env))"

definition ResolveSBOM :: "run_env \<Rightarrow> (SBOM \<times> PartialityNote list) option" where
  "ResolveSBOM env =
    (case inventoryWithin env of
       None \<Rightarrow> None
     | Some (i, language) \<Rightarrow> Some (sbomFromInventory i (ecosystemFor language)))"

datatype run_error =
    NoBaseline
  | StoreUnreadable
  | InventoryFailed
  | PriorSBOMUnreadable
  | QueryFailed
  | InvalidReport report_error
  | WithheldInvalid
  | WriteFailed

record DependencyFetchRun =
  fr_baseline :: bool
  fr_held :: bool
  fr_assessed :: "Advisory list"
  fr_packages :: "(gostring \<times> gostring list) list"
  fr_undetermined :: "gostring list"

definition empty_state :: State where
  "empty_state = \<lparr>ss_report = None, ss_sbom = empty_sbom, ss_cursor = [], ss_vexLog = [], ss_revokeCount = 0,
     ss_depFetch = None, ss_commitSHA = []\<rparr>"

definition readForUpdate :: "('w \<Rightarrow> 'w \<times> read_outcome) \<Rightarrow> 'w \<Rightarrow> 'w \<times> State option" where
  "readForUpdate rd w =
    (case rd w of
       (w1, Winner s) \<Rightarrow> (w1, Some s)
     | (w1, NoRef) \<Rightarrow> (w1, Some empty_state)
     | (w1, ReadError) \<Rightarrow> (w1, None))"

definition analyzerOr :: "run_env \<Rightarrow> gostring \<Rightarrow> gostring" where
  "analyzerOr env v = (if v = [] then en_analyzer env else v)"

definition cursorOr :: "gostring \<Rightarrow> gostring \<Rightarrow> gostring" where
  "cursorOr primary fallback = (if primary \<noteq> [] then primary else fallback)"

definition run_provenance :: "run_env \<Rightarrow> gostring \<Rightarrow> gostring \<Rightarrow> gostring \<Rightarrow> Signals option \<Rightarrow> Provenance" where
  "run_provenance env commit analyzer cursor sig =
    withSignals \<lparr>pv_commitSHA = commit, pv_analyzerVersion = analyzer, pv_capabilityManifestVersion = [],
      pv_advisoryCursor = cursor, pv_timestamp = en_now env, pv_intel = None, pv_timings = None\<rparr> sig"

fun compact_ids :: "Advisory list \<Rightarrow> Advisory list" where
  "compact_ids (a # b # r) = (if ad_id a = ad_id b then compact_ids (a # r) else a # compact_ids (b # r))"
| "compact_ids xs = xs"

definition sortedAdvisories :: "Advisory list \<Rightarrow> Advisory list" where
  "sortedAdvisories advs = (if length advs = 0 then [] else compact_ids (sort_key ad_id advs))"

text \<open>The row of a completed assessment in the baseline, the fast path and the slow path, and what
  advisoryFromArtifacts read for it.\<close>

definition assessed_row ::
  "run_store \<Rightarrow> VulnRef \<Rightarrow> SBOM \<Rightarrow> PartialityNote list \<Rightarrow> AdvisoryFinding" where
  "assessed_row st v sbom limits =
    (case advisoryFromArtifacts st v (sb_packages sbom) of (adv, pkg) \<Rightarrow>
      withInventoryLimits (findingInBuild st adv pkg (goModulesOf sbom limits)) limits
        (AdvisoryPackagePURLs (rs_case st)))"

section \<open>The baseline\<close>

record BaselineRequest =
  bq_subject :: Subject
  bq_advisories :: "VulnRef list"
  bq_workSetLimits :: "PartialityNote list"
  bq_analyzer :: gostring
  bq_cursor :: gostring
  bq_signals :: "Signals option"
  bq_bands :: "gostring \<rightharpoonup> gostring"
  bq_fetch :: "(DepFetch option \<Rightarrow> DependencyFetchRun \<Rightarrow> DepFetch option) option"
  bq_disclose :: "(Report \<Rightarrow> Report) option"

text \<open>The loop over the admitted advisories, from moment \<open>t\<close>: the builder, the rows cut, and the
  advisories whose assessment completed.\<close>

fun baseline_loop ::
  "run_env \<Rightarrow> SBOM \<Rightarrow> PartialityNote list \<Rightarrow> nat \<Rightarrow> VulnRef list \<Rightarrow> Builder \<times> nat \<times> Advisory list \<Rightarrow>
   Builder \<times> nat \<times> Advisory list" where
  "baseline_loop env sbom limits t [] acc = acc"
| "baseline_loop env sbom limits t (v # vs) (b, cuts, ds) =
    baseline_loop env sbom limits (t + 1) vs
      (case assessWithin env t v of
         Stopped \<Rightarrow> (AddFinding (cutShortFinding v) b, cuts + 1, ds)
       | Failed e \<Rightarrow>
           (Builder_AddPartiality [assessFailureNote v e] (AddFinding (assessFailureFinding v e) b), cuts, ds)
       | Completed st \<Rightarrow>
           (let f = assessed_row st v sbom limits;
                b1 = WithLibraryEntrypoints (libraryEntrypoints st) (AddFinding f b);
                b2 = (case limitNoteFor f of None \<Rightarrow> b1 | Some n \<Rightarrow> Builder_AddPartiality [n] b1)
            in (Builder_AddPartiality (partialityNotes st) b2, cuts,
                ds @ [fst (advisoryFromArtifacts st v (sb_packages sbom))])))"

definition baseline_admitted :: "BaselineRequest \<Rightarrow> VulnRef list" where
  "baseline_admitted q = ar_admitted (admitAdvisories (scheduleFor (bq_advisories q) (bq_bands q)))"

text \<open>The stored SBOM a stopped baseline keeps, and whether it keeps it. \<open>prior\<close> is what priorSBOM
  returns when it is called: None stands for a nil function, Some None for its error.\<close>

definition kept_sbom :: "SBOM option option \<Rightarrow> SBOM option" where
  "kept_sbom prior =
    (case prior of
       Some (Some p) \<Rightarrow> if length (sb_packages p) > 0
         then Some (p\<lparr>sb_goBuildList := [], sb_goMainModule := [], sb_goWorkspaceModules := []\<rparr>) else None
     | _ \<Rightarrow> None)"

text \<open>The SBOM the baseline reports, with the note when it is the stored one; the builder before the
  loop, and after it.\<close>

definition baseline_sbom :: "SBOM \<Rightarrow> PartialityNote list \<Rightarrow> SBOM option option \<Rightarrow> SBOM \<times> PartialityNote list" where
  "baseline_sbom sbom0 limits prior =
    (case (if inventoryCutShort limits then kept_sbom prior else None) of
       None \<Rightarrow> (sbom0, [])
     | Some p \<Rightarrow> (p, [priorSBOMNote]))"

definition baseline_start :: "BaselineRequest \<Rightarrow> SBOM \<Rightarrow> PartialityNote list \<Rightarrow> PartialityNote list \<Rightarrow> Builder" where
  "baseline_start q sbom kept limits =
    Builder_AddPartiality limits
      (SetGoBuildList sbom (SetRelationships (sb_relationships sbom) (AddPackages (sb_packages sbom)
        (Builder_AddPartiality kept (Builder_AddPartiality (bq_workSetLimits q) (NewBuilder (bq_subject q)))))))"

definition baseline_finish :: "run_env \<Rightarrow> BaselineRequest \<Rightarrow> nat \<Rightarrow> Builder \<Rightarrow> Builder" where
  "baseline_finish env q cuts b =
    rankWith (bq_signals q) (bq_advisories q) (en_facts env)
      (WithProvenance (run_provenance env (sj_resolvedCommit (bq_subject q)) (analyzerOr env (bq_analyzer q))
          (bq_cursor q) (bq_signals q))
        (if cuts > 0
         then Builder_AddPartiality [cutShortNote cuts (length (baseline_admitted q)) (en_cause env)] b else b))"

definition baselineReport ::
  "run_env \<Rightarrow> BaselineRequest \<Rightarrow> SBOM option option \<Rightarrow> run_error + (Report \<times> Advisory list)" where
  "baselineReport env q prior =
    (case inventoryWithin env of
       None \<Rightarrow> Inl InventoryFailed
     | Some (i, language) \<Rightarrow>
         (let (sbom0, limits) = sbomFromInventory i (ecosystemFor language)
          in if inventoryCutShort limits \<and> prior = Some None then Inl PriorSBOMUnreadable
             else
               (let (sbom, kept) = baseline_sbom sbom0 limits prior;
                    (b, cuts, completed) =
                      baseline_loop env sbom limits 1 (baseline_admitted q) (baseline_start q sbom kept limits, 0, [])
                in (case BuildValidated (en_now env) (baseline_finish env q cuts b) of
                      Inl e \<Rightarrow> Inl (InvalidReport e)
                    | Inr rep \<Rightarrow> Inr (rep, sortedAdvisories completed)))))"

definition buildBaselineReport :: "run_env \<Rightarrow> BaselineRequest \<Rightarrow> run_error + Report" where
  "buildBaselineReport env q =
    (case baselineReport env q None of Inl e \<Rightarrow> Inl e | Inr (rep, completed) \<Rightarrow> Inr rep)"

text \<open>Whether the baseline reads the stored SBOM.\<close>

definition baseline_reads :: "run_env \<Rightarrow> bool" where
  "baseline_reads env =
    (case inventoryWithin env of
       None \<Rightarrow> False
     | Some (i, language) \<Rightarrow> inventoryCutShort (snd (sbomFromInventory i (ecosystemFor language))))"

text \<open>RunBaseline, with the state its write commits; its result is that state's report.\<close>

definition RunBaseline ::
  "('w \<Rightarrow> 'w \<times> read_outcome) \<Rightarrow> ('w \<Rightarrow> State \<Rightarrow> remerge \<Rightarrow> 'w \<times> write_outcome) \<Rightarrow>
   run_env \<Rightarrow> BaselineRequest \<Rightarrow> 'w \<Rightarrow> 'w \<times> (run_error + State)" where
  "RunBaseline rd wr env q w =
    (let (w1, prior) = (if baseline_reads env then readForUpdate rd w else (w, Some empty_state)) in
     case baselineReport env q (Some (map_option ss_sbom prior)) of
       Inl e \<Rightarrow> (w1, Inl e)
     | Inr (rep0, completed) \<Rightarrow>
         (let rep = (case bq_disclose q of None \<Rightarrow> rep0 | Some d \<Rightarrow> d rep0) in
          case readForUpdate rd w1 of
            (w2, None) \<Rightarrow> (w2, Inl StoreUnreadable)
          | (w2, Some next) \<Rightarrow>
              (let dep = (case bq_fetch q of
                            None \<Rightarrow> ss_depFetch next
                          | Some f \<Rightarrow> f (ss_depFetch next) \<lparr>fr_baseline = True, fr_held = False, fr_assessed = completed,
                              fr_packages = [], fr_undetermined = []\<rparr>)
               in case withNotFetched rep dep of
                    None \<Rightarrow> (w2, Inl WithheldInvalid)
                  | Some out \<Rightarrow>
                      (case wr w2 (next\<lparr>ss_report := Some out, ss_sbom := rp_sbom rep, ss_cursor := bq_cursor q,
                          ss_depFetch := dep\<rparr>) (Some remergeNotFetched) of
                         (w3, Done s) \<Rightarrow> (w3, Inr s)
                       | (w3, _) \<Rightarrow> (w3, Inl WriteFailed)))))"

section \<open>A pull-request run\<close>

record PRInheritRequest =
  pq_subject :: Subject
  pq_sbom :: SBOM
  pq_advisories :: "VulnRef list"
  pq_workSetLimits :: "PartialityNote list"
  pq_diffLimits :: "PartialityNote list"
  pq_analyzer :: gostring
  pq_cursor :: gostring
  pq_signals :: "Signals option"

record PRInheritResult =
  pi_report :: Report
  pi_inherited :: bool
  pi_changed :: "gostring list"
  pi_assessed :: "gostring list"
  pi_cutShort :: "gostring list"

text \<open>findingKeys is the merge keys and the ids of some rows.\<close>

definition findingKeys :: "AdvisoryFinding list \<Rightarrow> gostring list \<times> gostring list" where
  "findingKeys rows = (map merge_key rows, map (\<lambda>f. ad_id (af_advisory f)) rows)"

definition supersededByFresh :: "AdvisoryFinding \<Rightarrow> gostring list \<Rightarrow> bool" where
  "supersededByFresh f freshIDs =
    (if af_verdict f \<noteq> VerdictUndetermined \<or> ad_source (af_advisory f) \<noteq> [] then False
     else ad_id (af_advisory f) \<in> set freshIDs)"

text \<open>The keys of the rows the baseline holds, a cut-short row counting as none.\<close>

definition usable_keys :: "Report \<Rightarrow> gostring list" where
  "usable_keys baseline =
    map merge_key (filter (\<lambda>f. af_undeterminedReason f \<noteq> ReasonScanCutShort) (rp_advisories baseline))"

definition has_row :: "gostring list \<Rightarrow> VulnRef \<Rightarrow> bool" where
  "has_row keys v = (id_key (vr_id v) (vr_source v) \<in> set keys \<or> id_key (vr_id v) [] \<in> set keys)"

fun unrowed_from :: "gostring list \<Rightarrow> VulnRef list \<Rightarrow> VulnRef list" where
  "unrowed_from keys [] = []"
| "unrowed_from keys (v # vs) =
    (if has_row keys v then unrowed_from keys vs
     else v # unrowed_from (id_key (vr_id v) (vr_source v) # keys) vs)"

definition unrowedAdvisories :: "Report \<Rightarrow> VulnRef list \<Rightarrow> VulnRef list" where
  "unrowedAdvisories baseline advisories = unrowed_from (usable_keys baseline) advisories"

text \<open>The loop of assessUnrowed: the rows, the notes and the rows cut.\<close>

fun unrowed_loop ::
  "run_env \<Rightarrow> SBOM \<Rightarrow> PartialityNote list \<Rightarrow> nat \<Rightarrow> VulnRef list \<Rightarrow>
   AdvisoryFinding list \<times> PartialityNote list \<times> nat \<Rightarrow> AdvisoryFinding list \<times> PartialityNote list \<times> nat" where
  "unrowed_loop env sbom limits t [] acc = acc"
| "unrowed_loop env sbom limits t (v # vs) (fs, ns, cuts) =
    unrowed_loop env sbom limits (t + 1) vs
      (case assessWithin env t v of
         Stopped \<Rightarrow> (fs @ [cutShortFinding v], ns, cuts + 1)
       | Failed e \<Rightarrow> (fs @ [assessFailureFinding v e], ns @ [assessFailureNote v e], cuts)
       | Completed st \<Rightarrow>
           (let f = assessed_row st v sbom limits
            in (fs @ [f],
                ns @ partialityNotes st @ (case limitNoteFor f of None \<Rightarrow> [] | Some n \<Rightarrow> [n]), cuts)))"

definition assessUnrowed ::
  "run_env \<Rightarrow> PRInheritRequest \<Rightarrow> VulnRef list \<Rightarrow> AdvisoryFinding list \<times> PartialityNote list \<times> gostring" where
  "assessUnrowed env q advisories =
    (case unrowed_loop env (pq_sbom q) (pq_diffLimits q) 0 advisories ([], [], 0) of
       (fs, ns, cuts) \<Rightarrow> (fs, ns, ownStop (en_cause env) cuts))"

definition buildContextNotComparedNote :: PartialityNote where
  "buildContextNotComparedNote =
    no_note\<lparr>pn_reason := ''build_context_not_compared'',
      pn_detail := ''PR-inherit compared the dependency set; build-context changes (project/language/target/runtime/root) were not compared (unimplemented)'',
      pn_class := PartialityInherentLimit\<rparr>"

definition baselinePointer :: "Report \<Rightarrow> State \<Rightarrow> BaselineRef" where
  "baselinePointer baseline state =
    (let ref = \<lparr>bl_commitSHA = pv_commitSHA (rp_provenance baseline), bl_stateRef = [], bl_blobSHA = []\<rparr>;
         ref1 = (case rp_baseline baseline of
                   None \<Rightarrow> ref
                 | Some b \<Rightarrow> if bl_stateRef b \<noteq> [] then ref\<lparr>bl_stateRef := bl_stateRef b\<rparr> else ref)
     in if ss_commitSHA state \<noteq> [] then ref1\<lparr>bl_commitSHA := pv_commitSHA (rp_provenance baseline)\<rparr> else ref1)"

text \<open>validateRows: the rows of the report with a fresh key, alone.\<close>

definition validateRows :: "Report \<Rightarrow> gostring list \<Rightarrow> report_error option" where
  "validateRows rep keys =
    (if length keys = 0 then None
     else Report_Validate (rep\<lparr>rp_sbom := empty_sbom, rp_advisories := filter (\<lambda>f. merge_key f \<in> set keys) (rp_advisories rep)\<rparr>))"

definition inherited_rows :: "PRInheritRequest \<Rightarrow> Report \<Rightarrow> AdvisoryFinding list \<Rightarrow> AdvisoryFinding list" where
  "inherited_rows q baseline fresh =
    map (\<lambda>f. withInventoryLimits f (inheritedLimits (pq_diffLimits q) (Some baseline)) [])
      (filter (\<lambda>f. \<not> (merge_key f \<in> set (fst (findingKeys fresh)) \<or> supersededByFresh f (snd (findingKeys fresh))))
        (rp_advisories baseline))"

definition add_rows :: "AdvisoryFinding list \<Rightarrow> Builder \<Rightarrow> Builder" where
  "add_rows rows b = fold AddFinding rows b"

definition add_recount :: "PartialityNote option \<Rightarrow> Builder \<Rightarrow> Builder" where
  "add_recount n b = (case n of None \<Rightarrow> b | Some x \<Rightarrow> Builder_AddPartiality [x] b)"

definition inherit_builder ::
  "run_env \<Rightarrow> Report \<Rightarrow> PRInheritRequest \<Rightarrow> State \<Rightarrow> AdvisoryFinding list \<Rightarrow> PartialityNote list \<Rightarrow> gostring \<Rightarrow> Builder" where
  "inherit_builder env baseline q state fresh notes cause =
    (let rows = inherited_rows q baseline fresh @ fresh;
         b1 = SetGoBuildList (rp_sbom baseline) (SetRelationships (sb_relationships (rp_sbom baseline))
                (AddPackages (sb_packages (rp_sbom baseline)) (NewBuilder (pq_subject q))));
         b2 = Builder_AddPartiality [buildContextNotComparedNote]
                (Builder_AddPartiality (pq_diffLimits q) (Builder_AddPartiality notes (add_rows rows b1)));
         b3 = add_recount (recountCutShort rows (rp_partiality baseline) cause)
                (Builder_AddPartiality (withoutCutShortCount (rp_partiality baseline)) b2);
         b4 = WithLibraryEntrypoints (rp_libraryEntrypoints baseline) (Builder_AddPartiality (pq_workSetLimits q) b3);
         b5 = WithProvenance (run_provenance env (sj_resolvedCommit (pq_subject q)) (analyzerOr env (pq_analyzer q))
                (cursorOr (pq_cursor q) (pv_advisoryCursor (rp_provenance baseline))) (pq_signals q)) b4
     in rankWith (pq_signals q) (pq_advisories q) (en_facts env) (WithBaseline (baselinePointer baseline state) b5))"

definition inheritBaseline ::
  "run_env \<Rightarrow> Report \<Rightarrow> PRInheritRequest \<Rightarrow> State \<Rightarrow> AdvisoryFinding list \<Rightarrow> PartialityNote list \<Rightarrow> gostring \<Rightarrow>
   run_error + Report" where
  "inheritBaseline env baseline q state fresh notes cause =
    (let rep = Build (en_now env) (inherit_builder env baseline q state fresh notes cause) in
     case validateRows rep (fst (findingKeys fresh)) of
       Some e \<Rightarrow> Inl (InvalidReport e)
     | None \<Rightarrow> Inr rep)"

section \<open>The slow path\<close>

text \<open>reFindings is an association list in the order of its keys' first insertion: its iteration order
  is open in Go, and Build sorts the rows.\<close>

record slice =
  sl_re :: "(gostring \<times> AdvisoryFinding) list"
  sl_ids :: "gostring list"
  sl_notes :: "PartialityNote list"
  sl_entry :: "ResolvedLibraryEntrypoints list"
  sl_cut :: nat

definition empty_slice :: slice where
  "empty_slice = \<lparr>sl_re = [], sl_ids = [], sl_notes = [], sl_entry = [], sl_cut = 0\<rparr>"

definition put_fresh :: "VulnRef \<Rightarrow> AdvisoryFinding \<Rightarrow> slice \<Rightarrow> slice" where
  "put_fresh v f s = s\<lparr>sl_re := AList.update (id_key (vr_id v) (vr_source v)) f (sl_re s), sl_ids := sl_ids s @ [vr_id v]\<rparr>"

definition slice_step ::
  "run_env \<Rightarrow> PRInheritRequest \<Rightarrow> gostring list \<Rightarrow> gostring list \<Rightarrow> nat \<Rightarrow> VulnRef \<Rightarrow> slice \<Rightarrow> slice" where
  "slice_step env q baselineRows changed t v s =
    (case assessWithin env t v of
       Stopped \<Rightarrow> (put_fresh v (cutShortFinding v) s)\<lparr>sl_cut := sl_cut s + 1\<rparr>
     | Failed e \<Rightarrow> (put_fresh v (assessFailureFinding v e) s)\<lparr>sl_notes := sl_notes s @ [assessFailureNote v e]\<rparr>
     | Completed st \<Rightarrow>
         (let f = assessed_row st v (pq_sbom q) (pq_diffLimits q);
              pkg = snd (advisoryFromArtifacts st v (sb_packages (pq_sbom q)));
              s1 = s\<lparr>sl_notes := sl_notes s @ partialityNotes st, sl_entry := sl_entry s @ libraryEntrypoints st\<rparr>
          in case limitNoteFor f of
               Some n \<Rightarrow> put_fresh v f (s1\<lparr>sl_notes := sl_notes s1 @ [n]\<rparr>)
             | None \<Rightarrow>
                 if has_row baselineRows v \<and> \<not> affectedPackageChanged st pkg changed then s1
                 else put_fresh v f s1))"

fun slice_loop ::
  "run_env \<Rightarrow> PRInheritRequest \<Rightarrow> gostring list \<Rightarrow> gostring list \<Rightarrow> nat \<Rightarrow> VulnRef list \<Rightarrow> slice \<Rightarrow> slice" where
  "slice_loop env q baselineRows changed t [] s = s"
| "slice_loop env q baselineRows changed t (v # vs) s =
    slice_loop env q baselineRows changed (t + 1) vs (slice_step env q baselineRows changed t v s)"

text \<open>Fresh rows over stored ones: a superseded row is dropped, a row with a fresh one yields to it (the
  first time), any other row is kept as \<open>keep\<close> makes it; the fresh rows left over come last.\<close>

fun merge_fresh ::
  "(AdvisoryFinding \<Rightarrow> AdvisoryFinding) \<Rightarrow> gostring list \<Rightarrow> AdvisoryFinding list \<Rightarrow>
   (gostring \<times> AdvisoryFinding) list \<Rightarrow> AdvisoryFinding list" where
  "merge_fresh keep ids [] re = map snd re"
| "merge_fresh keep ids (f # fs) re =
    (if supersededByFresh f ids then merge_fresh keep ids fs re
     else (case map_of re (merge_key f) of
             Some r \<Rightarrow> r # merge_fresh keep ids fs (AList.delete (merge_key f) re)
           | None \<Rightarrow> keep f # merge_fresh keep ids fs re))"

definition canonical_changed :: "gostring list \<Rightarrow> gostring list" where
  "canonical_changed changed =
    map (\<lambda>c. case go_cut c [CHR 0x00] of None \<Rightarrow> canonicalKey c [] | Some (e, n) \<Rightarrow> canonicalKey e n) changed"

definition slice_of :: "run_env \<Rightarrow> Report \<Rightarrow> PRInheritRequest \<Rightarrow> gostring list \<Rightarrow> slice" where
  "slice_of env baseline q changed =
    slice_loop env q (usable_keys baseline) (canonical_changed changed) 0 (pq_advisories q) empty_slice"

definition slice_rows :: "Report \<Rightarrow> PRInheritRequest \<Rightarrow> slice \<Rightarrow> AdvisoryFinding list" where
  "slice_rows baseline q s =
    merge_fresh (\<lambda>f. withInventoryLimits f (inheritedLimits (pq_diffLimits q) (Some baseline)) [])
      (sl_ids s) (rp_advisories baseline) (sl_re s)"

definition slice_builder :: "run_env \<Rightarrow> Report \<Rightarrow> PRInheritRequest \<Rightarrow> State \<Rightarrow> slice \<Rightarrow> Builder" where
  "slice_builder env baseline q state s =
    (let rows = slice_rows baseline q s;
         b1 = SetGoBuildList (pq_sbom q) (SetRelationships (sb_relationships (pq_sbom q))
                (AddPackages (sb_packages (pq_sbom q)) (NewBuilder (pq_subject q))));
         b2 = Builder_AddPartiality (sl_notes s)
                (Builder_AddPartiality (withoutCutShortCount (rp_partiality baseline)) (add_rows rows b1));
         b3 = Builder_AddPartiality (pq_workSetLimits q)
                (WithLibraryEntrypoints (rp_libraryEntrypoints baseline) (WithLibraryEntrypoints (sl_entry s) b2));
         b4 = add_recount (recountCutShort rows (rp_partiality baseline) (ownStop (en_cause env) (sl_cut s))) b3;
         b5 = WithProvenance (run_provenance env (sj_resolvedCommit (pq_subject q)) (analyzerOr env (pq_analyzer q))
                (cursorOr (pq_cursor q) (pv_advisoryCursor (rp_provenance baseline))) (pq_signals q)) b4
     in rankWith (pq_signals q) (pq_advisories q) (en_facts env) (WithBaseline (baselinePointer baseline state) b5))"

definition reanalyzeSlice ::
  "run_env \<Rightarrow> Report \<Rightarrow> PRInheritRequest \<Rightarrow> State \<Rightarrow> gostring list \<Rightarrow> run_error + Report" where
  "reanalyzeSlice env baseline q state changed =
    (case BuildValidated (en_now env) (slice_builder env baseline q state (slice_of env baseline q changed)) of
       Inl e \<Rightarrow> Inl (InvalidReport e)
     | Inr rep \<Rightarrow> Inr rep)"

text \<open>The ids of the fast path's advisories in order, each list without repeats.\<close>

definition assessed_lists :: "gostring list \<Rightarrow> VulnRef list \<Rightarrow> gostring list \<times> gostring list" where
  "assessed_lists cutKeys unrowed =
    fold (\<lambda>v (as, cs).
      if id_key (vr_id v) (vr_source v) \<in> set cutKeys
      then (as, if vr_id v \<in> set cs then cs else cs @ [vr_id v])
      else (if vr_id v \<in> set as then as else as @ [vr_id v], cs)) unrowed ([], [])"

definition RunPRInherit ::
  "('w \<Rightarrow> 'w \<times> read_outcome) \<Rightarrow> run_env \<Rightarrow> PRInheritRequest \<Rightarrow> 'w \<Rightarrow> 'w \<times> (run_error + PRInheritResult)" where
  "RunPRInherit rd env q w =
    (case rd w of
       (w1, NoRef) \<Rightarrow> (w1, Inl NoBaseline)
     | (w1, ReadError) \<Rightarrow> (w1, Inl StoreUnreadable)
     | (w1, Winner state) \<Rightarrow>
         (case ss_report state of
            None \<Rightarrow> (w1, Inl NoBaseline)
          | Some baseline \<Rightarrow>
              (let changed = changedPackages (rp_sbom baseline) (pq_sbom q) in
               if length changed = 0 then
                 (let unrowed = unrowedAdvisories baseline (pq_advisories q);
                      (fresh, notes, cause) = assessUnrowed env q unrowed
                  in case inheritBaseline env baseline q state fresh notes cause of
                       Inl e \<Rightarrow> (w1, Inl e)
                     | Inr rep \<Rightarrow>
                         (let cutKeys = map merge_key (filter (\<lambda>f. af_undeterminedReason f = ReasonScanCutShort) fresh);
                              (as, cs) = assessed_lists cutKeys unrowed
                          in (w1, Inr \<lparr>pi_report = rep, pi_inherited = True, pi_changed = [], pi_assessed = as,
                                pi_cutShort = cs\<rparr>)))
               else
                 (case reanalyzeSlice env baseline q state changed of
                    Inl e \<Rightarrow> (w1, Inl e)
                  | Inr rep \<Rightarrow> (w1, Inr \<lparr>pi_report = rep, pi_inherited = False, pi_changed = changed, pi_assessed = [],
                      pi_cutShort = []\<rparr>)))))"

section \<open>The CVE watch\<close>

record OSVAdvisory =
  oa_id :: gostring
  oa_package :: Package

definition OSV_IDs :: "OSVAdvisory list \<Rightarrow> gostring list" where
  "OSV_IDs as = first_seen [] (map oa_id as)"

text \<open>parseOSVResponse on the decoded response: results are positional, an empty id is skipped.\<close>

definition parseOSVResponse :: "gostring list list \<Rightarrow> Package list \<Rightarrow> OSVAdvisory list" where
  "parseOSVResponse results pkgs =
    concat (map (\<lambda>(ids, p). map (\<lambda>i. \<lparr>oa_id = i, oa_package = p\<rparr>) (filter (\<lambda>i. i \<noteq> []) ids)) (zip results pkgs))"

definition cursorSet :: "gostring \<Rightarrow> gostring list" where
  "cursorSet cursor = filter (\<lambda>i. i \<noteq> []) (map trim_space (go_split cursor '',''))"

definition stateCommit :: "Report \<Rightarrow> gostring \<Rightarrow> gostring" where
  "stateCommit prior fallback = (if fallback \<noteq> [] then fallback else sj_resolvedCommit (rp_subject prior))"

definition PartialReasonNestedModule :: gostring where
  "PartialReasonNestedModule = ''unsupported:nested_module''"

definition unqueriedModules :: "PartialityNote list \<Rightarrow> PartialityNote list" where
  "unqueriedModules notes = filter (\<lambda>n. pn_reason n = PartialReasonNestedModule) (inventoryLimits notes)"

definition assessedPackages :: "run_store \<Rightarrow> Package option \<Rightarrow> gostring list" where
  "assessedPackages st pkg =
    (case pkg of
       None \<Rightarrow> []
     | Some p \<Rightarrow> if pkg_purl p \<noteq> [] then [pkg_purl p]
         else if pkg_ecosystem p = ''npm'' \<and> pkg_name p \<noteq> [] then [''pkg:npm/'' @ pkg_name p] else [[]]) @
    AdvisoryPackagePURLs (rs_case st) @
    (if \<not> AdvisoryListsAffectedPackages (rs_case st) then [[]] else [])"

record CVEWatchRequest =
  wq_subject :: Subject
  wq_analyzer :: gostring
  wq_signals :: "Signals option"
  wq_advisories :: "VulnRef list"
  wq_holdCursor :: bool
  wq_hold :: "(DepFetch option \<Rightarrow> bool) option"
  wq_fetch :: "(DepFetch option \<Rightarrow> DependencyFetchRun \<Rightarrow> DepFetch option) option"
  wq_disclose :: "(Report \<Rightarrow> Report) option"

record CVEWatchResult =
  wr_heartbeat :: bool
  wr_newAdvisories :: "gostring list"
  wr_reassessed :: "gostring list"
  wr_report :: "Report option"
  wr_truncated :: bool
  wr_noInventory :: bool
  wr_unqueried :: "PartialityNote list"
  wr_cursor :: gostring

text \<open>What earnestRun collects.\<close>

record watch =
  wa_slice :: slice
  wa_workSet :: "VulnRef list"
  wa_assessed :: "Advisory list"
  wa_packages :: "(gostring \<times> gostring list) list"
  wa_undetermined :: "gostring list"

definition watch_limits :: "Report \<Rightarrow> PartialityNote list" where
  "watch_limits prior = inventoryLimits (rp_partiality prior)"

text \<open>The row of a re-assessment: against the package of the query or of the stored row, but with the
  package advisoryFromArtifacts adjudicated when a limit holds it.\<close>

definition watch_row :: "Report \<Rightarrow> run_store \<Rightarrow> VulnRef \<Rightarrow> Package option \<Rightarrow> AdvisoryFinding" where
  "watch_row prior st v pkg =
    (case advisoryFromArtifacts st v (sb_packages (rp_sbom prior)) of (adv, tcPkg) \<Rightarrow>
      (let f = withInventoryLimits
                 (findingInBuild st adv pkg (goModulesOf (rp_sbom prior) (watch_limits prior)))
                 (watch_limits prior) (AdvisoryPackagePURLs (rs_case st))
       in if limitNoteFor f = None then f else f\<lparr>af_package := tcPkg\<rparr>))"

text \<open>The closure \<open>assess\<close> of earnestRun, at moment \<open>t\<close>.\<close>

definition watch_assess ::
  "run_env \<Rightarrow> Report \<Rightarrow> nat \<Rightarrow> VulnRef \<Rightarrow> Package option \<Rightarrow> watch \<Rightarrow> watch" where
  "watch_assess env prior t v pkg w0 =
    (let w = w0\<lparr>wa_workSet := wa_workSet w0 @ [v]\<rparr>; s = wa_slice w in
     case assessWithin env t v of
       Stopped \<Rightarrow>
         w\<lparr>wa_slice := (put_fresh v (cutShortFinding v) s)\<lparr>sl_cut := sl_cut s + 1\<rparr>,
           wa_undetermined := wa_undetermined w @ [vr_id v]\<rparr>
     | Failed e \<Rightarrow>
         w\<lparr>wa_slice := (put_fresh v (assessFailureFinding v e) s)\<lparr>sl_notes := sl_notes s @ [assessFailureNote v e]\<rparr>,
           wa_undetermined := wa_undetermined w @ [vr_id v]\<rparr>
     | Completed st \<Rightarrow>
         (let f = watch_row prior st v pkg;
              adv = fst (advisoryFromArtifacts st v (sb_packages (rp_sbom prior)));
              note = limitNoteFor (withInventoryLimits
                (findingInBuild st adv pkg (goModulesOf (rp_sbom prior) (watch_limits prior)))
                (watch_limits prior) (AdvisoryPackagePURLs (rs_case st)));
              s1 = s\<lparr>sl_notes := sl_notes s @ partialityNotes st @ (case note of None \<Rightarrow> [] | Some n \<Rightarrow> [n]),
                     sl_entry := sl_entry s @ libraryEntrypoints st\<rparr>;
              old = (case map_of (wa_packages w) (ad_id adv) of None \<Rightarrow> [] | Some ps \<Rightarrow> ps)
          in w\<lparr>wa_slice := put_fresh v f s1, wa_assessed := wa_assessed w @ [adv],
               wa_packages := AList.update (ad_id adv) (old @ assessedPackages st (af_package f)) (wa_packages w),
               wa_undetermined := wa_undetermined w @ (if af_verdict f = VerdictUndetermined then [ad_id adv] else [])\<rparr>))"

text \<open>The two loops: OSV's newly relevant advisories, then the stored rows to assess again. A moment
  passes only for an advisory that is assessed.\<close>

fun watch_new :: "run_env \<Rightarrow> Report \<Rightarrow> gostring list \<Rightarrow> nat \<Rightarrow> OSVAdvisory list \<Rightarrow> watch \<Rightarrow> nat \<times> watch" where
  "watch_new env prior newIDs t [] w = (t, w)"
| "watch_new env prior newIDs t (a # as) w =
    (if oa_id a \<notin> set newIDs then watch_new env prior newIDs t as w
     else watch_new env prior newIDs (t + 1) as
       (watch_assess env prior t \<lparr>vr_id = oa_id a, vr_source = osvSource\<rparr> (Some (oa_package a)) w))"

fun watch_retry :: "run_env \<Rightarrow> Report \<Rightarrow> nat \<Rightarrow> AdvisoryFinding list \<Rightarrow> watch \<Rightarrow> watch" where
  "watch_retry env prior t [] w = w"
| "watch_retry env prior t (f # fs) w =
    (if map_of (sl_re (wa_slice w)) (merge_key f) \<noteq> None then watch_retry env prior t fs w
     else watch_retry env prior (t + 1) fs
       (watch_assess env prior t \<lparr>vr_id = ad_id (af_advisory f), vr_source = ad_source (af_advisory f)\<rparr> (af_package f) w))"

definition watch_of ::
  "run_env \<Rightarrow> Report \<Rightarrow> CVEWatchRequest \<Rightarrow> OSVAdvisory list \<Rightarrow> gostring list \<Rightarrow> AdvisoryFinding list \<Rightarrow> watch" where
  "watch_of env prior q osv newIDs retry =
    (case watch_new env prior newIDs 0 osv \<lparr>wa_slice = empty_slice, wa_workSet = wq_advisories q, wa_assessed = [],
         wa_packages = [], wa_undetermined = []\<rparr> of (t, w) \<Rightarrow> watch_retry env prior t retry w)"

definition watch_rows :: "Report \<Rightarrow> watch \<Rightarrow> AdvisoryFinding list" where
  "watch_rows prior w =
    merge_fresh (\<lambda>f. f) (sl_ids (wa_slice w)) (rp_advisories prior) (sl_re (wa_slice w))"

definition held_cursor :: "CVEWatchRequest \<Rightarrow> State \<Rightarrow> watch \<Rightarrow> gostring \<Rightarrow> gostring" where
  "held_cursor q state w cursor =
    (if sl_cut (wa_slice w) > 0 \<or> (case wq_hold q of None \<Rightarrow> False | Some h \<Rightarrow> h (ss_depFetch state))
     then ss_cursor state else cursor)"

definition watch_builder :: "run_env \<Rightarrow> State \<Rightarrow> Report \<Rightarrow> CVEWatchRequest \<Rightarrow> watch \<Rightarrow> gostring \<Rightarrow> Builder" where
  "watch_builder env state prior q w cursor =
    (let commit = stateCommit prior (sj_resolvedCommit (wq_subject q)); s = wa_slice w; rows = watch_rows prior w;
         b1 = SetGoBuildList (rp_sbom prior) (SetRelationships (sb_relationships (rp_sbom prior))
                (AddPackages (sb_packages (rp_sbom prior)) (NewBuilder ((wq_subject q)\<lparr>sj_resolvedCommit := commit\<rparr>))));
         b2 = Builder_AddPartiality (sl_notes s)
                (Builder_AddPartiality (withoutCutShortCount (rp_partiality prior)) (add_rows rows b1));
         b3 = WithLibraryEntrypoints (rp_libraryEntrypoints prior) (WithLibraryEntrypoints (sl_entry s) b2);
         b4 = add_recount (recountCutShort rows (rp_partiality prior) (ownStop (en_cause env) (sl_cut s))) b3;
         b5 = WithProvenance (run_provenance env commit (analyzerOr env (wq_analyzer q)) (held_cursor q state w cursor)
                (wq_signals q)) b4;
         b6 = (case rp_baseline prior of None \<Rightarrow> b5 | Some r \<Rightarrow> WithBaseline r b5)
     in rankWith (wq_signals q) (wa_workSet w) (en_facts env) b6)"

definition earnestRun ::
  "run_env \<Rightarrow> State \<Rightarrow> Report \<Rightarrow> CVEWatchRequest \<Rightarrow> OSVAdvisory list \<Rightarrow> gostring list \<Rightarrow> AdvisoryFinding list \<Rightarrow>
   gostring \<Rightarrow> run_error + (Report \<times> DependencyFetchRun)" where
  "earnestRun env state prior q osv newIDs retry cursor =
    (let w = watch_of env prior q osv newIDs retry in
     case BuildValidated (en_now env) (watch_builder env state prior q w cursor) of
       Inl e \<Rightarrow> Inl (InvalidReport e)
     | Inr rep \<Rightarrow> Inr (rep, \<lparr>fr_baseline = False, fr_held = False, fr_assessed = sortedAdvisories (wa_assessed w),
         fr_packages = wa_packages w, fr_undetermined = wa_undetermined w\<rparr>))"

definition new_ids :: "OSVAdvisory list \<Rightarrow> gostring \<Rightarrow> gostring list" where
  "new_ids osv cursor = filter (\<lambda>i. i \<notin> set (cursorSet cursor)) (sort (OSV_IDs osv))"

definition retry_of :: "CVEWatchRequest \<Rightarrow> State \<Rightarrow> Report \<Rightarrow> gostring list \<Rightarrow> AdvisoryFinding list" where
  "retry_of q state prior newIDs =
    (case wq_fetch q of None \<Rightarrow> [] | Some f \<Rightarrow> notFetchedRetry prior (ss_depFetch state) newIDs)"

text \<open>RunCVEWatch, with the state its write commits. \<open>query\<close> is the OSV client; None is its error.\<close>

definition RunCVEWatch ::
  "('w \<Rightarrow> 'w \<times> read_outcome) \<Rightarrow> ('w \<Rightarrow> State \<Rightarrow> remerge \<Rightarrow> 'w \<times> write_outcome) \<Rightarrow>
   (Package list \<Rightarrow> OSVAdvisory list option) \<Rightarrow> run_env \<Rightarrow> CVEWatchRequest \<Rightarrow> 'w \<Rightarrow>
   'w \<times> (run_error + (CVEWatchResult \<times> State))" where
  "RunCVEWatch rd wr query env q w =
    (case rd w of
       (w1, NoRef) \<Rightarrow> (w1, Inl NoBaseline)
     | (w1, ReadError) \<Rightarrow> (w1, Inl StoreUnreadable)
     | (w1, Winner state) \<Rightarrow>
         (case ss_report state of
            None \<Rightarrow> (w1, Inl NoBaseline)
          | Some prior \<Rightarrow>
              (case query (sb_packages (ss_sbom state)) of
                 None \<Rightarrow> (w1, Inl QueryFailed)
               | Some osv \<Rightarrow>
                   (let newCursor = go_join (sort (OSV_IDs osv)) '','';
                        newIDs = new_ids osv (ss_cursor state);
                        retry = retry_of q state prior newIDs
                    in if length newIDs = 0 \<and> length retry = 0 then
                         (case wr w1 (state\<lparr>ss_cursor := newCursor\<rparr>) (Some remergeNotFetched) of
                            (w2, Done s) \<Rightarrow>
                              (w2, Inr (\<lparr>wr_heartbeat = True, wr_newAdvisories = [], wr_reassessed = [], wr_report = None,
                                 wr_truncated = hasCutShort (rp_partiality prior),
                                 wr_noInventory = (length (sb_packages (ss_sbom state)) = 0 \<and> inventoryCutShort (rp_partiality prior)),
                                 wr_unqueried = unqueriedModules (rp_partiality prior), wr_cursor = ss_cursor s\<rparr>, s))
                          | (w2, _) \<Rightarrow> (w2, Inl WriteFailed))
                       else
                         (case earnestRun env state prior q osv newIDs retry
                             (if wq_holdCursor q then ss_cursor state else newCursor) of
                            Inl e \<Rightarrow> (w1, Inl e)
                          | Inr (rep0, run0) \<Rightarrow>
                              (let rep = (case wq_disclose q of None \<Rightarrow> rep0 | Some d \<Rightarrow> d rep0);
                                   cursor = pv_advisoryCursor (rp_provenance rep);
                                   run = run0\<lparr>fr_held := (cursor = ss_cursor state)\<rparr>;
                                   dep = (case wq_fetch q of None \<Rightarrow> ss_depFetch state | Some f \<Rightarrow> f (ss_depFetch state) run)
                               in case withNotFetched rep dep of
                                    None \<Rightarrow> (w1, Inl WithheldInvalid)
                                  | Some out \<Rightarrow>
                                      (case wr w1 (state\<lparr>ss_report := Some out, ss_sbom := rp_sbom rep, ss_cursor := cursor,
                                          ss_depFetch := dep\<rparr>) (Some remergeNotFetched) of
                                         (w2, Done s) \<Rightarrow>
                                           (w2, Inr (\<lparr>wr_heartbeat = False, wr_newAdvisories = newIDs,
                                              wr_reassessed = retriedIDs retry, wr_report = ss_report s,
                                              wr_truncated = (case ss_report s of None \<Rightarrow> False | Some r \<Rightarrow> hasCutShort (rp_partiality r)),
                                              wr_noInventory = False,
                                              wr_unqueried = (case ss_report s of None \<Rightarrow> [] | Some r \<Rightarrow> unqueriedModules (rp_partiality r)),
                                              wr_cursor = ss_cursor s\<rparr>, s))
                                       | (w2, _) \<Rightarrow> (w2, Inl WriteFailed))))))))"

section \<open>Rows of a run\<close>

lemma advisoryFromArtifacts_id [simp]:
  "ad_id (fst (advisoryFromArtifacts st v pkgs)) = vr_id v" "ad_source (fst (advisoryFromArtifacts st v pkgs)) = vr_source v"
  by (simp_all add: advisoryFromArtifacts_def Let_def split: option.split)

lemma finding_advisory [simp]: "af_advisory (findingInBuild st adv pkg mods) = adv"
  by (simp add: findingInBuild_def Let_def candidate_finding_def default_finding_def grounded_finding_def
      undetermined_finding_def split: option.split sum.split prod.split)

lemma findingInBuild_valid: "finding_error (findingInBuild st adv pkg mods) = None"
  by (simp add: finding_error_None row_error_None finding_row_spec finding_priority)

lemma assessed_row_fields:
  "af_advisory (assessed_row st v sbom limits) = fst (advisoryFromArtifacts st v (sb_packages sbom))"
  "finding_error (assessed_row st v sbom limits) = None"
  by (cases "advisoryFromArtifacts st v (sb_packages sbom)";
      simp add: assessed_row_def withInventoryLimits_valid findingInBuild_valid)+

lemma assessed_row_priority: "af_priority (assessed_row st v sbom limits) = None"
  by (cases "advisoryFromArtifacts st v (sb_packages sbom)")
    (simp add: assessed_row_def withInventoryLimits_def finding_priority)

lemma undetermined_new_row_valid:
  "r \<noteq> [] \<Longrightarrow> finding_error (new_row adv pkg VerdictUndetermined r (no_evidence\<lparr>ev_detail := d\<rparr>)) = None"
  by (simp add: finding_error_None row_error_None row_spec_def verdict_distinct candidate_only_def Verdict_Valid_def
      basis_distinct basis_distinct(1) [symmetric] Let_def verdict_distinct [symmetric])

lemma cutShort_fields:
  "finding_error (cutShortFinding v) = None" "af_advisory (cutShortFinding v) = vuln_row v"
  "af_verdict (cutShortFinding v) = VerdictUndetermined" "af_undeterminedReason (cutShortFinding v) = ReasonScanCutShort"
  by (simp_all add: cutShortFinding_def undetermined_new_row_valid reasons_ne)

lemma failure_fields:
  "finding_error (assessFailureFinding v e) = None" "af_advisory (assessFailureFinding v e) = vuln_row v"
  "af_verdict (assessFailureFinding v e) = VerdictUndetermined"
  by (simp_all add: assessFailureFinding_def undetermined_new_row_valid reasons_ne vuln_row_def)

text \<open>The row an advisory gets at moment \<open>t\<close>, whatever happens to its assessment.\<close>

definition row_for :: "run_env \<Rightarrow> SBOM \<Rightarrow> PartialityNote list \<Rightarrow> nat \<Rightarrow> VulnRef \<Rightarrow> AdvisoryFinding" where
  "row_for env sbom limits t v =
    (case assessWithin env t v of
       Stopped \<Rightarrow> cutShortFinding v
     | Failed e \<Rightarrow> assessFailureFinding v e
     | Completed st \<Rightarrow> assessed_row st v sbom limits)"

fun rows_from :: "run_env \<Rightarrow> SBOM \<Rightarrow> PartialityNote list \<Rightarrow> nat \<Rightarrow> VulnRef list \<Rightarrow> AdvisoryFinding list" where
  "rows_from env sbom limits t [] = []"
| "rows_from env sbom limits t (v # vs) = row_for env sbom limits t v # rows_from env sbom limits (t + 1) vs"

definition ref_key :: "VulnRef \<Rightarrow> gostring \<times> gostring" where
  "ref_key v = (vr_id v, vr_source v)"

lemma row_for_key [simp]: "finding_id (row_for env sbom limits t v) = ref_key v"
  by (simp add: row_for_def finding_id_def ref_key_def cutShort_fields failure_fields assessed_row_fields vuln_row_def
      split: outcome.split)

lemma row_for_valid: "finding_error (row_for env sbom limits t v) = None"
  by (simp add: row_for_def cutShort_fields failure_fields assessed_row_fields split: outcome.split)

lemma row_for_verdict:
  "af_verdict (row_for env sbom limits t v) \<noteq> VerdictUndetermined \<Longrightarrow>
    \<exists>st. assessWithin env t v = Completed st \<and> row_for env sbom limits t v = assessed_row st v sbom limits"
  by (simp add: row_for_def cutShort_fields failure_fields split: outcome.splits)

lemma rows_from_keys: "map finding_id (rows_from env sbom limits t vs) = map ref_key vs"
  by (induction vs arbitrary: t) simp_all

lemma rows_from_valid: "f \<in> set (rows_from env sbom limits t vs) \<Longrightarrow> finding_error f = None"
  by (induction vs arbitrary: t) (auto simp: row_for_valid)

lemma rows_from_verdict:
  "f \<in> set (rows_from env sbom limits t vs) \<Longrightarrow> af_verdict f \<noteq> VerdictUndetermined \<Longrightarrow>
    \<exists>u v st. v \<in> set vs \<and> assessWithin env u v = Completed st \<and> f = assessed_row st v sbom limits"
proof (induction vs arbitrary: t)
  case (Cons v vs)
  show ?case
  proof (cases "f \<in> set (rows_from env sbom limits (t + 1) vs)")
    case True
    then show ?thesis using Cons.IH [OF True Cons.prems(2)] by auto
  next
    case False
    then show ?thesis using Cons.prems row_for_verdict [of env sbom limits t v] by auto
  qed
qed simp

text \<open>A stop cuts every advisory from then on.\<close>

lemma stopped_iff: "assessWithin env t v = Stopped \<longleftrightarrow> analysis_done env (t + 1)"
  by (auto simp: assessWithin_def analysis_done_def Let_def split: option.splits sum.splits)

lemma analysis_done_mono: "analysis_done env t \<Longrightarrow> t \<le> u \<Longrightarrow> analysis_done env u"
  by (auto simp: analysis_done_def split: option.splits)

fun cut_count :: "run_env \<Rightarrow> nat \<Rightarrow> VulnRef list \<Rightarrow> nat" where
  "cut_count env t [] = 0"
| "cut_count env t (v # vs) = (if analysis_done env (t + 1) then 1 else 0) + cut_count env (t + 1) vs"

lemma cut_count_pos: "0 < cut_count env t vs \<longleftrightarrow> vs \<noteq> [] \<and> analysis_done env (t + length vs)"
proof (induction vs arbitrary: t)
  case (Cons v vs)
  then show ?case
    using analysis_done_mono [of env "t + 1" "t + length (v # vs)"] by (cases vs) auto
qed simp

lemma AddFinding_fields [simp]:
  "bd_packages (AddFinding f b) = bd_packages b" "bd_relationships (AddFinding f b) = bd_relationships b"
  "bd_advisories (AddFinding f b) = bd_advisories b @ [f]" "bd_partiality (AddFinding f b) = bd_partiality b"
  "bd_priority (AddFinding f b) = bd_priority b"
  by (simp_all add: AddFinding_def)

text \<open>What a loop adds to a builder: rows and notes, and nothing else that Build validates.\<close>

definition grown :: "Builder \<Rightarrow> AdvisoryFinding list \<Rightarrow> Builder \<Rightarrow> bool" where
  "grown b rows b' = (bd_packages b' = bd_packages b \<and> bd_relationships b' = bd_relationships b \<and>
     bd_advisories b' = bd_advisories b @ rows \<and> (\<exists>ns. bd_partiality b' = addNotes (bd_partiality b) ns))"

lemma addNotes_Nil: "addNotes old [] = old"
  by (simp add: addNotes_def)

lemma grown_refl [simp]: "grown b [] b"
  unfolding grown_def by (simp, metis addNotes_Nil)

lemma grown_trans: "grown a xs b \<Longrightarrow> grown b ys c \<Longrightarrow> grown a (xs @ ys) c"
  unfolding grown_def by (auto simp: addNotes_append)

lemma grown_AddFinding [simp]: "grown b [f] (AddFinding f b)"
  unfolding grown_def by (simp, metis addNotes_Nil)

lemma grown_notes: "grown a xs b \<Longrightarrow> grown a xs (Builder_AddPartiality ns b)"
  unfolding grown_def by (auto simp: addNotes_append)

lemma grown_entrypoints: "grown a xs b \<Longrightarrow> grown a xs (WithLibraryEntrypoints es b)"
  by (simp add: grown_def)

lemma baseline_loop_grown:
  "baseline_loop env sbom limits t vs (b, cuts, ds) = (b', cuts', ds') \<Longrightarrow>
    grown b (rows_from env sbom limits t vs) b' \<and> cuts' = cuts + cut_count env t vs"
proof (induction vs arbitrary: t b cuts ds)
  case Nil
  then show ?case by simp
next
  case (Cons v vs)
  let ?f = "row_for env sbom limits t v"
  obtain b1 c1 d1 where step: "baseline_loop env sbom limits (t + 1) vs (b1, c1, d1) = (b', cuts', ds')"
    and g: "grown b [?f] b1" and c: "c1 = cuts + (if analysis_done env (t + 1) then 1 else 0)"
  proof (cases "assessWithin env t v")
    case Stopped
    then show ?thesis using Cons.prems that [of "AddFinding (cutShortFinding v) b" "cuts + 1" ds] stopped_iff [of env t v]
      by (simp add: row_for_def)
  next
    case (Failed e)
    then have "\<not> analysis_done env (t + 1)" using stopped_iff [of env t v] by simp
    then show ?thesis using Failed Cons.prems
        that [of "Builder_AddPartiality [assessFailureNote v e] (AddFinding (assessFailureFinding v e) b)" cuts ds]
      by (simp add: row_for_def grown_notes)
  next
    case (Completed st)
    then have n: "\<not> analysis_done env (t + 1)" using stopped_iff [of env t v] by simp
    let ?r = "assessed_row st v sbom limits"
    let ?b1 = "WithLibraryEntrypoints (libraryEntrypoints st) (AddFinding ?r b)"
    let ?b2 = "case limitNoteFor ?r of None \<Rightarrow> ?b1 | Some n \<Rightarrow> Builder_AddPartiality [n] ?b1"
    have "grown b [?r] (Builder_AddPartiality (partialityNotes st) ?b2)"
      by (intro grown_notes) (simp add: grown_notes grown_entrypoints split: option.split)
    then show ?thesis using Completed n Cons.prems
        that [of "Builder_AddPartiality (partialityNotes st) ?b2" cuts "ds @ [fst (advisoryFromArtifacts st v (sb_packages sbom))]"]
      by (simp add: row_for_def Let_def)
  qed
  from Cons.IH [OF step] g c show ?case using grown_trans [of b "[?f]" b1] by simp
qed

section \<open>The baseline\<close>

definition signals_loaded :: "(gostring \<Rightarrow> gostring \<Rightarrow> int option) \<Rightarrow> Signals option \<Rightarrow> bool" where
  "signals_loaded tparse sig =
    (case sig of None \<Rightarrow> True | Some s \<Rightarrow> (\<exists>digest rs. load_records tparse digest rs = Inr s))"

lemma prioritized_keys: "map finding_id (prioritized b) = map finding_id (bd_advisories b)"
  by (cases "bd_priority b") (simp_all add: prioritized_def finding_id_def comp_def)

lemma built_keys: "mset (map finding_id (sortFindings (prioritized b))) = mset (map finding_id (bd_advisories b))"
  by (simp only: mset_map sortFindings_mset) (simp only: mset_map [symmetric] prioritized_keys)

lemma prioritized_row_valid:
  assumes "signals_loaded tparse sig" and "finding_error f = None"
  shows "finding_error (f\<lparr>af_priority := priorityFor adv sig cl\<rparr>) = None"
proof -
  have p: "Priority_validate p = None" if "priorityFor adv sig cl = Some p" for p
  proof (cases sig)
    case None
    then show ?thesis using that by (simp add: priority_none)
  next
    case (Some s)
    then have "signals_ok s" using assms(1) load_records_ok by (auto simp: signals_loaded_def)
    then show ?thesis using priority_ok that Some by blast
  qed
  have r: "row_spec (f\<lparr>af_priority := q\<rparr>) = row_spec f" for q
    by (simp add: row_spec_def)
  show ?thesis using assms(2) p by (auto simp: finding_error_None row_error_None r split: option.split)
qed

lemma ranked_valid:
  assumes "signals_loaded tparse sig" and "\<forall>f\<in>set (bd_advisories b). finding_error f = None"
  shows "\<forall>f\<in>set (prioritized (rankWith sig ws facts b)). finding_error f = None"
  unfolding prioritized_rank using assms prioritized_row_valid by auto

lemma ranked_row:
  assumes "f \<in> set (prioritized (rankWith sig ws facts b))"
  shows "\<exists>g\<in>set (bd_advisories b). f\<lparr>af_priority := None\<rparr> = g\<lparr>af_priority := None\<rparr> \<and> af_verdict f = af_verdict g"
  using assms unfolding prioritized_rank by auto

lemma no_priority_update: "af_priority g = None \<Longrightarrow> g\<lparr>af_priority := None\<rparr> = g"
  by (cases g) simp

lemma rankWith_fields [simp]:
  "bd_packages (rankWith sig ws facts b) = bd_packages b"
  "bd_relationships (rankWith sig ws facts b) = bd_relationships b"
  "bd_advisories (rankWith sig ws facts b) = bd_advisories b"
  "bd_partiality (rankWith sig ws facts b) = bd_partiality b"
  by (simp_all add: rankWith_def WithPriority_def)

lemma edges_closed_set:
  "edges_closed s \<longleftrightarrow> (\<forall>r\<in>set (sb_relationships s). rel_parent r \<in> Package_Key ` set (sb_packages s) \<and>
     rel_child r \<in> Package_Key ` set (sb_packages s))"
  by (auto simp: edges_closed_def list_all_iff)

text \<open>A builder of valid rows over a closed SBOM builds a report that validates.\<close>

lemma built_valid:
  assumes "signals_loaded tparse sig" and "\<forall>f\<in>set (bd_advisories b). finding_error f = None"
    and "edges_closed s" and "bd_packages b = sb_packages s" and "bd_relationships b = sb_relationships s"
  shows "Report_Validate (Build now (rankWith sig ws facts b)) = None"
  unfolding Build_validate using ranked_valid [OF assms(1,2)] assms(3,4,5) by (simp add: edges_closed_set)

text \<open>Every note added is disclosed under its reason.\<close>

lemma note_disclosed:
  assumes "n \<in> set (addNotes ns [m])" and "pn_reason n = r"
  shows "\<exists>x\<in>set (dedupPartiality (addNotes ns [m])). pn_reason x = r"
proof -
  have "note_id n \<in> note_id ` set (dedupPartiality (addNotes ns [m]))" unfolding dedup_ids using assms(1) by blast
  then show ?thesis using assms(2) by (auto simp: note_id_def)
qed

lemma cutShortNote_disclosed: "hasCutShort (dedupPartiality (addNotes ns [cutShortNote cuts tot cause]))"
proof -
  let ?n = "(cutShortNote cuts tot cause)\<lparr>pn_class := ClassifyPartialityReason ReasonScanCutShort\<rparr>"
  have "?n \<in> set (addNotes ns [cutShortNote cuts tot cause])"
    by (simp add: addNotes_def cutShortNote_def no_note_def reasons_ne)
  then show ?thesis using note_disclosed [of ?n ns "cutShortNote cuts tot cause" ReasonScanCutShort]
    by (auto simp: hasCutShort_def list_ex_iff cutShortNote_def)
qed

lemma baseline_sbom_closed:
  assumes "sbomFromInventory i e = (sbom0, limits)" and "\<And>p. prior = Some (Some p) \<Longrightarrow> edges_closed p"
  shows "edges_closed (fst (baseline_sbom sbom0 limits prior))"
proof -
  have "edges_closed sbom0" using sbom_edges_closed [of i e] assms(1) by simp
  moreover have "edges_closed p" if "kept_sbom prior = Some p" for p
    using that assms(2) by (auto simp: kept_sbom_def edges_closed_set split: option.splits if_splits)
  ultimately show ?thesis by (simp add: baseline_sbom_def split: option.split)
qed

lemma baseline_start_fields:
  "bd_packages (baseline_start q sbom kept limits) = sb_packages sbom"
  "bd_relationships (baseline_start q sbom kept limits) = sb_relationships sbom"
  "bd_advisories (baseline_start q sbom kept limits) = []"
  by (simp_all add: baseline_start_def)

text \<open>The report of a builder whose rows are those of a list of advisories.\<close>

lemma ranked_rows:
  assumes "bd_advisories b = rows_from env sbom limits t vs"
  shows "mset (map finding_id (sortFindings (prioritized (rankWith sig ws facts b)))) = mset (map ref_key vs) \<and>
    (\<forall>f\<in>set (prioritized (rankWith sig ws facts b)). af_verdict f \<noteq> VerdictUndetermined \<longrightarrow>
      (\<exists>u v st. v \<in> set vs \<and> assessWithin env u v = Completed st \<and>
         f\<lparr>af_priority := None\<rparr> = assessed_row st v sbom limits))"
proof (intro conjI ballI impI)
  show "mset (map finding_id (sortFindings (prioritized (rankWith sig ws facts b)))) = mset (map ref_key vs)"
    by (simp only: built_keys rankWith_fields assms rows_from_keys)
  fix f assume f: "f \<in> set (prioritized (rankWith sig ws facts b))" "af_verdict f \<noteq> VerdictUndetermined"
  from ranked_row [OF f(1)] obtain g where g: "g \<in> set (rows_from env sbom limits t vs)"
    "f\<lparr>af_priority := None\<rparr> = g\<lparr>af_priority := None\<rparr>" "af_verdict f = af_verdict g" unfolding assms by blast
  from rows_from_verdict [OF g(1)] f(2) g(3) obtain u v st
    where "v \<in> set vs" "assessWithin env u v = Completed st" "g = assessed_row st v sbom limits" by auto
  then show "\<exists>u v st. v \<in> set vs \<and> assessWithin env u v = Completed st \<and>
      f\<lparr>af_priority := None\<rparr> = assessed_row st v sbom limits"
    using g(2) no_priority_update [OF assessed_row_priority] by metis
qed

text \<open>C7: A baseline always answers for its whole work set. Whatever its assessments do (fail, or be
  stopped at any moment), as long as the inventory or a stop of it returns and the stored SBOM it
  may keep is readable and well formed, the run ends in a report that validates, with exactly one
  row for each admitted advisory; every verdict in it but undetermined was reached by an assessment
  that completed; and a stop that left an advisory unassessed is disclosed.\<close>
theorem baseline_covers_work_set:
  assumes "signals_loaded tparse (bq_signals q)"
    and "\<not> en_inventoryFails env \<or> analysis_done env 1"
    and "prior \<noteq> Some None" and "\<And>p. prior = Some (Some p) \<Longrightarrow> edges_closed p"
  shows "\<exists>rep completed sbom limits. baselineReport env q prior = Inr (rep, completed) \<and>
    Report_Validate rep = None \<and>
    mset (map finding_id (rp_advisories rep)) = mset (map ref_key (baseline_admitted q)) \<and>
    (\<forall>f\<in>set (rp_advisories rep). af_verdict f \<noteq> VerdictUndetermined \<longrightarrow>
      (\<exists>t v st. v \<in> set (baseline_admitted q) \<and> assessWithin env t v = Completed st \<and>
         f\<lparr>af_priority := None\<rparr> = assessed_row st v sbom limits)) \<and>
    (baseline_admitted q \<noteq> [] \<and> analysis_done env (length (baseline_admitted q) + 1) \<longrightarrow>
      hasCutShort (rp_partiality rep))"
proof -
  obtain i language where inv: "inventoryWithin env = Some (i, language)"
    using assms(2) by (cases "analysis_done env 1") (simp_all add: inventoryWithin_def)
  obtain sbom0 lims where s0: "sbomFromInventory i (ecosystemFor language) = (sbom0, lims)" by (rule prod.exhaust)
  obtain sbom kept where k: "baseline_sbom sbom0 lims prior = (sbom, kept)" by (rule prod.exhaust)
  let ?adm = "baseline_admitted q" and ?b2 = "baseline_start q sbom kept lims"
  obtain b cuts completed where loop: "baseline_loop env sbom lims 1 ?adm (?b2, 0, []) = (b, cuts, completed)"
    by (rule prod_cases3)
  let ?rep = "Build (en_now env) (baseline_finish env q cuts b)"
  have g: "grown ?b2 (rows_from env sbom lims 1 ?adm) b" and c: "cuts = cut_count env 1 ?adm"
    using baseline_loop_grown [OF loop] by simp_all
  have b: "bd_advisories b = rows_from env sbom lims 1 ?adm" "bd_packages b = sb_packages sbom"
    "bd_relationships b = sb_relationships sbom"
    using g by (simp_all add: grown_def baseline_start_fields)
  have ok: "\<forall>f\<in>set (bd_advisories b). finding_error f = None" using rows_from_valid unfolding b(1) by blast
  have "edges_closed sbom" using baseline_sbom_closed [OF s0, of prior] assms(4) k by auto
  then have v: "Report_Validate ?rep = None"
    unfolding baseline_finish_def using b ok by (intro built_valid [OF assms(1), of _ sbom]) simp_all
  have rep: "baselineReport env q prior = Inr (?rep, sortedAdvisories completed)"
    using assms(3) v unfolding baselineReport_def inv option.case prod.case s0 Let_def k loop BuildValidated_def by simp
  note rows = ranked_rows [of "WithProvenance (run_provenance env (sj_resolvedCommit (bq_subject q))
      (analyzerOr env (bq_analyzer q)) (bq_cursor q) (bq_signals q))
    (if cuts > 0 then Builder_AddPartiality [cutShortNote cuts (length ?adm) (en_cause env)] b else b)",
      of env sbom lims 1 ?adm "bq_signals q" "bq_advisories q" "en_facts env", folded baseline_finish_def]
  have stop: "hasCutShort (rp_partiality ?rep)" if "?adm \<noteq> []" "analysis_done env (length ?adm + 1)"
    using that c cut_count_pos [of env 1 ?adm] by (simp add: baseline_finish_def cutShortNote_disclosed add.commute)
  show ?thesis
    by (intro exI [of _ ?rep] exI [of _ "sortedAdvisories completed"] exI [of _ sbom] exI [of _ lims] conjI)
      (use rep v rows b stop in \<open>simp_all\<close>)
qed


definition sample_env :: run_env where
  "sample_env = \<lparr>en_stop = Some 3, en_cause = ''deadline'', en_inventory = sample_inv, en_language = ''javascript'',
     en_inventoryFails = False, en_assess = (\<lambda>t v. Inl \<lparr>er_stage = None, er_text = ''clone''\<rparr>), en_facts = (\<lambda>i. []),
     en_analyzer = ''assay'', en_now = 5\<rparr>"

definition sample_request :: BaselineRequest where
  "sample_request = \<lparr>bq_subject = sample_subject, bq_advisories = [sample_ref ''CVE-1'', sample_ref ''CVE-2''],
     bq_workSetLimits = [], bq_analyzer = [], bq_cursor = [], bq_signals = None, bq_bands = Map.empty,
     bq_fetch = None, bq_disclose = None\<rparr>"

lemma sample_admitted: "baseline_admitted sample_request = [sample_ref ''CVE-1'', sample_ref ''CVE-2'']"
  by code_simp

theorem baseline_covers_work_set_witness:
  "\<exists>rep completed. baselineReport sample_env sample_request None = Inr (rep, completed) \<and>
     Report_Validate rep = None \<and> length (rp_advisories rep) = 2 \<and> hasCutShort (rp_partiality rep)"
proof -
  have s: "signals_loaded tparse (bq_signals sample_request)" for tparse
    by (simp add: signals_loaded_def sample_request_def)
  have i: "\<not> en_inventoryFails sample_env \<or> analysis_done sample_env 1" by (simp add: sample_env_def)
  have d: "analysis_done sample_env (length (baseline_admitted sample_request) + 1)"
    by (simp add: sample_admitted sample_env_def analysis_done_def)
  from baseline_covers_work_set [OF s i, of None]
  obtain rep completed where r: "baselineReport sample_env sample_request None = Inr (rep, completed)"
    "Report_Validate rep = None"
    "mset (map finding_id (rp_advisories rep)) = mset (map ref_key (baseline_admitted sample_request))"
    "baseline_admitted sample_request \<noteq> [] \<and> analysis_done sample_env (length (baseline_admitted sample_request) + 1) \<longrightarrow>
      hasCutShort (rp_partiality rep)" by auto
  have "length (rp_advisories rep) = 2"
    using mset_eq_length [OF r(3)] by (simp add: sample_admitted)
  then show ?thesis using r d by (auto simp: sample_admitted)
qed

section \<open>What a writing run leaves in the store\<close>

lemma withheld_state:
  assumes "withNotFetched rep dep = Some out" and "ss_report s = Some out" and "ss_depFetch s = dep"
  shows "no_listed_refuting s"
  using withNotFetched_rows [OF assms(1)] assms(2,3) withhold_row_done
  by (auto simp: no_listed_refuting_def list_all_iff)

lemma store_no_listed:
  "store_Write cas rd expired reencode now (Some remergeNotFetched) n w cur = (w', Done s) \<Longrightarrow>
    no_listed_refuting cur \<Longrightarrow> no_listed_refuting s"
  unfolding store_Write_def by (rule write_loop_no_listed)

lemma baseline_no_listed:
  assumes "RunBaseline rd (\<lambda>w st h. store_Write cas rd' expired reencode now h n w st) env q w = (w', Inr s)"
  shows "no_listed_refuting s"
proof -
  obtain w1 prior where p: "(if baseline_reads env then readForUpdate rd w else (w, Some empty_state)) = (w1, prior)"
    by (rule prod.exhaust)
  obtain rep0 completed where r: "baselineReport env q (Some (map_option ss_sbom prior)) = Inr (rep0, completed)"
    using assms unfolding RunBaseline_def p
    by (cases "baselineReport env q (Some (map_option ss_sbom prior))") (auto simp: Let_def)
  let ?rep = "case bq_disclose q of None \<Rightarrow> rep0 | Some d \<Rightarrow> d rep0"
  obtain w2 nx where n: "readForUpdate rd w1 = (w2, Some nx)"
    using assms unfolding RunBaseline_def p Let_def prod.case r sum.case
    by (cases "readForUpdate rd w1"; cases "snd (readForUpdate rd w1)") auto
  let ?dep = "case bq_fetch q of None \<Rightarrow> ss_depFetch nx
    | Some f \<Rightarrow> f (ss_depFetch nx) \<lparr>fr_baseline = True, fr_held = False, fr_assessed = completed,
        fr_packages = [], fr_undetermined = []\<rparr>"
  obtain out where o: "withNotFetched ?rep ?dep = Some out"
    using assms unfolding RunBaseline_def p Let_def prod.case r sum.case n option.case
    by (cases "withNotFetched ?rep ?dep") simp_all
  let ?next = "nx\<lparr>ss_report := Some out, ss_sbom := rp_sbom ?rep, ss_cursor := bq_cursor q, ss_depFetch := ?dep\<rparr>"
  have "store_Write cas rd' expired reencode now (Some remergeNotFetched) n w2 ?next = (w', Done s)"
    using assms unfolding RunBaseline_def p Let_def prod.case r sum.case n option.case o
    by (auto split: prod.splits write_outcome.splits)
  moreover have "no_listed_refuting ?next" by (rule withheld_state [OF o]) simp_all
  ultimately show ?thesis by (rule store_no_listed)
qed

text \<open>The two ways a watch succeeds.\<close>

lemma watch_cases:
  assumes "RunCVEWatch rd wr query env q w = (w', Inr (res, s))"
  obtains (heartbeat) w1 state prior osv
    where "rd w = (w1, Winner state)" "ss_report state = Some prior" "query (sb_packages (ss_sbom state)) = Some osv"
      "new_ids osv (ss_cursor state) = []" "retry_of q state prior [] = []" "wr_heartbeat res"
      "wr_newAdvisories res = []" "wr_reassessed res = []" "wr_report res = None" "wr_cursor res = ss_cursor s"
      "wr w1 (state\<lparr>ss_cursor := go_join (sort (OSV_IDs osv)) '',''\<rparr>) (Some remergeNotFetched) = (w', Done s)"
  | (earnest) w1 state prior osv rep0 run0 rep dep out
    where "rd w = (w1, Winner state)" "ss_report state = Some prior" "query (sb_packages (ss_sbom state)) = Some osv"
      "new_ids osv (ss_cursor state) \<noteq> [] \<or> retry_of q state prior (new_ids osv (ss_cursor state)) \<noteq> []"
      "\<not> wr_heartbeat res" "wr_newAdvisories res = new_ids osv (ss_cursor state)"
      "wr_report res = ss_report s" "wr_cursor res = ss_cursor s"
      "earnestRun env state prior q osv (new_ids osv (ss_cursor state)) (retry_of q state prior (new_ids osv (ss_cursor state)))
         (if wq_holdCursor q then ss_cursor state else go_join (sort (OSV_IDs osv)) '','') = Inr (rep0, run0)"
      "rep = (case wq_disclose q of None \<Rightarrow> rep0 | Some d \<Rightarrow> d rep0)"
      "withNotFetched rep dep = Some out"
      "wr w1 (state\<lparr>ss_report := Some out, ss_sbom := rp_sbom rep,
          ss_cursor := pv_advisoryCursor (rp_provenance rep), ss_depFetch := dep\<rparr>) (Some remergeNotFetched) = (w', Done s)"
proof -
  obtain w1 state where r: "rd w = (w1, Winner state)"
    using assms unfolding RunCVEWatch_def by (cases "rd w"; cases "snd (rd w)") auto
  obtain prior where p: "ss_report state = Some prior"
    using assms unfolding RunCVEWatch_def r prod.case read_outcome.case by (cases "ss_report state") auto
  obtain osv where o: "query (sb_packages (ss_sbom state)) = Some osv"
    using assms unfolding RunCVEWatch_def r p prod.case read_outcome.case option.case
    by (cases "query (sb_packages (ss_sbom state))") auto
  let ?new = "new_ids osv (ss_cursor state)"
  let ?retry = "retry_of q state prior ?new"
  show ?thesis
  proof (cases "?new = [] \<and> ?retry = []")
    case True
    then have z: "length ?new = 0 \<and> length ?retry = 0" unfolding length_0_conv .
    have w: "wr w1 (state\<lparr>ss_cursor := go_join (sort (OSV_IDs osv)) '',''\<rparr>) (Some remergeNotFetched) = (w', Done s)"
      and f: "wr_heartbeat res" "wr_newAdvisories res = []" "wr_reassessed res = []" "wr_report res = None"
        "wr_cursor res = ss_cursor s"
      using assms unfolding RunCVEWatch_def r p o prod.case read_outcome.case option.case Let_def if_P [OF z]
      by (auto split: prod.splits write_outcome.splits)
    have n: "?new = []" using True by (rule conjunct1)
    have "retry_of q state prior [] = []" using conjunct2 [OF True] unfolding n .
    from heartbeat [OF r p o n this f w] show ?thesis .
  next
    case False
    then have ne: "\<not> (length ?new = 0 \<and> length ?retry = 0)" unfolding length_0_conv .
    let ?c = "if wq_holdCursor q then ss_cursor state else go_join (sort (OSV_IDs osv)) '',''"
    obtain rep0 run0 where e: "earnestRun env state prior q osv ?new ?retry ?c = Inr (rep0, run0)"
      using assms unfolding RunCVEWatch_def r p o prod.case read_outcome.case option.case Let_def if_not_P [OF ne]
      by (cases "earnestRun env state prior q osv ?new ?retry ?c") auto
    let ?rep = "case wq_disclose q of None \<Rightarrow> rep0 | Some d \<Rightarrow> d rep0"
    let ?cur = "pv_advisoryCursor (rp_provenance ?rep)"
    let ?dep = "case wq_fetch q of None \<Rightarrow> ss_depFetch state
      | Some f \<Rightarrow> f (ss_depFetch state) (run0\<lparr>fr_held := (?cur = ss_cursor state)\<rparr>)"
    note unf = RunCVEWatch_def r p o prod.case read_outcome.case option.case Let_def if_not_P [OF ne] e sum.case
    obtain out where out: "withNotFetched ?rep ?dep = Some out"
      using assms unfolding unf by (cases "withNotFetched ?rep ?dep") simp_all
    let ?next = "state\<lparr>ss_report := Some out, ss_sbom := rp_sbom ?rep, ss_cursor := ?cur, ss_depFetch := ?dep\<rparr>"
    have w: "wr w1 ?next (Some remergeNotFetched) = (w', Done s)"
      and f: "\<not> wr_heartbeat res" "wr_newAdvisories res = ?new" "wr_report res = ss_report s" "wr_cursor res = ss_cursor s"
      using assms unfolding unf out option.case by (auto split: prod.splits write_outcome.splits)
    show ?thesis using earnest [OF r p o _ f e refl out w] False by blast
  qed
qed

lemma watch_no_listed:
  assumes "RunCVEWatch rd (\<lambda>w st h. store_Write cas rd' expired reencode now h n w st) query env q w = (w', Inr (res, s))"
    and "\<And>w1 st. wr_heartbeat res \<Longrightarrow> rd w = (w1, Winner st) \<Longrightarrow> no_listed_refuting st"
  shows "no_listed_refuting s"
  using assms(1)
proof (cases rule: watch_cases)
  case (heartbeat w1 state prior osv)
  have "no_listed_refuting (state\<lparr>ss_cursor := c\<rparr>)" for c
    using assms(2) heartbeat(1,2,6) by (simp add: no_listed_refuting_def)
  with heartbeat(11) show ?thesis by (rule store_no_listed)
next
  case (earnest w1 state prior osv rep0 run0 rep dep out)
  have "no_listed_refuting (state\<lparr>ss_report := Some out, ss_sbom := rp_sbom rep,
      ss_cursor := pv_advisoryCursor (rp_provenance rep), ss_depFetch := dep\<rparr>)"
    by (rule withheld_state [OF earnest(11)]) simp_all
  with earnest(12) show ?thesis by (rule store_no_listed)
qed

text \<open>The states the runs on a repository commit, one after another: a baseline, an earnest watch, a heartbeat,
  which starts from a state committed before, and the counter of the self-cleanup check (RunCheck in
  src/internal/selfcleanup), when no other writer wins against it. Between and during the runs other
  writers may do anything: every run meets a repository, a clock and an analysis of its own.\<close>

inductive run_history :: "('w \<Rightarrow> 'w \<times> read_outcome) \<Rightarrow> State \<Rightarrow> bool" for rd where
  Baseline: "RunBaseline rd (\<lambda>w st h. store_Write cas rd' expired reencode now h n w st) env q w = (w', Inr s) \<Longrightarrow>
    run_history rd s"
| Earnest: "RunCVEWatch rd (\<lambda>w st h. store_Write cas rd' expired reencode now h n w st) query env cq w = (w', Inr (res, s)) \<Longrightarrow>
    \<not> wr_heartbeat res \<Longrightarrow> run_history rd s"
| Heartbeat: "RunCVEWatch rd (\<lambda>w st h. store_Write cas rd' expired reencode now h n w st) query env cq w = (w', Inr (res, s)) \<Longrightarrow>
    wr_heartbeat res \<Longrightarrow> rd w = (w1, Winner st) \<Longrightarrow> run_history rd st \<Longrightarrow> run_history rd s"
| Counter: "run_history rd st \<Longrightarrow> run_history rd (committed_state (st\<lparr>ss_revokeCount := k\<rparr>) sha)"

text \<open>C14: the store never keeps a refutation reached without the dependency code it rests on. Whatever other
  writers do to the repository during a run, every state that a successful baseline or watch commits, a
  heartbeat on an earlier one of these states included, and every such state with its revoke counter
  changed, has no row that refutes an advisory its fetch record lists for re-assessment.\<close>
theorem store_never_refutes_unread:
  assumes "run_history rd s"
  shows "no_listed_refuting s"
  using assms
proof (induction rule: run_history.induct)
  case (Baseline cas rd' expired reencode now n env q w w' s)
  then show ?case by (rule baseline_no_listed)
next
  case (Earnest cas rd' expired reencode now n query env cq w w' res s)
  then show ?case using watch_no_listed [OF Earnest(1)] by blast
next
  case (Heartbeat cas rd' expired reencode now n query env cq w w' res s w1 st)
  show ?case by (rule watch_no_listed [OF Heartbeat(1)]) (use Heartbeat in auto)
next
  case (Counter st k sha)
  then have "no_listed_refuting (st\<lparr>ss_revokeCount := k\<rparr>)"
    by (cases "ss_report st") (simp_all add: no_listed_refuting_def)
  then show ?case by simp
qed

section \<open>The cursor of the watch\<close>

lemma go_split_join:
  assumes "xs \<noteq> []" and "\<forall>x\<in>set xs. c \<notin> set x"
  shows "go_split (go_join xs [c]) [c] = xs"
  using assms by (induction xs "[c]" rule: go_join.induct) (auto simp: go_split_byte go_split_byte_none)

text \<open>An id the cursor's text holds as it is.\<close>

definition cursor_id :: "gostring \<Rightarrow> bool" where
  "cursor_id i = (i \<noteq> [] \<and> CHR '','' \<notin> set i \<and> trim_space i = i)"

lemma cursorSet_join:
  assumes "\<forall>i\<in>set ids. cursor_id i"
  shows "cursorSet (go_join ids '','') = ids"
proof (cases "ids = []")
  case True
  then show ?thesis by (simp add: cursorSet_def go_split_byte_none)
next
  case False
  have "map trim_space ids = ids" "filter (\<lambda>i. i \<noteq> []) ids = ids"
    using assms by (auto simp: cursor_id_def intro: map_idI)
  then show ?thesis using False assms by (simp add: cursorSet_def go_split_join cursor_id_def)
qed

lemma OSV_IDs_set: "set (OSV_IDs osv) = set (map oa_id osv)"
  by (simp add: OSV_IDs_def first_seen_set)

lemma new_ids_Nil: "new_ids osv cursor = [] \<longleftrightarrow> set (map oa_id osv) \<subseteq> set (cursorSet cursor)"
  unfolding new_ids_def filter_empty_conv set_sort OSV_IDs_set by blast

lemma cursor_covers:
  assumes "\<forall>a\<in>set osv. cursor_id (oa_id a)"
  shows "new_ids osv (go_join (sort (OSV_IDs osv)) '','') = []"
proof -
  have "\<forall>i\<in>set (sort (OSV_IDs osv)). cursor_id i" using assms by (simp add: OSV_IDs_set)
  from cursorSet_join [OF this] show ?thesis by (simp add: new_ids_Nil OSV_IDs_set)
qed

text \<open>The watch is a heartbeat exactly when nothing is new: it runs no analysis if and only if every
  advisory OSV returns for the stored inventory is in the stored cursor and no listed row asks to be
  assessed again. A heartbeat's only write is the stored state with the new cursor; and a cursor
  written from ids of the shape OSV uses makes the same answer a heartbeat the next time, so no
  advisory is announced twice.\<close>
theorem watch_heartbeat:
  assumes run: "RunCVEWatch rd wr query env q w = (w', Inr (res, s))"
    and state: "rd w = (w1, Winner state)" "ss_report state = Some prior" "query (sb_packages (ss_sbom state)) = Some osv"
  shows "(wr_heartbeat res \<longleftrightarrow>
      set (map oa_id osv) \<subseteq> set (cursorSet (ss_cursor state)) \<and> retry_of q state prior [] = []) \<and>
    (wr_heartbeat res \<longrightarrow>
      wr w1 (state\<lparr>ss_cursor := go_join (sort (OSV_IDs osv)) '',''\<rparr>) (Some remergeNotFetched) = (w', Done s) \<and>
      wr_report res = None \<and> wr_newAdvisories res = [] \<and> wr_reassessed res = []) \<and>
    (\<not> wr_heartbeat res \<longrightarrow> wr_newAdvisories res = new_ids osv (ss_cursor state)) \<and>
    ((\<forall>a\<in>set osv. cursor_id (oa_id a)) \<longrightarrow> new_ids osv (go_join (sort (OSV_IDs osv)) '','') = [])"
  using run
proof (cases rule: watch_cases)
  case (heartbeat w2 state2 prior2 osv2)
  then show ?thesis using state cursor_covers [of osv] new_ids_Nil [of osv "ss_cursor state"] by simp
next
  case (earnest w2 state2 prior2 osv2 rep0 run0 rep dep out)
  then have "state2 = state" "prior2 = prior" "osv2 = osv" using state by simp_all
  note eq = this
  have "new_ids osv (ss_cursor state) \<noteq> [] \<or> retry_of q state prior [] \<noteq> []"
    using earnest(4) unfolding eq by (cases "new_ids osv (ss_cursor state) = []") simp_all
  then show ?thesis
    using earnest(5,6) eq cursor_covers [of osv] new_ids_Nil [of osv "ss_cursor state"] by simp
qed

definition quiet_state :: State where
  "quiet_state = (sample_state [''x''])\<lparr>ss_report := Some (Build 5 (NewBuilder sample_subject)), ss_cursor := ''CVE-1, CVE-2''\<rparr>"

definition quiet_request :: CVEWatchRequest where
  "quiet_request = \<lparr>wq_subject = sample_subject, wq_analyzer = [], wq_signals = None, wq_advisories = [],
     wq_holdCursor = False, wq_hold = None, wq_fetch = None, wq_disclose = None\<rparr>"

definition quiet_osv :: "Package list \<Rightarrow> OSVAdvisory list option" where
  "quiet_osv pkgs = Some [\<lparr>oa_id = ''CVE-2'', oa_package = sample_ne_package\<rparr>, \<lparr>oa_id = ''CVE-1'', oa_package = sample_ne_package\<rparr>]"

definition quiet_write :: "nat \<Rightarrow> State \<Rightarrow> remerge \<Rightarrow> nat \<times> write_outcome" where
  "quiet_write w st h = store_Write (\<lambda>w st. (Suc w, Swapped ''sha'')) (\<lambda>w. (w, NoRef)) (\<lambda>w. False) (\<lambda>s. Some s) 1 h 8 w st"

lemma quiet_new: "new_ids (the (quiet_osv pkgs)) (ss_cursor quiet_state) = []"
  by (simp add: quiet_osv_def quiet_state_def sample_state_def) code_simp

lemma quiet_run:
  "\<exists>w' res s. RunCVEWatch (\<lambda>w. (w, Winner quiet_state)) quiet_write quiet_osv sample_env quiet_request 0 = (w', Inr (res, s))"
proof -
  have n: "new_ids [\<lparr>oa_id = ''CVE-2'', oa_package = sample_ne_package\<rparr>, \<lparr>oa_id = ''CVE-1'', oa_package = sample_ne_package\<rparr>]
      (ss_cursor quiet_state) = []" using quiet_new by (simp add: quiet_osv_def)
  have r: "ss_report quiet_state = Some (Build 5 (NewBuilder sample_subject))" by (simp add: quiet_state_def)
  have f: "wq_fetch quiet_request = None" by (simp add: quiet_request_def)
  show ?thesis
    unfolding RunCVEWatch_def prod.case read_outcome.case r option.case quiet_osv_def Let_def n retry_of_def f
    by (simp add: quiet_write_def store_Write_def numeral_eq_Suc)
qed

theorem watch_heartbeat_witness:
  "\<exists>w' res s. RunCVEWatch (\<lambda>w. (w, Winner quiet_state)) quiet_write quiet_osv sample_env quiet_request 0 = (w', Inr (res, s)) \<and>
     wr_heartbeat res"
proof -
  obtain w' res s where r: "RunCVEWatch (\<lambda>w. (w, Winner quiet_state)) quiet_write quiet_osv sample_env quiet_request 0 = (w', Inr (res, s))"
    using quiet_run by blast
  have s: "ss_report quiet_state = Some (Build 5 (NewBuilder sample_subject))" by (simp add: quiet_state_def)
  have o: "quiet_osv (sb_packages (ss_sbom quiet_state)) = Some (the (quiet_osv []))" by (simp add: quiet_osv_def)
  have n: "retry_of quiet_request quiet_state (Build 5 (NewBuilder sample_subject)) [] = []"
    by (simp add: retry_of_def quiet_request_def)
  from watch_heartbeat [OF r refl s o] n quiet_new [of "[]"] r show ?thesis
    by (auto simp: new_ids_Nil)
qed

text \<open>A baseline whose assessment refutes its advisory, with a fetch record that lists it, and a heartbeat on
  the state it commits.\<close>

definition listed_env :: run_env where
  "listed_env = sample_env\<lparr>en_stop := None,
     en_inventory := sample_inv\<lparr>di_partiality := \<lparr>pa_complete = True, pa_reasons = [], pa_scoped = []\<rparr>\<rparr>,
     en_assess := (\<lambda>t v. Inr sample_ne_run)\<rparr>"

definition listed_request :: BaselineRequest where
  "listed_request = sample_request\<lparr>bq_advisories := [sample_ref ''CVE-1''],
     bq_fetch := Some (\<lambda>d run. Some \<lparr>df_reportSHA256 = [], df_registries = [], df_reassess = [''CVE-1'']\<rparr>)\<rparr>"

definition listed_state :: State where
  "listed_state = (case RunBaseline (\<lambda>w. (w, NoRef)) quiet_write listed_env listed_request 0 of
     (w', Inl e) \<Rightarrow> empty_state | (w', Inr s) \<Rightarrow> s)"

definition listed_read :: "nat \<Rightarrow> nat \<times> read_outcome" where
  "listed_read w = (w, if w = 0 then NoRef else Winner listed_state)"

lemma baseline_read_once:
  assumes "rd w = (w, r)"
  shows "RunBaseline rd wr env q w = RunBaseline (\<lambda>w. (w, r)) wr env q w"
proof -
  obtain x where x: "readForUpdate rd w = (w, x)" "readForUpdate (\<lambda>w. (w, r)) w = (w, x)"
    using assms by (cases r) (simp_all add: readForUpdate_def)
  let ?p = "if baseline_reads env then x else Some empty_state"
  have p: "(if baseline_reads env then (w, x) else (w, Some empty_state)) = (w, ?p)" by simp
  show ?thesis
    unfolding RunBaseline_def x p Let_def prod.case
    by (cases "baselineReport env q (Some (map_option ss_sbom ?p))") (simp_all only: sum.case x prod.case split: prod.splits)
qed

lemma assessed_verdict: "af_verdict (assessed_row sample_ne_run (sample_ref ''CVE-1'') empty_sbom []) = VerdictNotExploitable"
  by code_simp

lemma listed_eval:
  "case RunBaseline (\<lambda>w. (w, NoRef)) quiet_write listed_env listed_request 0 of
    (w', Inl e) \<Rightarrow> False
  | (w', Inr s) \<Rightarrow> w' = 1 \<and> map_option (\<lambda>r. map af_verdict (rp_advisories r)) (ss_report s) = Some [VerdictUndetermined]"
  by code_simp

lemma listed_result:
  "RunBaseline (\<lambda>w. (w, NoRef)) quiet_write listed_env listed_request 0 = (1, Inr listed_state)"
  "map_option (\<lambda>r. map af_verdict (rp_advisories r)) (ss_report listed_state) = Some [VerdictUndetermined]"
proof -
  obtain s where s: "RunBaseline (\<lambda>w. (w, NoRef)) quiet_write listed_env listed_request 0 = (1, Inr s)"
    "map_option (\<lambda>r. map af_verdict (rp_advisories r)) (ss_report s) = Some [VerdictUndetermined]"
    using listed_eval by (auto split: prod.splits sum.splits)
  then have "listed_state = s" by (simp add: listed_state_def)
  then show "RunBaseline (\<lambda>w. (w, NoRef)) quiet_write listed_env listed_request 0 = (1, Inr listed_state)"
    "map_option (\<lambda>r. map af_verdict (rp_advisories r)) (ss_report listed_state) = Some [VerdictUndetermined]"
    using s by simp_all
qed

lemma listed_run: "RunBaseline listed_read quiet_write listed_env listed_request 0 = (1, Inr listed_state)"
  using baseline_read_once [of listed_read 0 NoRef] listed_result(1) by (simp add: listed_read_def [abs_def])

lemma listed_beat:
  "\<exists>w' res s. RunCVEWatch listed_read quiet_write (\<lambda>p. Some []) listed_env quiet_request 1 = (w', Inr (res, s)) \<and> wr_heartbeat res"
proof -
  obtain r where r: "ss_report listed_state = Some r" using listed_result(2) by (cases "ss_report listed_state") simp_all
  have l: "listed_read 1 = (1, Winner listed_state)" by (simp add: listed_read_def)
  have n: "new_ids [] c = []" for c by (simp add: new_ids_Nil)
  have f: "wq_fetch quiet_request = None" by (simp add: quiet_request_def)
  show ?thesis
    unfolding RunCVEWatch_def l prod.case read_outcome.case r option.case Let_def n retry_of_def f
    by (simp add: quiet_write_def store_Write_def numeral_eq_Suc)
qed

theorem store_never_refutes_unread_witness:
  "af_verdict (assessed_row sample_ne_run (sample_ref ''CVE-1'') empty_sbom []) = VerdictNotExploitable \<and>
   map_option (\<lambda>r. map af_verdict (rp_advisories r)) (ss_report listed_state) = Some [VerdictUndetermined] \<and>
   no_listed_refuting listed_state \<and>
   (\<exists>w' res s. RunCVEWatch listed_read quiet_write (\<lambda>p. Some []) listed_env quiet_request 1 = (w', Inr (res, s)) \<and>
      wr_heartbeat res \<and> no_listed_refuting s)"
proof -
  have q: "quiet_write = (\<lambda>w st h. store_Write (\<lambda>w st. (Suc w, Swapped ''sha'')) (\<lambda>w. (w, NoRef)) (\<lambda>w. False) (\<lambda>s. Some s) 1 h 8 w st)"
    by (simp add: fun_eq_iff quiet_write_def)
  have h: "run_history listed_read listed_state" by (rule Baseline [OF listed_run [unfolded q]])
  obtain w' res s where b: "RunCVEWatch listed_read quiet_write (\<lambda>p. Some []) listed_env quiet_request 1 = (w', Inr (res, s))"
    "wr_heartbeat res" using listed_beat by blast
  have "run_history listed_read s"
    by (rule Heartbeat [OF b(1) [unfolded q] b(2) _ h]) (simp add: listed_read_def)
  then show ?thesis using assessed_verdict listed_result(2) b store_never_refutes_unread [OF h] store_never_refutes_unread [of listed_read s] by blast
qed

end
