(* ===== verification/Trigger_Cover.thy ===== *)
theory Trigger_Cover
imports Trigger_Run
begin

text \<open>What a pull-request run promises of the advisories it answers for, on its two paths (RunPRInherit of
  trigger.go, reanalyzeSlice and inheritBaseline of state.go). The model is in Trigger_Run; this
  theory holds the specification, which rows the report has to carry, and the lemmas on the
  merge of fresh rows over stored ones.\<close>

section \<open>The specification\<close>

text \<open>A row answers for an advisory of the work set: it is of its id and source, or, as a migrated row is, of
  its id and no source.\<close>

definition answers :: "AdvisoryFinding \<Rightarrow> VulnRef \<Rightarrow> bool" where
  "answers f v = (merge_key f = id_key (vr_id v) (vr_source v) \<or> merge_key f = id_key (vr_id v) [])"

definition answered :: "AdvisoryFinding list \<Rightarrow> VulnRef \<Rightarrow> bool" where
  "answered rows v = list_ex (\<lambda>f. answers f v) rows"

text \<open>The one shape a row may give way in: undetermined, with no source.\<close>

definition migrated :: "AdvisoryFinding \<Rightarrow> bool" where
  "migrated b = (af_verdict b = VerdictUndetermined \<and> ad_source (af_advisory b) = [])"

text \<open>A stored row is carried by a row of its key; a migrated one also by a row of its id.\<close>

definition row_carried :: "AdvisoryFinding list \<Rightarrow> AdvisoryFinding \<Rightarrow> bool" where
  "row_carried rows b =
    list_ex (\<lambda>f. merge_key f = merge_key b \<or> migrated b \<and> ad_id (af_advisory f) = ad_id (af_advisory b)) rows"

text \<open>An advisory whose only stored row was a migrated one, dropped for the fresh row of the same id under
  another source of the work set.\<close>

definition gave_way :: "AdvisoryFinding list \<Rightarrow> VulnRef list \<Rightarrow> AdvisoryFinding list \<Rightarrow> VulnRef \<Rightarrow> bool" where
  "gave_way stored ws rows v =
    (list_ex (\<lambda>b. migrated b \<and> ad_id (af_advisory b) = vr_id v) stored \<and>
     list_ex (\<lambda>f. \<exists>u\<in>set ws. vr_id u = vr_id v \<and> vr_source u \<noteq> vr_source v \<and>
       merge_key f = id_key (vr_id u) (vr_source u)) rows)"

text \<open>All three read a row's advisory only, so they survive what a build does to its rows.\<close>

lemma answered_advisories:
  "af_advisory ` set xs = af_advisory ` set ys \<Longrightarrow> answered xs v = answered ys v"
  "af_advisory ` set xs = af_advisory ` set ys \<Longrightarrow> row_carried xs b = row_carried ys b"
  "af_advisory ` set xs = af_advisory ` set ys \<Longrightarrow> gave_way st ws xs v = gave_way st ws ys v"
proof -
  have *: "list_ex P xs = list_ex P ys"
    if eq: "af_advisory ` set xs = af_advisory ` set ys" and P: "\<And>f g. af_advisory f = af_advisory g \<Longrightarrow> P f = P g" for P
  proof -
    have "(\<exists>f\<in>set xs. P f) \<longleftrightarrow> (\<exists>a\<in>af_advisory ` set xs. \<exists>f. af_advisory f = a \<and> P f)" using P by blast
    moreover have "(\<exists>f\<in>set ys. P f) \<longleftrightarrow> (\<exists>a\<in>af_advisory ` set ys. \<exists>f. af_advisory f = a \<and> P f)" using P by blast
    ultimately show ?thesis unfolding list_ex_iff eq by blast
  qed
  show "af_advisory ` set xs = af_advisory ` set ys \<Longrightarrow> answered xs v = answered ys v"
    unfolding answered_def by (erule *) (simp add: answers_def merge_key_def)
  show "af_advisory ` set xs = af_advisory ` set ys \<Longrightarrow> row_carried xs b = row_carried ys b"
    unfolding row_carried_def by (erule *) (simp add: merge_key_def)
  show "af_advisory ` set xs = af_advisory ` set ys \<Longrightarrow> gave_way st ws xs v = gave_way st ws ys v"
    unfolding gave_way_def by (rule conj_cong [OF refl], erule *) (simp add: merge_key_def)
qed

lemma prioritized_advisories: "af_advisory ` set (prioritized b) = af_advisory ` set (bd_advisories b)"
  by (cases "bd_priority b") (simp_all add: prioritized_def image_image)

lemma built_advisories: "af_advisory ` set (rp_advisories (Build now b)) = af_advisory ` set (bd_advisories b)"
  by (simp add: Build_def Let_def prioritized_advisories)

section \<open>Fresh rows over stored ones\<close>

definition fresh_ok :: "(gostring \<times> AdvisoryFinding) list \<Rightarrow> gostring list \<Rightarrow> bool" where
  "fresh_ok re ids = (distinct (map fst re) \<and> (\<forall>k r. (k, r) \<in> set re \<longrightarrow> merge_key r = k \<and> CHR 0x00 \<notin> set (ad_source (af_advisory r))) \<and>
     (\<forall>i\<in>set ids. \<exists>r\<in>snd ` set re. ad_id (af_advisory r) = i))"

lemma merge_keeps_fresh:
  "distinct (map fst re) \<Longrightarrow> snd ` set re \<subseteq> set (merge_fresh keep ids fs re)"
proof (induction fs arbitrary: re)
  case Nil
  then show ?case by simp
next
  case (Cons f fs)
  show ?case
  proof (cases "map_of re (merge_key f)")
    case None
    then show ?thesis using Cons by auto
  next
    case (Some r)
    have "snd ` set re \<subseteq> insert r (snd ` set (AList.delete (merge_key f) re))"
    proof
      fix x assume "x \<in> snd ` set re"
      then obtain k where k: "(k, x) \<in> set re" by auto
      show "x \<in> insert r (snd ` set (AList.delete (merge_key f) re))"
      proof (cases "k = merge_key f")
        case True
        then have "map_of re (merge_key f) = Some x" using k Cons.prems by (simp add: map_of_eq_Some_iff)
        then show ?thesis using Some by simp
      next
        case False
        then have "(k, x) \<in> set (AList.delete (merge_key f) re)" using k by (simp add: AList.delete_eq)
        then show ?thesis by force
      qed
    qed
    moreover have "distinct (map fst (AList.delete (merge_key f) re))" using Cons.prems by (rule distinct_delete)
    ultimately show ?thesis using Some Cons by auto
  qed
qed

lemma merge_keeps_stored:
  assumes "\<And>g. af_advisory (keep g) = af_advisory g"
  shows "\<forall>k r. (k, r) \<in> set re \<longrightarrow> merge_key r = k \<Longrightarrow> f \<in> set fs \<Longrightarrow> \<not> supersededByFresh f ids \<Longrightarrow>
    \<exists>g\<in>set (merge_fresh keep ids fs re). merge_key g = merge_key f"
proof (induction fs arbitrary: re)
  case (Cons h fs)
  show ?case
  proof (cases "f = h")
    case True
    have k: "merge_key (keep h) = merge_key h" by (simp add: merge_key_def assms)
    show ?thesis
    proof (cases "map_of re (merge_key h)")
      case None
      then show ?thesis using True Cons.prems(3) k by simp
    next
      case (Some r)
      then have "merge_key r = merge_key h" using Cons.prems(1) by (simp add: map_of_SomeD)
      then show ?thesis using True Cons.prems(3) Some by simp
    qed
  next
    case False
    then have f: "f \<in> set fs" using Cons.prems(2) by simp
    have d: "\<forall>k r. (k, r) \<in> set (AList.delete (merge_key h) re) \<longrightarrow> merge_key r = k"
      using Cons.prems(1) by (auto simp: AList.delete_eq)
    show ?thesis
      using Cons.IH [OF d f Cons.prems(3)] Cons.IH [OF Cons.prems(1) f Cons.prems(3)] by (simp split: option.split)
  qed
qed simp

lemma fresh_ok_key: "fresh_ok re ids \<Longrightarrow> \<forall>k r. (k, r) \<in> set re \<longrightarrow> merge_key r = k"
  by (simp add: fresh_ok_def)

lemma merge_has_fresh:
  "fresh_ok re ids \<Longrightarrow> (k, r) \<in> set re \<Longrightarrow> merge_key r = k \<and> r \<in> set (merge_fresh keep ids fs re)"
  using merge_keeps_fresh [of re keep ids fs] imageI [of "(k, r)" "set re" snd] by (auto simp: fresh_ok_def)

lemma merge_has_id:
  assumes "fresh_ok re ids" and "i \<in> set ids"
  shows "\<exists>r\<in>set (merge_fresh keep ids fs re). ad_id (af_advisory r) = i"
proof -
  obtain k r where "(k, r) \<in> set re" "ad_id (af_advisory r) = i"
    using assms unfolding fresh_ok_def by force
  then show ?thesis using merge_has_fresh [OF assms(1)] by blast
qed

lemma superseded_fields: "supersededByFresh b ids \<Longrightarrow> ad_id (af_advisory b) \<in> set ids \<and> migrated b"
  by (simp add: supersededByFresh_def migrated_def split: if_splits)

lemma merge_carries:
  assumes ok: "fresh_ok re ids" and keep: "\<And>g. af_advisory (keep g) = af_advisory g" and b: "b \<in> set fs"
  shows "row_carried (merge_fresh keep ids fs re) b"
proof (cases "supersededByFresh b ids")
  case True
  note s = superseded_fields [OF True]
  from merge_has_id [OF ok conjunct1 [OF s]] s show ?thesis
    by (auto simp: row_carried_def list_ex_iff)
next
  case False
  from merge_keeps_stored [OF keep fresh_ok_key [OF ok] b False] show ?thesis
    by (auto simp: row_carried_def list_ex_iff)
qed

text \<open>A key determines the id and the source, when the source holds no separator.\<close>

lemma id_key_inj:
  "CHR 0x00 \<notin> set src \<Longrightarrow> CHR 0x00 \<notin> set src' \<Longrightarrow> id_key i src = id_key j src' \<Longrightarrow> i = j \<and> src = src'"
proof (induction src arbitrary: src' rule: rev_induct)
  case Nil
  then show ?case by (cases src' rule: rev_cases) (auto simp: id_key_def)
next
  case (snoc x xs)
  then show ?case by (cases src' rule: rev_cases) (auto simp: id_key_def)
qed

lemmas id_key_unsourced = id_key_inj [of "[]", simplified]

lemma migrated_key:
  assumes "migrated b" and "CHR 0x00 \<notin> set (vr_source v)"
    and "merge_key b = id_key (vr_id v) (vr_source v) \<or> merge_key b = id_key (vr_id v) []"
  shows "ad_id (af_advisory b) = vr_id v"
  using assms(3)
proof
  assume "merge_key b = id_key (vr_id v) (vr_source v)"
  then show ?thesis using id_key_unsourced [OF assms(2), of "ad_id (af_advisory b)" "vr_id v"] assms(1)
    by (simp add: merge_key_def migrated_def)
next
  assume "merge_key b = id_key (vr_id v) []"
  then show ?thesis using assms(1) by (simp add: merge_key_def id_key_def migrated_def)
qed

text \<open>A stored row of an advisory's key keeps the advisory answered, unless it is a migrated row and its id is
  fresh.\<close>

lemma merge_answers_stored:
  assumes ok: "fresh_ok re ids" and keep: "\<And>g. af_advisory (keep g) = af_advisory g" and b: "b \<in> set fs"
    and k: "merge_key b = id_key (vr_id v) (vr_source v) \<or> merge_key b = id_key (vr_id v) []"
    and nul: "CHR 0x00 \<notin> set (vr_source v)"
  shows "answered (merge_fresh keep ids fs re) v \<or>
    migrated b \<and> ad_id (af_advisory b) = vr_id v \<and> vr_id v \<in> set ids"
proof (cases "supersededByFresh b ids")
  case True
  from superseded_fields [OF True] migrated_key [OF _ nul k] show ?thesis by auto
next
  case False
  from merge_keeps_stored [OF keep fresh_ok_key [OF ok] b False] k show ?thesis
    by (auto simp: answered_def answers_def list_ex_iff)
qed

lemma merge_answers_fresh:
  assumes "fresh_ok re ids" and "(id_key (vr_id v) (vr_source v), r) \<in> set re"
  shows "answered (merge_fresh keep ids fs re) v"
  using merge_has_fresh [OF assms, of keep fs] by (auto simp: answered_def answers_def list_ex_iff)

section \<open>The slow path\<close>

lemma has_row_stored:
  "has_row (usable_keys rep) v \<Longrightarrow>
    \<exists>b\<in>set (rp_advisories rep). merge_key b \<in> set (usable_keys rep) \<and>
      (merge_key b = id_key (vr_id v) (vr_source v) \<or> merge_key b = id_key (vr_id v) [])"
  by (auto simp: has_row_def usable_keys_def)

text \<open>Every row made for an advisory carries it.\<close>

lemma made_for:
  "af_advisory (cutShortFinding v) = vuln_row v" "af_advisory (assessFailureFinding v e) = vuln_row v"
  "ad_id (af_advisory (assessed_row st v sbom limits)) = vr_id v"
  "ad_source (af_advisory (assessed_row st v sbom limits)) = vr_source v"
  "ad_id (vuln_row v) = vr_id v" "ad_source (vuln_row v) = vr_source v"
  by (simp_all add: cutShort_fields failure_fields assessed_row_fields vuln_row_def)

definition made_row :: "VulnRef \<Rightarrow> AdvisoryFinding \<Rightarrow> bool" where
  "made_row v f = (ad_id (af_advisory f) = vr_id v \<and> ad_source (af_advisory f) = vr_source v)"

lemma put_fresh_fields [simp]:
  "sl_re (put_fresh v f s) = AList.update (id_key (vr_id v) (vr_source v)) f (sl_re s)"
  "sl_ids (put_fresh v f s) = sl_ids s @ [vr_id v]" "sl_cut (put_fresh v f s) = sl_cut s"
  by (simp_all add: put_fresh_def)

lemma fresh_ok_update:
  assumes ok: "fresh_ok re ids" and f: "made_row v f" and nul: "CHR 0x00 \<notin> set (vr_source v)"
  shows "fresh_ok (AList.update (id_key (vr_id v) (vr_source v)) f re) (ids @ [vr_id v])"
proof -
  let ?k = "id_key (vr_id v) (vr_source v)" and ?re = "AList.update (id_key (vr_id v) (vr_source v)) f re"
  have d: "distinct (map fst re)" "distinct (map fst ?re)" using ok by (simp_all add: fresh_ok_def distinct_update)
  have m: "(k, r) \<in> set ?re \<longleftrightarrow> (k = ?k \<and> r = f) \<or> (k \<noteq> ?k \<and> (k, r) \<in> set re)" for k r
    by (auto simp: map_of_eq_Some_iff [OF d(1), symmetric] map_of_eq_Some_iff [OF d(2), symmetric] update_conv' split: if_splits)
  have keys: "\<forall>k r. (k, r) \<in> set ?re \<longrightarrow> merge_key r = k \<and> CHR 0x00 \<notin> set (ad_source (af_advisory r))"
    using ok f nul unfolding m fresh_ok_def by (auto simp: merge_key_def made_row_def)
  have "\<exists>r\<in>snd ` set ?re. ad_id (af_advisory r) = i" if i: "i \<in> set (ids @ [vr_id v])" for i
  proof (cases "i = vr_id v")
    case True
    have "(?k, f) \<in> set ?re" unfolding m by simp
    then show ?thesis using True f by (force simp: made_row_def)
  next
    case False
    then obtain k r where r: "(k, r) \<in> set re" "ad_id (af_advisory r) = i"
      using ok i unfolding fresh_ok_def by force
    then have "merge_key r = k" "CHR 0x00 \<notin> set (ad_source (af_advisory r))" using ok by (auto simp: fresh_ok_def)
    then have "k \<noteq> ?k" using id_key_inj [OF _ nul] r(2) False by (auto simp: merge_key_def)
    then have "(k, r) \<in> set ?re" using r(1) unfolding m by simp
    then show ?thesis using r(2) by force
  qed
  then show ?thesis using d(2) keys unfolding fresh_ok_def by blast
qed

lemma slice_step_cases:
  "(sl_re (slice_step env q rows changed t v s) = sl_re s \<and> sl_ids (slice_step env q rows changed t v s) = sl_ids s \<and>
      has_row rows v) \<or>
   (\<exists>f. made_row v f \<and>
      sl_re (slice_step env q rows changed t v s) = AList.update (id_key (vr_id v) (vr_source v)) f (sl_re s) \<and>
      sl_ids (slice_step env q rows changed t v s) = sl_ids s @ [vr_id v])"
proof -
  have made: "made_row v (cutShortFinding v)" "made_row v (assessFailureFinding v e)" "made_row v (assessed_row st v sbom limits)"
    for e st sbom limits by (simp_all add: made_row_def made_for)
  show ?thesis
  proof (cases "assessWithin env t v")
    case (Completed st)
    let ?f = "assessed_row st v (pq_sbom q) (pq_diffLimits q)"
    show ?thesis
      using made(3) [of st "pq_sbom q" "pq_diffLimits q"] Completed
      by (cases "limitNoteFor ?f"; simp add: slice_step_def Let_def) blast+
  qed (use made in \<open>auto simp: slice_step_def\<close>)
qed

text \<open>Every advisory the loop passes is fresh or has a stored row.\<close>

definition looped :: "gostring list \<Rightarrow> (gostring \<times> AdvisoryFinding) list \<Rightarrow> VulnRef \<Rightarrow> bool" where
  "looped rows re v = (has_row rows v \<or> id_key (vr_id v) (vr_source v) \<in> fst ` set re)"

lemma looped_update: "looped rows re v \<Longrightarrow> looped rows (AList.update k f re) v"
  by (auto simp: looped_def dom_update image_iff)

definition made_for_some :: "VulnRef set \<Rightarrow> (gostring \<times> AdvisoryFinding) list \<Rightarrow> bool" where
  "made_for_some vs re = (\<forall>r\<in>snd ` set re. \<exists>u\<in>vs. made_row u r)"

lemma updated_pairs: "set (AList.update k f re) \<subseteq> insert (k, f) (set re)"
  by (induction re) auto

lemma made_for_some_update:
  "made_for_some vs re \<Longrightarrow> u \<in> vs \<Longrightarrow> made_row u f \<Longrightarrow> made_for_some vs (AList.update k f re)"
  using updated_pairs [of k f re] by (fastforce simp: made_for_some_def)

lemma slice_loop_ok:
  assumes "fresh_ok (sl_re s) (sl_ids s)" and "\<forall>v\<in>set vs. CHR 0x00 \<notin> set (vr_source v)"
    and "\<forall>v\<in>done. looped rows (sl_re s) v" and "made_for_some ws (sl_re s)" and "set vs \<subseteq> ws"
  shows "fresh_ok (sl_re (slice_loop env q rows changed t vs s)) (sl_ids (slice_loop env q rows changed t vs s)) \<and>
    (\<forall>v\<in>done \<union> set vs. looped rows (sl_re (slice_loop env q rows changed t vs s)) v) \<and>
    made_for_some ws (sl_re (slice_loop env q rows changed t vs s))"
  using assms
proof (induction vs arbitrary: t s "done")
  case (Cons v vs)
  let ?s = "slice_step env q rows changed t v s"
  have ok: "fresh_ok (sl_re ?s) (sl_ids ?s) \<and> (\<forall>u\<in>insert v done. looped rows (sl_re ?s) u) \<and> made_for_some ws (sl_re ?s)"
    using slice_step_cases [of env q rows changed t v s]
  proof (elim disjE exE conjE)
    fix f
    assume f: "made_row v f" "sl_re ?s = AList.update (id_key (vr_id v) (vr_source v)) f (sl_re s)" "sl_ids ?s = sl_ids s @ [vr_id v]"
    have "looped rows (sl_re ?s) v" unfolding f(2) looped_def by (simp add: dom_update)
    moreover have "made_for_some ws (sl_re ?s)"
      unfolding f(2) by (rule made_for_some_update) (use Cons.prems f(1) in auto)
    ultimately show ?thesis using f Cons.prems fresh_ok_update [OF Cons.prems(1) f(1)] looped_update by simp
  next
    assume "sl_re ?s = sl_re s" "sl_ids ?s = sl_ids s" "has_row rows v"
    then show ?thesis using Cons.prems by (simp add: looped_def)
  qed
  from Cons.IH [of ?s "insert v done" "t + 1"] ok Cons.prems(2,5) show ?case by simp
qed simp

text \<open>Its rows answer for the whole work set, and carry every stored row.\<close>

lemma slice_of_ok:
  assumes "\<forall>v\<in>set (pq_advisories q). CHR 0x00 \<notin> set (vr_source v)"
  shows "fresh_ok (sl_re (slice_of env baseline q changed)) (sl_ids (slice_of env baseline q changed)) \<and>
    (\<forall>v\<in>set (pq_advisories q). looped (usable_keys baseline) (sl_re (slice_of env baseline q changed)) v) \<and>
    made_for_some (set (pq_advisories q)) (sl_re (slice_of env baseline q changed))"
proof -
  have e: "fresh_ok (sl_re empty_slice) (sl_ids empty_slice)" by (simp add: fresh_ok_def empty_slice_def)
  have "\<forall>v\<in>{}. looped (usable_keys baseline) (sl_re empty_slice) v" by simp
  from slice_loop_ok [OF e assms this, of "set (pq_advisories q)"] show ?thesis
    unfolding slice_of_def by (simp add: made_for_some_def empty_slice_def)
qed

text \<open>A fresh id that is an advisory's, with no fresh row that answers for it, is the id of another source.\<close>

lemma fresh_other_source:
  assumes ok: "fresh_ok re ids" and made: "made_for_some ws re" and i: "vr_id v \<in> set ids"
    and n: "\<not> answered (merge_fresh keep ids fs re) v"
  shows "\<exists>u\<in>ws. vr_id u = vr_id v \<and> vr_source u \<noteq> vr_source v \<and>
    (\<exists>f\<in>set (merge_fresh keep ids fs re). merge_key f = id_key (vr_id u) (vr_source u))"
proof -
  obtain k r where r: "(k, r) \<in> set re" "ad_id (af_advisory r) = vr_id v"
    using ok i unfolding fresh_ok_def by force
  obtain u where u: "u \<in> ws" "made_row u r" using made r(1) by (force simp: made_for_some_def)
  have m: "r \<in> set (merge_fresh keep ids fs re)" using merge_has_fresh [OF ok r(1)] by simp
  have k: "merge_key r = id_key (vr_id u) (vr_source u)" "vr_id u = vr_id v"
    using u(2) r(2) by (auto simp: made_row_def merge_key_def)
  have "vr_source u \<noteq> vr_source v"
    using n m k by (auto simp: answered_def answers_def list_ex_iff)
  then show ?thesis using u(1) k m by blast
qed

lemma slice_rows_answer:
  assumes nul: "\<forall>v\<in>set (pq_advisories q). CHR 0x00 \<notin> set (vr_source v)"
  shows "\<forall>v\<in>set (pq_advisories q). answered (slice_rows baseline q (slice_of env baseline q changed)) v \<or>
      gave_way (rp_advisories baseline) (pq_advisories q) (slice_rows baseline q (slice_of env baseline q changed)) v"
    and "\<forall>b\<in>set (rp_advisories baseline). row_carried (slice_rows baseline q (slice_of env baseline q changed)) b"
proof -
  let ?s = "slice_of env baseline q changed"
  let ?rows = "slice_rows baseline q ?s"
  have ok: "fresh_ok (sl_re ?s) (sl_ids ?s)" "made_for_some (set (pq_advisories q)) (sl_re ?s)"
    "\<And>v. v \<in> set (pq_advisories q) \<Longrightarrow> looped (usable_keys baseline) (sl_re ?s) v"
    using slice_of_ok [OF nul, of env baseline changed] by blast+
  show "\<forall>v\<in>set (pq_advisories q). answered ?rows v \<or> gave_way (rp_advisories baseline) (pq_advisories q) ?rows v"
  proof (rule ballI, rule ccontr)
    fix v
    assume v: "v \<in> set (pq_advisories q)"
      and c: "\<not> (answered ?rows v \<or> gave_way (rp_advisories baseline) (pq_advisories q) ?rows v)"
    then have n: "\<not> answered ?rows v" by simp
    note n' = n [unfolded slice_rows_def]
    have "id_key (vr_id v) (vr_source v) \<notin> fst ` set (sl_re ?s)"
      using n' merge_answers_fresh [OF ok(1)] by fastforce
    then have "has_row (usable_keys baseline) v" using ok(3) [OF v] by (simp add: looped_def)
    then obtain b where b: "b \<in> set (rp_advisories baseline)"
      "merge_key b = id_key (vr_id v) (vr_source v) \<or> merge_key b = id_key (vr_id v) []"
      using has_row_stored by blast
    have m: "migrated b" "ad_id (af_advisory b) = vr_id v" "vr_id v \<in> set (sl_ids ?s)"
      using merge_answers_stored [OF ok(1) _ b, of "\<lambda>f. withInventoryLimits f (inheritedLimits (pq_diffLimits q) (Some baseline)) []"]
        n' v nul by auto
    from fresh_other_source [OF ok(1,2) m(3) n'] b(1) m(1,2)
    have "gave_way (rp_advisories baseline) (pq_advisories q) ?rows v"
      unfolding gave_way_def slice_rows_def list_ex_iff by blast
    then show False using c by simp
  qed
  show "\<forall>b\<in>set (rp_advisories baseline). row_carried ?rows b"
    unfolding slice_rows_def by (rule ballI, rule merge_carries [OF ok(1)]) simp_all
qed

section \<open>The fast path\<close>

lemma add_rows_fields [simp]:
  "bd_advisories (add_rows rows b) = bd_advisories b @ rows" "bd_packages (add_rows rows b) = bd_packages b"
  "bd_relationships (add_rows rows b) = bd_relationships b"
  unfolding add_rows_def by (induction rows arbitrary: b) simp_all

lemma add_recount_fields [simp]:
  "bd_advisories (add_recount n b) = bd_advisories b" "bd_packages (add_recount n b) = bd_packages b"
  "bd_relationships (add_recount n b) = bd_relationships b"
  by (simp_all add: add_recount_def split: option.split)

lemma inherit_builder_rows:
  "bd_advisories (inherit_builder env baseline q state fresh ns cause) = inherited_rows q baseline fresh @ fresh"
  by (simp add: inherit_builder_def Let_def)

lemma slice_builder_rows:
  "bd_advisories (slice_builder env baseline q state s) = slice_rows baseline q s"
  by (simp add: slice_builder_def Let_def)

lemma unrowed_loop_rows: "fst (unrowed_loop env sbom limits t vs (fs, ns, c)) = fs @ rows_from env sbom limits t vs"
proof (induction vs arbitrary: t fs ns c)
  case (Cons v vs)
  then show ?case by (cases "assessWithin env t v") (simp_all add: row_for_def Let_def)
qed simp

lemma assessUnrowed_rows:
  "assessUnrowed env q vs = (fresh, ns, cause) \<Longrightarrow> fresh = rows_from env (pq_sbom q) (pq_diffLimits q) 0 vs"
  using unrowed_loop_rows [of env "pq_sbom q" "pq_diffLimits q" 0 vs "[]" "[]" 0]
  by (auto simp: assessUnrowed_def split: prod.splits)

lemma unrowed_complete:
  "v \<in> set vs \<Longrightarrow> has_row ks v \<or>
    (\<exists>u\<in>set (unrowed_from ks vs). id_key (vr_id u) (vr_source u) \<in> {id_key (vr_id v) (vr_source v), id_key (vr_id v) []})"
proof (induction ks vs rule: unrowed_from.induct)
  case (2 ks u vs)
  then show ?case by (cases "has_row ks u") (auto simp: has_row_def)
qed simp

lemma unrowed_cases:
  assumes "v \<in> set vs"
  obtains (row) "has_row ks v"
    | (fresh) u where "u \<in> set (unrowed_from ks vs)"
        "id_key (vr_id u) (vr_source u) = id_key (vr_id v) (vr_source v) \<or> id_key (vr_id u) (vr_source u) = id_key (vr_id v) []"
  using unrowed_complete [OF assms, of ks] by auto

lemma unrowed_not_rowed: "v \<in> set (unrowed_from ks vs) \<Longrightarrow> \<not> has_row ks v"
  by (induction ks vs rule: unrowed_from.induct) (auto simp: has_row_def split: if_splits)

lemma unrowed_sub: "set (unrowed_from ks vs) \<subseteq> set vs"
  by (induction ks vs rule: unrowed_from.induct) auto

lemma made_rows_key:
  assumes "u \<in> set vs"
  shows "\<exists>f\<in>set (rows_from env sbom limits t vs). merge_key f = id_key (vr_id u) (vr_source u)"
proof -
  have "(vr_id u, vr_source u) \<in> finding_id ` set (rows_from env sbom limits t vs)"
    using assms rows_from_keys [of env sbom limits t vs] unfolding set_map [symmetric] by (force simp: ref_key_def)
  then show ?thesis by (auto simp: finding_id_def merge_key_def)
qed

lemma inherited_or_fresh:
  assumes "b \<in> set (rp_advisories baseline)"
  shows "(\<exists>f\<in>set (inherited_rows q baseline fresh). af_advisory f = af_advisory b) \<or>
    (\<exists>f\<in>set fresh. merge_key f = merge_key b) \<or>
    (migrated b \<and> (\<exists>f\<in>set fresh. ad_id (af_advisory f) = ad_id (af_advisory b)))"
proof -
  let ?ks = "map merge_key fresh" and ?ids = "map (\<lambda>f. ad_id (af_advisory f)) fresh"
  consider "merge_key b \<in> set ?ks" | "supersededByFresh b ?ids" | "\<not> (merge_key b \<in> set ?ks \<or> supersededByFresh b ?ids)"
    by blast
  then show ?thesis
  proof cases
    case 1
    then show ?thesis by (metis (no_types, lifting) imageE set_map)
  next
    case 2
    with superseded_fields show ?thesis by fastforce
  next
    case 3
    then show ?thesis using assms unfolding inherited_rows_def findingKeys_def fst_conv snd_conv by force
  qed
qed

lemma inherit_rows_answer:
  assumes nul: "\<forall>v\<in>set (pq_advisories q). CHR 0x00 \<notin> set (vr_source v)"
    and fresh: "fresh = rows_from env sbom limits 0 (unrowedAdvisories baseline (pq_advisories q))"
    and v: "v \<in> set (pq_advisories q)"
  shows "answered (inherited_rows q baseline fresh @ fresh) v"
proof -
  let ?k = "id_key (vr_id v) (vr_source v)" and ?ku = "id_key (vr_id v) []"
  have made: "answered (inherited_rows q baseline fresh @ fresh) v"
    if "f \<in> set (inherited_rows q baseline fresh) \<or> f \<in> set fresh" "answers f v" for f
    using that by (auto simp only: answered_def list_ex_iff set_append)
  show ?thesis
    using v
  proof (cases rule: unrowed_cases [where ks = "usable_keys baseline", case_names row fresh])
    case (fresh u)
    note u = fresh [folded unrowedAdvisories_def]
    from made_rows_key [OF u(1), of env sbom limits 0] obtain f
      where f: "f \<in> set fresh" "merge_key f = id_key (vr_id u) (vr_source u)" unfolding assms(2) by blast
    then have "answers f v" using u(2) by (auto simp: answers_def)
    then show ?thesis using made f(1) by blast
  next
    case row
    from has_row_stored [OF row] obtain b where b: "b \<in> set (rp_advisories baseline)" "merge_key b = ?k \<or> merge_key b = ?ku"
        "merge_key b \<in> set (usable_keys baseline)"
      by blast
    from inherited_or_fresh [OF b(1), of q fresh] show ?thesis
    proof (elim disjE bexE conjE)
      fix f assume f: "f \<in> set (inherited_rows q baseline fresh)" "af_advisory f = af_advisory b"
      then have "merge_key f = merge_key b" by (simp add: merge_key_def)
      then have "answers f v" using b(2) unfolding answers_def by (elim disjE) simp_all
      then show ?thesis using made f(1) by blast
    next
      fix f assume f: "f \<in> set fresh" "merge_key f = merge_key b"
      then have "answers f v" using b(2) unfolding answers_def by (elim disjE) simp_all
      then show ?thesis using made f(1) by blast
    next
      fix f assume f: "migrated b" "f \<in> set fresh" "ad_id (af_advisory f) = ad_id (af_advisory b)"
      from f(2) obtain u where u: "u \<in> set (unrowed_from (usable_keys baseline) (pq_advisories q))"
        "ad_id (af_advisory f) = vr_id u"
        using rows_from_keys [of env sbom limits 0 "unrowedAdvisories baseline (pq_advisories q)"]
          imageI [of f "set fresh" finding_id]
        unfolding assms(2) set_map [symmetric] unrowedAdvisories_def by (auto simp: finding_id_def ref_key_def)
      have "merge_key b = id_key (vr_id u) []" using f(1,3) u(2) by (simp add: merge_key_def migrated_def)
      then have "has_row (usable_keys baseline) u" using b(3) by (simp add: has_row_def)
      then show ?thesis using unrowed_not_rowed [OF u(1)] by simp
    qed
  qed
qed

lemma inherit_rows_carry:
  assumes "b \<in> set (rp_advisories baseline)"
  shows "row_carried (inherited_rows q baseline fresh @ fresh) b"
  using inherited_or_fresh [OF assms, of q fresh]
proof (elim disjE bexE conjE)
  fix f assume f: "f \<in> set (inherited_rows q baseline fresh)" "af_advisory f = af_advisory b"
  from f(2) have "merge_key f = merge_key b" by (simp add: merge_key_def)
  with f(1) show ?thesis by (auto simp only: row_carried_def list_ex_iff set_append)
qed (auto simp: row_carried_def list_ex_iff)

text \<open>A row of the report with a fresh key is a fresh row, so the fast path's check passes.\<close>

lemma inherited_rows_key:
  "f \<in> set (inherited_rows q baseline fresh) \<Longrightarrow> merge_key f \<notin> set (fst (findingKeys fresh))"
  by (auto simp: inherited_rows_def merge_key_def findingKeys_def)

lemma validate_fresh:
  assumes sig: "signals_loaded tparse sig" and valid: "\<forall>f\<in>set fresh. finding_error f = None"
    and rows: "bd_advisories b = inh @ fresh" and inh: "\<forall>f\<in>set inh. merge_key f \<notin> set ks"
  shows "validateRows (Build now (rankWith sig ws facts b)) ks = None"
proof -
  have "finding_error f = None"
    if "f \<in> set (prioritized (rankWith sig ws facts b))" "merge_key f \<in> set ks" for f
  proof -
    from that(1) obtain g where g: "g \<in> set (bd_advisories b)"
      "f = g\<lparr>af_priority := priorityFor (af_advisory g) sig (rank_claims sig ws facts b)\<rparr>"
      unfolding prioritized_rank by auto
    then have "g \<in> set fresh" using that(2) inh rows by (auto simp: merge_key_def)
    then show ?thesis using prioritized_row_valid [OF sig] valid g(2) by simp
  qed
  then show ?thesis
    by (auto simp: validateRows_def Report_Validate_None Build_def Let_def edges_closed_def schema_defs empty_sbom_def)
qed

section \<open>A pull-request run\<close>

lemma prioritized_plain:
  "f \<in> set (prioritized (rankWith sig ws facts b)) \<Longrightarrow>
    \<exists>g\<in>set (bd_advisories b). f\<lparr>af_priority := None\<rparr> = g\<lparr>af_priority := None\<rparr> \<and> af_advisory f = af_advisory g"
  unfolding prioritized_rank by auto

text \<open>The fast path's report, as Build leaves it.\<close>

lemma inherit_built_rows:
  "set (rp_advisories (Build now (inherit_builder env baseline q state fresh ns cause))) =
    set (prioritized (inherit_builder env baseline q state fresh ns cause))"
  by (simp add: Build_def Let_def)

lemma inherit_succeeds:
  assumes sig: "signals_loaded tparse (pq_signals q)" and valid: "\<forall>f\<in>set fresh. finding_error f = None"
  shows "inheritBaseline env baseline q state fresh ns cause =
    Inr (Build (en_now env) (inherit_builder env baseline q state fresh ns cause))"
proof -
  have "validateRows (Build (en_now env) (inherit_builder env baseline q state fresh ns cause)) (fst (findingKeys fresh)) = None"
    unfolding inherit_builder_def Let_def
    by (rule validate_fresh [OF sig valid, where inh = "inherited_rows q baseline fresh"])
      (use inherited_rows_key in \<open>simp_all add: WithBaseline_def\<close>)
  then show ?thesis by (simp add: inheritBaseline_def Let_def)
qed

lemma RunPRInherit_fast:
  assumes "rd w = (w1, Winner state)" "ss_report state = Some baseline" "changedPackages (rp_sbom baseline) (pq_sbom q) = []"
    and "assessUnrowed env q (unrowedAdvisories baseline (pq_advisories q)) = (fresh, ns, cause)"
  shows "RunPRInherit rd env q w =
    (case inheritBaseline env baseline q state fresh ns cause of
       Inl e \<Rightarrow> (w1, Inl e)
     | Inr rep \<Rightarrow>
         (let cutKeys = map merge_key (filter (\<lambda>f. af_undeterminedReason f = ReasonScanCutShort) fresh);
              (as, cs) = assessed_lists cutKeys (unrowedAdvisories baseline (pq_advisories q))
          in (w1, Inr \<lparr>pi_report = rep, pi_inherited = True, pi_changed = [], pi_assessed = as, pi_cutShort = cs\<rparr>)))"
  by (simp add: RunPRInherit_def assms)

lemma RunPRInherit_slow:
  assumes "rd w = (w1, Winner state)" "ss_report state = Some baseline" "changedPackages (rp_sbom baseline) (pq_sbom q) \<noteq> []"
  shows "RunPRInherit rd env q w =
    (case reanalyzeSlice env baseline q state (changedPackages (rp_sbom baseline) (pq_sbom q)) of
       Inl e \<Rightarrow> (w1, Inl e)
     | Inr rep \<Rightarrow> (w1, Inr \<lparr>pi_report = rep, pi_inherited = False,
         pi_changed = changedPackages (rp_sbom baseline) (pq_sbom q), pi_assessed = [], pi_cutShort = []\<rparr>))"
  using assms by (simp add: RunPRInherit_def Let_def)

text \<open>C37: A pull request whose dependency set is the baseline's inherits it. The run does not fail,
  whatever the assessments do and even over a stored row that would not validate; it writes
  nothing; and every row of its report is a stored row (with its verdict, unless an inventory limit of
  this run withholds it, and with a fresh priority) or the row of an advisory that the baseline
  has no usable row for: no other advisory is assessed again.\<close>
theorem pr_inherits_unchanged:
  assumes store: "rd w = (w1, Winner state)" "ss_report state = Some baseline"
    and same: "changedPackages (rp_sbom baseline) (pq_sbom q) = []"
    and sig: "signals_loaded tparse (pq_signals q)"
  shows "\<exists>res. RunPRInherit rd env q w = (w1, Inr res) \<and> pi_inherited res \<and>
    (\<forall>f\<in>set (rp_advisories (pi_report res)).
      (\<exists>b\<in>set (rp_advisories baseline). f\<lparr>af_priority := None\<rparr> =
         (withInventoryLimits b (inheritedLimits (pq_diffLimits q) (Some baseline)) [])\<lparr>af_priority := None\<rparr>) \<or>
      (\<exists>v\<in>set (pq_advisories q). \<not> has_row (usable_keys baseline) v \<and> finding_id f = ref_key v))"
proof -
  let ?un = "unrowedAdvisories baseline (pq_advisories q)"
  obtain fresh ns cause where a: "assessUnrowed env q ?un = (fresh, ns, cause)" by (rule prod_cases3)
  note fresh = assessUnrowed_rows [OF a]
  let ?b = "inherit_builder env baseline q state fresh ns cause"
  have valid: "\<forall>f\<in>set fresh. finding_error f = None" unfolding fresh using rows_from_valid by blast
  obtain as cs where run: "RunPRInherit rd env q w = (w1, Inr \<lparr>pi_report = Build (en_now env) ?b, pi_inherited = True,
      pi_changed = [], pi_assessed = as, pi_cutShort = cs\<rparr>)"
    unfolding RunPRInherit_fast [where rd = rd and w = w, OF store same a] inherit_succeeds [OF sig valid]
    by (cases "assessed_lists (map merge_key (filter (\<lambda>f. af_undeterminedReason f = ReasonScanCutShort) fresh)) ?un") simp
  have "(\<exists>b\<in>set (rp_advisories baseline). f\<lparr>af_priority := None\<rparr> =
         (withInventoryLimits b (inheritedLimits (pq_diffLimits q) (Some baseline)) [])\<lparr>af_priority := None\<rparr>) \<or>
      (\<exists>v\<in>set (pq_advisories q). \<not> has_row (usable_keys baseline) v \<and> finding_id f = ref_key v)"
    if f: "f \<in> set (prioritized ?b)" for f
  proof -
    from f obtain g where g: "g \<in> set (inherited_rows q baseline fresh @ fresh)"
      "f\<lparr>af_priority := None\<rparr> = g\<lparr>af_priority := None\<rparr>" "af_advisory f = af_advisory g"
      using prioritized_plain [of f] inherit_builder_rows [of env baseline q state fresh ns cause]
      by (metis (no_types, lifting) inherit_builder_def rankWith_fields(3))
    from g(1) consider "g \<in> set (inherited_rows q baseline fresh)" | "g \<in> set fresh" by auto
    then show ?thesis
    proof cases
      case 1
      then show ?thesis using g(2) by (auto simp: inherited_rows_def)
    next
      case 2
      then have "finding_id g \<in> ref_key ` set ?un"
        using imageI [of g "set fresh" finding_id] rows_from_keys [of env "pq_sbom q" "pq_diffLimits q" 0 ?un]
        unfolding fresh set_map [symmetric] by simp
      then obtain v where v: "v \<in> set ?un" "finding_id f = ref_key v" using g(3) by (auto simp: finding_id_def)
      then show ?thesis using unrowed_sub unrowed_not_rowed unfolding unrowedAdvisories_def by blast
    qed
  qed
  then show ?thesis using run inherit_built_rows by auto
qed

text \<open>C8: a pull-request run answers for its whole work set and drops no stored advisory. When it
  succeeds, on either path, it has only read the store, and it inherits exactly when no dependency
  changed. Every advisory of the work set, two sources of one id being two advisories, has a row of its id and
  source, or a migrated row of its id that names no source. There is one exception, on the path that
  analyses again: an advisory whose stored row was migrated is left without a row when that row is dropped for the
  fresh row of its id under another source of the work set. And every row of the baseline has a row
  of its id and source, or, if it is a migrated row, one of its id. (Sources hold no zero byte, which
  separates id and source in a key.)\<close>
theorem pr_covers_work_set:
  assumes run: "RunPRInherit rd env q w = (w', Inr res)"
    and store: "rd w = (w1, Winner state)" "ss_report state = Some baseline"
    and nul: "\<forall>v\<in>set (pq_advisories q). CHR 0x00 \<notin> set (vr_source v)"
  shows "w' = w1 \<and> pi_changed res = changedPackages (rp_sbom baseline) (pq_sbom q) \<and>
    (pi_inherited res \<longleftrightarrow> pi_changed res = []) \<and>
    (\<forall>v\<in>set (pq_advisories q). answered (rp_advisories (pi_report res)) v \<or>
      \<not> pi_inherited res \<and> gave_way (rp_advisories baseline) (pq_advisories q) (rp_advisories (pi_report res)) v) \<and>
    (\<forall>b\<in>set (rp_advisories baseline). row_carried (rp_advisories (pi_report res)) b)"
proof (cases "changedPackages (rp_sbom baseline) (pq_sbom q) = []")
  case True
  let ?un = "unrowedAdvisories baseline (pq_advisories q)"
  obtain fresh ns cause where a: "assessUnrowed env q ?un = (fresh, ns, cause)" by (rule prod_cases3)
  note fresh = assessUnrowed_rows [OF a]
  have rows: "af_advisory ` set (rp_advisories (Build (en_now env) (inherit_builder env baseline q state fresh ns cause))) =
      af_advisory ` set (inherited_rows q baseline fresh @ fresh)"
    unfolding built_advisories inherit_builder_rows ..
  have "w' = w1 \<and> pi_changed res = [] \<and> pi_inherited res \<and>
      pi_report res = Build (en_now env) (inherit_builder env baseline q state fresh ns cause)"
    using run unfolding RunPRInherit_fast [where rd = rd and w = w, OF store True a]
    by (auto simp: inheritBaseline_def Let_def split: option.splits prod.splits)
  then show ?thesis
    using True inherit_rows_answer [OF nul fresh] inherit_rows_carry answered_advisories [OF rows] by simp
next
  case False
  let ?ch = "changedPackages (rp_sbom baseline) (pq_sbom q)"
  let ?b = "slice_builder env baseline q state (slice_of env baseline q ?ch)"
  have rows: "af_advisory ` set (rp_advisories (Build (en_now env) ?b)) =
      af_advisory ` set (slice_rows baseline q (slice_of env baseline q ?ch))"
    unfolding built_advisories slice_builder_rows ..
  have "w' = w1 \<and> pi_changed res = ?ch \<and> \<not> pi_inherited res \<and> pi_report res = Build (en_now env) ?b"
    using run unfolding RunPRInherit_slow [where rd = rd and w = w, OF store False] reanalyzeSlice_def
    by (auto simp: BuildValidated_def Let_def split: option.splits sum.splits if_splits)
  then show ?thesis using False slice_rows_answer [OF nul] answered_advisories [OF rows] by simp
qed


text \<open>A stored report of two rows, and a pull request with three advisories: one stored, and two sources of one
  id, which are not.\<close>

definition stored_state :: State where
  "stored_state = (sample_state [''x''])\<lparr>ss_report := Some (Build 5 (AddFinding (cutShortFinding (sample_ref ''CVE-1''))
     (AddFinding (assessFailureFinding (sample_ref ''CVE-2'') \<lparr>er_stage = None, er_text = ''clone''\<rparr>)
       (NewBuilder sample_subject))))\<rparr>"

definition sample_pr :: PRInheritRequest where
  "sample_pr = \<lparr>pq_subject = sample_subject, pq_sbom = empty_sbom, pq_advisories = [sample_ref ''CVE-1'', sample_ref ''CVE-3'', \<lparr>vr_id = ''CVE-3'', vr_source = ''ghsa''\<rparr>],
     pq_workSetLimits = [], pq_diffLimits = [], pq_analyzer = [], pq_cursor = [], pq_signals = None\<rparr>"

definition stored_report :: Report where
  "stored_report = the (ss_report stored_state)"

lemma stored: "ss_report stored_state = Some stored_report"
  by (simp add: stored_report_def stored_state_def)

lemma stored_same: "changedPackages (rp_sbom stored_report) (pq_sbom sample_pr) = []"
  by (simp add: stored_report_def stored_state_def sample_pr_def Build_def Let_def sortedUniqueRelationships_def
      AddFinding_def NewBuilder_def empty_sbom_def) code_simp

theorem pr_inherits_unchanged_witness:
  "\<exists>res. RunPRInherit (\<lambda>w. (w, Winner stored_state)) sample_env sample_pr () = ((), Inr res) \<and> pi_inherited res"
proof -
  have s: "signals_loaded tparse (pq_signals sample_pr)" for tparse by (simp add: signals_loaded_def sample_pr_def)
  from pr_inherits_unchanged [where rd = "\<lambda>w. (w, Winner stored_state)" and w = "()", OF refl stored stored_same s] show ?thesis by blast
qed

theorem pr_covers_work_set_witness:
  "\<exists>res. RunPRInherit (\<lambda>w. (w, Winner stored_state)) sample_env sample_pr () = ((), Inr res) \<and>
     answered (rp_advisories (pi_report res)) (sample_ref ''CVE-3'') \<and>
     answered (rp_advisories (pi_report res)) \<lparr>vr_id = ''CVE-3'', vr_source = ''ghsa''\<rparr>"
proof -
  have s: "signals_loaded (\<lambda>_ _. None) (pq_signals sample_pr)" by (simp add: signals_loaded_def sample_pr_def)
  let ?un = "unrowedAdvisories stored_report (pq_advisories sample_pr)"
  obtain fresh ns cause where a: "assessUnrowed sample_env sample_pr ?un = (fresh, ns, cause)" by (rule prod_cases3)
  have valid: "\<forall>f\<in>set fresh. finding_error f = None" unfolding assessUnrowed_rows [OF a] using rows_from_valid by blast
  obtain res where r: "RunPRInherit (\<lambda>w. (w, Winner stored_state)) sample_env sample_pr () = ((), Inr res)"
    unfolding RunPRInherit_fast [where rd = "\<lambda>w. (w, Winner stored_state)" and w = "()", OF refl stored stored_same a]
      inherit_succeeds [OF s valid]
    by (cases "assessed_lists (map merge_key (filter (\<lambda>f. af_undeterminedReason f = ReasonScanCutShort) fresh)) ?un") simp
  have n: "\<forall>v\<in>set (pq_advisories sample_pr). CHR 0x00 \<notin> set (vr_source v)" by code_simp
  have m: "sample_ref ''CVE-3'' \<in> set (pq_advisories sample_pr)"
    "\<lparr>vr_id = ''CVE-3'', vr_source = ''ghsa''\<rparr> \<in> set (pq_advisories sample_pr)" by (simp_all add: sample_pr_def)
  note c = pr_covers_work_set [where rd = "\<lambda>w. (w, Winner stored_state)" and w = "()", OF r refl stored n]
  have "pi_inherited res" using c stored_same by presburger
  then have "answered (rp_advisories (pi_report res)) (sample_ref ''CVE-3'')"
    "answered (rp_advisories (pi_report res)) \<lparr>vr_id = ''CVE-3'', vr_source = ''ghsa''\<rparr>" using c m by blast+
  then show ?thesis using r by blast
qed

section \<open>The exception\<close>

text \<open>Two sources of one id, a migrated row for it, and a changed dependency. The assessment under the first
  source finds nothing changed and leaves the migrated row to answer; that under the second
  fails and leaves a fresh row, for which the migrated row is dropped. The first source has no row.\<close>

definition split_ref :: "gostring \<Rightarrow> VulnRef" where
  "split_ref src = \<lparr>vr_id = ''CVE-1'', vr_source = src\<rparr>"

definition split_env :: run_env where
  "split_env = sample_env\<lparr>en_stop := None, en_assess := (\<lambda>t v. if vr_source v = ''osv'' then Inr sample_ne_run
     else Inl \<lparr>er_stage = None, er_text = ''clone''\<rparr>)\<rparr>"

definition split_report :: Report where
  "split_report = Build 5 (AddFinding (assessFailureFinding (split_ref []) \<lparr>er_stage = None, er_text = ''clone''\<rparr>)
     (NewBuilder sample_subject))"

definition split_pr :: PRInheritRequest where
  "split_pr = sample_pr\<lparr>pq_advisories := [split_ref ''osv'', split_ref ''ghsa'']\<rparr>"

lemma split_source_rowless:
  "let rows = slice_rows split_report split_pr (slice_of split_env split_report split_pr []) in
     \<not> answered rows (split_ref ''osv'') \<and> answered rows (split_ref ''ghsa'') \<and>
     gave_way (rp_advisories split_report) (pq_advisories split_pr) rows (split_ref ''osv'')"
  by code_simp

end
