(* ===== verification/Projection.thy ===== *)
theory Projection
  imports Report_Build "HOL-Library.Sublist"
begin

text \<open>
  The projections of a verdict to other formats: src/projection. A report goes to OpenVEX
  (report_vex.go) and SARIF (report_sarif.go), a PoE to SARIF (sarif.go), SSVC (ssvc.go) and the redacted
  view (redacted_poe.go). A document is the record the code marshals; the JSON encoding is not
  modelled. A \<open>map[string]any\<close> of properties is an association list in the order of the code's
  assignments. A timestamp is nanoseconds since Go's zero time, as in Report_Model. The lemmas say
  that no projection claims more than the verdict it projects, and that none is silent where the
  report discloses something.
\<close>

section \<open>Text\<close>

definition brand_Name :: gostring where "brand_Name = ''ferralon-assay''"
definition brand_RepoURL :: gostring where "brand_RepoURL = ''https://github.com/ferralon-ai/ferralon-assay''"

definition em_dash :: gostring where "em_dash = [CHR 0xE2, CHR 0x80, CHR 0x94]"

text \<open>Time.Format in UTC with whole seconds, on the proleptic Gregorian calendar.\<close>

definition pad0 :: "nat \<Rightarrow> int \<Rightarrow> gostring" where
  "pad0 w n = (let s = show_nat (nat n) in replicate (w - length s) CHR ''0'' @ s)"

definition is_leap :: "int \<Rightarrow> bool" where
  "is_leap y = (y mod 4 = 0 \<and> (y mod 100 \<noteq> 0 \<or> y mod 400 = 0))"

definition month_days :: "int \<Rightarrow> int list" where
  "month_days y = [31, if is_leap y then 29 else 28, 31, 30, 31, 30, 31, 31, 30, 31, 30, 31]"

fun month_day :: "int list \<Rightarrow> int \<Rightarrow> int \<Rightarrow> int \<times> int" where
  "month_day [] m d = (m, d + 1)"
| "month_day [n] m d = (m, d + 1)"
| "month_day (n # ns) m d = (if d < n then (m, d + 1) else month_day ns (m + 1) (d - n))"

definition year_day :: "int \<Rightarrow> int \<times> int" where
  "year_day days =
    (let n400 = days div 146097; r400 = days mod 146097;
         n100 = min 3 (r400 div 36524); r100 = r400 - 36524 * n100;
         n4 = r100 div 1461; r4 = r100 mod 1461;
         n1 = min 3 (r4 div 365)
     in (400 * n400 + 100 * n100 + 4 * n4 + n1 + 1, r4 - 365 * n1))"

definition format_utc :: "int \<Rightarrow> gostring" where
  "format_utc ns =
    (let secs = ns div 1000000000; days = secs div 86400; s = secs mod 86400;
         (y, yd) = year_day days; (m, d) = month_day (month_days y) 1 yd
     in pad0 4 y @ ''-'' @ pad0 2 m @ ''-'' @ pad0 2 d @ ''T'' @ pad0 2 (s div 3600) @ '':'' @
        pad0 2 (s div 60 mod 60) @ '':'' @ pad0 2 (s mod 60) @ ''Z'')"

section \<open>OpenVEX\<close>

definition OpenVEXSchemaVersion :: gostring where "OpenVEXSchemaVersion = ''https://openvex.dev/ns/v0.2.0''"
definition VEXStatusAffected :: gostring where "VEXStatusAffected = ''affected''"
definition VEXStatusNotAffected :: gostring where "VEXStatusNotAffected = ''not_affected''"
definition VEXStatusUnderInvestigation :: gostring where "VEXStatusUnderInvestigation = ''under_investigation''"
definition VEXJustNotPresent :: gostring where "VEXJustNotPresent = ''vulnerable_code_not_present''"
definition VEXJustNotInExecutePath :: gostring where
  "VEXJustNotInExecutePath = ''vulnerable_code_not_in_execute_path''"

lemmas vex_defs = VEXStatusAffected_def VEXStatusNotAffected_def VEXStatusUnderInvestigation_def
  VEXJustNotPresent_def VEXJustNotInExecutePath_def

record VEXVulnerability =
  vv_id :: gostring
  vv_aliases :: "gostring list"

record VEXProduct =
  vp_id :: gostring

record VEXStatement =
  vs_vulnerability :: VEXVulnerability
  vs_products :: "VEXProduct list"
  vs_status :: gostring
  vs_justification :: gostring
  vs_impactStatement :: gostring
  vs_actionStatement :: gostring
  vs_statusNotes :: gostring

record VEXDocument =
  vd_context :: gostring
  vd_id :: gostring
  vd_author :: gostring
  vd_timestamp :: gostring
  vd_version :: int
  vd_statements :: "VEXStatement list"

definition notAffectedJustification :: "gostring \<Rightarrow> gostring" where
  "notAffectedJustification basis =
    (if basis = BasisSymbolAbsent \<or> basis = BasisVersionNotAffected then VEXJustNotPresent
     else if basis = BasisSymbolUnreachable then VEXJustNotInExecutePath
     else [])"

definition basisGrounds :: "gostring \<Rightarrow> gostring" where
  "basisGrounds basis =
    (if basis = BasisVersionNotAffected then ''the resolved version is outside the advisory's affected range''
     else if basis = BasisSymbolAbsent then ''the vulnerable code is absent from the build''
     else if basis = BasisSymbolUnreachable
       then ''the vulnerable code is in the build, and no path from an entry point reaches it''
     else [])"

definition unjustifiedImpact :: "gostring \<Rightarrow> gostring" where
  "unjustifiedImpact detail =
    (let msg = brand_Name @ '' recorded no basis that maps to an OpenVEX justification for this status.'';
         d = trim_suffix (trim_space detail) ''.''
     in if d \<noteq> [] then msg @ '' Recorded grounds: '' @ d @ ''.'' else msg)"

definition assumptionsStatement :: "gostring list \<Rightarrow> gostring" where
  "assumptionsStatement as =
    (case as of
       [] \<Rightarrow> []
     | [a] \<Rightarrow> ''Holds only under the stated assumption: '' @ a @ ''.''
     | _ \<Rightarrow> ''Holds only under the stated assumptions: '' @ go_join as ''; '' @ ''.'')"

definition annotationsStatement :: "Annotation list \<Rightarrow> gostring" where
  "annotationsStatement as = go_join (map (\<lambda>a. ''This analysis assumes: '' @ an_detail a @ ''.'') as) '' ''"

text \<open>Status, justification, impact statement, action statement.\<close>

definition reportVEXStatus :: "AdvisoryFinding \<Rightarrow> gostring \<times> gostring \<times> gostring \<times> gostring" where
  "reportVEXStatus f =
    (let v = af_verdict f; e = af_evidence f in
     if v = VerdictMaliciousPresent then
       (let msg = brand_Name @ '' resolved a known-malicious package to a version the advisory lists as affected.'';
            msg1 = (if ev_detail e \<noteq> [] then msg @ '' '' @ ev_detail e @ ''.'' else msg)
        in (VEXStatusAffected, [], [], msg1 @ '' Remove or replace this dependency.''))
     else if v = VerdictDisqualified then
       (let just = notAffectedJustification (ev_basis e)
        in if just = [] then (VEXStatusNotAffected, [], unjustifiedImpact (ev_detail e), [])
           else (VEXStatusNotAffected, just, [], []))
     else if v = VerdictNotExploitable then
       (let impact = assumptionsStatement (ev_assumptions e);
            just = notAffectedJustification (ev_basis e)
        in (VEXStatusNotAffected, just,
            if just = [] then trim_space (unjustifiedImpact (ev_detail e) @ '' '' @ impact) else impact, []))
     else if v = VerdictReachableCandidate then
       (let msg = brand_Name @ '' found a reachable code path to the advisory symbol. '' @
              ''This is a candidate for exploitability, not a proof: proving it requires observing the path execute.''
        in (VEXStatusUnderInvestigation, [],
            if ev_reachablePath e \<noteq> [] then msg @ '' Candidate path: '' @ ev_reachablePath e @ ''.'' else msg, []))
     else (VEXStatusUnderInvestigation, [], [], []))"

definition reportProductID :: "Package option \<Rightarrow> Subject \<Rightarrow> gostring" where
  "reportProductID pkg subj =
    (let fallback =
       (if sj_repo subj \<noteq> [] then
          if sj_resolvedCommit subj \<noteq> [] then sj_repo subj @ ''@'' @ sj_resolvedCommit subj else sj_repo subj
        else brand_Name @ ''://subject/unknown'')
     in case pkg of
          None \<Rightarrow> fallback
        | Some p \<Rightarrow>
            if pkg_purl p \<noteq> [] then pkg_purl p
            else if pkg_name p \<noteq> [] then
              if pkg_version p \<noteq> [] \<and> \<not> PinUnresolved p then pkg_name p @ ''@'' @ pkg_version p else pkg_name p
            else fallback)"

definition reportDocSlug :: "Report \<Rightarrow> gostring" where
  "reportDocSlug r =
    (if sj_resolvedCommit (rp_subject r) \<noteq> [] then sj_resolvedCommit (rp_subject r)
     else if pv_commitSHA (rp_provenance r) \<noteq> [] then pv_commitSHA (rp_provenance r)
     else ''report'')"

definition vex_statement :: "Subject \<Rightarrow> AdvisoryFinding \<Rightarrow> VEXStatement" where
  "vex_statement subj f =
    (case reportVEXStatus f of (status, just, impact, action) \<Rightarrow>
       \<lparr>vs_vulnerability = \<lparr>vv_id = ad_id (af_advisory f), vv_aliases = ad_aliases (af_advisory f)\<rparr>,
        vs_products = [\<lparr>vp_id = reportProductID (af_package f) subj\<rparr>],
        vs_status = status, vs_justification = just, vs_impactStatement = impact, vs_actionStatement = action,
        vs_statusNotes = annotationsStatement (af_annotations f)\<rparr>)"

text \<open>None is the error of a report without a schema version.\<close>

definition ProjectReportVEX :: "Report \<Rightarrow> VEXDocument option" where
  "ProjectReportVEX r =
    (if rp_schemaVersion r = [] then None
     else Some
       \<lparr>vd_context = OpenVEXSchemaVersion,
        vd_id = ''https://openvex.dev/docs/'' @ brand_Name @ ''/'' @ reportDocSlug r,
        vd_author = brand_Name, vd_timestamp = format_utc (pv_timestamp (rp_provenance r)), vd_version = 1,
        vd_statements = map (vex_statement (rp_subject r)) (rp_advisories r)\<rparr>)"

section \<open>SARIF of a report\<close>

definition SARIFVersion :: gostring where "SARIFVersion = ''2.1.0''"
definition SARIFSchemaURI :: gostring where
  "SARIFSchemaURI = ''https://raw.githubusercontent.com/oasis-tcs/sarif-spec/master/Schemata/sarif-schema-2.1.0.json''"
definition sarifFallbackURI :: gostring where "sarifFallbackURI = ''.''"
definition PartialCoverageRuleID :: gostring where "PartialCoverageRuleID = brand_Name @ ''/partial-coverage''"
definition AnalysisLimitsRuleID :: gostring where "AnalysisLimitsRuleID = brand_Name @ ''/analysis-limits''"

datatype property =
    PString gostring
  | PBool bool
  | PNum rat
  | PStrings "gostring list"
  | PAnnotations "Annotation list"

record SARIFLocation =
  so_uri :: gostring
  so_startLine :: int

record SARIFResult =
  sr_ruleID :: gostring
  sr_level :: gostring
  sr_kind :: gostring
  sr_text :: gostring
  sr_locations :: "SARIFLocation list"
  sr_rank :: "rat option"
  sr_props :: "(gostring \<times> property) list"

record SARIFNotification =
  sn_level :: gostring
  sn_text :: gostring

record SARIFInvocation =
  si_executionSuccessful :: bool
  si_notifications :: "SARIFNotification list"

record SARIFDriver =
  sd_name :: gostring
  sd_version :: gostring
  sd_informationURI :: gostring
  sd_semanticVersion :: gostring

record SARIFRun =
  su_driver :: SARIFDriver
  su_invocations :: "SARIFInvocation list"
  su_results :: "SARIFResult list"

record SARIFLog =
  sl_schema :: gostring
  sl_version :: gostring
  sl_runs :: "SARIFRun list"

definition reportSARIFLevelKind :: "gostring \<Rightarrow> gostring \<times> gostring" where
  "reportSARIFLevelKind v =
    (if v = VerdictMaliciousPresent then (''error'', ''open'')
     else if v = VerdictReachableCandidate then (''warning'', ''open'')
     else if v = VerdictNotExploitable then (''note'', ''informational'')
     else if v = VerdictDisqualified then (''none'', ''notApplicable'')
     else if v = VerdictUndetermined then (''none'', ''review'')
     else (''warning'', ''open''))"

definition reportSARIFMessage :: "AdvisoryFinding \<Rightarrow> gostring" where
  "reportSARIFMessage f =
    (let v = af_verdict f; e = af_evidence f; i = ad_id (af_advisory f) in
     if v = VerdictMaliciousPresent then
       (if ev_detail e \<noteq> [] then
          i @ '': known-malicious package present. '' @ ev_detail e @ ''. Remove or replace this dependency.''
        else i @ '': a known-malicious package is present at a version this advisory lists as affected. Remove or replace this dependency.'')
     else if v = VerdictReachableCandidate then
       (if ev_reachablePath e \<noteq> [] then
          i @ '': '' @ brand_Name @ '' found a reachable candidate path ('' @ ev_reachablePath e @
          ''). This is a candidate for exploitability, not a proof: proving it requires observing the path execute.''
        else i @ '': '' @ brand_Name @ '' found a reachable candidate path. This is a candidate for '' @
          ''exploitability, not a proof: proving it requires observing the path execute.'')
     else if v = VerdictNotExploitable then
       (let g = basisGrounds (ev_basis e);
            msg = (if ev_detail e \<noteq> [] then i @ '': not exploitable. '' @ ev_detail e
                   else if g \<noteq> [] then i @ '': not exploitable: '' @ g @ ''.''
                   else i @ '': not exploitable (grounded refutation).'');
            a = assumptionsStatement (ev_assumptions e)
        in if a \<noteq> [] then msg @ '' '' @ a else msg)
     else if v = VerdictDisqualified then
       (if ev_detail e \<noteq> [] then i @ '': disqualified. '' @ ev_detail e
        else if basisGrounds (ev_basis e) \<noteq> [] then i @ '': disqualified: '' @ basisGrounds (ev_basis e) @ ''.''
        else i @ '': disqualified.'')
     else if v = VerdictUndetermined then
       i @ '': NOT ASSESSED. '' @ brand_Name @ '' established no verdict for this advisory '' @ em_dash @ '' '' @
       UndeterminedDetail (af_undeterminedReason f) @ ''. This is not a statement that the codebase is unaffected.''
     else i)"

definition location_at :: "gostring \<Rightarrow> SARIFLocation" where
  "location_at uri = \<lparr>so_uri = uri, so_startLine = 1\<rparr>"

definition reportSARIFLocations :: "AdvisoryFinding \<Rightarrow> SARIFLocation list" where
  "reportSARIFLocations f =
    (let eco = (case af_package f of None \<Rightarrow> [] | Some p \<Rightarrow> pkg_ecosystem p);
         uri = ManifestForEcosystem eco
     in [location_at (if uri = [] then sarifFallbackURI else uri)])"

text \<open>The properties of a row: those of its verdict and evidence, then those of its priority.\<close>

definition evidence_props :: "AdvisoryFinding \<Rightarrow> (gostring \<times> property) list" where
  "evidence_props f =
    (let e = af_evidence f in
     [(''verdict'', PString (af_verdict f))] @
     (if af_verdict f = VerdictUndetermined
      then [(''assessed'', PBool False), (''undetermined_reason'', PString (af_undeterminedReason f))] else []) @
     (if ev_basis e \<noteq> [] then [(''basis'', PString (ev_basis e))] else []) @
     (if ev_detail e \<noteq> [] then [(''detail'', PString (ev_detail e))] else []) @
     (if ev_reachablePath e \<noteq> [] then [(''reachable_path'', PString (ev_reachablePath e))] else []) @
     (if length (af_annotations f) > 0 then [(''annotations'', PAnnotations (af_annotations f))] else []) @
     (case af_package f of None \<Rightarrow> []
      | Some p \<Rightarrow> [(''package'', PString (pkg_ecosystem p @ '':'' @ Package_Label p))]) @
     (if ad_source (af_advisory f) \<noteq> [] then [(''source'', PString (ad_source (af_advisory f)))] else []) @
     (if ev_grade e \<noteq> [] then [(''reachability_grade'', PString (ev_grade e))] else []) @
     (case ev_entryPoint e of None \<Rightarrow> []
      | Some x \<Rightarrow> [(''entry_point'', PString (en_symbol x)),
                   (''attacker_controllable'', PBool (en_attackerControllable x))]))"

definition priority_props :: "Priority option \<Rightarrow> (gostring \<times> property) list" where
  "priority_props pr =
    (case pr of
       None \<Rightarrow> []
     | Some p \<Rightarrow>
         (if HasEPSS pr then
            [(''epss_score'', PNum (pr_epssScore p)), (''epss_as_of'', PString (pr_epssAsOf p))] @
            (if HasEPSSPercentile pr then [(''epss_percentile'', PNum (pr_epssPercentile p))] else [])
          else []) @
         (if HasKEV pr then
            [(''kev_listed'', PBool (pr_kevListed p)), (''kev_catalog_version'', PString (pr_kevCatalogVersion p)),
             (''kev_date_released'', PString (pr_kevDateReleased p))] @
            (if pr_kevDateAdded p \<noteq> [] then [(''kev_date_added'', PString (pr_kevDateAdded p))] else []) @
            (if pr_kevListed p then [(''tags'', PStrings [''CISA-KEV''])] else [])
          else []))"

definition epss_rank :: "Priority option \<Rightarrow> rat option" where
  "epss_rank pr =
    (case pr of None \<Rightarrow> None
     | Some p \<Rightarrow> if HasEPSSPercentile pr then Some (pr_epssPercentile p * 100) else None)"

definition sarif_row :: "AdvisoryFinding \<Rightarrow> SARIFResult" where
  "sarif_row f =
    (case reportSARIFLevelKind (af_verdict f) of (level, kind) \<Rightarrow>
       \<lparr>sr_ruleID = ad_id (af_advisory f), sr_level = level, sr_kind = kind,
        sr_text = trim_space (reportSARIFMessage f @ '' '' @ annotationsStatement (af_annotations f)),
        sr_locations = reportSARIFLocations f, sr_rank = epss_rank (af_priority f),
        sr_props = evidence_props f @ priority_props (af_priority f)\<rparr>)"

definition reportSARIFPartialityText :: "PartialityNote \<Rightarrow> gostring" where
  "reportSARIFPartialityText n =
    (let scope = (if pn_ecosystem n \<noteq> [] then pn_ecosystem n @ '' dependency'' else ''dependency'');
         suffix = (if pn_detail n \<noteq> [] then '' ('' @ pn_detail n @ '')'' else [])
     in if EffectiveClass n = PartialityInherentLimit then
          ''Analysis limit: '' @ pn_reason n @ suffix @ '' is an inherent limit of static analysis and holds for every '' @
          ''run of the '' @ scope @ '' analysis. It is reported for completeness '' @ em_dash @ '' no step of this run '' @
          ''was skipped and no result in this log depends on it.''
        else ''Partial coverage: part of the '' @ scope @ '' analysis could not be completed '' @ em_dash @ '' '' @
          pn_reason n @ suffix @ ''. The results in this run cover less than the whole codebase; advisories in the '' @
          ''unanalyzed part were not ruled out, they were not assessed.'')"

definition reportSARIFInvocation :: "Report \<Rightarrow> SARIFInvocation" where
  "reportSARIFInvocation r =
    \<lparr>si_executionSuccessful = True,
     si_notifications = map (\<lambda>n.
       \<lparr>sn_level = (if EffectiveClass n = PartialityInherentLimit then ''note'' else ''warning''),
        sn_text = reportSARIFPartialityText n\<rparr>) (rp_partiality r)\<rparr>"

definition partiality_result :: "PartialityNote \<Rightarrow> SARIFResult" where
  "partiality_result n =
    (let (ruleID, level, kind, c) =
       (if EffectiveClass n = PartialityInherentLimit
        then (AnalysisLimitsRuleID, ''note'', ''informational'', PartialityInherentLimit)
        else (PartialCoverageRuleID, ''warning'', ''review'', PartialityDidNotRun))
     in \<lparr>sr_ruleID = ruleID, sr_level = level, sr_kind = kind, sr_text = reportSARIFPartialityText n,
         sr_locations = [location_at sarifFallbackURI], sr_rank = None,
         sr_props =
           [(''partiality_reason'', PString (pn_reason n)), (''partiality_class'', PString c)] @
           (if pn_ecosystem n \<noteq> [] then [(''ecosystem'', PString (pn_ecosystem n))] else []) @
           (if pn_detail n \<noteq> [] then [(''detail'', PString (pn_detail n))] else []) @
           (if pn_package n \<noteq> [] then [(''package'', PString (pn_package n))] else []) @
           (if pn_path n \<noteq> [] then [(''path'', PString (pn_path n))] else []) @
           (if length (pn_advisories n) > 0 then [(''withheld_advisories'', PStrings (pn_advisories n))] else [])\<rparr>)"

definition reportSARIFPartialityResults :: "Report \<Rightarrow> SARIFResult list" where
  "reportSARIFPartialityResults r = map partiality_result (rp_partiality r)"

definition not_assessed_result :: "PartialityNote \<Rightarrow> gostring \<Rightarrow> SARIFResult" where
  "not_assessed_result n i =
    \<lparr>sr_ruleID = i, sr_level = ''none'', sr_kind = ''review'',
     sr_text = i @ '': NOT ASSESSED. '' @ brand_Name @ '' did not establish a verdict for this advisory ('' @ pn_reason n @
       ''), so none is reported. This is not a statement that the codebase is unaffected.'',
     sr_locations = [location_at sarifFallbackURI], sr_rank = None,
     sr_props = [(''assessed'', PBool False), (''partiality_reason'', PString (pn_reason n))] @
       (if pn_ecosystem n \<noteq> [] then [(''ecosystem'', PString (pn_ecosystem n))] else [])\<rparr>"

definition reportSARIFNotAssessed :: "PartialityNote list \<Rightarrow> gostring list \<Rightarrow> SARIFResult list" where
  "reportSARIFNotAssessed ns rowIDs =
    concat (map (\<lambda>n. map (not_assessed_result n) (filter (\<lambda>i. i \<notin> set rowIDs) (pn_advisories n))) ns)"

definition ProjectReportSARIF :: "Report \<Rightarrow> SARIFLog option" where
  "ProjectReportSARIF r =
    (if rp_schemaVersion r = [] then None
     else
       (let rowIDs = map (\<lambda>f. ad_id (af_advisory f)) (rp_advisories r);
            results = map sarif_row (rp_advisories r) @ reportSARIFPartialityResults r @
              reportSARIFNotAssessed (rp_partiality r) rowIDs;
            ver = pv_analyzerVersion (rp_provenance r)
        in Some
          \<lparr>sl_schema = SARIFSchemaURI, sl_version = SARIFVersion,
           sl_runs = [\<lparr>su_driver = \<lparr>sd_name = brand_Name, sd_version = ver, sd_informationURI = brand_RepoURL,
                         sd_semanticVersion = ver\<rparr>,
                       su_invocations = [reportSARIFInvocation r], su_results = results\<rparr>]\<rparr>))"

section \<open>What a projection claims\<close>

lemma basis_texts_ne: "BasisSymbolAbsent \<noteq> []" "BasisVersionNotAffected \<noteq> []" "BasisSymbolUnreachable \<noteq> []"
  "BasisSymbolUnreachable \<noteq> BasisSymbolAbsent" "BasisSymbolUnreachable \<noteq> BasisVersionNotAffected"
  by (simp_all add: BasisSymbolAbsent_def BasisVersionNotAffected_def BasisSymbolUnreachable_def)

lemma justification_cases:
  "notAffectedJustification b = [] \<longleftrightarrow> b \<noteq> BasisSymbolAbsent \<and> b \<noteq> BasisVersionNotAffected \<and> b \<noteq> BasisSymbolUnreachable"
  "notAffectedJustification b = VEXJustNotPresent \<longleftrightarrow> b = BasisSymbolAbsent \<or> b = BasisVersionNotAffected"
  "notAffectedJustification b = VEXJustNotInExecutePath \<longleftrightarrow> b = BasisSymbolUnreachable"
  using basis_texts_ne by (auto simp: notAffectedJustification_def vex_defs)

lemma unjustified_shape: "\<exists>s. unjustifiedImpact d = CHR ''f'' # s @ ''.''"
  by (cases "trim_suffix (trim_space d) ''.'' = []") (simp_all add: unjustifiedImpact_def brand_Name_def)

lemma plain_f: "plain_char CHR ''f''" and plain_dot: "plain_char CHR ''.''"
  by (simp_all add: plain_char_def ascii_space_def)

lemma trim_unjustified: "trim_space (unjustifiedImpact d @ t @ ''.'') = unjustifiedImpact d @ t @ ''.''"
proof -
  obtain s where s: "unjustifiedImpact d = CHR ''f'' # s @ ''.''" using unjustified_shape by blast
  show ?thesis unfolding s by (rule trim_space_plain) (simp_all add: plain_f plain_dot)
qed

lemma skip_back_blank: "skip_space_back (CHR '' '' # x) = Some x"
  by (cases x; cases "tl x") (simp_all add: ascii_space_def)

lemma trim_unjustified_space: "trim_space (unjustifiedImpact d @ '' '') = unjustifiedImpact d"
proof -
  obtain s where s: "unjustifiedImpact d = CHR ''f'' # s @ ''.''" using unjustified_shape by blast
  have "drop_spaces (unjustifiedImpact d @ '' '') = unjustifiedImpact d @ '' ''"
    unfolding s using skip_space_plain [OF plain_f] by (subst drop_spaces.simps) simp
  moreover have "drop_spaces_back (rev (unjustifiedImpact d @ '' '')) = rev (unjustifiedImpact d)"
    unfolding s using skip_space_back_plain [OF plain_dot]
    by (simp add: drop_spaces_back.simps [of "CHR '' '' # x" for x] skip_back_blank)
      (simp add: drop_spaces_back.simps [of "CHR ''.'' # x" for x])
  ultimately show ?thesis by (simp add: trim_space_def)
qed

lemma assumptions_shape:
  assumes "as \<noteq> []"
  shows "\<exists>p. assumptionsStatement as = p @ go_join as ''; '' @ ''.''"
proof (cases "tl as = []")
  case True
  then show ?thesis using assms
    by (cases as) (auto simp: assumptionsStatement_def intro: exI [of _ "''Holds only under the stated assumption: ''"])
next
  case False
  then obtain x y r where "as = x # y # r" using assms by (cases as; cases "tl as") auto
  then show ?thesis
    by (simp add: assumptionsStatement_def)
qed

lemma sublist_mid: "sublist a s \<Longrightarrow> sublist a (x @ s @ y)"
  unfolding sublist_def by (metis append.assoc)

lemma sublist_join: "a \<in> set as \<Longrightarrow> sublist a (go_join as sep)"
proof (induction as sep rule: go_join.induct)
  case (3 s t r sep)
  then show ?case
    using sublist_mid [of a s "[]" "sep @ go_join (t # r) sep"] sublist_mid [of a "go_join (t # r) sep" "s @ sep" "[]"]
    by auto
qed auto

text \<open>The impact statement of a refutation names every assumption it rests on.\<close>

lemma refutation_impact:
  assumes "af_verdict f = VerdictNotExploitable" and "a \<in> set (ev_assumptions (af_evidence f))"
  shows "sublist a (fst (snd (snd (reportVEXStatus f))))"
proof -
  let ?as = "ev_assumptions (af_evidence f)"
  let ?j = "go_join ?as ''; ''"
  have "?as \<noteq> []" using assms(2) by auto
  then obtain p where p: "assumptionsStatement ?as = p @ ?j @ ''.''" using assumptions_shape by blast
  have j: "sublist a ?j" by (rule sublist_join [OF assms(2)])
  have "trim_space (unjustifiedImpact d @ '' '' @ p @ ?j @ ''.'') = (unjustifiedImpact d @ '' '' @ p) @ ?j @ ''.''" for d
    using trim_unjustified [of d "'' '' @ p @ ?j"] by simp
  then have "sublist a (trim_space (unjustifiedImpact d @ '' '' @ p @ ?j @ ''.''))" for d
    using sublist_mid [OF j] by metis
  then show ?thesis using sublist_mid [OF j] assms(1) p
    by (simp add: reportVEXStatus_def Let_def verdict_distinct verdict_distinct [symmetric])
qed

text \<open>A statement is honest about the row it projects.\<close>

definition vex_honest :: "AdvisoryFinding \<Rightarrow> VEXStatement \<Rightarrow> bool" where
  "vex_honest f s = (
     vv_id (vs_vulnerability s) = ad_id (af_advisory f) \<and>
     (vs_status s = VEXStatusAffected \<longleftrightarrow> af_verdict f = VerdictMaliciousPresent) \<and>
     (vs_status s = VEXStatusNotAffected \<longleftrightarrow> af_verdict f = VerdictDisqualified \<or> af_verdict f = VerdictNotExploitable) \<and>
     (vs_status s = VEXStatusUnderInvestigation \<longleftrightarrow>
        af_verdict f = VerdictReachableCandidate \<or> af_verdict f = VerdictUndetermined) \<and>
     (vs_status s \<noteq> VEXStatusNotAffected \<longrightarrow> vs_justification s = []) \<and>
     (vs_status s = VEXStatusNotAffected \<longrightarrow> vs_justification s \<noteq> [] \<or> vs_impactStatement s \<noteq> []) \<and>
     (vs_justification s = VEXJustNotPresent \<longrightarrow>
        ev_basis (af_evidence f) = BasisSymbolAbsent \<or> ev_basis (af_evidence f) = BasisVersionNotAffected) \<and>
     (vs_justification s = VEXJustNotInExecutePath \<longrightarrow>
        af_verdict f = VerdictNotExploitable \<and> ev_basis (af_evidence f) = BasisSymbolUnreachable) \<and>
     (vs_justification s = [] \<or> vs_justification s = VEXJustNotPresent \<or> vs_justification s = VEXJustNotInExecutePath) \<and>
     (vs_status s = VEXStatusAffected \<longrightarrow> vs_actionStatement s \<noteq> []) \<and>
     list_all (\<lambda>a. sublist a (vs_impactStatement s)) (ev_assumptions (af_evidence f)))"

lemma status_distinct:
  "VEXStatusAffected \<noteq> VEXStatusNotAffected" "VEXStatusAffected \<noteq> VEXStatusUnderInvestigation"
  "VEXStatusNotAffected \<noteq> VEXStatusUnderInvestigation" "VEXJustNotPresent \<noteq> VEXJustNotInExecutePath"
  "VEXJustNotPresent \<noteq> []" "VEXJustNotInExecutePath \<noteq> []"
  by (simp_all add: vex_defs)

lemmas vex_distinct = status_distinct status_distinct [symmetric] verdict_distinct verdict_distinct [symmetric]

lemma impact_present:
  "notAffectedJustification (ev_basis (af_evidence f)) = [] \<Longrightarrow>
    af_verdict f = VerdictDisqualified \<or> af_verdict f = VerdictNotExploitable \<Longrightarrow>
    fst (snd (snd (reportVEXStatus f))) \<noteq> []"
proof -
  assume j: "notAffectedJustification (ev_basis (af_evidence f)) = []"
    and v: "af_verdict f = VerdictDisqualified \<or> af_verdict f = VerdictNotExploitable"
  have u: "unjustifiedImpact d \<noteq> []" for d using unjustified_shape [of d] by auto
  show ?thesis
  proof (cases "ev_assumptions (af_evidence f) = []")
    case True
    then show ?thesis using v j u
      by (auto simp: reportVEXStatus_def Let_def vex_distinct assumptionsStatement_def trim_unjustified_space)
  next
    case False
    then obtain p where p: "assumptionsStatement (ev_assumptions (af_evidence f)) =
        p @ go_join (ev_assumptions (af_evidence f)) ''; '' @ ''.''" using assumptions_shape by blast
    show ?thesis using v j u trim_unjustified [of "ev_detail (af_evidence f)" "'' '' @ p @ go_join (ev_assumptions (af_evidence f)) ''; ''"]
      by (auto simp: reportVEXStatus_def Let_def vex_distinct p)
  qed
qed

lemma vex_statement_honest:
  assumes "row_spec f"
  shows "vex_honest f (vex_statement subj f)"
proof -
  have as: "ev_assumptions (af_evidence f) = [] \<or> af_verdict f = VerdictNotExploitable"
    and unr: "ev_basis (af_evidence f) \<noteq> BasisSymbolUnreachable \<or> af_verdict f = VerdictNotExploitable"
    and v: "Verdict_Valid (af_verdict f)"
    using assms unfolding row_spec_def Let_def by blast+
  have impact: "list_all (\<lambda>a. sublist a (vs_impactStatement (vex_statement subj f))) (ev_assumptions (af_evidence f))"
    using as refutation_impact [of f] by (auto simp: vex_statement_def list_all_iff split: prod.split)
  have present: "vs_impactStatement (vex_statement subj f) \<noteq> []"
    if "notAffectedJustification (ev_basis (af_evidence f)) = []"
      "af_verdict f = VerdictDisqualified \<or> af_verdict f = VerdictNotExploitable"
    using impact_present [OF that] by (cases "reportVEXStatus f") (simp add: vex_statement_def)
  have id: "vv_id (vs_vulnerability (vex_statement subj f)) = ad_id (af_advisory f)"
    by (simp add: vex_statement_def split: prod.split)
  note fields = vex_statement_def reportVEXStatus_def Let_def vex_distinct
  from v consider (refuted) "af_verdict f = VerdictDisqualified \<or> af_verdict f = VerdictNotExploitable"
    | (candidate) "af_verdict f = VerdictReachableCandidate" | (undetermined) "af_verdict f = VerdictUndetermined"
    | (malicious) "af_verdict f = VerdictMaliciousPresent"
    by (auto simp: Verdict_Valid_def)
  then show ?thesis
  proof cases
    case refuted
    have s: "vs_status (vex_statement subj f) = VEXStatusNotAffected"
      "vs_justification (vex_statement subj f) = notAffectedJustification (ev_basis (af_evidence f))"
      using refuted by (elim disjE; simp add: fields)+
    have d: "af_verdict f \<noteq> VerdictMaliciousPresent" "af_verdict f \<noteq> VerdictReachableCandidate"
      "af_verdict f \<noteq> VerdictUndetermined" using refuted by (elim disjE; simp add: vex_distinct)+
    have three: "notAffectedJustification b = [] \<or> b = BasisSymbolAbsent \<or> b = BasisVersionNotAffected \<or>
        b = BasisSymbolUnreachable" for b
      by (simp add: notAffectedJustification_def)
    show ?thesis
      unfolding vex_honest_def id s justification_cases(2,3)
      using refuted d impact present unr three [of "ev_basis (af_evidence f)"] status_distinct by simp
  next
    case candidate
    then show ?thesis using impact id by (simp add: vex_honest_def fields)
  next
    case undetermined
    then show ?thesis using impact id by (simp add: vex_honest_def fields)
  next
    case malicious
    then show ?thesis using impact id by (simp add: vex_honest_def fields)
  qed
qed

text \<open>C24: The OpenVEX document claims no more than the report. For a report that validates it has one
  statement for each row, in order, and a statement is "affected" exactly for a known-malicious
  package, "not_affected" exactly for a refutation; a justification stands only on "not_affected" and
  only on the basis that supports it (an unreachable symbol is never said to be absent); a
  "not_affected" always carries a justification or an impact statement, and names every
  assumption it rests on; an "affected" names the action.\<close>
theorem vex_claims_no_more:
  assumes "Report_Validate r = None"
  shows "\<exists>doc. ProjectReportVEX r = Some doc \<and> list_all2 vex_honest (rp_advisories r) (vd_statements doc)"
proof -
  have r: "rp_schemaVersion r \<noteq> []" "list_all row_spec (rp_advisories r)"
    using assms by (simp_all add: Report_Validate_spec report_spec_def)
  have "list_all2 vex_honest (rp_advisories r) (map (vex_statement (rp_subject r)) (rp_advisories r))"
    using r(2) vex_statement_honest by (auto simp: list_all2_conv_all_nth list_all_length)
  then show ?thesis using r(1) by (simp add: ProjectReportVEX_def)
qed

text \<open>A valid report with a refutation on no basis and an unreachable symbol under an assumption.\<close>

definition vex_sample :: Report where
  "vex_sample = Build 5 (AddFinding
     (new_row \<lparr>ad_id = ''CVE-1'', ad_source = ''osv'', ad_aliases = []\<rparr> None VerdictNotExploitable []
        (no_evidence\<lparr>ev_basis := BasisSymbolUnreachable, ev_assumptions := [''no reflection'']\<rparr>))
     (AddFinding (new_row \<lparr>ad_id = ''CVE-2'', ad_source = ''osv'', ad_aliases = []\<rparr> None VerdictDisqualified [] no_evidence)
       (NewBuilder sample_subject)))"

lemma vex_sample_valid: "Report_Validate vex_sample = None"
  by (simp add: vex_sample_def Build_validate prioritized_def AddFinding_def NewBuilder_def) code_simp

theorem vex_claims_no_more_witness:
  "\<exists>doc. ProjectReportVEX vex_sample = Some doc \<and> list_all2 vex_honest (rp_advisories vex_sample) (vd_statements doc)"
  by (rule vex_claims_no_more [OF vex_sample_valid])

section \<open>SARIF hides nothing\<close>

definition sarif_results :: "SARIFLog \<Rightarrow> SARIFResult list" where
  "sarif_results l = concat (map su_results (sl_runs l))"

text \<open>A reader who looks at the levels alone sees an alert.\<close>

definition alerts :: "SARIFResult \<Rightarrow> bool" where
  "alerts s = (sr_level s = ''error'' \<or> sr_level s = ''warning'')"

lemma sarif_results_set:
  assumes "ProjectReportSARIF r = Some l"
  shows "set (sarif_results l) = sarif_row ` set (rp_advisories r) \<union> partiality_result ` set (rp_partiality r) \<union>
    (\<Union>n\<in>set (rp_partiality r). not_assessed_result n `
       {i \<in> set (pn_advisories n). i \<notin> set (map (\<lambda>f. ad_id (af_advisory f)) (rp_advisories r))})"
proof -
  let ?ids = "map (\<lambda>f. ad_id (af_advisory f)) (rp_advisories r)"
  have "sarif_results l = map sarif_row (rp_advisories r) @ map partiality_result (rp_partiality r) @
      reportSARIFNotAssessed (rp_partiality r) ?ids"
    using assms by (auto simp: ProjectReportSARIF_def sarif_results_def Let_def reportSARIFPartialityResults_def
        split: if_splits)
  moreover have "set (reportSARIFNotAssessed ns ids) =
      (\<Union>n\<in>set ns. not_assessed_result n ` {i \<in> set (pn_advisories n). i \<notin> set ids})" for ns ids
    by (simp add: reportSARIFNotAssessed_def)
  ultimately show ?thesis by (simp only: set_append set_map Un_assoc)
qed

lemma sarif_row_fields:
  "sr_ruleID (sarif_row f) = ad_id (af_advisory f)" "sr_level (sarif_row f) = fst (reportSARIFLevelKind (af_verdict f))"
  "sr_kind (sarif_row f) = snd (reportSARIFLevelKind (af_verdict f))" "sr_locations (sarif_row f) = reportSARIFLocations f"
  by (simp_all add: sarif_row_def split: prod.split)

lemma partiality_result_fields:
  "sr_level (partiality_result n) = (if EffectiveClass n = PartialityInherentLimit then ''note'' else ''warning'')"
  "sr_ruleID (partiality_result n) =
    (if EffectiveClass n = PartialityInherentLimit then AnalysisLimitsRuleID else PartialCoverageRuleID)"
  "sr_locations (partiality_result n) = [location_at sarifFallbackURI]"
  by (simp_all add: partiality_result_def)

lemma level_error: "fst (reportSARIFLevelKind v) = ''error'' \<longleftrightarrow> v = VerdictMaliciousPresent"
  by (auto simp: reportSARIFLevelKind_def)

lemma level_quiet:
  "Verdict_Valid v \<Longrightarrow> \<not> (fst (reportSARIFLevelKind v) = ''error'' \<or> fst (reportSARIFLevelKind v) = ''warning'') \<longleftrightarrow>
    v = VerdictNotExploitable \<or> v = VerdictDisqualified \<or> v = VerdictUndetermined"
  by (auto simp: reportSARIFLevelKind_def Verdict_Valid_def vex_distinct)

text \<open>C25: The SARIF log hides nothing. Every advisory of the report has a result under its id, one withheld
  by a note included; every coverage limit is a result of its own arm's rule; each result has a
  location; "error" is reached exactly for a known-malicious package; and a log with no alert in it
  (nothing above a note) is one of a report whose rows are all refuted or undetermined and whose
  limits are all inherent ones: a run that skipped a step never reads as clean.\<close>
theorem sarif_hides_nothing:
  assumes "ProjectReportSARIF r = Some l" and "Report_Validate r = None"
  shows "(\<forall>f\<in>set (rp_advisories r). \<exists>s\<in>set (sarif_results l). sr_ruleID s = ad_id (af_advisory f) \<and>
      (sr_level s = ''error'' \<longleftrightarrow> af_verdict f = VerdictMaliciousPresent)) \<and>
    (\<forall>n\<in>set (rp_partiality r). \<forall>i\<in>set (pn_advisories n). \<exists>s\<in>set (sarif_results l). sr_ruleID s = i) \<and>
    (\<forall>n\<in>set (rp_partiality r). \<exists>s\<in>set (sarif_results l). sr_text s = reportSARIFPartialityText n \<and>
      sr_ruleID s = (if EffectiveClass n = PartialityInherentLimit then AnalysisLimitsRuleID else PartialCoverageRuleID)) \<and>
    (\<forall>s\<in>set (sarif_results l). \<exists>p. sr_locations s = [p] \<and> so_uri p \<noteq> []) \<and>
    ((\<exists>s\<in>set (sarif_results l). sr_level s = ''error'') \<longleftrightarrow>
       (\<exists>f\<in>set (rp_advisories r). af_verdict f = VerdictMaliciousPresent)) \<and>
    ((\<forall>s\<in>set (sarif_results l). \<not> alerts s) \<longleftrightarrow>
       (\<forall>f\<in>set (rp_advisories r). af_verdict f = VerdictNotExploitable \<or> af_verdict f = VerdictDisqualified \<or>
          af_verdict f = VerdictUndetermined) \<and>
       (\<forall>n\<in>set (rp_partiality r). EffectiveClass n = PartialityInherentLimit))"
proof -
  note rs = sarif_results_set [OF assms(1)]
  have valid: "Verdict_Valid (af_verdict f)" if "f \<in> set (rp_advisories r)" for f
    using assms(2) that unfolding Report_Validate_spec report_spec_def list_all_iff row_spec_def Let_def by blast
  have na: "sr_level (not_assessed_result n i) = ''none''" "sr_ruleID (not_assessed_result n i) = i"
    "sr_locations (not_assessed_result n i) = [location_at sarifFallbackURI]" for n i
    by (simp_all add: not_assessed_result_def)
  have loc: "\<exists>p. reportSARIFLocations f = [p] \<and> so_uri p \<noteq> []" for f
    by (simp add: reportSARIFLocations_def Let_def location_at_def sarifFallbackURI_def)
  have msg: "sr_text (partiality_result n) = reportSARIFPartialityText n" for n
    by (simp add: partiality_result_def)
  have rows: "\<forall>f\<in>set (rp_advisories r). \<exists>s\<in>set (sarif_results l). sr_ruleID s = ad_id (af_advisory f) \<and>
      (sr_level s = ''error'' \<longleftrightarrow> af_verdict f = VerdictMaliciousPresent)"
    unfolding rs by (intro ballI, rule_tac x = "sarif_row f" in bexI) (auto simp: sarif_row_fields level_error)
  have withheld: "\<forall>n\<in>set (rp_partiality r). \<forall>i\<in>set (pn_advisories n). \<exists>s\<in>set (sarif_results l). sr_ruleID s = i"
  proof (intro ballI)
    fix n i assume n: "n \<in> set (rp_partiality r)" "i \<in> set (pn_advisories n)"
    show "\<exists>s\<in>set (sarif_results l). sr_ruleID s = i"
    proof (cases "i \<in> set (map (\<lambda>f. ad_id (af_advisory f)) (rp_advisories r))")
      case True
      then show ?thesis using rows by auto
    next
      case False
      then have "not_assessed_result n i \<in> set (sarif_results l)" unfolding rs using n by (intro UnI2 UN_I [of n]) simp_all
      then show ?thesis using na(2) by blast
    qed
  qed
  have limits: "\<forall>n\<in>set (rp_partiality r). \<exists>s\<in>set (sarif_results l). sr_text s = reportSARIFPartialityText n \<and>
      sr_ruleID s = (if EffectiveClass n = PartialityInherentLimit then AnalysisLimitsRuleID else PartialCoverageRuleID)"
    unfolding rs by (intro ballI, rule_tac x = "partiality_result n" in bexI) (auto simp: partiality_result_fields msg)
  have locs: "\<forall>s\<in>set (sarif_results l). \<exists>p. sr_locations s = [p] \<and> so_uri p \<noteq> []"
    unfolding rs by (auto simp: sarif_row_fields partiality_result_fields na loc location_at_def sarifFallbackURI_def)
  have err: "(\<exists>s\<in>set (sarif_results l). sr_level s = ''error'') \<longleftrightarrow>
      (\<exists>f\<in>set (rp_advisories r). af_verdict f = VerdictMaliciousPresent)"
    unfolding rs bex_Un by (auto simp: sarif_row_fields partiality_result_fields na level_error split: if_splits)
  have quiet: "(\<forall>s\<in>set (sarif_results l). \<not> alerts s) \<longleftrightarrow>
      (\<forall>f\<in>set (rp_advisories r). \<not> alerts (sarif_row f)) \<and> (\<forall>n\<in>set (rp_partiality r). \<not> alerts (partiality_result n))"
    unfolding rs by (auto simp: alerts_def na)
  have q1: "\<not> alerts (sarif_row f) \<longleftrightarrow> af_verdict f = VerdictNotExploitable \<or> af_verdict f = VerdictDisqualified \<or>
      af_verdict f = VerdictUndetermined" if "f \<in> set (rp_advisories r)" for f
    unfolding alerts_def sarif_row_fields by (rule level_quiet [OF valid [OF that]])
  have q2: "\<not> alerts (partiality_result n) \<longleftrightarrow> EffectiveClass n = PartialityInherentLimit" for n
    by (simp add: alerts_def partiality_result_fields)
  show ?thesis using rows withheld limits locs err quiet q1 q2 by simp
qed

definition sarif_sample :: Report where
  "sarif_sample = vex_sample\<lparr>rp_partiality := [\<lparr>pn_reason = ''tool_failure'', pn_ecosystem = ''Go'', pn_detail = [],
     pn_package = [], pn_path = [], pn_targets = [], pn_class = PartialityDidNotRun, pn_advisories = [''CVE-9'']\<rparr>]\<rparr>"

theorem sarif_hides_nothing_witness:
  "\<exists>l. ProjectReportSARIF sarif_sample = Some l \<and> (\<exists>s\<in>set (sarif_results l). sr_ruleID s = ''CVE-9'') \<and>
     (\<exists>s\<in>set (sarif_results l). alerts s)"
proof -
  have v: "Report_Validate sarif_sample = None"
    using vex_sample_valid by (simp add: Report_Validate_None sarif_sample_def)
  then have "rp_schemaVersion sarif_sample \<noteq> []" by (simp add: Report_Validate_None)
  then obtain l where l: "ProjectReportSARIF sarif_sample = Some l" by (auto simp: ProjectReportSARIF_def Let_def)
  have p: "rp_partiality sarif_sample = [\<lparr>pn_reason = ''tool_failure'', pn_ecosystem = ''Go'', pn_detail = [],
     pn_package = [], pn_path = [], pn_targets = [], pn_class = PartialityDidNotRun, pn_advisories = [''CVE-9'']\<rparr>]"
    by (simp add: sarif_sample_def)
  have n: "\<not> (\<forall>n\<in>set (rp_partiality sarif_sample). EffectiveClass n = PartialityInherentLimit)"
    by (simp add: p EffectiveClass_def PartialityDidNotRun_def PartialityInherentLimit_def)
  from sarif_hides_nothing [OF l v] have "(\<forall>n\<in>set (rp_partiality sarif_sample). \<forall>i\<in>set (pn_advisories n).
      \<exists>s\<in>set (sarif_results l). sr_ruleID s = i)" "\<exists>s\<in>set (sarif_results l). alerts s" using n by blast+
  then show ?thesis using l p by auto
qed

section \<open>SARIF, SSVC and the redacted view of a PoE\<close>

text \<open>The verb %.2f, rounding half to even.\<close>

definition round_even :: "rat \<Rightarrow> int" where
  "round_even x =
    (let f = \<lfloor>x\<rfloor>; d = x - of_int f in if d > 1 / 2 \<or> d = 1 / 2 \<and> odd f then f + 1 else f)"

definition format_2f :: "rat \<Rightarrow> gostring" where
  "format_2f q =
    (let r = round_even (\<bar>q\<bar> * 100)
     in (if q < 0 then ''-'' else []) @ show_nat (nat (r div 100)) @ ''.'' @ pad0 2 (r mod 100))"

definition sarifLevel :: "PoE \<Rightarrow> gostring" where
  "sarifLevel p =
    (if poe_direction p = DirectionExploitable \<and> poe_strength p = StrengthProven then ''error''
     else if poe_direction p = DirectionExploitable \<and> poe_strength p = StrengthReasoned then ''warning''
     else if poe_direction p = DirectionNotExploitable \<and> poe_strength p = StrengthProven then ''note''
     else if poe_direction p = DirectionIndeterminate then ''none''
     else ''none'')"

definition sarifKind :: "PoE \<Rightarrow> gostring" where
  "sarifKind p =
    (if poe_direction p = DirectionIndeterminate then ''review''
     else if poe_strength p = StrengthProven then ''fail''
     else ''open'')"

definition sarifMessage :: "PoE \<Rightarrow> gostring" where
  "sarifMessage p =
    (let l = Label p; score = format_2f (cc_score (poe_confidence p)); a = poe_assessmentID p; g = poe_reasonedGrounds p in
     if l = ''exploitable'' then
       brand_Name @ '' has proven this vulnerability exploitable (confidence '' @ score @ ''). '' @
       ''A sandbox reproducer fired and is referenced in the PoE (assessment '' @ a @ '').''
     else if l = ''reasoned_exploitable'' then
       brand_Name @ '' has a reasoned (unproven) lean toward exploitability (confidence '' @ score @ ''). '' @
       ''This is a substantiated hypothesis '' @ em_dash @ '' sandbox confirmation is pending. '' @
       ''Grounds: '' @ g @ '' (assessment '' @ a @ '').''
     else if l = ''not_exploitable'' then
       brand_Name @ '' has proven this vulnerability not exploitable (two-trace patch validation; '' @
       ''confidence '' @ score @ '', assessment '' @ a @ '').''
     else if l = ''indeterminate'' then
       brand_Name @ '' established no verdict for this vulnerability (assessment '' @ a @ ''): analysis reached '' @
       ''neither a proof of exploitability nor of non-exploitability. This is NOT a clean '' @
       ''result '' @ em_dash @ '' it requires follow-up.''
     else
       brand_Name @ '' leans toward not exploitable (reasoned, unproven; confidence '' @ score @ ''). '' @
       ''Grounds: '' @ g @ '' (assessment '' @ a @ '').'')"

definition poe_props :: "int \<Rightarrow> PoE \<Rightarrow> (gostring \<times> property) list" where
  "poe_props now p =
    [(''verdict_label'', PString (Label p)), (''verdict_direction'', PString (poe_direction p)),
     (''verdict_strength'', PString (poe_strength p)), (''confidence_score'', PNum (cc_score (poe_confidence p))),
     (''completion_status'', PString (poe_completionStatus p)), (''assessment_id'', PString (poe_assessmentID p)),
     (''case_id'', PString (poe_caseID p)), (''projected_at'', PString (format_utc now))] @
    (if length (poe_conditions p) > 0 then [(''conditions'', PStrings (poe_conditions p))] else []) @
    (if poe_reasonedGrounds p \<noteq> [] then [(''reasoned_grounds'', PString (poe_reasonedGrounds p))] else []) @
    (case poe_objection p of None \<Rightarrow> []
     | Some ob \<Rightarrow> [(''objection_attack_class'', PString (ob_attackClass ob)),
                   (''objection_rationale'', PString (ob_rationale ob))])"

definition ProjectSARIF :: "int \<Rightarrow> PoE \<Rightarrow> SARIFLog option" where
  "ProjectSARIF now p =
    (if poe_direction p = [] \<or> poe_strength p = [] then None
     else Some
       \<lparr>sl_schema = SARIFSchemaURI, sl_version = SARIFVersion,
        sl_runs = [\<lparr>su_driver = \<lparr>sd_name = brand_Name, sd_version = [], sd_informationURI = brand_RepoURL,
                      sd_semanticVersion = []\<rparr>,
                    su_invocations = [],
                    su_results = [\<lparr>sr_ruleID = brand_Name @ ''/'' @ Label p, sr_level = sarifLevel p,
                      sr_kind = sarifKind p, sr_text = sarifMessage p, sr_locations = [], sr_rank = None,
                      sr_props = poe_props now p\<rparr>]\<rparr>]\<rparr>)"

definition FlagPublicPoCReplayed :: gostring where "FlagPublicPoCReplayed = ''public_poc_replayed''"

record SSVCDecisionPts =
  dp_exploitation :: gostring
  dp_automatable :: gostring
  dp_technicalImpact :: gostring
  dp_missionImpact :: gostring

record SSVCSource =
  ss_verdictLabel :: gostring
  ss_verdictStrength :: gostring
  ss_confidenceScore :: rat
  ss_evidenceFlags :: "gostring list"
  ss_conditionCount :: nat

record SSVCDecision =
  sc_schemaVersion :: gostring
  sc_assessmentID :: gostring
  sc_caseID :: gostring
  sc_decisionPoints :: SSVCDecisionPts
  sc_decision :: gostring
  sc_vector :: gostring
  sc_timestamp :: gostring
  sc_source :: SSVCSource

definition ssvcExploitation :: "PoE \<Rightarrow> gostring" where
  "ssvcExploitation p =
    (if poe_direction p \<noteq> DirectionExploitable then ''none''
     else if FlagPublicPoCReplayed \<in> set (cc_evidenceFlags (poe_confidence p)) then ''active''
     else ''poc'')"

definition ssvcAutomatable :: "PoE \<Rightarrow> gostring" where
  "ssvcAutomatable p =
    (if poe_direction p \<noteq> DirectionExploitable then ''no''
     else if length (poe_conditions p) = 0 then ''yes'' else ''no'')"

definition ssvcTechnicalImpact :: "PoE \<Rightarrow> gostring" where
  "ssvcTechnicalImpact p = (if poe_direction p = DirectionExploitable then ''total'' else ''partial'')"

definition ssvcMissionImpact :: "PoE \<Rightarrow> gostring" where
  "ssvcMissionImpact p = (if poe_direction p = DirectionExploitable then ''high'' else ''low'')"

definition ssvcDecisionPoints :: "PoE \<Rightarrow> SSVCDecisionPts" where
  "ssvcDecisionPoints p =
    \<lparr>dp_exploitation = ssvcExploitation p, dp_automatable = ssvcAutomatable p,
     dp_technicalImpact = ssvcTechnicalImpact p, dp_missionImpact = ssvcMissionImpact p\<rparr>"

definition ssvcOutcome :: "SSVCDecisionPts \<Rightarrow> gostring" where
  "ssvcOutcome dp =
    (if dp_exploitation dp = ''active'' then ''act''
     else if dp_exploitation dp = ''poc'' then (if dp_technicalImpact dp = ''total'' then ''attend'' else ''track*'')
     else ''track'')"

definition ssvcVector :: "int \<Rightarrow> SSVCDecisionPts \<Rightarrow> gostring \<Rightarrow> gostring" where
  "ssvcVector now dp decision =
    ''SSVCv2/E:'' @ dp_exploitation dp @ ''/A:'' @ dp_automatable dp @ ''/T:'' @ dp_technicalImpact dp @
    ''/M:'' @ dp_missionImpact dp @ ''/'' @ decision @ ''/'' @ format_utc now @ ''/''"

text \<open>The two reads of the clock are one moment here.\<close>

definition ProjectSSVC :: "int \<Rightarrow> PoE \<Rightarrow> SSVCDecision option" where
  "ProjectSSVC now p =
    (if poe_direction p = [] \<or> poe_strength p = [] then None
     else
       (let dp = ssvcDecisionPoints p; decision = ssvcOutcome dp
        in Some
          \<lparr>sc_schemaVersion = ''SSVCv2'', sc_assessmentID = poe_assessmentID p, sc_caseID = poe_caseID p,
           sc_decisionPoints = dp, sc_decision = decision, sc_vector = ssvcVector now dp decision,
           sc_timestamp = format_utc now,
           sc_source = \<lparr>ss_verdictLabel = Label p, ss_verdictStrength = poe_strength p,
             ss_confidenceScore = cc_score (poe_confidence p),
             ss_evidenceFlags = cc_evidenceFlags (poe_confidence p), ss_conditionCount = length (poe_conditions p)\<rparr>\<rparr>))"

record RedactedPoE =
  rx_schemaVersion :: gostring
  rx_vulnID :: gostring
  rx_direction :: gostring
  rx_strength :: gostring
  rx_completionStatus :: gostring
  rx_confidenceScore :: rat
  rx_conditions :: "gostring list"
  rx_effectSummary :: gostring

definition ProjectRedactedPoE :: "PoE \<Rightarrow> gostring \<Rightarrow> gostring \<Rightarrow> RedactedPoE option" where
  "ProjectRedactedPoE p vulnID effect =
    (if poe_direction p = [] \<or> poe_strength p = [] then None
     else Some
       \<lparr>rx_schemaVersion = ''tegron.projection_redacted_poe.v2'', rx_vulnID = vulnID,
        rx_direction = poe_direction p, rx_strength = poe_strength p, rx_completionStatus = poe_completionStatus p,
        rx_confidenceScore = cc_score (poe_confidence p), rx_conditions = poe_conditions p,
        rx_effectSummary = effect\<rparr>)"

text \<open>Two PoEs that differ in anything but the listed fields.\<close>

definition same_public :: "PoE \<Rightarrow> PoE \<Rightarrow> bool" where
  "same_public p q = (poe_direction p = poe_direction q \<and> poe_strength p = poe_strength q \<and>
     poe_completionStatus p = poe_completionStatus q \<and> cc_score (poe_confidence p) = cc_score (poe_confidence q) \<and>
     poe_conditions p = poe_conditions q)"

text \<open>Every projection of a PoE keeps its tier. For a PoE that validates all three succeed; SARIF says
  "error" exactly for a proven exploitable verdict, whose reproducer is on record, and "warning"
  exactly for a reasoned one; SSVC sees exploitation, and decides more than "track", exactly for an
  exploitable direction, and "act" exactly when a public PoC was replayed as well; and the redacted
  view repeats direction and strength and depends on nothing but the public fields.\<close>
theorem poe_projections_keep_tier:
  assumes "PoE_Validate p = None" and "known_direction (poe_direction p)"
  shows "\<exists>l d x. ProjectSARIF now p = Some l \<and> ProjectSSVC now p = Some d \<and> ProjectRedactedPoE p v e = Some x \<and>
    (\<forall>s\<in>set (sarif_results l).
      (sr_level s = ''error'' \<longleftrightarrow> poe_direction p = DirectionExploitable \<and> poe_strength p = StrengthProven) \<and>
      (sr_level s = ''error'' \<longrightarrow> poe_reproducer p \<noteq> None) \<and>
      (sr_level s = ''warning'' \<longleftrightarrow> poe_direction p = DirectionExploitable \<and> poe_strength p = StrengthReasoned)) \<and>
    (dp_exploitation (sc_decisionPoints d) = ''none'' \<longleftrightarrow> poe_direction p \<noteq> DirectionExploitable) \<and>
    (sc_decision d = ''track'' \<longleftrightarrow> poe_direction p \<noteq> DirectionExploitable) \<and>
    (sc_decision d = ''act'' \<longleftrightarrow> poe_direction p = DirectionExploitable \<and>
       FlagPublicPoCReplayed \<in> set (cc_evidenceFlags (poe_confidence p))) \<and>
    sc_decision d \<noteq> ''track*'' \<and>
    rx_direction x = poe_direction p \<and> rx_strength x = poe_strength p \<and>
    (\<forall>q. same_public p q \<longrightarrow> ProjectRedactedPoE q v e = Some x)"
proof -
  have c: "poe_claims p" using assms(1) by (simp add: poe_claims_iff)
  have ne: "poe_direction p \<noteq> []" "poe_strength p \<noteq> []"
    using c assms(2) by (auto simp: poe_claims_def known_direction_def direction_defs strength_defs)
  have rep: "poe_direction p = DirectionExploitable \<Longrightarrow> poe_strength p = StrengthProven \<Longrightarrow> poe_reproducer p \<noteq> None"
    using c by (auto simp: poe_claims_def direction_defs strength_defs)
  have lvl: "sarifLevel p = ''error'' \<longleftrightarrow> poe_direction p = DirectionExploitable \<and> poe_strength p = StrengthProven"
    "sarifLevel p = ''warning'' \<longleftrightarrow> poe_direction p = DirectionExploitable \<and> poe_strength p = StrengthReasoned"
    by (auto simp: sarifLevel_def strength_defs)
  have dp: "dp_exploitation (ssvcDecisionPoints p) = ssvcExploitation p"
    "dp_technicalImpact (ssvcDecisionPoints p) = ssvcTechnicalImpact p" by (simp_all add: ssvcDecisionPoints_def)
  have red: "ProjectRedactedPoE q v e = ProjectRedactedPoE p v e" if "same_public p q" for q
    using that by (simp add: ProjectRedactedPoE_def same_public_def)
  show ?thesis
    using ne rep red
    by (simp add: ProjectSARIF_def ProjectSSVC_def Let_def sarif_results_def lvl dp)
      (simp add: ProjectRedactedPoE_def ssvcOutcome_def ssvcExploitation_def ssvcTechnicalImpact_def dp)
qed

theorem poe_projections_keep_tier_witness:
  "\<exists>x. ProjectRedactedPoE (sample_poe ''out of range'' BasisVersionNotAffected) [] [] = Some x \<and>
     ProjectRedactedPoE (sample_poe ''no such symbol'' BasisSymbolAbsent) [] [] = Some x"
proof -
  have "PoE_Validate (sample_poe ''out of range'' BasisVersionNotAffected) = None" by code_simp
  moreover have "known_direction (poe_direction (sample_poe g b))" for g b
    by (simp add: sample_poe_def known_direction_def)
  moreover have "same_public (sample_poe ''out of range'' BasisVersionNotAffected) (sample_poe ''no such symbol'' BasisSymbolAbsent)"
    by (simp add: same_public_def sample_poe_def)
  ultimately show ?thesis using poe_projections_keep_tier by blast
qed

end
