(* ===== verification/Plugin_Types.thy ===== *)
theory Plugin_Types
  imports Assay_Prelude
begin

text \<open>The symbol identity the language plugins and the advisories share (src/plugin/plugin.go), and
  the package-URL name of the Go standard library (src/pipeline/stages.go).\<close>

record Symbol =
  sy_kind :: gostring
  sy_package :: gostring
  sy_enclosing :: gostring
  sy_name :: gostring
  sy_descriptor :: gostring
  sy_generated :: bool
  sy_displayName :: gostring
  sy_scip :: gostring

definition zero_symbol :: Symbol where
  "zero_symbol = \<lparr>sy_kind = [], sy_package = [], sy_enclosing = [], sy_name = [], sy_descriptor = [],
     sy_generated = False, sy_displayName = [], sy_scip = []\<rparr>"

definition goStdlibPURLName :: gostring where "goStdlibPURLName = ''stdlib''"

end
