(* ===== verification/Reach_Ingress.thy ===== *)
theory Reach_Ingress
  imports Disqualification Plugin_Types
begin

text \<open>
  The reachability_ingress stage of src/pipeline/stages.go, from the language plugin's answers to the
  reach paths it records: the walk from a first-party sink back to an entry point over the call
  graph (firstPartyReachPaths, over the view of src/plugin/callgraph_view.go), the attribution of a
  path to the affected package that owns its sink (countedReachPaths), the sinks asked about
  (resolvedSinks) and the id the Go analyzer is asked for (govulnMatchID). The plugin is a parameter. The
  lemmas show that the walk finds an entry point exactly when one reaches the sink, and that a path
  is dropped only when its owner's every installed version is provably unaffected.
\<close>

section \<open>The call graph\<close>

record PluginPath =
  wp_sink :: Symbol
  wp_ingress :: Symbol
  wp_trace :: "Symbol list"

text \<open>A view of a call graph: edges from caller to callee, and roots. A nil graph has neither.\<close>

record CallGraphView =
  cv_edges :: "(Symbol \<times> Symbol) list"
  cv_roots :: "Symbol list"

text \<open>The reverse index: the callers of an id in edge order, the ids of the roots, and the symbol of an
  id, that of its last root, else of the last edge endpoint.\<close>

definition Callers :: "CallGraphView \<Rightarrow> gostring \<Rightarrow> gostring list" where
  "Callers v i = map (\<lambda>e. sy_scip (fst e)) (filter (\<lambda>e. sy_scip (snd e) = i) (cv_edges v))"

definition IsRoot :: "CallGraphView \<Rightarrow> gostring \<Rightarrow> bool" where
  "IsRoot v i = list_ex (\<lambda>r. sy_scip r = i) (cv_roots v)"

definition last_named :: "Symbol list \<Rightarrow> gostring \<Rightarrow> Symbol option" where
  "last_named ss i = map_of (rev (map (\<lambda>s. (sy_scip s, s)) ss)) i"

definition view_Symbol :: "CallGraphView \<Rightarrow> gostring \<Rightarrow> Symbol" where
  "view_Symbol v i =
    (case last_named (concat (map (\<lambda>e. [fst e, snd e]) (cv_edges v)) @ cv_roots v) i of
       None \<Rightarrow> zero_symbol | Some s \<Rightarrow> s)"

section \<open>The walk back from a sink\<close>

definition ingress_syms :: "Symbol list \<Rightarrow> Symbol list" where
  "ingress_syms ings = filter (\<lambda>s. sy_scip s \<noteq> []) ings"

definition is_ingress :: "Symbol list \<Rightarrow> gostring \<Rightarrow> bool" where
  "is_ingress ings i = (last_named (ingress_syms ings) i \<noteq> None)"

definition symOf :: "CallGraphView \<Rightarrow> Symbol list \<Rightarrow> gostring \<Rightarrow> Symbol" where
  "symOf v ings i =
    (if \<not> IsRoot v i then
       (case last_named (ingress_syms ings) i of Some s \<Rightarrow> s | None \<Rightarrow> view_Symbol v i)
     else view_Symbol v i)"

definition entry_point :: "CallGraphView \<Rightarrow> Symbol list \<Rightarrow> gostring \<Rightarrow> bool" where
  "entry_point v ings i = (is_ingress ings i \<or> IsRoot v i)"

text \<open>The loop over the callers of a node: the visited ids and the queue.\<close>

fun enqueue ::
  "gostring list \<Rightarrow> gostring list \<Rightarrow> gostring list \<times> (gostring \<times> gostring list) list \<Rightarrow>
   gostring list \<times> (gostring \<times> gostring list) list" where
  "enqueue path [] acc = acc"
| "enqueue path (c # cs) (vis, q) =
    (if c \<in> set vis then enqueue path cs (vis, q) else enqueue path cs (c # vis, q @ [(c, path @ [c])]))"

definition callers_all :: "CallGraphView \<Rightarrow> gostring set" where
  "callers_all v = (\<lambda>e. sy_scip (fst e)) ` set (cv_edges v)"

lemma Callers_sub: "set (Callers v i) \<subseteq> callers_all v"
  by (auto simp: Callers_def callers_all_def)

lemma enqueue_measure:
  assumes "finite C" and "set cs \<subseteq> C" and "enqueue path cs (vis, q) = (vis', q')"
  shows "card (C - set vis') + length q' = card (C - set vis) + length q"
  using assms(2,3)
proof (induction cs arbitrary: vis q)
  case (Cons c cs)
  show ?case
  proof (cases "c \<in> set vis")
    case False
    have "C - set (c # vis) = (C - set vis) - {c}" by auto
    moreover have "c \<in> C - set vis" using False Cons.prems(1) by simp
    ultimately have "card (C - set (c # vis)) + 1 = card (C - set vis)"
      using assms(1) card_Diff_singleton [of c "C - set vis"] card_gt_0_iff [of "C - set vis"] by fastforce
    then show ?thesis using Cons.IH [of "c # vis" "q @ [(c, path @ [c])]"] Cons.prems False by simp
  qed (use Cons in simp)
qed simp

function back_walk ::
  "CallGraphView \<Rightarrow> (gostring \<Rightarrow> bool) \<Rightarrow> gostring list \<Rightarrow> (gostring \<times> gostring list) list \<Rightarrow>
   gostring list option" where
  "back_walk v entry vis [] = None"
| "back_walk v entry vis ((s, path) # q) =
    (if entry s then Some path
     else (let (vis', q') = enqueue path (Callers v s) (vis, q) in back_walk v entry vis' q'))"
  by pat_completeness auto
termination
proof (relation "measure (\<lambda>(v, entry, vis, q). card (callers_all v - set vis) + length q)")
  fix v :: CallGraphView and entry :: "gostring \<Rightarrow> bool" and vis s path q x vis' q'
  assume "x = enqueue path (Callers v s) (vis, q)" "(vis', q') = x"
  then have e: "enqueue path (Callers v s) (vis, q) = (vis', q')" by simp
  have "finite (callers_all v)" by (simp add: callers_all_def)
  from enqueue_measure [OF this Callers_sub e]
  show "((v, entry, vis', q'), v, entry, vis, (s, path) # q)
    \<in> measure (\<lambda>(v, entry, vis, q). card (callers_all v - set vis) + length q)" by simp
qed simp

definition firstPartyReachPaths :: "CallGraphView \<Rightarrow> Symbol list \<Rightarrow> gostring \<Rightarrow> PluginPath list" where
  "firstPartyReachPaths v ings sink =
    (if sink = [] \<or> length (cv_edges v) = 0 then []
     else
       (case back_walk v (entry_point v ings) [sink] [(sink, [sink])] of
          None \<Rightarrow> []
        | Some path \<Rightarrow>
            [\<lparr>wp_sink = symOf v ings sink,
              wp_ingress = (if is_ingress ings (last path) then symOf v ings (last path) else zero_symbol),
              wp_trace = map (symOf v ings) (rev path)\<rparr>]))"

section \<open>Attribution of a path to a package\<close>

record reachAttribution =
  ra_selected :: "gostring list"
  ra_others :: "presentRanges list"
  ra_project :: gostring
  ra_trust :: gostring

datatype pathOwner = OwnerNone | OwnerSelected | OwnerOther presentRanges

definition ownedLength :: "gostring \<Rightarrow> gostring \<Rightarrow> nat" where
  "ownedLength name pkg =
    (if name = [] then 0
     else if name = goStdlibPURLName then
       (let first = (case go_cut pkg ''/'' of None \<Rightarrow> pkg | Some (a, b) \<Rightarrow> a)
        in if \<not> go_contains first ''.'' then length first else 0)
     else if pkg = name \<or> has_prefix pkg (name @ ''/'') then length name
     else 0)"

fun best_selected :: "gostring \<Rightarrow> gostring list \<Rightarrow> nat \<times> pathOwner \<Rightarrow> nat \<times> pathOwner" where
  "best_selected pkg [] acc = acc"
| "best_selected pkg (n # ns) (best, o1) =
    best_selected pkg ns (if ownedLength n pkg > best then (ownedLength n pkg, OwnerSelected) else (best, o1))"

definition other_length :: "gostring \<Rightarrow> presentRanges \<Rightarrow> nat" where
  "other_length pkg p =
    max (ownedLength (pp_module (pr_package p)) pkg) (ownedLength (pp_coordinate (pr_package p)) pkg)"

fun best_other :: "gostring \<Rightarrow> presentRanges list \<Rightarrow> nat \<times> pathOwner \<Rightarrow> nat \<times> pathOwner" where
  "best_other pkg [] acc = acc"
| "best_other pkg (p # ps) (best, o1) =
    best_other pkg ps (if other_length pkg p > best then (other_length pkg p, OwnerOther p) else (best, o1))"

definition owner :: "reachAttribution \<Rightarrow> gostring \<Rightarrow> pathOwner" where
  "owner a pkg =
    (if pkg = [] \<or> ra_project a \<noteq> [] \<and> (pkg = ra_project a \<or> has_prefix pkg (ra_project a @ ''/'')) then OwnerNone
     else snd (best_other pkg (ra_others a) (best_selected pkg (ra_selected a) (0, OwnerNone))))"

text \<open>The two facts of the inventory record, its language and its module, are arguments.\<close>

definition readReachAttribution :: "(gostring \<times> gostring) option \<Rightarrow> case_store \<Rightarrow> reachAttribution option" where
  "readReachAttribution invLang st =
    (case invLang of
       None \<Rightarrow> None
     | Some (language, module) \<Rightarrow>
         if language \<noteq> ''go'' then None
         else
           (let names = (case extractSelectedPackage st of
                           Some sel \<Rightarrow> Some (filter (\<lambda>n. n \<noteq> []) [aap_module sel, aap_coordinate sel])
                         | None \<Rightarrow> map_option (\<lambda>m. filter (\<lambda>n. n \<noteq> []) [m, []]) (extractAdvisoryModule st))
            in case names of
                 None \<Rightarrow> None
               | Some ns \<Rightarrow> Some \<lparr>ra_selected = ns, ra_others = extractAlsoPresent st, ra_project = module,
                   ra_trust = (case extractAdvisoryTrust st of None \<Rightarrow> [] | Some t \<Rightarrow> t)\<rparr>))"

fun sort_paths ::
  "semver_lib \<Rightarrow> reachAttribution \<Rightarrow> PluginPath list \<Rightarrow> PluginPath list \<times> PluginPath list \<times> PluginPath list \<Rightarrow>
   PluginPath list \<times> PluginPath list \<times> PluginPath list" where
  "sort_paths sv a [] acc = acc"
| "sort_paths sv a (p # ps) (own, unattributed, other) =
    sort_paths sv a ps
      (case owner a (sy_package (wp_sink p)) of
         OwnerSelected \<Rightarrow> (own @ [p], unattributed, other)
       | OwnerNone \<Rightarrow> (own, unattributed @ [p], other)
       | OwnerOther q \<Rightarrow>
           if everyVersionOutside sv (pp_versions (pr_package q)) (pp_complete (pr_package q)) (pr_known_ranges q) (ra_trust a)
           then (own, unattributed, other) else (own, unattributed, other @ [p]))"

definition countedReachPaths :: "semver_lib \<Rightarrow> PluginPath list \<Rightarrow> reachAttribution \<Rightarrow> PluginPath list" where
  "countedReachPaths sv paths a =
    (case sort_paths sv a paths ([], [], []) of (own, unattributed, other) \<Rightarrow> own @ unattributed @ other)"

section \<open>Sinks and ids\<close>

fun split_sinks ::
  "(gostring \<Rightarrow> bool) \<Rightarrow> gostring list \<Rightarrow> Symbol list \<Rightarrow> gostring list \<times> gostring list \<Rightarrow> gostring list \<times> gostring list" where
  "split_sinks inDep seen [] acc = acc"
| "split_sinks inDep seen (s # ss) (deps, own) =
    (if sy_scip s = [] \<or> sy_scip s \<in> set seen then split_sinks inDep seen ss (deps, own)
     else split_sinks inDep (sy_scip s # seen) ss
       (if inDep (sy_scip s) then (deps @ [sy_scip s], own) else (deps, own @ [sy_scip s])))"

text \<open>The resolved symbols of the vulnerable-symbol artifact and its Origins, [] when there is none.\<close>

definition resolvedSinks :: "Symbol list \<Rightarrow> (gostring \<times> gostring) list \<Rightarrow> gostring list" where
  "resolvedSinks resolved origins =
    (case split_sinks (\<lambda>i. map_of origins i \<noteq> None) [] resolved ([], []) of (deps, own) \<Rightarrow> deps @ own)"

text \<open>The aliases of the normalized advisory; None when it cannot be read.\<close>

definition govulnMatchID :: "gostring list option \<Rightarrow> gostring \<Rightarrow> gostring" where
  "govulnMatchID aliases primary =
    (if has_prefix primary ''GO-'' then primary
     else (case aliases of
             None \<Rightarrow> primary
           | Some as \<Rightarrow> (case filter (\<lambda>a. has_prefix a ''GO-'') as of [] \<Rightarrow> primary | a # _ \<Rightarrow> a)))"

section \<open>What the stage records\<close>

text \<open>References to artifacts are their ids.\<close>

definition CandidatePairSchemaVersion :: gostring where
  "CandidatePairSchemaVersion = ''tegron.candidate_pair.v1''"

record CandidatePair =
  cp_schemaVersion :: gostring
  cp_sink :: gostring
  cp_ingress :: "gostring option"
  cp_path :: gostring
  cp_partial :: bool

record ReachOutcome =
  ro_stored :: "PluginPath list"
  ro_pairs :: "CandidatePair list"
  ro_firstParty :: bool

text \<open>runWithPlugin, from the analyzer's paths to the reachability artifact and the candidate pairs; the ids
  of the artifacts a pair refers to are arguments.\<close>

definition reach_outcome ::
  "semver_lib \<Rightarrow> PluginPath list \<Rightarrow> bool \<Rightarrow> CallGraphView \<Rightarrow> Symbol list \<Rightarrow> gostring list \<Rightarrow>
   reachAttribution option \<Rightarrow> gostring \<Rightarrow> gostring \<Rightarrow> gostring \<Rightarrow> ReachOutcome" where
  "reach_outcome sv reachPaths complete cg ings sinks attribution sinkRef reachRef ingressRef =
    (let fallback = concat (map (firstPartyReachPaths cg ings) sinks);
         paths = (if length reachPaths = 0 then fallback else reachPaths);
         firstParty = (length reachPaths = 0 \<and> length fallback > 0);
         counted = (case attribution of None \<Rightarrow> paths | Some a \<Rightarrow> countedReachPaths sv paths a)
     in \<lparr>ro_stored = (if length counted = 0 then paths else counted),
         ro_pairs = map (\<lambda>p. \<lparr>cp_schemaVersion = CandidatePairSchemaVersion, cp_sink = sinkRef,
                              cp_ingress = (if sy_scip (wp_ingress p) \<noteq> [] then Some ingressRef else None),
                              cp_path = reachRef, cp_partial = (firstParty \<or> \<not> complete)\<rparr>) counted,
         ro_firstParty = firstParty\<rparr>)"

section \<open>The walk finds exactly the entry points that reach the sink\<close>

definition calls :: "CallGraphView \<Rightarrow> gostring \<Rightarrow> gostring \<Rightarrow> bool" where
  "calls v a b = list_ex (\<lambda>e. sy_scip (fst e) = a \<and> sy_scip (snd e) = b) (cv_edges v)"

lemma mem_Callers [simp]: "a \<in> set (Callers v b) \<longleftrightarrow> calls v a b"
  by (auto simp: Callers_def calls_def list_ex_iff)

definition back_path :: "CallGraphView \<Rightarrow> (gostring \<Rightarrow> bool) \<Rightarrow> gostring \<Rightarrow> gostring \<times> gostring list \<Rightarrow> bool" where
  "back_path v entry sink n \<longleftrightarrow>
     (case n of (s, path) \<Rightarrow>
        path \<noteq> [] \<and> hd path = sink \<and> last path = s \<and> successively (\<lambda>b a. calls v a b) path
        \<and> list_all (\<lambda>x. \<not> entry x) (butlast path))"

definition walk_inv ::
  "CallGraphView \<Rightarrow> (gostring \<Rightarrow> bool) \<Rightarrow> gostring \<Rightarrow> gostring list \<Rightarrow> (gostring \<times> gostring list) list \<Rightarrow> bool" where
  "walk_inv v entry sink vis q \<longleftrightarrow>
     sink \<in> set vis \<and> list_all (back_path v entry sink) q
     \<and> (\<forall>x \<in> set vis. x \<in> fst ` set q \<or> \<not> entry x \<and> (\<forall>a. calls v a x \<longrightarrow> a \<in> set vis))"

lemma back_path_snoc:
  assumes "back_path v entry sink (s, path)" and "\<not> entry s" and "calls v c s"
  shows "back_path v entry sink (c, path @ [c])"
proof -
  have p: "path \<noteq> []" "hd path = sink" "last path = s" "successively (\<lambda>b a. calls v a b) path"
    "list_all (\<lambda>x. \<not> entry x) (butlast path)"
    using assms(1) by (simp_all add: back_path_def)
  have "list_all (\<lambda>x. \<not> entry x) (butlast path @ [last path])"
    using p(3,5) assms(2) by simp
  then have "list_all (\<lambda>x. \<not> entry x) path" using p(1) by simp
  then show ?thesis using p assms(3) by (simp add: back_path_def successively_append_iff)
qed

lemma enqueue_sets:
  assumes "enqueue path cs (vis, q) = (vis', q')"
  shows "set vis' = set vis \<union> set cs \<and> set q' = set q \<union> (\<lambda>c. (c, path @ [c])) ` (set cs - set vis)"
  using assms
proof (induction cs arbitrary: vis q)
  case (Cons c cs)
  show ?case
  proof (cases "c \<in> set vis")
    case True
    then show ?thesis using Cons.IH [of vis q] Cons.prems by auto
  next
    case False
    then show ?thesis using Cons.IH [of "c # vis" "q @ [(c, path @ [c])]"] Cons.prems by auto
  qed
qed simp

lemma walk_inv_step:
  assumes inv: "walk_inv v entry sink vis ((s, path) # q)" and ns: "\<not> entry s"
    and e: "enqueue path (Callers v s) (vis, q) = (vis', q')"
  shows "walk_inv v entry sink vis' q'"
proof -
  note st = enqueue_sets [OF e]
  have bp: "back_path v entry sink (s, path)" and bq: "list_all (back_path v entry sink) q"
    and sv: "sink \<in> set vis"
    and cl: "\<And>x. x \<in> set vis \<Longrightarrow> x \<in> fst ` set ((s, path) # q) \<or> \<not> entry x \<and> (\<forall>a. calls v a x \<longrightarrow> a \<in> set vis)"
    using inv by (auto simp: walk_inv_def)
  have "list_all (back_path v entry sink) q'"
    using bq st back_path_snoc [OF bp ns] by (auto simp: list_all_iff)
  moreover have "x \<in> fst ` set q' \<or> \<not> entry x \<and> (\<forall>a. calls v a x \<longrightarrow> a \<in> set vis')" if x: "x \<in> set vis'" for x
  proof (cases "x \<in> set vis")
    case False
    then have "(x, path @ [x]) \<in> set q'" using x st by auto
    then show ?thesis by force
  next
    case True
    then show ?thesis using cl [OF True] ns st by auto
  qed
  ultimately show ?thesis using sv st by (simp add: walk_inv_def)
qed

lemma walk_inv_start: "walk_inv v entry sink [sink] [(sink, [sink])]"
  by (simp add: walk_inv_def back_path_def)

lemma walk_some:
  "back_walk v entry vis q = Some path \<Longrightarrow> walk_inv v entry sink vis q \<Longrightarrow>
   back_path v entry sink (last path, path) \<and> entry (last path)"
proof (induction v entry vis q rule: back_walk.induct)
  case (2 v entry vis s p q)
  show ?case
  proof (cases "entry s")
    case True
    then have "p = path" using "2.prems"(1) by simp
    then show ?thesis using True "2.prems"(2) by (simp add: walk_inv_def back_path_def)
  next
    case False
    obtain vis' q' where e: "enqueue p (Callers v s) (vis, q) = (vis', q')" by fastforce
    have "back_walk v entry vis' q' = Some path" using "2.prems"(1) False e by simp
    then show ?thesis using "2.IH" [OF False refl e [symmetric]] walk_inv_step [OF "2.prems"(2) False e] by simp
  qed
qed simp

lemma walk_none:
  "back_walk v entry vis q = None \<Longrightarrow> walk_inv v entry sink vis q \<Longrightarrow> \<exists>vis'. walk_inv v entry sink vis' []"
proof (induction v entry vis q rule: back_walk.induct)
  case (2 v entry vis s p q)
  have ns: "\<not> entry s" using "2.prems"(1) by (auto split: if_splits)
  obtain vis' q' where e: "enqueue p (Callers v s) (vis, q) = (vis', q')" by fastforce
  have "back_walk v entry vis' q' = None" using "2.prems"(1) ns e by simp
  then show ?case using "2.IH" [OF ns refl e [symmetric]] walk_inv_step [OF "2.prems"(2) ns e] by simp
qed auto

lemma closed_no_entry:
  assumes inv: "walk_inv v entry sink vis []" and r: "(calls v)\<^sup>*\<^sup>* e sink"
  shows "\<not> entry e"
proof -
  have "e \<in> set vis" using r
  proof (induction rule: converse_rtranclp_induct)
    case base then show ?case using inv by (simp add: walk_inv_def)
  next
    case (step a b) then show ?case using inv by (auto simp: walk_inv_def)
  qed
  then show ?thesis using inv by (auto simp: walk_inv_def)
qed

lemma back_path_reaches:
  assumes "successively (\<lambda>b a. calls v a b) path" and "path \<noteq> []"
  shows "(calls v)\<^sup>*\<^sup>* (last path) (hd path)"
  using assms
proof (induction path rule: induct_list012)
  case (3 x y zs)
  then have "(calls v)\<^sup>*\<^sup>* (last (y # zs)) y" "calls v y x" by simp_all
  then show ?case by (simp add: rtranclp.rtrancl_into_rtrancl)
qed simp_all

lemma walk_exact:
  "back_walk v entry [sink] [(sink, [sink])] \<noteq> None \<longleftrightarrow> (\<exists>e. entry e \<and> (calls v)\<^sup>*\<^sup>* e sink)"
proof (cases "back_walk v entry [sink] [(sink, [sink])]")
  case None
  from walk_none [OF None walk_inv_start] closed_no_entry None show ?thesis by blast
next
  case (Some path)
  from walk_some [OF Some walk_inv_start] have "back_path v entry sink (last path, path)" "entry (last path)" by auto
  then have "entry (last path) \<and> (calls v)\<^sup>*\<^sup>* (last path) sink"
    using back_path_reaches [of v path] by (auto simp: back_path_def)
  then show ?thesis using Some by blast
qed

lemma last_named_scip: "last_named ss i = Some s \<Longrightarrow> sy_scip s = i"
  unfolding last_named_def by (drule map_of_SomeD) auto

lemma last_named_mem: "s \<in> set ss \<Longrightarrow> last_named ss (sy_scip s) \<noteq> None"
  by (auto simp: last_named_def map_of_eq_None_iff image_image)

lemma view_Symbol_scip:
  assumes "IsRoot v i \<or> calls v a i \<or> calls v i b"
  shows "sy_scip (view_Symbol v i) = i"
proof -
  have "\<exists>s \<in> set (concat (map (\<lambda>e. [fst e, snd e]) (cv_edges v)) @ cv_roots v). sy_scip s = i"
    using assms by (fastforce simp: IsRoot_def calls_def list_ex_iff)
  then have "last_named (concat (map (\<lambda>e. [fst e, snd e]) (cv_edges v)) @ cv_roots v) i \<noteq> None"
    using last_named_mem by metis
  then show ?thesis
    using last_named_scip [of "concat (map (\<lambda>e. [fst e, snd e]) (cv_edges v)) @ cv_roots v" i]
    by (auto simp: view_Symbol_def split: option.splits)
qed

lemma symOf_scip:
  assumes "entry_point v ings i \<or> calls v a i \<or> calls v i b"
  shows "sy_scip (symOf v ings i) = i"
proof (cases "\<not> IsRoot v i \<and> is_ingress ings i")
  case True
  then obtain s where "last_named (ingress_syms ings) i = Some s" by (auto simp: is_ingress_def)
  then show ?thesis using True last_named_scip by (simp add: symOf_def)
next
  case False
  then have "IsRoot v i \<or> calls v a i \<or> calls v i b" using assms by (auto simp: entry_point_def)
  then have "sy_scip (view_Symbol v i) = i" by (rule view_Symbol_scip)
  moreover have "symOf v ings i = view_Symbol v i"
    using False by (auto simp: symOf_def is_ingress_def split: option.splits)
  ultimately show ?thesis by simp
qed

lemma successively_endpoint:
  "successively R path \<Longrightarrow> x \<in> set path \<Longrightarrow> x = last path \<or> (\<exists>y. R x y)"
  by (induction path rule: induct_list012) auto

lemma trace_ids:
  assumes "back_path v (entry_point v ings) sink (last path, path)" and "entry_point v ings (last path)"
  shows "map (sy_scip \<circ> symOf v ings) path = path"
proof -
  have s: "successively (\<lambda>b a. calls v a b) path" using assms(1) by (simp add: back_path_def)
  have "sy_scip (symOf v ings x) = x" if "x \<in> set path" for x
    using successively_endpoint [OF s that] assms(2) symOf_scip by blast
  then show ?thesis by (simp add: map_idI)
qed

definition trace_from_entry :: "CallGraphView \<Rightarrow> Symbol list \<Rightarrow> gostring \<Rightarrow> PluginPath \<Rightarrow> bool" where
  "trace_from_entry v ings sink p \<longleftrightarrow>
     (let ids = map sy_scip (wp_trace p)
      in ids \<noteq> [] \<and> last ids = sink \<and> sy_scip (wp_sink p) = sink
         \<and> successively (calls v) ids
         \<and> entry_point v ings (hd ids) \<and> list_all (\<lambda>i. \<not> entry_point v ings i) (tl ids)
         \<and> sy_scip (wp_ingress p) = (if is_ingress ings (hd ids) then hd ids else []))"

lemma walk_trace:
  assumes "back_walk v (entry_point v ings) [sink] [(sink, [sink])] = Some path"
  shows "trace_from_entry v ings sink
     \<lparr>wp_sink = symOf v ings sink,
      wp_ingress = (if is_ingress ings (last path) then symOf v ings (last path) else zero_symbol),
      wp_trace = map (symOf v ings) (rev path)\<rparr>"
proof -
  have b: "back_path v (entry_point v ings) sink (last path, path)" and e: "entry_point v ings (last path)"
    using walk_some [OF assms walk_inv_start] by auto
  have p: "path \<noteq> []" "hd path = sink" "successively (\<lambda>b a. calls v a b) path"
    "list_all (\<lambda>x. \<not> entry_point v ings x) (butlast path)"
    using b by (simp_all add: back_path_def)
  have t: "map (sy_scip \<circ> symOf v ings) path = path" by (rule trace_ids [OF b e])
  then have r: "map (sy_scip \<circ> symOf v ings) (rev path) = rev path" by (simp add: rev_map [symmetric])
  have "sy_scip (symOf v ings sink) = sink"
    using t p(1,2) by (cases path) auto
  moreover have "sy_scip (symOf v ings (last path)) = last path" using e symOf_scip by blast
  moreover have "tl (rev path) = rev (butlast path)" using butlast_rev [of "rev path"] by simp
  ultimately show ?thesis
    using p e by (simp add: trace_from_entry_def Let_def r hd_rev last_rev successively_rev list_all_rev zero_symbol_def)
qed

text \<open>C23: the walk back from a first-party sink finds a reach path exactly when the sink is named and
  some entry point (an ingress or a root of the call graph) reaches it over the graph's call edges,
  the sink itself included; the path it reports is then a chain of call edges of the graph that
  starts at an entry point, passes no other entry point and ends at the sink, and names an ingress
  exactly when its head is one.\<close>

theorem first_party_exact:
  "(firstPartyReachPaths v ings sink \<noteq> []
      \<longleftrightarrow> sink \<noteq> [] \<and> cv_edges v \<noteq> [] \<and> (\<exists>e. entry_point v ings e \<and> (calls v)\<^sup>*\<^sup>* e sink))
   \<and> list_all (trace_from_entry v ings sink) (firstPartyReachPaths v ings sink)"
proof (cases "sink = [] \<or> cv_edges v = []")
  case True
  then show ?thesis by (auto simp: firstPartyReachPaths_def)
next
  case False
  then show ?thesis
    using walk_exact [of v "entry_point v ings" sink] walk_trace [of v ings sink]
    by (auto simp: firstPartyReachPaths_def split: option.splits)
qed

section \<open>What counts toward the selected package\<close>

definition provably_outside :: "semver_lib \<Rightarrow> reachAttribution \<Rightarrow> PluginPath \<Rightarrow> bool" where
  "provably_outside sv a p \<longleftrightarrow>
     (case owner a (sy_package (wp_sink p)) of
        OwnerOther q \<Rightarrow>
          everyVersionOutside sv (pp_versions (pr_package q)) (pp_complete (pr_package q)) (pr_known_ranges q) (ra_trust a)
      | _ \<Rightarrow> False)"

definition is_selected :: "pathOwner \<Rightarrow> bool" where "is_selected o1 = (case o1 of OwnerSelected \<Rightarrow> True | _ \<Rightarrow> False)"
definition is_none :: "pathOwner \<Rightarrow> bool" where "is_none o1 = (case o1 of OwnerNone \<Rightarrow> True | _ \<Rightarrow> False)"
definition is_other :: "pathOwner \<Rightarrow> bool" where "is_other o1 = (case o1 of OwnerOther q \<Rightarrow> True | _ \<Rightarrow> False)"

lemma sort_paths_eq:
  "sort_paths sv a ps (own, una, oth) =
     (own @ filter (\<lambda>p. is_selected (owner a (sy_package (wp_sink p)))) ps,
      una @ filter (\<lambda>p. is_none (owner a (sy_package (wp_sink p)))) ps,
      oth @ filter (\<lambda>p. is_other (owner a (sy_package (wp_sink p))) \<and> \<not> provably_outside sv a p) ps)"
  by (induction ps arbitrary: own una oth)
    (simp_all add: is_selected_def is_none_def is_other_def provably_outside_def split: pathOwner.splits)

lemma provably_outside_owner:
  "provably_outside sv a p \<longleftrightarrow>
     (\<exists>q. owner a (sy_package (wp_sink p)) = OwnerOther q \<and> ra_trust a = TrustFirstParty
          \<and> all_cleared sv (pr_known_ranges q) (pp_versions (pr_package q)) (pp_complete (pr_package q)))"
  by (auto simp: provably_outside_def all_cleared_iff split: pathOwner.splits)

lemma counted_mem: "p \<in> set (countedReachPaths sv paths a) \<longleftrightarrow> p \<in> set paths \<and> \<not> provably_outside sv a p"
  by (cases "owner a (sy_package (wp_sink p))")
    (auto simp: countedReachPaths_def sort_paths_eq is_selected_def is_none_def is_other_def provably_outside_def)

lemma counted_length:
  "length (countedReachPaths sv paths a) = length (filter (\<lambda>p. \<not> provably_outside sv a p) paths)"
proof (induction paths)
  case (Cons p paths)
  then show ?case
    by (cases "owner a (sy_package (wp_sink p))")
      (simp_all add: countedReachPaths_def sort_paths_eq is_selected_def is_none_def is_other_def provably_outside_def)
qed (simp add: countedReachPaths_def)

definition attributed :: "semver_lib \<Rightarrow> reachAttribution option \<Rightarrow> PluginPath list \<Rightarrow> PluginPath list" where
  "attributed sv attribution paths =
     (case attribution of None \<Rightarrow> paths | Some a \<Rightarrow> countedReachPaths sv paths a)"

definition counts :: "semver_lib \<Rightarrow> reachAttribution option \<Rightarrow> PluginPath \<Rightarrow> bool" where
  "counts sv attribution p \<longleftrightarrow> (case attribution of None \<Rightarrow> True | Some a \<Rightarrow> \<not> provably_outside sv a p)"

lemma counts_eq:
  "counts sv attribution p \<longleftrightarrow>
     \<not> (\<exists>a q. attribution = Some a \<and> owner a (sy_package (wp_sink p)) = OwnerOther q
            \<and> ra_trust a = TrustFirstParty
            \<and> all_cleared sv (pr_known_ranges q) (pp_versions (pr_package q)) (pp_complete (pr_package q)))"
  by (auto simp: counts_def provably_outside_owner split: option.splits)

lemma counts_fun:
  "counts sv attribution =
     (\<lambda>p. \<not> (\<exists>a q. attribution = Some a \<and> owner a (sy_package (wp_sink p)) = OwnerOther q
            \<and> ra_trust a = TrustFirstParty
            \<and> all_cleared sv (pr_known_ranges q) (pp_versions (pr_package q)) (pp_complete (pr_package q))))"
  by (rule ext) (rule counts_eq)

lemma attributed_length: "length (attributed sv attribution paths) = length (filter (counts sv attribution) paths)"
  by (simp add: attributed_def counts_def [abs_def] counted_length split: option.splits)

lemma attributed_sub: "set (attributed sv attribution paths) \<subseteq> set paths"
  by (auto simp: attributed_def counted_mem split: option.splits)

lemma unless_empty:
  "set y \<subseteq> set x \<Longrightarrow>
   set (if y = [] then x else y) \<subseteq> set x \<and> ((if y = [] then x else y) = [] \<longleftrightarrow> x = [])"
  by auto

text \<open>The longest name among a list that owns the import path.\<close>

definition longest :: "nat list \<Rightarrow> nat" where "longest ls = foldr max ls 0"

lemma longest_simps [simp]: "longest [] = 0" "longest (l # ls) = max l (longest ls)"
  by (simp_all add: longest_def)

lemma best_selected_eq:
  "best_selected pkg ns (b, o1) =
     (let m = longest (map (\<lambda>n. ownedLength n pkg) ns) in (max b m, if m > b then OwnerSelected else o1))"
  by (induction ns arbitrary: b o1) (auto simp: Let_def)

lemma best_other_eq:
  "longest (map (other_length pkg) ps) \<le> b \<Longrightarrow> best_other pkg ps (b, o1) = (b, o1)"
  by (induction ps arbitrary: b o1) auto

lemma best_other_some:
  "b < longest (map (other_length pkg) ps) \<Longrightarrow>
   \<exists>q \<in> set ps. other_length pkg q = longest (map (other_length pkg) ps)
     \<and> best_other pkg ps (b, o1) = (longest (map (other_length pkg) ps), OwnerOther q)"
proof (induction ps arbitrary: b o1)
  case (Cons p ps)
  let ?l = "other_length pkg p" and ?m = "longest (map (other_length pkg) ps)"
  show ?case
  proof (cases "?l > b")
    case True
    then show ?thesis
      using Cons.IH [of ?l "OwnerOther p"] best_other_eq [of pkg ps ?l "OwnerOther p"] by (cases "?l < ?m") auto
  next
    case False
    then have "b < ?m" using Cons.prems by auto
    then show ?thesis using Cons.IH [of b o1] False by (auto simp: max_def)
  qed
qed simp

definition in_project :: "reachAttribution \<Rightarrow> gostring \<Rightarrow> bool" where
  "in_project a pkg \<longleftrightarrow>
     pkg = [] \<or> ra_project a \<noteq> [] \<and> (pkg = ra_project a \<or> has_prefix pkg (ra_project a @ ''/''))"

text \<open>a sink's import path is attributed to the owner of the longest matching name: to nobody when
  it is empty, inside the scanned project or owned by no affected package; to the selected package
  when none of the other packages owns it by a longer name; else to an other package of the build
  whose name is a longest one.\<close>

theorem owner_longest_name:
  "let ls = longest (map (\<lambda>n. ownedLength n pkg) (ra_selected a));
       lo = longest (map (other_length pkg) (ra_others a))
   in case owner a pkg of
        OwnerNone \<Rightarrow> in_project a pkg \<or> ls = 0 \<and> lo = 0
      | OwnerSelected \<Rightarrow> \<not> in_project a pkg \<and> 0 < ls \<and> lo \<le> ls
      | OwnerOther q \<Rightarrow> \<not> in_project a pkg \<and> ls < lo \<and> q \<in> set (ra_others a) \<and> other_length pkg q = lo"
proof (cases "in_project a pkg")
  case True
  then show ?thesis by (simp add: owner_def in_project_def Let_def)
next
  case False
  let ?ls = "longest (map (\<lambda>n. ownedLength n pkg) (ra_selected a))"
    and ?lo = "longest (map (other_length pkg) (ra_others a))"
  have o: "owner a pkg = snd (best_other pkg (ra_others a) (?ls, if 0 < ?ls then OwnerSelected else OwnerNone))"
    using False by (auto simp: owner_def in_project_def best_selected_eq Let_def)
  show ?thesis
  proof (cases "?ls < ?lo")
    case True
    then show ?thesis using best_other_some [OF True, of "if 0 < ?ls then OwnerSelected else OwnerNone"] False o
      by (auto simp: Let_def)
  next
    case le: False
    then show ?thesis using best_other_eq [of pkg "ra_others a" ?ls] False o by (auto simp: Let_def)
  qed
qed

text \<open>C22: of the reach paths of a run, the analyzer's or the walk's when it has none, exactly those
  get a candidate pair whose sink is not owned by another affected package whose versions in the
  build are a complete, non-empty list all provably outside its ranges, under first-party advisory
  trust; a pair is marked partial exactly when the analysis was partial or the path came from the
  walk; and the stored record is empty only when there was no path at all.\<close>

theorem reach_counts_unless_cleared:
  "let paths = (if length reachPaths = 0 then concat (map (firstPartyReachPaths cg ings) sinks) else reachPaths);
       r = reach_outcome sv reachPaths complete cg ings sinks attribution sinkRef reachRef ingressRef
   in length (ro_pairs r)
        = length (filter (\<lambda>p. \<not> (\<exists>a q. attribution = Some a \<and> owner a (sy_package (wp_sink p)) = OwnerOther q
            \<and> ra_trust a = TrustFirstParty
            \<and> all_cleared sv (pr_known_ranges q) (pp_versions (pr_package q)) (pp_complete (pr_package q)))) paths)
      \<and> set (ro_stored r) \<subseteq> set paths \<and> (ro_stored r = [] \<longleftrightarrow> paths = [])
      \<and> list_all (\<lambda>c. cp_partial c \<noteq> (complete \<and> 0 < length reachPaths)) (ro_pairs r)"
proof -
  let ?paths = "if length reachPaths = 0 then concat (map (firstPartyReachPaths cg ings) sinks) else reachPaths"
  let ?r = "reach_outcome sv reachPaths complete cg ings sinks attribution sinkRef reachRef ingressRef"
  have r: "?r = \<lparr>ro_stored = (if attributed sv attribution ?paths = [] then ?paths else attributed sv attribution ?paths),
       ro_pairs = map (\<lambda>p. \<lparr>cp_schemaVersion = CandidatePairSchemaVersion, cp_sink = sinkRef,
          cp_ingress = (if sy_scip (wp_ingress p) \<noteq> [] then Some ingressRef else None),
          cp_path = reachRef, cp_partial = (ro_firstParty ?r \<or> \<not> complete)\<rparr>) (attributed sv attribution ?paths),
       ro_firstParty = (length reachPaths = 0 \<and> length ?paths > 0)\<rparr>"
    by (simp add: reach_outcome_def Let_def attributed_def)
  have n: "length (ro_pairs ?r) = length (filter (counts sv attribution) ?paths)"
    by (subst r) (simp add: attributed_length)
  have st: "ro_stored ?r = (if attributed sv attribution ?paths = [] then ?paths else attributed sv attribution ?paths)"
    by (subst r) simp
  have sub: "set (attributed sv attribution ?paths) \<subseteq> set ?paths" by (rule attributed_sub)
  have s: "set (ro_stored ?r) \<subseteq> set ?paths \<and> (ro_stored ?r = [] \<longleftrightarrow> ?paths = [])"
    unfolding st by (rule unless_empty [OF sub])
  have c: "list_all (\<lambda>c. cp_partial c \<noteq> (complete \<and> 0 < length reachPaths)) (ro_pairs ?r)"
    using sub by (subst r) (auto simp: list_all_iff reach_outcome_def Let_def)
  show ?thesis unfolding Let_def counts_fun [symmetric] using n s c by blast
qed

end
