(* ===== verification/Vuln_Class.thy ===== *)
theory Vuln_Class
  imports Assay_Prelude
begin

text \<open>
  Recognition of a vulnerability class: src/vulnclass/vulnclass.go, and the reading of a declared
  sink_kind in src/pipeline/advisory_source.go. A class is an open string; the empty one is "not
  recognized". The lemmas show that recognition never leaves the known classes, that a recognized
  CWE settles the class whatever the summary says, and that a declared sink kind that needs the
  CWEs to decide is settled by exactly one class they name, in any order.
\<close>

section \<open>The classes and their tables\<close>

definition ClassUnknown :: gostring where "ClassUnknown = []"
definition ClassMemorySafety :: gostring where "ClassMemorySafety = ''memory_safety''"
definition ClassInjection :: gostring where "ClassInjection = ''injection''"
definition ClassPathTraversal :: gostring where "ClassPathTraversal = ''path_traversal''"
definition ClassDeserialize :: gostring where "ClassDeserialize = ''deserialization''"
definition ClassSSRF :: gostring where "ClassSSRF = ''ssrf''"
definition ClassAuthBypass :: gostring where "ClassAuthBypass = ''auth_bypass''"
definition ClassDoS :: gostring where "ClassDoS = ''dos''"
definition ClassTemplateInj :: gostring where "ClassTemplateInj = ''template_injection''"
definition ClassUnsafeRefl :: gostring where "ClassUnsafeRefl = ''unsafe_reflection''"
definition ClassOpenRedirect :: gostring where "ClassOpenRedirect = ''open_redirect''"
definition ClassPrototypePollution :: gostring where "ClassPrototypePollution = ''prototype_pollution''"

lemmas class_defs = ClassUnknown_def ClassMemorySafety_def ClassInjection_def ClassPathTraversal_def
  ClassDeserialize_def ClassSSRF_def ClassAuthBypass_def ClassDoS_def ClassTemplateInj_def ClassUnsafeRefl_def
  ClassOpenRedirect_def ClassPrototypePollution_def

definition KnownClasses :: "gostring list" where
  "KnownClasses =
    [ClassMemorySafety, ClassInjection, ClassPathTraversal, ClassDeserialize,
     ClassSSRF, ClassAuthBypass, ClassDoS, ClassTemplateInj, ClassUnsafeRefl,
     ClassOpenRedirect, ClassPrototypePollution]"

record AdvisoryClass =
  ac_cwes :: "gostring list"
  ac_summary :: gostring

definition cweClass :: "(gostring \<times> gostring) list" where
  "cweClass =
    [(''CWE-918'', ClassSSRF),
     (''CWE-287'', ClassAuthBypass),
     (''CWE-285'', ClassAuthBypass),
     (''CWE-862'', ClassAuthBypass),
     (''CWE-863'', ClassAuthBypass),
     (''CWE-306'', ClassAuthBypass),
     (''CWE-400'', ClassDoS),
     (''CWE-770'', ClassDoS),
     (''CWE-1333'', ClassDoS),
     (''CWE-1336'', ClassTemplateInj),
     (''CWE-94'', ClassTemplateInj),
     (''CWE-470'', ClassUnsafeRefl),
     (''CWE-787'', ClassMemorySafety),
     (''CWE-125'', ClassMemorySafety),
     (''CWE-77'', ClassInjection),
     (''CWE-78'', ClassInjection),
     (''CWE-89'', ClassInjection),
     (''CWE-22'', ClassPathTraversal),
     (''CWE-502'', ClassDeserialize),
     (''CWE-601'', ClassOpenRedirect),
     (''CWE-1321'', ClassPrototypePollution)]"

definition summaryKeywords :: "(gostring \<times> gostring) list" where
  "summaryKeywords =
    [(''server-side request forgery'', ClassSSRF),
     (''ssrf'', ClassSSRF),
     (''server-side template injection'', ClassTemplateInj),
     (''template injection'', ClassTemplateInj),
     (''authentication bypass'', ClassAuthBypass),
     (''authorization bypass'', ClassAuthBypass),
     (''auth bypass'', ClassAuthBypass),
     (''access control'', ClassAuthBypass),
     (''denial of service'', ClassDoS),
     (''resource exhaustion'', ClassDoS),
     (''uncontrolled resource consumption'', ClassDoS),
     (''unbounded'', ClassDoS),
     (''regular expression denial'', ClassDoS),
     (''unsafe reflection'', ClassUnsafeRefl),
     (''command injection'', ClassInjection),
     (''sql injection'', ClassInjection),
     (''code injection'', ClassInjection),
     (''path traversal'', ClassPathTraversal),
     (''directory traversal'', ClassPathTraversal),
     (''zip slip'', ClassPathTraversal),
     (''deserialization'', ClassDeserialize),
     (''open redirect'', ClassOpenRedirect),
     (''prototype pollution'', ClassPrototypePollution),
     (''out-of-bounds'', ClassMemorySafety),
     (''out of bounds'', ClassMemorySafety),
     (''buffer overflow'', ClassMemorySafety),
     (''panic'', ClassMemorySafety)]"

section \<open>Recognition\<close>

definition normalizeCWE :: "gostring \<Rightarrow> gostring" where
  "normalizeCWE raw =
    (let t = to_upper (trim_space raw)
     in if t = [] then []
        else if \<not> has_prefix t ''CWE-'' then ''CWE-'' @ trim_prefix t ''CWE'' else t)"

definition ClassFromCWE :: "gostring \<Rightarrow> gostring option" where
  "ClassFromCWE raw = map_of cweClass (normalizeCWE raw)"

fun first_cwe_class :: "gostring list \<Rightarrow> gostring option" where
  "first_cwe_class [] = None"
| "first_cwe_class (raw # rest) =
    (case map_of cweClass (normalizeCWE raw) of Some c \<Rightarrow> Some c | None \<Rightarrow> first_cwe_class rest)"

fun first_keyword :: "gostring \<Rightarrow> (gostring \<times> gostring) list \<Rightarrow> gostring" where
  "first_keyword s [] = ClassUnknown"
| "first_keyword s ((phrase, c) # rest) = (if go_contains s phrase then c else first_keyword s rest)"

definition ClassifyAdvisory :: "AdvisoryClass \<Rightarrow> gostring" where
  "ClassifyAdvisory adv =
    (case first_cwe_class (ac_cwes adv) of
       Some c \<Rightarrow> c
     | None \<Rightarrow> first_keyword (to_lower (ac_summary adv)) summaryKeywords)"

section \<open>The declared sink kind\<close>

definition codeExecutionFanout :: "gostring list" where
  "codeExecutionFanout = [ClassDeserialize, ClassTemplateInj, ClassInjection]"

definition intelSinkKindClass :: "(gostring \<times> gostring) list" where
  "intelSinkKindClass =
    [(''memory_corruption'', ClassMemorySafety), (''resource_exhaustion'', ClassDoS)]"

text \<open>The set \<open>found\<close> of the loop, as a list without duplicates.\<close>

fun fanout_classes :: "gostring list \<Rightarrow> gostring list \<Rightarrow> gostring list" where
  "fanout_classes [] found = found"
| "fanout_classes (raw # rest) found =
    (case ClassFromCWE raw of
       None \<Rightarrow> fanout_classes rest found
     | Some c \<Rightarrow>
         if c \<notin> set codeExecutionFanout then fanout_classes rest found
         else fanout_classes rest (List.insert c found))"

definition classFromCodeExecutionCWEs :: "gostring list \<Rightarrow> gostring option" where
  "classFromCodeExecutionCWEs cwes =
    (let found = fanout_classes cwes []
     in if length found \<noteq> 1 then None else Some (hd found))"

definition native_class :: "gostring \<Rightarrow> bool" where
  "native_class s =
    (s = ClassMemorySafety \<or> s = ClassInjection \<or> s = ClassPathTraversal \<or>
     s = ClassDeserialize \<or> s = ClassSSRF \<or> s = ClassAuthBypass \<or>
     s = ClassDoS \<or> s = ClassTemplateInj \<or> s = ClassUnsafeRefl \<or>
     s = ClassOpenRedirect \<or> s = ClassPrototypePollution)"

definition classFromSinkKind :: "gostring \<Rightarrow> gostring list \<Rightarrow> gostring option" where
  "classFromSinkKind s cwes =
    (if native_class s then Some s
     else
       (case map_of intelSinkKindClass s of
          Some c \<Rightarrow> Some c
        | None \<Rightarrow> if s = ''code_execution'' then classFromCodeExecutionCWEs cwes else None))"

definition sinkKindRecognized :: "gostring \<Rightarrow> bool" where
  "sinkKindRecognized s =
    (if s = [] \<or> s = ''code_execution'' then True
     else if native_class s then True
     else map_of intelSinkKindClass s \<noteq> None)"

section \<open>Lemmas\<close>

lemma cweClass_known: "map_of cweClass n = Some c \<Longrightarrow> c \<in> set KnownClasses"
  by (drule map_of_SomeD) (auto simp: cweClass_def KnownClasses_def)

lemma first_cwe_known: "first_cwe_class cs = Some c \<Longrightarrow> c \<in> set KnownClasses"
  by (induction cs) (auto split: option.splits dest: cweClass_known)

lemma first_keyword_known: "set (map snd ks) \<subseteq> insert ClassUnknown K \<Longrightarrow> first_keyword s ks \<in> insert ClassUnknown K"
  by (induction s ks rule: first_keyword.induct) auto

lemma classify_known: "ClassifyAdvisory adv \<in> insert ClassUnknown (set KnownClasses)"
proof -
  have "set (map snd summaryKeywords) \<subseteq> insert ClassUnknown (set KnownClasses)"
    by (simp add: summaryKeywords_def KnownClasses_def)
  from first_keyword_known [OF this] show ?thesis
    using first_cwe_known by (auto simp: ClassifyAdvisory_def split: option.splits)
qed

lemma native_class_known: "native_class s \<longleftrightarrow> s \<in> set KnownClasses"
  by (auto simp: native_class_def KnownClasses_def)

lemma fanout_set:
  "set (fanout_classes cwes found) =
     set found \<union> {c \<in> set codeExecutionFanout. \<exists>raw \<in> set cwes. ClassFromCWE raw = Some c}"
  by (induction cwes found rule: fanout_classes.induct) (auto split: option.splits)

lemma fanout_distinct: "distinct found \<Longrightarrow> distinct (fanout_classes cwes found)"
  by (induction cwes found rule: fanout_classes.induct) (auto split: option.splits)

lemma one_element: "distinct xs \<Longrightarrow> length xs = 1 \<and> hd xs = c \<longleftrightarrow> set xs = {c}"
  by (cases xs; cases "tl xs") auto

lemma code_execution_exact:
  "classFromCodeExecutionCWEs cwes = Some c \<longleftrightarrow>
     {d \<in> set codeExecutionFanout. \<exists>raw \<in> set cwes. ClassFromCWE raw = Some d} = {c}"
  using one_element [OF fanout_distinct [of "[]" cwes], of c] fanout_set [of cwes "[]"]
  by (auto simp: classFromCodeExecutionCWEs_def Let_def)

lemma intel_known: "map_of intelSinkKindClass s = Some c \<Longrightarrow> c \<in> set KnownClasses \<and> s \<noteq> ''code_execution''"
  by (auto simp: intelSinkKindClass_def KnownClasses_def split: if_splits)

lemma classFromSinkKind_exact:
  "classFromSinkKind s cwes = Some c \<longleftrightarrow>
     (if native_class s then c = s
      else if s = ''code_execution''
        then {d \<in> set codeExecutionFanout. \<exists>raw \<in> set cwes. ClassFromCWE raw = Some d} = {c}
      else map_of intelSinkKindClass s = Some c)"
proof -
  have "map_of intelSinkKindClass ''code_execution'' = None" by (simp add: intelSinkKindClass_def)
  then show ?thesis
    using code_execution_exact [of cwes c] by (auto simp: classFromSinkKind_def split: option.splits)
qed

lemma fanout_known: "set codeExecutionFanout \<subseteq> set KnownClasses"
  by (simp add: codeExecutionFanout_def KnownClasses_def)

lemma classFromSinkKind_known:
  assumes "classFromSinkKind s cwes = Some c"
  shows "c \<in> set KnownClasses"
proof -
  have "{d \<in> set codeExecutionFanout. \<exists>raw \<in> set cwes. ClassFromCWE raw = Some d} = {c} \<Longrightarrow> c \<in> set codeExecutionFanout"
    by blast
  then show ?thesis
    using assms fanout_known native_class_known [of s] intel_known [of s c]
    by (auto simp: classFromSinkKind_exact split: if_splits)
qed

end
