(* ===== verification/Advisory_Facts.thy ===== *)
theory Advisory_Facts
  imports Disqualification Plugin_Types Vuln_Class
begin

text \<open>
  One advisory document of the corpus and the facts read from it: the wire types and toFacts of
  src/pipeline/advisory_source.go, the fact types of src/pipeline/stages.go. A document is the value
  its JSON decodes to; a nil pointer is None. The lemmas show when a document is rejected, that what
  is accepted is whole, and that every element of the affected-package set is either kept or listed
  as dropped.
\<close>

section \<open>Facts\<close>

text \<open>The type Range is the record \<open>osvRange\<close> of Affected_Range. An affected package carries, beyond the
  identity and the ranges that record AffectedPackage has there, its scheme, bounds and symbols.\<close>

record packageFacts = AffectedPackage +
  pf_versionScheme :: gostring
  pf_upperExclusive :: gostring
  pf_fixedVersion :: gostring
  pf_symbols :: "gostring list"

record MaliciousPackageFacts =
  mpf_declared :: bool
  mpf_versions :: "gostring list"

datatype Presence = PresenceAbsent | PresenceDeclaredEmpty | PresenceDeclaredValues

definition presenceFromZero :: "bool \<Rightarrow> Presence" where
  "presenceFromZero zero = (if zero then PresenceDeclaredEmpty else PresenceDeclaredValues)"

record TriggerRoute =
  tro_ingressKind :: gostring
  tro_route :: gostring
  tro_param :: gostring
  tro_malformedToken :: gostring
  tro_declared :: Presence

definition no_trigger :: TriggerRoute where
  "no_trigger = \<lparr>tro_ingressKind = [], tro_route = [], tro_param = [], tro_malformedToken = [],
     tro_declared = PresenceAbsent\<rparr>"

definition TriggerRoute_Zero :: "TriggerRoute \<Rightarrow> bool" where
  "TriggerRoute_Zero t =
    (tro_ingressKind t = [] \<and> tro_route t = [] \<and> tro_param t = [] \<and> tro_malformedToken t = [])"

record FixHint =
  fxh_upstreamCommit :: gostring
  fxh_guardShape :: gostring
  fxh_failedFixClass :: gostring
  fxh_declared :: Presence

definition no_fix :: FixHint where
  "no_fix = \<lparr>fxh_upstreamCommit = [], fxh_guardShape = [], fxh_failedFixClass = [], fxh_declared = PresenceAbsent\<rparr>"

definition FixHint_Zero :: "FixHint \<Rightarrow> bool" where
  "FixHint_Zero f = (fxh_upstreamCommit f = [] \<and> fxh_guardShape f = [] \<and> fxh_failedFixClass f = [])"

record FactProvenance =
  fpv_source :: gostring
  fpv_inputDigest :: gostring
  fpv_trustTier :: gostring

definition no_provenance :: FactProvenance where
  "no_provenance = \<lparr>fpv_source = [], fpv_inputDigest = [], fpv_trustTier = []\<rparr>"

record Lineage =
  lin_incompleteFixOf :: gostring
  lin_refixedBy :: gostring

definition no_lineage :: Lineage where
  "no_lineage = \<lparr>lin_incompleteFixOf = [], lin_refixedBy = []\<rparr>"

record ConfigOperand =
  cfo_key :: gostring
  cfo_unsafeValue :: gostring
  cfo_declared :: Presence

definition no_config :: ConfigOperand where
  "no_config = \<lparr>cfo_key = [], cfo_unsafeValue = [], cfo_declared = PresenceAbsent\<rparr>"

definition ConfigOperand_Zero :: "ConfigOperand \<Rightarrow> bool" where
  "ConfigOperand_Zero c = (cfo_key c = [] \<and> cfo_unsafeValue c = [])"

record GuardVariant =
  gvt_symbol :: gostring
  gvt_version :: gostring
  gvt_forBypass :: gostring
  gvt_sufficient :: bool

record AdvisoryFacts =
  fct_module :: gostring
  fct_aliases :: "gostring list"
  fct_upperExclusive :: gostring
  fct_fixedVersion :: gostring
  fct_versionScheme :: gostring
  fct_coordinate :: gostring
  fct_purl :: gostring
  fct_symbols :: "gostring list"
  fct_symbolProvenance :: gostring
  fct_conditional :: "gostring list"
  fct_guardSymbols :: "gostring list"
  fct_cwes :: "gostring list"
  fct_summary :: gostring
  fct_ranges :: "osvRange list"
  fct_builtIn :: bool
  fct_provenance :: FactProvenance
  fct_lineage :: Lineage
  fct_sinkKind :: gostring
  fct_triggerCondition :: gostring
  fct_prerequisite :: gostring
  fct_configKey :: ConfigOperand
  fct_featureFlag :: gostring
  fct_gadgetClasses :: "gostring list"
  fct_guardSufficiency :: "GuardVariant list"
  fct_pocSignal :: bool
  fct_withdrawn :: bool
  fct_trigger :: TriggerRoute
  fct_fix :: FixHint
  fct_pocSummary :: gostring
  fct_packages :: "packageFacts list"
  fct_dropped :: "gostring list"
  fct_symbolsTyped :: "Symbol list"
  fct_malicious :: MaliciousPackageFacts

definition zero_facts :: AdvisoryFacts where
  "zero_facts = \<lparr>fct_module = [], fct_aliases = [], fct_upperExclusive = [], fct_fixedVersion = [],
     fct_versionScheme = [], fct_coordinate = [], fct_purl = [], fct_symbols = [], fct_symbolProvenance = [],
     fct_conditional = [], fct_guardSymbols = [], fct_cwes = [], fct_summary = [], fct_ranges = [],
     fct_builtIn = False, fct_provenance = no_provenance, fct_lineage = no_lineage, fct_sinkKind = [],
     fct_triggerCondition = [], fct_prerequisite = [], fct_configKey = no_config, fct_featureFlag = [],
     fct_gadgetClasses = [], fct_guardSufficiency = [], fct_pocSignal = False, fct_withdrawn = False,
     fct_trigger = no_trigger, fct_fix = no_fix, fct_pocSummary = [], fct_packages = [], fct_dropped = [],
     fct_symbolsTyped = [], fct_malicious = \<lparr>mpf_declared = False, mpf_versions = []\<rparr>\<rparr>"

text \<open>resolveVulnClass, the proof-route class of an advisory.\<close>

definition resolveVulnClass :: "AdvisoryFacts \<Rightarrow> gostring" where
  "resolveVulnClass facts =
    (if fct_withdrawn facts then ClassUnknown
     else
       (let classified = ClassifyAdvisory \<lparr>ac_cwes = fct_cwes facts, ac_summary = fct_summary facts\<rparr>
        in case classFromSinkKind (fct_sinkKind facts) (fct_cwes facts) of
             Some k \<Rightarrow> k
           | None \<Rightarrow> classified))"

section \<open>The wire types\<close>

record docRange =
  drg_introduced :: gostring
  drg_fixed :: gostring
  drg_lastAffected :: gostring
  drg_fixedVersion :: gostring
  drg_type :: gostring

record docAffectedPackage =
  dap_module :: gostring
  dap_coordinate :: gostring
  dap_purl :: gostring
  dap_versionScheme :: gostring
  dap_upperExclusive :: gostring
  dap_fixedVersion :: gostring
  dap_ranges :: "docRange list"
  dap_symbols :: "gostring list"

record docAffectedRange =
  dar_introduced :: gostring
  dar_upperExclusive :: gostring
  dar_lastAffected :: gostring
  dar_fixed :: gostring
  dar_type :: gostring

record docAffectedEntry =
  dae_coordinate :: gostring
  dae_purl :: gostring
  dae_versionScheme :: gostring
  dae_ranges :: "docAffectedRange list"
  dae_fixedVersions :: "gostring list"

record docTrigger =
  dtr_ingressKind :: gostring
  dtr_route :: gostring
  dtr_param :: gostring
  dtr_malformedToken :: gostring

record docFix =
  dfx_upstreamCommit :: gostring
  dfx_guardShape :: gostring
  dfx_failedFixClass :: gostring

record docMaliciousPackage =
  dmp_affectedVersions :: "gostring list"

record docConfigKey =
  dck_key :: gostring
  dck_unsafeValue :: gostring

record docGuardVariant =
  dgv_symbol :: gostring
  dgv_version :: gostring
  dgv_forBypass :: gostring
  dgv_sufficient :: bool

record docPocSignal =
  dps_available :: bool

record docProv =
  dpv_source :: gostring
  dpv_inputDigest :: gostring
  dpv_trustTier :: gostring

record docLineage =
  dln_incompleteFixOf :: gostring
  dln_refixedBy :: gostring

record advisoryDoc =
  doc_schemaVersion :: gostring
  doc_vulnID :: gostring
  doc_module :: gostring
  doc_aliases :: "gostring list"
  doc_upperExclusive :: gostring
  doc_fixedVersion :: gostring
  doc_versionScheme :: gostring
  doc_coordinate :: gostring
  doc_purl :: gostring
  doc_symbols :: "gostring list"
  doc_guardSymbols :: "gostring list"
  doc_cwes :: "gostring list"
  doc_summary :: gostring
  doc_summaryCompat :: gostring
  doc_sinkKind :: gostring
  doc_pocSignal :: "docPocSignal option"
  doc_ranges :: "docRange list"
  doc_provenance :: "docProv option"
  doc_lineage :: "docLineage option"
  doc_withdrawn :: bool
  doc_trigger :: "docTrigger option"
  doc_fix :: "docFix option"
  doc_pocSummary :: gostring
  doc_triggerCondition :: gostring
  doc_prerequisite :: gostring
  doc_configKey :: "docConfigKey option"
  doc_featureFlag :: gostring
  doc_gadgetClasses :: "gostring list"
  doc_guardSufficiency :: "docGuardVariant list"
  doc_malicious :: "docMaliciousPackage option"
  doc_affectedPackages :: "docAffectedPackage list"
  doc_affected :: "docAffectedEntry list"
  doc_symbolsTyped :: "Symbol list"
  doc_symbolProvenance :: gostring

text \<open>docPocSignal.UnmarshalJSON: a bare bool, an object with an available member, else nothing. An object
  member's name is matched without regard to case and the last match stands, as encoding/json does.\<close>

datatype json =
    JNull
  | JBool bool
  | JNumber gostring
  | JString gostring
  | JArray "json list"
  | JObject "(gostring \<times> json) list"

fun available_member :: "(gostring \<times> json) list \<Rightarrow> bool \<Rightarrow> bool option" where
  "available_member [] acc = Some acc"
| "available_member ((k, v) # rest) acc =
    (if \<not> equal_fold k ''available'' then available_member rest acc
     else case v of JBool b \<Rightarrow> available_member rest b | JNull \<Rightarrow> available_member rest acc | _ \<Rightarrow> None)"

definition docPocSignal_UnmarshalJSON :: "json \<Rightarrow> docPocSignal" where
  "docPocSignal_UnmarshalJSON b =
    (case b of
       JBool flag \<Rightarrow> \<lparr>dps_available = flag\<rparr>
     | JNull \<Rightarrow> \<lparr>dps_available = False\<rparr>
     | JObject ms \<Rightarrow> \<lparr>dps_available = (case available_member ms False of None \<Rightarrow> False | Some v \<Rightarrow> v)\<rparr>
     | _ \<Rightarrow> \<lparr>dps_available = False\<rparr>)"

section \<open>The closed vocabularies\<close>

definition normalizedAdvisorySchemaVersion :: gostring where
  "normalizedAdvisorySchemaVersion = ''ferralon.normalized_advisory.v2''"
definition normalizedAdvisorySchemaVersionV3 :: gostring where
  "normalizedAdvisorySchemaVersionV3 = ''ferralon.normalized_advisory.v3''"
definition normalizedAdvisorySchemaVersionV4 :: gostring where
  "normalizedAdvisorySchemaVersionV4 = ''ferralon.normalized_advisory.v4''"

definition schemaVersionRecognized :: "gostring \<Rightarrow> bool" where
  "schemaVersionRecognized v =
    (v = normalizedAdvisorySchemaVersion \<or> v = normalizedAdvisorySchemaVersionV3
     \<or> v = normalizedAdvisorySchemaVersionV4)"

definition recognizedVersionSchemes :: "gostring list" where
  "recognizedVersionSchemes = [[], ''gomod'', ''maven'', ''npm'', ''pypi'', ''nuget'', ''go-toolchain'']"

definition schemeRecognized :: "gostring \<Rightarrow> bool" where
  "schemeRecognized scheme = list_ex (\<lambda>s. scheme = s) recognizedVersionSchemes"

definition trustTierRecognized :: "gostring \<Rightarrow> bool" where
  "trustTierRecognized tier =
    (tier = [] \<or> tier = TrustByO \<or> tier = TrustThirdParty \<or> tier = TrustFirstParty)"

definition ingressKindRecognized :: "gostring \<Rightarrow> bool" where
  "ingressKindRecognized kind =
    (kind = [] \<or> kind = ''http'' \<or> kind = ''grpc'' \<or> kind = ''cli'' \<or> kind = ''library'')"

definition failedFixClassRecognized :: "gostring \<Rightarrow> bool" where
  "failedFixClassRecognized c =
    (c = [] \<or> c = ''naive-dep-bump-insufficient'' \<or> c = ''guard-keyed-away-from-sink'')"

definition goModulePath :: "gostring \<Rightarrow> gostring \<Rightarrow> gostring \<Rightarrow> gostring" where
  "goModulePath module coordinate scheme = (if module \<noteq> [] \<or> scheme \<noteq> ''gomod'' then module else coordinate)"

definition safeRelPath :: "gostring \<Rightarrow> bool" where
  "safeRelPath p =
    (if p = [] \<or> go_contains p [CHR 0x5C] \<or> has_prefix p ''/'' then False
     else list_all (\<lambda>seg. seg \<noteq> [] \<and> seg \<noteq> ''.'' \<and> seg \<noteq> ''..'') (go_split p ''/''))"

section \<open>A document as facts\<close>

definition boundless :: "docRange \<Rightarrow> bool" where
  "boundless r = (drg_introduced r = [] \<and> drg_fixed r = [] \<and> drg_lastAffected r = [])"

definition range_of_doc :: "docRange \<Rightarrow> osvRange" where
  "range_of_doc r =
    \<lparr>osv_introduced = drg_introduced r, osv_fixed = drg_fixed r, osv_last = drg_lastAffected r,
     osv_fixedVersion = drg_fixedVersion r, osv_type = drg_type r\<rparr>"

text \<open>The loop over a range list: None when a range has no bound.\<close>

fun read_ranges :: "docRange list \<Rightarrow> osvRange list option" where
  "read_ranges [] = Some []"
| "read_ranges (r # rs) =
    (if boundless r then None else map_option (\<lambda>qs. range_of_doc r # qs) (read_ranges rs))"

definition entry_range :: "docAffectedRange \<Rightarrow> docRange" where
  "entry_range r =
    \<lparr>drg_introduced = dar_introduced r, drg_fixed = dar_upperExclusive r, drg_lastAffected = dar_lastAffected r,
     drg_fixedVersion = dar_fixed r, drg_type = dar_type r\<rparr>"

definition entry_package :: "gostring list \<Rightarrow> docAffectedEntry \<Rightarrow> docAffectedPackage" where
  "entry_package symbols e =
    \<lparr>dap_module = [], dap_coordinate = dae_coordinate e, dap_purl = dae_purl e,
     dap_versionScheme = dae_versionScheme e, dap_upperExclusive = [],
     dap_fixedVersion = (case dae_fixedVersions e of [v] \<Rightarrow> v | _ \<Rightarrow> []),
     dap_ranges = map entry_range (dae_ranges e), dap_symbols = symbols\<rparr>"

definition affectedPackages :: "advisoryDoc \<Rightarrow> docAffectedPackage list" where
  "affectedPackages d =
    (if length (doc_affectedPackages d) > 0 \<or> length (doc_affected d) = 0 then doc_affectedPackages d
     else map (entry_package (doc_symbols d)) (doc_affected d))"

definition package_of_doc :: "docAffectedPackage \<Rightarrow> osvRange list \<Rightarrow> packageFacts" where
  "package_of_doc p pranges =
    \<lparr>ap_module = goModulePath (dap_module p) (dap_coordinate p) (dap_versionScheme p),
     ap_coordinate = dap_coordinate p, ap_purl = dap_purl p, ap_ranges = pranges,
     pf_versionScheme = dap_versionScheme p, pf_upperExclusive = dap_upperExclusive p,
     pf_fixedVersion = dap_fixedVersion p, pf_symbols = dap_symbols p\<rparr>"

text \<open>The loop over the package set: the elements kept and the package URLs of those dropped.\<close>

fun read_packages ::
  "docAffectedPackage list \<Rightarrow> packageFacts list \<times> gostring list \<Rightarrow> packageFacts list \<times> gostring list" where
  "read_packages [] acc = acc"
| "read_packages (p # ps) (kept, dropped) =
    read_packages ps
      (if \<not> schemeRecognized (dap_versionScheme p) then (kept, dropped @ [dap_purl p])
       else case read_ranges (dap_ranges p) of
              None \<Rightarrow> (kept, dropped @ [dap_purl p])
            | Some pranges \<Rightarrow> (kept @ [package_of_doc p pranges], dropped))"

definition trigger_of_doc :: "docTrigger option \<Rightarrow> TriggerRoute" where
  "trigger_of_doc t =
    (case t of
       None \<Rightarrow> no_trigger
     | Some d \<Rightarrow>
         (let ingress = (if \<not> ingressKindRecognized (dtr_ingressKind d) then [] else dtr_ingressKind d);
              trigger = \<lparr>tro_ingressKind = ingress, tro_route = dtr_route d, tro_param = dtr_param d,
                tro_malformedToken = dtr_malformedToken d, tro_declared = PresenceAbsent\<rparr>
          in trigger\<lparr>tro_declared := presenceFromZero (TriggerRoute_Zero trigger)\<rparr>))"

definition fix_of_doc :: "docFix option \<Rightarrow> FixHint" where
  "fix_of_doc x =
    (case x of
       None \<Rightarrow> no_fix
     | Some d \<Rightarrow>
         (let ffc = (if \<not> failedFixClassRecognized (dfx_failedFixClass d) then [] else dfx_failedFixClass d);
              hint = \<lparr>fxh_upstreamCommit = dfx_upstreamCommit d, fxh_guardShape = dfx_guardShape d,
                fxh_failedFixClass = ffc, fxh_declared = PresenceAbsent\<rparr>
          in hint\<lparr>fxh_declared := presenceFromZero (FixHint_Zero hint)\<rparr>))"

definition config_of_doc :: "docConfigKey option \<Rightarrow> ConfigOperand" where
  "config_of_doc x =
    (case x of
       None \<Rightarrow> no_config
     | Some d \<Rightarrow>
         (let c = \<lparr>cfo_key = dck_key d, cfo_unsafeValue = dck_unsafeValue d, cfo_declared = PresenceAbsent\<rparr>
          in c\<lparr>cfo_declared := presenceFromZero (ConfigOperand_Zero c)\<rparr>))"

definition guard_of_doc :: "docGuardVariant \<Rightarrow> GuardVariant" where
  "guard_of_doc g =
    \<lparr>gvt_symbol = dgv_symbol g, gvt_version = dgv_version g, gvt_forBypass = dgv_forBypass g,
     gvt_sufficient = dgv_sufficient g\<rparr>"

definition malicious_of_doc :: "docMaliciousPackage option \<Rightarrow> MaliciousPackageFacts" where
  "malicious_of_doc m =
    (case m of
       None \<Rightarrow> \<lparr>mpf_declared = False, mpf_versions = []\<rparr>
     | Some d \<Rightarrow> \<lparr>mpf_declared = True, mpf_versions = filter (\<lambda>v. v \<noteq> []) (dmp_affectedVersions d)\<rparr>)"

definition provenance_of_doc :: "docProv option \<Rightarrow> FactProvenance option" where
  "provenance_of_doc p =
    (case p of
       None \<Rightarrow> Some no_provenance
     | Some d \<Rightarrow>
         if \<not> trustTierRecognized (dpv_trustTier d) then None
         else Some \<lparr>fpv_source = dpv_source d, fpv_inputDigest = dpv_inputDigest d, fpv_trustTier = dpv_trustTier d\<rparr>)"

definition lineage_of_doc :: "docLineage option \<Rightarrow> Lineage" where
  "lineage_of_doc l =
    (case l of None \<Rightarrow> no_lineage
     | Some d \<Rightarrow> \<lparr>lin_incompleteFixOf = dln_incompleteFixOf d, lin_refixedBy = dln_refixedBy d\<rparr>)"

definition toFacts :: "advisoryDoc \<Rightarrow> gostring \<Rightarrow> AdvisoryFacts option" where
  "toFacts d wantID =
    (if \<not> schemaVersionRecognized (doc_schemaVersion d) then None
     else if doc_vulnID d = [] \<or> doc_vulnID d \<noteq> wantID then None
     else if \<not> schemeRecognized (doc_versionScheme d) then None
     else
       (case read_ranges (doc_ranges d) of
          None \<Rightarrow> None
        | Some ranges \<Rightarrow>
            (case provenance_of_doc (doc_provenance d) of
               None \<Rightarrow> None
             | Some prov \<Rightarrow>
                 (let pkgs = read_packages (affectedPackages d) ([], []) in
                  Some \<lparr>fct_module = goModulePath (doc_module d) (doc_coordinate d) (doc_versionScheme d),
                    fct_aliases = doc_aliases d, fct_upperExclusive = doc_upperExclusive d,
                    fct_fixedVersion = doc_fixedVersion d, fct_versionScheme = doc_versionScheme d,
                    fct_coordinate = doc_coordinate d, fct_purl = doc_purl d, fct_symbols = doc_symbols d,
                    fct_symbolProvenance = doc_symbolProvenance d, fct_conditional = [],
                    fct_guardSymbols = doc_guardSymbols d, fct_cwes = doc_cwes d,
                    fct_summary = (if doc_summary d = [] then doc_summaryCompat d else doc_summary d),
                    fct_ranges = ranges, fct_builtIn = False, fct_provenance = prov,
                    fct_lineage = lineage_of_doc (doc_lineage d), fct_sinkKind = doc_sinkKind d,
                    fct_triggerCondition = doc_triggerCondition d, fct_prerequisite = doc_prerequisite d,
                    fct_configKey = config_of_doc (doc_configKey d), fct_featureFlag = doc_featureFlag d,
                    fct_gadgetClasses = doc_gadgetClasses d,
                    fct_guardSufficiency = map guard_of_doc (doc_guardSufficiency d),
                    fct_pocSignal = (case doc_pocSignal d of None \<Rightarrow> False | Some p \<Rightarrow> dps_available p),
                    fct_withdrawn = doc_withdrawn d, fct_trigger = trigger_of_doc (doc_trigger d),
                    fct_fix = fix_of_doc (doc_fix d), fct_pocSummary = doc_pocSummary d,
                    fct_packages = fst pkgs, fct_dropped = snd pkgs,
                    fct_symbolsTyped = doc_symbolsTyped d, fct_malicious = malicious_of_doc (doc_malicious d)\<rparr>))))"

end
