(* ===== verification/Advisory_Source.thy ===== *)
theory Advisory_Source
  imports Advisory_Facts
begin

text \<open>
  Where the facts of an advisory come from: the sources of src/pipeline/advisory_source.go (the digest-pinned
  corpus directory with its manifest, the built-in table, the chain) and
  src/pipeline/advisory_bundle_source.go (the same corpus as one file). What a source reads from
  outside is an argument: the stat and the content of the manifest, the files, SHA-256, the JSON
  decoder, the built-in table. The manifest source is a state machine whose atomic steps are the
  first load and a refresh under the lock. The lemmas show that a good corpus, once served, is
  never lost, that a lookup answers with whole facts of a document whose digest the manifest pins,
  and that directory and bundle answer alike.
\<close>

section \<open>The interface\<close>

definition bounded :: "osvRange \<Rightarrow> bool" where
  "bounded r = (osv_introduced r \<noteq> [] \<or> osv_fixed r \<noteq> [] \<or> osv_last r \<noteq> [])"

definition whole_package :: "packageFacts \<Rightarrow> bool" where
  "whole_package p = (schemeRecognized (pf_versionScheme p) \<and> list_all bounded (ap_ranges p))"

definition whole_facts :: "AdvisoryFacts \<Rightarrow> bool" where
  "whole_facts f =
    (schemeRecognized (fct_versionScheme f) \<and> trustTierRecognized (fpv_trustTier (fct_provenance f))
     \<and> list_all bounded (fct_ranges f) \<and> list_all whole_package (fct_packages f)
     \<and> ingressKindRecognized (tro_ingressKind (fct_trigger f))
     \<and> failedFixClassRecognized (fxh_failedFixClass (fct_fix f))
     \<and> list_all (\<lambda>v. v \<noteq> []) (mpf_versions (fct_malicious f)))"

text \<open>An advisory source answers with whole facts or not at all. The intake reads a miss as the zero facts.\<close>

definition facts_of :: "AdvisoryFacts option \<Rightarrow> AdvisoryFacts" where
  "facts_of r = (case r of None \<Rightarrow> zero_facts | Some f \<Rightarrow> f)"

lemma whole_zero: "whole_facts zero_facts"
  by (simp add: whole_facts_def zero_facts_def schemeRecognized_def recognizedVersionSchemes_def
      trustTierRecognized_def no_provenance_def no_trigger_def no_fix_def ingressKindRecognized_def
      failedFixClassRecognized_def)

locale advisory_source =
  fixes look :: "gostring \<Rightarrow> AdvisoryFacts option"
  assumes whole: "look i = Some f \<Longrightarrow> whole_facts f"
begin

lemma intake_whole: "whole_facts (facts_of (look i))"
  using whole [of i] by (cases "look i") (simp_all add: facts_of_def whole_zero)

lemma known_scheme: "schemeRecognized (fct_versionScheme (facts_of (look i)))"
  using intake_whole [of i] by (simp add: whole_facts_def)

lemma known_tier: "trustTierRecognized (fpv_trustTier (fct_provenance (facts_of (look i))))"
  using intake_whole [of i] by (simp add: whole_facts_def)

end

section \<open>Documents are read whole\<close>

lemma read_ranges_eq:
  "read_ranges rs = (if list_ex boundless rs then None else Some (map range_of_doc rs))"
  by (induction rs) auto

lemma bounded_of_doc: "bounded (range_of_doc r) \<longleftrightarrow> \<not> boundless r"
  by (auto simp: bounded_def range_of_doc_def boundless_def)

definition element_ok :: "docAffectedPackage \<Rightarrow> bool" where
  "element_ok p = (schemeRecognized (dap_versionScheme p) \<and> \<not> list_ex boundless (dap_ranges p))"

lemma read_packages_eq:
  "read_packages ps (kept, dropped) =
     (kept @ map (\<lambda>p. package_of_doc p (map range_of_doc (dap_ranges p))) (filter element_ok ps),
      dropped @ map dap_purl (filter (\<lambda>p. \<not> element_ok p) ps))"
  by (induction ps arbitrary: kept dropped) (simp_all add: element_ok_def read_ranges_eq)

lemma whole_package_of_doc:
  "element_ok p \<Longrightarrow> whole_package (package_of_doc p (map range_of_doc (dap_ranges p)))"
  by (simp add: element_ok_def whole_package_def package_of_doc_def list_all_iff list_ex_iff bounded_of_doc)

definition envelope_ok :: "advisoryDoc \<Rightarrow> gostring \<Rightarrow> bool" where
  "envelope_ok d i =
    (schemaVersionRecognized (doc_schemaVersion d) \<and> doc_vulnID d = i \<and> i \<noteq> []
     \<and> schemeRecognized (doc_versionScheme d) \<and> \<not> list_ex boundless (doc_ranges d)
     \<and> (case doc_provenance d of None \<Rightarrow> True | Some p \<Rightarrow> trustTierRecognized (dpv_trustTier p)))"

lemma provenance_of_doc_None:
  "provenance_of_doc p = None \<longleftrightarrow> \<not> (case p of None \<Rightarrow> True | Some d \<Rightarrow> trustTierRecognized (dpv_trustTier d))"
  by (simp add: provenance_of_doc_def split: option.splits)

lemma provenance_of_doc_tier:
  "provenance_of_doc p = Some q \<Longrightarrow>
   fpv_trustTier q = (case p of None \<Rightarrow> [] | Some d \<Rightarrow> dpv_trustTier d) \<and> trustTierRecognized (fpv_trustTier q)"
  by (auto simp: provenance_of_doc_def no_provenance_def trustTierRecognized_def split: option.splits if_splits)

lemma toFacts_None: "toFacts d i = None \<longleftrightarrow> \<not> envelope_ok d i"
  using provenance_of_doc_None [of "doc_provenance d"]
  by (cases "provenance_of_doc (doc_provenance d)")
    (auto simp: toFacts_def envelope_ok_def read_ranges_eq Let_def)

lemma toFacts_fields:
  assumes "toFacts d i = Some f"
  shows "fct_packages f = map (\<lambda>p. package_of_doc p (map range_of_doc (dap_ranges p))) (filter element_ok (affectedPackages d))"
    "fct_dropped f = map dap_purl (filter (\<lambda>p. \<not> element_ok p) (affectedPackages d))"
    "fct_ranges f = map range_of_doc (doc_ranges d)" "fct_versionScheme f = doc_versionScheme d"
    "fct_trigger f = trigger_of_doc (doc_trigger d)" "fct_fix f = fix_of_doc (doc_fix d)"
    "fct_malicious f = malicious_of_doc (doc_malicious d)" "fct_builtIn f = False"
    "fpv_trustTier (fct_provenance f) = (case doc_provenance d of None \<Rightarrow> [] | Some p \<Rightarrow> dpv_trustTier p)"
  using assms provenance_of_doc_tier
  by (auto simp: toFacts_def read_ranges_eq read_packages_eq Let_def split: if_splits option.splits)

lemma toFacts_whole:
  assumes "toFacts d i = Some f"
  shows "whole_facts f"
proof -
  note fs = toFacts_fields [OF assms]
  have e: "envelope_ok d i" using assms toFacts_None [of d i] by simp
  have "list_all whole_package (fct_packages f)"
    unfolding fs(1) using whole_package_of_doc by (simp add: list_all_iff)
  moreover have "list_all bounded (fct_ranges f)"
    unfolding fs(3) using e by (simp add: envelope_ok_def list_all_iff list_ex_iff bounded_of_doc)
  moreover have "trustTierRecognized (fpv_trustTier (fct_provenance f))"
    unfolding fs(9) using e by (auto simp: envelope_ok_def trustTierRecognized_def split: option.splits)
  moreover have "ingressKindRecognized (tro_ingressKind (fct_trigger f))"
    unfolding fs(5) by (simp add: trigger_of_doc_def no_trigger_def ingressKindRecognized_def Let_def split: option.splits)
  moreover have "failedFixClassRecognized (fxh_failedFixClass (fct_fix f))"
    unfolding fs(6) by (simp add: fix_of_doc_def no_fix_def failedFixClassRecognized_def Let_def split: option.splits)
  moreover have "list_all (\<lambda>v. v \<noteq> []) (mpf_versions (fct_malicious f))"
    unfolding fs(7) by (simp add: malicious_of_doc_def list_all_iff split: option.splits)
  moreover have "schemeRecognized (fct_versionScheme f)" using e fs(4) by (simp add: envelope_ok_def)
  ultimately show ?thesis by (simp add: whole_facts_def)
qed

section \<open>The manifest\<close>

record advisoryManifestEntry =
  ame_identifier :: gostring
  ame_path :: gostring
  ame_outputDigest :: gostring

record ManifestProvenance =
  mpv_generatedAt :: gostring
  mpv_generator :: gostring
  mpv_policyID :: gostring
  mpv_policyQuery :: gostring
  mpv_sourceCorpusDigest :: gostring
  mpv_selectionIndexDigest :: gostring

record advisoryManifest =
  amf_manifestVersion :: gostring
  amf_schemaVersion :: gostring
  amf_recordCount :: int
  amf_records :: "advisoryManifestEntry list"
  amf_corpusDigest :: gostring
  amf_provenance :: "ManifestProvenance option"

definition zero_manifest :: advisoryManifest where
  "zero_manifest = \<lparr>amf_manifestVersion = [], amf_schemaVersion = [], amf_recordCount = 0, amf_records = [],
     amf_corpusDigest = [], amf_provenance = None\<rparr>"

text \<open>What reading manifest.json gives.\<close>

datatype manifest_read = ReadFailed | BadManifest | Manifest advisoryManifest

datatype manifest_error =
    ErrRead
  | ErrParse
  | ErrRecordCount int nat
  | ErrDuplicate gostring
  | ErrNoLongerReadable
  | ErrReload manifest_error

type_synonym manifest_index = "(gostring \<times> advisoryManifestEntry) list"

fun index_records :: "advisoryManifestEntry list \<Rightarrow> manifest_index \<Rightarrow> manifest_error + manifest_index" where
  "index_records [] index = Inr index"
| "index_records (r # rs) index =
    (if map_of index (ame_identifier r) \<noteq> None then Inl (ErrDuplicate (ame_identifier r))
     else index_records rs ((ame_identifier r, r) # index))"

definition readManifest :: "manifest_read \<Rightarrow> manifest_error + advisoryManifest \<times> manifest_index" where
  "readManifest rd =
    (case rd of
       ReadFailed \<Rightarrow> Inl ErrRead
     | BadManifest \<Rightarrow> Inl ErrParse
     | Manifest man \<Rightarrow>
         if amf_recordCount man \<noteq> int (length (amf_records man))
         then Inl (ErrRecordCount (amf_recordCount man) (length (amf_records man)))
         else (case index_records (amf_records man) [] of
                 Inl e \<Rightarrow> Inl e
               | Inr index \<Rightarrow> Inr (man, index)))"

record fileInfo =
  fin_file :: nat
  fin_size :: int
  fin_modTime :: int

definition sameFileIdentity :: "fileInfo option \<Rightarrow> fileInfo option \<Rightarrow> bool" where
  "sameFileIdentity a b =
    (case a of None \<Rightarrow> False | Some x \<Rightarrow>
     case b of None \<Rightarrow> False | Some y \<Rightarrow>
       fin_file x = fin_file y \<and> fin_size x = fin_size y \<and> fin_modTime x = fin_modTime y)"

record manifestState =
  mst_man :: advisoryManifest
  mst_index :: manifest_index
  mst_err :: "manifest_error option"
  mst_info :: "fileInfo option"

definition loadState :: "fileInfo option \<Rightarrow> manifest_read \<Rightarrow> manifestState" where
  "loadState info rd =
    (case readManifest rd of
       Inl e \<Rightarrow> \<lparr>mst_man = zero_manifest, mst_index = [], mst_err = Some e, mst_info = info\<rparr>
     | Inr (man, index) \<Rightarrow> \<lparr>mst_man = man, mst_index = index, mst_err = None, mst_info = info\<rparr>)"

section \<open>The corpus directory\<close>

record artifactSource =
  ars_state :: "manifestState option"
  ars_refreshErr :: "manifest_error option"
  ars_failedInfo :: "fileInfo option"

definition NewArtifactSource :: artifactSource where
  "NewArtifactSource = \<lparr>ars_state = None, ars_refreshErr = None, ars_failedInfo = None\<rparr>"

definition current :: "fileInfo option \<Rightarrow> manifest_read \<Rightarrow> artifactSource \<Rightarrow> artifactSource \<times> manifestState" where
  "current stat rd s =
    (case ars_state s of
       Some st \<Rightarrow> (s, st)
     | None \<Rightarrow> (let st = loadState stat rd in (s\<lparr>ars_state := Some st\<rparr>, st)))"

text \<open>The part of Refresh under the lock: \<open>stat\<close> is its own stat, \<open>stat2\<close> and \<open>rd\<close> what a reload sees.\<close>

definition refresh_locked ::
  "manifestState \<Rightarrow> fileInfo option \<Rightarrow> fileInfo option \<Rightarrow> manifest_read \<Rightarrow> artifactSource \<Rightarrow>
   artifactSource \<times> manifest_error option" where
  "refresh_locked cur stat stat2 rd s =
    (if stat = None then
       (case mst_err cur of
          Some e \<Rightarrow> (s, Some e)
        | None \<Rightarrow> (s\<lparr>ars_refreshErr := Some ErrNoLongerReadable\<rparr>, Some ErrNoLongerReadable))
     else if sameFileIdentity stat (mst_info cur) then
       (s\<lparr>ars_refreshErr := None, ars_failedInfo := None\<rparr>, mst_err cur)
     else if sameFileIdentity stat (ars_failedInfo s) then (s, ars_refreshErr s)
     else
       (let nxt = loadState stat2 rd in
        case mst_err nxt of
          None \<Rightarrow> (s\<lparr>ars_state := Some nxt, ars_refreshErr := None, ars_failedInfo := None\<rparr>, None)
        | Some e \<Rightarrow>
            if mst_err cur \<noteq> None
            then (s\<lparr>ars_state := Some nxt, ars_refreshErr := None, ars_failedInfo := None\<rparr>, Some e)
            else (s\<lparr>ars_failedInfo := mst_info nxt, ars_refreshErr := Some (ErrReload e)\<rparr>, Some (ErrReload e))))"

definition Refresh ::
  "fileInfo option \<Rightarrow> manifest_read \<Rightarrow> fileInfo option \<Rightarrow> fileInfo option \<Rightarrow> manifest_read \<Rightarrow> artifactSource \<Rightarrow>
   artifactSource \<times> manifest_error option" where
  "Refresh stat0 rd0 stat stat2 rd s =
    (case current stat0 rd0 s of (s1, cur) \<Rightarrow> refresh_locked cur stat stat2 rd s1)"

record corpus_lib =
  lib_sha256 :: "gostring \<Rightarrow> gostring"
  lib_decode :: "gostring \<Rightarrow> advisoryDoc option"

definition digestMatches :: "corpus_lib \<Rightarrow> gostring \<Rightarrow> gostring \<Rightarrow> bool" where
  "digestMatches lib data expected =
    (if \<not> has_prefix expected ''sha256:'' then False
     else lib_sha256 lib data = trim_prefix expected ''sha256:'')"

definition read_document :: "corpus_lib \<Rightarrow> gostring \<Rightarrow> gostring \<Rightarrow> gostring \<Rightarrow> AdvisoryFacts option" where
  "read_document lib data digest vulnID =
    (if \<not> digestMatches lib data digest then None
     else (case lib_decode lib data of None \<Rightarrow> None | Some doc \<Rightarrow> toFacts doc vulnID))"

text \<open>resolveEntry; \<open>files\<close> is what os.ReadFile gives for a path under the root.\<close>

definition resolveEntry ::
  "corpus_lib \<Rightarrow> (gostring \<Rightarrow> gostring option) \<Rightarrow> advisoryManifestEntry \<Rightarrow> gostring \<Rightarrow> AdvisoryFacts option" where
  "resolveEntry lib files entry vulnID =
    (if ame_path entry = [] \<or> ame_outputDigest entry = [] \<or> \<not> safeRelPath (ame_path entry) then None
     else (case files (ame_path entry) of
             None \<Rightarrow> None
           | Some data \<Rightarrow> read_document lib data (ame_outputDigest entry) vulnID))"

definition lookup_state ::
  "corpus_lib \<Rightarrow> (gostring \<Rightarrow> gostring option) \<Rightarrow> manifestState \<Rightarrow> gostring \<Rightarrow> AdvisoryFacts option" where
  "lookup_state lib files st vulnID =
    (if mst_err st \<noteq> None then None
     else (case map_of (mst_index st) vulnID of
             None \<Rightarrow> None
           | Some entry \<Rightarrow> resolveEntry lib files entry vulnID))"

definition artifact_Lookup ::
  "corpus_lib \<Rightarrow> (gostring \<Rightarrow> gostring option) \<Rightarrow> fileInfo option \<Rightarrow> manifest_read \<Rightarrow> artifactSource \<Rightarrow> gostring \<Rightarrow>
   artifactSource \<times> AdvisoryFacts option" where
  "artifact_Lookup lib files stat rd s vulnID =
    (case current stat rd s of (s1, st) \<Rightarrow> (s1, lookup_state lib files st vulnID))"

text \<open>lookupEach, the calls of fn as a list. The files may change between two documents.\<close>

fun each_of ::
  "corpus_lib \<Rightarrow> manifestState \<Rightarrow> (gostring \<times> (gostring \<Rightarrow> gostring option)) list \<Rightarrow>
   (gostring \<times> AdvisoryFacts option) list" where
  "each_of lib st [] = []"
| "each_of lib st ((i, files) # rest) =
    (case map_of (mst_index st) i of
       None \<Rightarrow> (i, None)
     | Some entry \<Rightarrow> (i, if mst_err st \<noteq> None then None else resolveEntry lib files entry i))
    # each_of lib st rest"

definition artifact_lookupEach ::
  "corpus_lib \<Rightarrow> fileInfo option \<Rightarrow> manifest_read \<Rightarrow> artifactSource \<Rightarrow>
   (gostring \<times> (gostring \<Rightarrow> gostring option)) list \<Rightarrow> artifactSource \<times> (gostring \<times> AdvisoryFacts option) list" where
  "artifact_lookupEach lib stat rd s ids =
    (case current stat rd s of (s1, st) \<Rightarrow> (s1, each_of lib st ids))"

definition artifact_KnownIDs :: "manifestState \<Rightarrow> gostring list" where
  "artifact_KnownIDs st = (if mst_err st \<noteq> None then [] else sort (map ame_identifier (amf_records (mst_man st))))"

definition artifact_Validate :: "manifestState \<Rightarrow> manifest_error option" where
  "artifact_Validate st = mst_err st"

record CorpusInfo =
  cin_digest :: gostring
  cin_records :: nat
  cin_manifest :: ManifestProvenance

definition zero_manifestProvenance :: ManifestProvenance where
  "zero_manifestProvenance = \<lparr>mpv_generatedAt = [], mpv_generator = [], mpv_policyID = [], mpv_policyQuery = [],
     mpv_sourceCorpusDigest = [], mpv_selectionIndexDigest = []\<rparr>"

definition artifact_Describe :: "manifestState \<Rightarrow> CorpusInfo option" where
  "artifact_Describe st =
    (if mst_err st \<noteq> None then None
     else Some \<lparr>cin_digest = amf_corpusDigest (mst_man st), cin_records = length (amf_records (mst_man st)),
                cin_manifest = (case amf_provenance (mst_man st) of None \<Rightarrow> zero_manifestProvenance | Some p \<Rightarrow> p)\<rparr>)"

section \<open>The bundle\<close>

record bundleEntry =
  ben_identifier :: gostring
  ben_path :: gostring
  ben_outputDigest :: gostring
  ben_bytes :: gostring

record bundleRecord =
  bur_outputDigest :: gostring
  bur_bytes :: gostring

text \<open>What reading the bundle file gives: the entries decoded before the stream ends, and how it ends.\<close>

datatype stream_end = StreamEOF | StreamBadJSON | StreamBadTrailer
datatype bundle_file = BundleMissing | BundleNotGzip | Bundle "bundleEntry list" stream_end gostring
datatype bundle_error = ErrOpen | ErrGzip | ErrBundleParse | ErrBundleDuplicate gostring | ErrBundleRead

type_synonym bundle_index = "(gostring \<times> bundleRecord) list"

fun index_bundle :: "bundleEntry list \<Rightarrow> bundle_index \<Rightarrow> bundle_error + bundle_index" where
  "index_bundle [] index = Inr index"
| "index_bundle (e # es) index =
    (if map_of index (ben_identifier e) \<noteq> None then Inl (ErrBundleDuplicate (ben_identifier e))
     else index_bundle es
       ((ben_identifier e, \<lparr>bur_outputDigest = ben_outputDigest e, bur_bytes = ben_bytes e\<rparr>) # index))"

definition bundle_load :: "bundle_file \<Rightarrow> bundle_error + bundle_index \<times> gostring" where
  "bundle_load f =
    (case f of
       BundleMissing \<Rightarrow> Inl ErrOpen
     | BundleNotGzip \<Rightarrow> Inl ErrGzip
     | Bundle es fin dgst \<Rightarrow>
         (case index_bundle es [] of
            Inl e \<Rightarrow> Inl e
          | Inr index \<Rightarrow>
              (case fin of
                 StreamBadJSON \<Rightarrow> Inl ErrBundleParse
               | StreamBadTrailer \<Rightarrow> Inl ErrBundleRead
               | StreamEOF \<Rightarrow> Inr (index, ''sha256:'' @ dgst))))"

text \<open>The load happens once; \<open>ld\<close> is its outcome.\<close>

definition bundle_Lookup ::
  "corpus_lib \<Rightarrow> bundle_error + bundle_index \<times> gostring \<Rightarrow> gostring \<Rightarrow> AdvisoryFacts option" where
  "bundle_Lookup lib ld vulnID =
    (case ld of
       Inl e \<Rightarrow> None
     | Inr (index, dgst) \<Rightarrow>
         (case map_of index vulnID of
            None \<Rightarrow> None
          | Some br \<Rightarrow> read_document lib (bur_bytes br) (bur_outputDigest br) vulnID))"

definition bundle_Validate :: "bundle_error + bundle_index \<times> gostring \<Rightarrow> bundle_error option" where
  "bundle_Validate ld = (case ld of Inl e \<Rightarrow> Some e | Inr x \<Rightarrow> None)"

definition bundle_Describe :: "bundle_error + bundle_index \<times> gostring \<Rightarrow> CorpusInfo option" where
  "bundle_Describe ld =
    (case ld of Inl e \<Rightarrow> None
     | Inr (index, dgst) \<Rightarrow> Some \<lparr>cin_digest = dgst, cin_records = length index, cin_manifest = zero_manifestProvenance\<rparr>)"

definition bundle_KnownIDs :: "bundle_error + bundle_index \<times> gostring \<Rightarrow> gostring list" where
  "bundle_KnownIDs ld = (case ld of Inl e \<Rightarrow> [] | Inr (index, dgst) \<Rightarrow> sort (map fst index))"

section \<open>The table and the chain\<close>

text \<open>The compiled-in AdvisoryTable is an argument.\<close>

definition table_Lookup :: "(gostring \<Rightarrow> AdvisoryFacts option) \<Rightarrow> gostring \<Rightarrow> AdvisoryFacts option" where
  "table_Lookup table vulnID =
    (case table vulnID of
       None \<Rightarrow> None
     | Some facts \<Rightarrow>
         (let p = fct_provenance facts;
              p1 = (if fpv_trustTier p = [] then p\<lparr>fpv_trustTier := TrustFirstParty\<rparr> else p)
          in Some (facts\<lparr>fct_provenance := p1, fct_builtIn := True\<rparr>)))"

text \<open>A nil source is None.\<close>

fun chain_Lookup :: "(gostring \<Rightarrow> AdvisoryFacts option) option list \<Rightarrow> gostring \<Rightarrow> AdvisoryFacts option" where
  "chain_Lookup [] vulnID = None"
| "chain_Lookup (None # rest) vulnID = chain_Lookup rest vulnID"
| "chain_Lookup (Some src # rest) vulnID =
    (case src vulnID of Some facts \<Rightarrow> Some facts | None \<Rightarrow> chain_Lookup rest vulnID)"

section \<open>The served corpus\<close>

definition state_ok :: "manifestState \<Rightarrow> bool" where
  "state_ok st =
    (if mst_err st = None then
       amf_recordCount (mst_man st) = int (length (amf_records (mst_man st)))
       \<and> distinct (map ame_identifier (amf_records (mst_man st)))
       \<and> mst_index st = rev (map (\<lambda>r. (ame_identifier r, r)) (amf_records (mst_man st)))
     else mst_man st = zero_manifest \<and> mst_index st = [])"

lemma index_records_eq:
  assumes "distinct (map fst index)"
  shows "index_records rs index = Inr idx \<longleftrightarrow>
    distinct (map fst index @ map ame_identifier rs) \<and> idx = rev (map (\<lambda>r. (ame_identifier r, r)) rs) @ index"
  using assms
proof (induction rs arbitrary: index)
  case (Cons r rs)
  then show ?case
    by (cases "map_of index (ame_identifier r)")
      (auto simp: map_of_eq_None_iff dest: map_of_SomeD intro: rev_image_eqI)
qed auto

lemma loadState_ok: "state_ok (loadState info rd)"
  using index_records_eq [of "[]"]
  by (auto simp: loadState_def readManifest_def state_ok_def split: manifest_read.splits sum.splits)

lemma loadState_info [simp]: "mst_info (loadState info rd) = info"
  by (simp add: loadState_def split: sum.splits)

inductive source_step :: "artifactSource \<Rightarrow> artifactSource \<Rightarrow> bool" where
  Load: "source_step s (fst (current stat rd s))"
| Reload: "ars_state s = Some cur \<Longrightarrow> source_step s (fst (refresh_locked cur stat stat2 rd s))"

inductive_cases source_stepE: "source_step s t"

definition source_inv :: "artifactSource \<Rightarrow> bool" where
  "source_inv s =
    ((case ars_state s of None \<Rightarrow> ars_failedInfo s = None | Some st \<Rightarrow> state_ok st)
     \<and> (ars_failedInfo s \<noteq> None \<longrightarrow> ars_refreshErr s \<noteq> None))"

lemma current_inv: "source_inv s \<Longrightarrow> source_inv (fst (current stat rd s))"
  by (auto simp: current_def source_inv_def Let_def loadState_ok split: option.splits)

lemma refresh_inv:
  "source_inv s \<Longrightarrow> ars_state s = Some cur \<Longrightarrow> source_inv (fst (refresh_locked cur stat stat2 rd s))"
  by (auto simp: refresh_locked_def source_inv_def Let_def loadState_ok split: option.splits)

lemma reachable_inv: "source_step\<^sup>*\<^sup>* NewArtifactSource s \<Longrightarrow> source_inv s"
proof (induction rule: rtranclp_induct)
  case base
  then show ?case by (simp add: source_inv_def NewArtifactSource_def)
next
  case (step s t)
  from step.hyps(2) step.IH show ?case by (auto elim!: source_stepE intro: current_inv refresh_inv)
qed

text \<open>A refresh of a good outcome: a good one stays in place; it changes only to what a reload of a changed,
  readable file read; and an error-free refresh serves what the file holds.\<close>

lemma refresh_good:
  assumes "refresh_locked st stat stat2 rd t = (t', e)" and "ars_state t = Some st" and "source_inv t"
    and "mst_err st = None"
  shows "\<exists>st'. ars_state t' = Some st' \<and> state_ok st' \<and> mst_err st' = None
    \<and> (st' = st \<or> st' = loadState stat2 rd \<and> stat \<noteq> None \<and> \<not> sameFileIdentity stat (mst_info st))
    \<and> (e = None \<longrightarrow> sameFileIdentity stat (mst_info st) \<and> st' = st \<or> st' = loadState stat2 rd)"
proof -
  have ok: "state_ok st" and fe: "ars_failedInfo t \<noteq> None \<longrightarrow> ars_refreshErr t \<noteq> None"
    using assms(2,3) by (auto simp: source_inv_def)
  have nofail: "\<not> sameFileIdentity stat None" for stat by (simp add: sameFileIdentity_def split: option.splits)
  show ?thesis
    using assms(1,2,4) ok fe nofail loadState_ok [of stat2 rd]
    by (auto simp: refresh_locked_def Let_def split: if_splits option.splits)
qed

lemma good_step:
  assumes "source_step s t" and "source_inv s" and "ars_state s = Some cur" and "mst_err cur = None"
  shows "\<exists>st. ars_state t = Some st \<and> mst_err st = None"
  using assms(1)
proof cases
  case (Load stat rd)
  then show ?thesis using assms(3,4) by (simp add: current_def)
next
  case (Reload c stat stat2 rd)
  obtain t' e where r: "refresh_locked c stat stat2 rd s = (t', e)" by fastforce
  have "c = cur" using Reload assms(3) by simp
  then show ?thesis using refresh_good [OF r] Reload r assms by auto
qed

lemma good_steps:
  assumes "source_step\<^sup>*\<^sup>* s t" and "source_inv s" and "ars_state s = Some cur" and "mst_err cur = None"
  shows "source_inv t \<and> (\<exists>st. ars_state t = Some st \<and> mst_err st = None)"
  using assms(1)
proof (induction rule: rtranclp_induct)
  case base
  then show ?case using assms by simp
next
  case (step t u)
  then show ?case
    using good_step [OF step.hyps(2)] by (auto elim!: source_stepE intro: current_inv refresh_inv)
qed

text \<open>C11: a served corpus is never lost. Once the source serves a good manifest, then in every later state,
  after any loads and refreshes in any order, it serves a good and well-formed one (unique identifiers,
  the declared number of records, the index exactly the records). There every lookup answers from that outcome and
  leaves the source unchanged; and a refresh, whatever it finds on disk, leaves a good
  outcome in place, changes it only to what a reload of a changed, readable file read, and reports no error only if
  what is served is what the file holds.\<close>

theorem corpus_never_lost:
  assumes "source_step\<^sup>*\<^sup>* NewArtifactSource s" and "ars_state s = Some cur" and "mst_err cur = None"
    and "source_step\<^sup>*\<^sup>* s t"
  shows "\<exists>st. ars_state t = Some st \<and> state_ok st \<and> mst_err st = None
    \<and> (\<forall>stat rd. current stat rd t = (t, st))
    \<and> (\<forall>lib files stat rd i. artifact_Lookup lib files stat rd t i = (t, lookup_state lib files st i))
    \<and> (\<forall>stat stat2 rd t' e. refresh_locked st stat stat2 rd t = (t', e) \<longrightarrow>
        (\<exists>st'. ars_state t' = Some st' \<and> state_ok st' \<and> mst_err st' = None
          \<and> (st' = st \<or> st' = loadState stat2 rd \<and> stat \<noteq> None \<and> \<not> sameFileIdentity stat (mst_info st))
          \<and> (e = None \<longrightarrow> sameFileIdentity stat (mst_info st) \<and> st' = st \<or> st' = loadState stat2 rd)))"
proof -
  obtain st where st: "source_inv t" "ars_state t = Some st" "mst_err st = None"
    using good_steps [OF assms(4) reachable_inv [OF assms(1)] assms(2,3)] by blast
  moreover have "state_ok st" using st by (simp add: source_inv_def)
  moreover have c: "current stat rd t = (t, st)" for stat rd using st(2) by (simp add: current_def)
  moreover have "artifact_Lookup lib files stat rd t i = (t, lookup_state lib files st i)" for lib files stat rd i
    by (simp add: artifact_Lookup_def c)
  ultimately show ?thesis using refresh_good [OF _ st(2,1,3)] by blast
qed

text \<open>A good manifest replaced on disk by a torn one.\<close>

definition sample_manifest_entry :: advisoryManifestEntry where
  "sample_manifest_entry = \<lparr>ame_identifier = ''CVE-1'', ame_path = ''2021/CVE-1.json'', ame_outputDigest = ''sha256:d1''\<rparr>"

definition sample_manifest :: advisoryManifest where
  "sample_manifest = zero_manifest\<lparr>amf_recordCount := 1, amf_records := [sample_manifest_entry]\<rparr>"

definition sample_source :: artifactSource where
  "sample_source = fst (current (Some \<lparr>fin_file = 1, fin_size = 10, fin_modTime = 1\<rparr>) (Manifest sample_manifest) NewArtifactSource)"

definition torn_source :: artifactSource where
  "torn_source = fst (refresh_locked (loadState (Some \<lparr>fin_file = 1, fin_size = 10, fin_modTime = 1\<rparr>) (Manifest sample_manifest))
       (Some \<lparr>fin_file = 1, fin_size = 4, fin_modTime = 2\<rparr>) (Some \<lparr>fin_file = 1, fin_size = 4, fin_modTime = 2\<rparr>)
       BadManifest sample_source)"

theorem corpus_never_lost_witness:
  "ars_refreshErr torn_source = Some (ErrReload ErrParse) \<and>
   (\<exists>st. ars_state torn_source = Some st \<and> mst_err st = None \<and> (\<forall>stat rd. current stat rd torn_source = (torn_source, st)))"
proof -
  let ?cur = "loadState (Some \<lparr>fin_file = 1, fin_size = 10, fin_modTime = 1\<rparr>) (Manifest sample_manifest)"
  have r: "source_step\<^sup>*\<^sup>* NewArtifactSource sample_source"
    unfolding sample_source_def by (intro r_into_rtranclp Load)
  have c: "ars_state sample_source = Some ?cur"
    by (simp add: sample_source_def current_def NewArtifactSource_def Let_def)
  have t: "source_step\<^sup>*\<^sup>* sample_source torn_source"
    unfolding torn_source_def by (intro r_into_rtranclp Reload) (rule c)
  have g: "mst_err ?cur = None" "ars_refreshErr torn_source = Some (ErrReload ErrParse)" by code_simp+
  from corpus_never_lost [OF r c g(1) t] g(2) show ?thesis by blast
qed

section \<open>Lookups\<close>

lemma prefix_then_rest: "has_prefix s p \<longleftrightarrow> s = p @ trim_prefix s p"
proof
  assume "has_prefix s p"
  then show "s = p @ trim_prefix s p"
    using append_take_drop_id [of "length p" s] by (simp add: has_prefix_def trim_prefix_def)
next
  assume "s = p @ trim_prefix s p"
  then show "has_prefix s p" unfolding has_prefix_def by (metis append_eq_conv_conj)
qed

lemma trim_prefix_app: "trim_prefix (p @ s) p = s"
  by (simp add: trim_prefix_def has_prefix_def)

lemma digestMatches_iff: "digestMatches lib data expected \<longleftrightarrow> expected = ''sha256:'' @ lib_sha256 lib data"
  using prefix_then_rest [of expected "''sha256:''"] trim_prefix_app [of "''sha256:''" "lib_sha256 lib data"]
  unfolding digestMatches_def by metis

lemma read_document_Some:
  "read_document lib data digest i = Some f \<longleftrightarrow>
     digest = ''sha256:'' @ lib_sha256 lib data \<and> (\<exists>doc. lib_decode lib data = Some doc \<and> toFacts doc i = Some f)"
  by (auto simp: read_document_def digestMatches_iff split: option.splits)

lemma state_ok_index:
  "state_ok st \<Longrightarrow> map_of (mst_index st) i = Some e \<Longrightarrow>
   mst_err st = None \<and> e \<in> set (amf_records (mst_man st)) \<and> ame_identifier e = i"
  by (auto simp: state_ok_def split: if_splits dest!: map_of_SomeD)

text \<open>What an answer rests on.\<close>

definition backed_by ::
  "corpus_lib \<Rightarrow> (gostring \<Rightarrow> gostring option) \<Rightarrow> manifestState \<Rightarrow> gostring \<Rightarrow> advisoryDoc \<Rightarrow> bool" where
  "backed_by lib files st i doc \<longleftrightarrow>
     mst_err st = None \<and>
     (\<exists>e data. e \<in> set (amf_records (mst_man st)) \<and> ame_identifier e = i \<and> safeRelPath (ame_path e)
        \<and> files (ame_path e) = Some data \<and> ame_outputDigest e = ''sha256:'' @ lib_sha256 lib data
        \<and> lib_decode lib data = Some doc \<and> envelope_ok doc i)"

lemma lookup_backed:
  assumes "state_ok st" and "lookup_state lib files st i = Some f"
  shows "\<exists>doc. backed_by lib files st i doc \<and> toFacts doc i = Some f"
proof -
  obtain e where e: "map_of (mst_index st) i = Some e" and r: "resolveEntry lib files e i = Some f"
    using assms(2) by (auto simp: lookup_state_def split: if_splits option.splits)
  obtain data where d: "files (ame_path e) = Some data" "safeRelPath (ame_path e)"
      "read_document lib data (ame_outputDigest e) i = Some f"
    using r by (auto simp: resolveEntry_def split: if_splits option.splits)
  obtain doc where doc: "ame_outputDigest e = ''sha256:'' @ lib_sha256 lib data" "lib_decode lib data = Some doc"
      "toFacts doc i = Some f"
    using d(3) by (auto simp: read_document_Some)
  have "envelope_ok doc i" using doc(3) toFacts_None [of doc i] by simp
  then show ?thesis using state_ok_index [OF assms(1) e] d doc by (auto simp: backed_by_def)
qed

lemma lookup_whole: "lookup_state lib files st i = Some f \<Longrightarrow> whole_facts f"
  by (auto simp: lookup_state_def resolveEntry_def read_document_Some split: if_splits option.splits intro: toFacts_whole)

interpretation directory: advisory_source "lookup_state lib files st" for lib files st
  by unfold_locales (rule lookup_whole)

lemma bundle_whole: "bundle_Lookup lib ld i = Some f \<Longrightarrow> whole_facts f"
  by (auto simp: bundle_Lookup_def read_document_Some split: sum.splits option.splits intro: toFacts_whole)

interpretation bundled: advisory_source "bundle_Lookup lib ld" for lib ld
  by unfold_locales (rule bundle_whole)

lemma chain_whole:
  assumes "\<And>src. Some src \<in> set srcs \<Longrightarrow> advisory_source src"
  shows "advisory_source (chain_Lookup srcs)"
proof
  fix i f
  show "chain_Lookup srcs i = Some f \<Longrightarrow> whole_facts f"
    using assms
    by (induction srcs i rule: chain_Lookup.induct)
      (auto split: option.splits intro: advisory_source.whole)
qed

lemma table_whole:
  assumes "\<And>i f. table i = Some f \<Longrightarrow> whole_facts f"
  shows "advisory_source (table_Lookup table)"
proof
  fix i f
  assume "table_Lookup table i = Some f"
  then obtain g where g: "table i = Some g" "fct_versionScheme f = fct_versionScheme g" "fct_ranges f = fct_ranges g"
      "fct_packages f = fct_packages g" "fct_trigger f = fct_trigger g" "fct_fix f = fct_fix g"
      "fct_malicious f = fct_malicious g"
      "fpv_trustTier (fct_provenance f) = fpv_trustTier (fct_provenance g) \<or> fpv_trustTier (fct_provenance f) = TrustFirstParty"
    by (auto simp: table_Lookup_def Let_def split: option.splits)
  then show "whole_facts f" using assms [OF g(1)] by (auto simp: whole_facts_def trustTierRecognized_def)
qed

text \<open>C10: an answer of the corpus is a whole document it pins. In every state the source can reach, a
  lookup that answers has served a good manifest; the manifest lists the advisory, at a path that stays
  under the root; the file's SHA-256 is the listed digest; it decodes to a document of that very
  advisory whose envelope passes; and the facts are that document's, with every scheme, tier and kind in
  its closed vocabulary, every range bounded, and never marked as the built-in table's.\<close>

theorem lookup_pinned:
  assumes "source_step\<^sup>*\<^sup>* NewArtifactSource s" and "artifact_Lookup lib files stat rd s i = (s', Some f)"
  shows "\<exists>st doc. ars_state s' = Some st \<and> backed_by lib files st i doc \<and> toFacts doc i = Some f
    \<and> whole_facts f \<and> \<not> fct_builtIn f"
proof -
  obtain st where c: "current stat rd s = (s', st)" and l: "lookup_state lib files st i = Some f"
    using assms(2) by (auto simp: artifact_Lookup_def split: prod.splits)
  have "source_inv s'" using current_inv [OF reachable_inv [OF assms(1)], of stat rd] c by simp
  moreover have a: "ars_state s' = Some st" using c by (auto simp: current_def Let_def split: option.splits)
  ultimately have "state_ok st" by (simp add: source_inv_def)
  from lookup_backed [OF this l] obtain doc where d: "backed_by lib files st i doc" "toFacts doc i = Some f" by blast
  then show ?thesis using a directory.whole [OF l] toFacts_fields(8) [OF d(2)] by auto
qed

text \<open>no element of an advisory's package set vanishes. A document is accepted exactly when its envelope
  passes (a known schema, its own identifier, a known scheme, bounded ranges, a known trust tier);
  then the well-formed elements are the packages, in order, and the package URL of every other
  element is listed as dropped, one for each.\<close>

theorem no_package_vanishes:
  "(toFacts d i \<noteq> None \<longleftrightarrow> envelope_ok d i) \<and>
   (case toFacts d i of
      None \<Rightarrow> True
    | Some f \<Rightarrow>
        map ap_purl (fct_packages f) = map dap_purl (filter element_ok (affectedPackages d))
        \<and> fct_dropped f = map dap_purl (filter (\<lambda>p. \<not> element_ok p) (affectedPackages d))
        \<and> length (fct_packages f) + length (fct_dropped f) = length (affectedPackages d)
        \<and> mset (map ap_purl (fct_packages f) @ fct_dropped f) = mset (map dap_purl (affectedPackages d)))"
proof (cases "toFacts d i")
  case None
  then show ?thesis using toFacts_None [of d i] by simp
next
  case (Some f)
  have p: "map ap_purl (fct_packages f) = map dap_purl (filter element_ok (affectedPackages d))"
    unfolding toFacts_fields(1) [OF Some] by (simp add: package_of_doc_def)
  note dr = toFacts_fields(2) [OF Some]
  have m: "mset (map dap_purl (filter element_ok ps) @ map dap_purl (filter (\<lambda>p. \<not> element_ok p) ps)) = mset (map dap_purl ps)" for ps
    by (induction ps) simp_all
  have "length (fct_packages f) + length (fct_dropped f) = length (affectedPackages d)"
    unfolding toFacts_fields(1) [OF Some] dr by (simp add: sum_length_filter_compl)
  then show ?thesis using Some toFacts_None [of d i] p dr m [of "affectedPackages d"] by simp
qed

section \<open>Directory and bundle\<close>

text \<open>A published record: its manifest entry and its bytes.\<close>

definition bundle_of :: "(advisoryManifestEntry \<times> gostring) list \<Rightarrow> bundleEntry list" where
  "bundle_of rs = map (\<lambda>(e, b). \<lparr>ben_identifier = ame_identifier e, ben_path = ame_path e,
     ben_outputDigest = ame_outputDigest e, ben_bytes = b\<rparr>) rs"

lemma index_bundle_eq:
  assumes "distinct (map fst index)" and "distinct (map fst index @ map ben_identifier es)"
  shows "index_bundle es index = Inr (rev (map (\<lambda>e. (ben_identifier e,
     \<lparr>bur_outputDigest = ben_outputDigest e, bur_bytes = ben_bytes e\<rparr>)) es) @ index)"
  using assms
proof (induction es arbitrary: index)
  case (Cons e es)
  then have "map_of index (ben_identifier e) = None" by (auto simp: map_of_eq_None_iff)
  then show ?case using Cons by auto
qed simp

lemma map_of_map_find: "map_of (map (\<lambda>r. (g r, h r)) rs) i = map_option h (find (\<lambda>r. g r = i) rs)"
  by (induction rs) auto

lemma map_of_rev_map:
  assumes "distinct (map g rs)"
  shows "map_of (rev (map (\<lambda>r. (g r, h r)) rs)) i = map_option h (find (\<lambda>r. g r = i) rs)"
proof -
  have "map_of (rev (map (\<lambda>r. (g r, h r)) rs)) = map_of (map (\<lambda>r. (g r, h r)) rs)"
    using assms by (subst map_of_inject_set) (simp_all add: comp_def rev_map [symmetric])
  then show ?thesis by (simp add: map_of_map_find)
qed

text \<open>C33: the bundle of a corpus answers as its directory does. For a manifest that accounts for its
  records, with the files as published, under safe paths, every lookup and the identifiers are the
  same in both encodings.\<close>

theorem bundle_agrees:
  assumes "amf_records man = map fst rs" and "amf_recordCount man = int (length rs)"
    and "distinct (map (ame_identifier \<circ> fst) rs)"
    and "list_all (\<lambda>(e, b). safeRelPath (ame_path e) \<and> files (ame_path e) = Some b) rs"
  shows "lookup_state lib files (loadState info (Manifest man)) i
      = bundle_Lookup lib (bundle_load (Bundle (bundle_of rs) StreamEOF dgst)) i
    \<and> artifact_KnownIDs (loadState info (Manifest man))
      = bundle_KnownIDs (bundle_load (Bundle (bundle_of rs) StreamEOF dgst))"
proof -
  have ids: "map ben_identifier (bundle_of rs) = map (ame_identifier \<circ> fst) rs"
    by (auto simp: bundle_of_def)
  define mi where "mi = rev (map (\<lambda>r. (ame_identifier r, r)) (map fst rs))"
  define bi where "bi = rev (map (\<lambda>e. (ben_identifier e, \<lparr>bur_outputDigest = ben_outputDigest e, bur_bytes = ben_bytes e\<rparr>)) (bundle_of rs))"
  have "index_records (map fst rs) [] = Inr mi"
    using assms(3) unfolding mi_def by (subst index_records_eq) simp_all
  then have ls: "loadState info (Manifest man) = \<lparr>mst_man = man, mst_index = mi, mst_err = None, mst_info = info\<rparr>"
    using assms(1,2) by (simp add: loadState_def readManifest_def)
  have bl: "bundle_load (Bundle (bundle_of rs) StreamEOF dgst) = Inr (bi, ''sha256:'' @ dgst)"
    using index_bundle_eq [of "[]" "bundle_of rs"] assms(3) by (simp add: bundle_load_def ids bi_def)
  have m1: "map_of mi i = map_option fst (find (\<lambda>r. ame_identifier (fst r) = i) rs)"
    using map_of_rev_map [of "ame_identifier \<circ> fst" rs fst i] assms(3) by (simp add: comp_def mi_def)
  have bi: "bi = rev (map (\<lambda>r. (ame_identifier (fst r), \<lparr>bur_outputDigest = ame_outputDigest (fst r), bur_bytes = snd r\<rparr>)) rs)"
    by (simp add: bi_def bundle_of_def case_prod_beta comp_def)
  have m2: "map_of bi i = map_option (\<lambda>r. \<lparr>bur_outputDigest = ame_outputDigest (fst r), bur_bytes = snd r\<rparr>)
      (find (\<lambda>r. ame_identifier (fst r) = i) rs)"
    using map_of_rev_map [of "ame_identifier \<circ> fst" rs "\<lambda>r. \<lparr>bur_outputDigest = ame_outputDigest (fst r), bur_bytes = snd r\<rparr>" i] assms(3)
    by (simp add: comp_def bi)
  have "lookup_state lib files (loadState info (Manifest man)) i
      = bundle_Lookup lib (bundle_load (Bundle (bundle_of rs) StreamEOF dgst)) i"
  proof (cases "find (\<lambda>r. ame_identifier (fst r) = i) rs")
    case None
    then show ?thesis unfolding ls bl by (simp add: lookup_state_def bundle_Lookup_def m1 m2)
  next
    case (Some r)
    then have "r \<in> set rs" by (auto simp: find_Some_iff)
    then have f: "safeRelPath (ame_path (fst r))" "files (ame_path (fst r)) = Some (snd r)"
      using assms(4) by (auto simp: list_all_iff case_prod_beta)
    then have "ame_path (fst r) \<noteq> []" by (auto simp: safeRelPath_def)
    moreover have "read_document lib (snd r) [] i = None" by (simp add: read_document_def digestMatches_iff)
    ultimately have "resolveEntry lib files (fst r) i = read_document lib (snd r) (ame_outputDigest (fst r)) i"
      using f by (simp add: resolveEntry_def)
    then show ?thesis using Some unfolding ls bl
      by (simp add: lookup_state_def bundle_Lookup_def m1 m2)
  qed
  moreover have "artifact_KnownIDs (loadState info (Manifest man))
      = bundle_KnownIDs (bundle_load (Bundle (bundle_of rs) StreamEOF dgst))"
  proof -
    have "mset (map ame_identifier (map fst rs)) = mset (map fst bi)"
      by (simp add: bi case_prod_beta comp_def rev_map [symmetric])
    then have "sort (map ame_identifier (map fst rs)) = sort (map fst bi)"
      by (metis mset_sort properties_for_sort sorted_sort)
    then show ?thesis unfolding ls bl by (simp add: artifact_KnownIDs_def bundle_KnownIDs_def assms(1))
  qed
  ultimately show ?thesis ..
qed

section \<open>A sample corpus\<close>

definition sample_doc :: advisoryDoc where
  "sample_doc = \<lparr>doc_schemaVersion = ''ferralon.normalized_advisory.v3'', doc_vulnID = ''CVE-1'', doc_module = [],
     doc_aliases = [], doc_upperExclusive = [], doc_fixedVersion = [], doc_versionScheme = ''npm'',
     doc_coordinate = ''lodash'', doc_purl = ''pkg:npm/lodash'', doc_symbols = [], doc_guardSymbols = [],
     doc_cwes = [''CWE-1321''], doc_summary = [], doc_summaryCompat = ''pollution'', doc_sinkKind = [],
     doc_pocSignal = None,
     doc_ranges = [\<lparr>drg_introduced = [], drg_fixed = ''2.0.0'', drg_lastAffected = [], drg_fixedVersion = [], drg_type = ''SEMVER''\<rparr>],
     doc_provenance = Some \<lparr>dpv_source = ''osv'', dpv_inputDigest = [], dpv_trustTier = ''first_party''\<rparr>,
     doc_lineage = None, doc_withdrawn = False, doc_trigger = None, doc_fix = None, doc_pocSummary = [],
     doc_triggerCondition = [], doc_prerequisite = [], doc_configKey = None, doc_featureFlag = [],
     doc_gadgetClasses = [], doc_guardSufficiency = [], doc_malicious = None, doc_affectedPackages = [],
     doc_affected = [], doc_symbolsTyped = [], doc_symbolProvenance = []\<rparr>"

definition sample_lib :: corpus_lib where
  "sample_lib = \<lparr>lib_sha256 = (\<lambda>b. if b = ''{}'' then ''d1'' else ''d0''), lib_decode = (\<lambda>b. Some sample_doc)\<rparr>"

definition sample_files :: "gostring \<Rightarrow> gostring option" where
  "sample_files p = (if p = ''2021/CVE-1.json'' then Some ''{}'' else None)"

theorem lookup_pinned_witness:
  "\<exists>st doc. ars_state sample_source = Some st \<and> backed_by sample_lib sample_files st ''CVE-1'' doc"
proof -
  have r: "source_step\<^sup>*\<^sup>* NewArtifactSource sample_source"
    unfolding sample_source_def by (intro r_into_rtranclp Load)
  let ?r = "artifact_Lookup sample_lib sample_files None ReadFailed sample_source ''CVE-1''"
  have "snd ?r \<noteq> None" by code_simp
  moreover have "fst ?r = sample_source"
    by (simp add: artifact_Lookup_def sample_source_def current_def NewArtifactSource_def Let_def)
  ultimately obtain f where "?r = (sample_source, Some f)" by (cases ?r) auto
  from lookup_pinned [OF r this] show ?thesis by auto
qed

theorem bundle_agrees_witness:
  "bundle_Lookup sample_lib (bundle_load (Bundle (bundle_of [(sample_manifest_entry, ''{}'')]) StreamEOF [])) ''CVE-1'' \<noteq> None"
proof -
  have "lookup_state sample_lib sample_files (loadState None (Manifest sample_manifest)) ''CVE-1''
      = bundle_Lookup sample_lib (bundle_load (Bundle (bundle_of [(sample_manifest_entry, ''{}'')]) StreamEOF [])) ''CVE-1''"
    by (rule conjunct1 [OF bundle_agrees]) code_simp+
  moreover have "lookup_state sample_lib sample_files (loadState None (Manifest sample_manifest)) ''CVE-1'' \<noteq> None"
    by code_simp
  ultimately show ?thesis by simp
qed

end
