(* ===== verification/Advisory_Intake.thy ===== *)
theory Advisory_Intake
  imports Advisory_Source
begin

text \<open>
  The advisory_intake stage (src/pipeline/stages.go): facts as the normalized advisory every later
  stage reads, and the composition with discovery. The artifact is the record of the fields the
  code marshals; \<open>as_read\<close> is the part of it the readers of Disqualification decode. The lemmas show
  what a disqualification says of the corpus document the facts were read from.
\<close>

section \<open>The artifacts\<close>

record advisoryTrigger =
  atr_ingressKind :: gostring
  atr_route :: gostring
  atr_param :: gostring
  atr_malformedToken :: gostring

record advisoryMaliciousPackage =
  amp_affectedVersions :: "gostring list"

record advisoryGuardVariant =
  agv_symbol :: gostring
  agv_version :: gostring
  agv_forBypass :: gostring
  agv_sufficient :: bool

record normalizedAdvisory =
  nad_vulnID :: gostring
  nad_source :: gostring
  nad_module :: gostring
  nad_coordinate :: gostring
  nad_aliases :: "gostring list"
  nad_ranges :: "affectedRange list"
  nad_fixedVersion :: gostring
  nad_purl :: gostring
  nad_symbols :: "gostring list"
  nad_conditional :: "gostring list"
  nad_symbolProvenance :: gostring
  nad_guards :: "gostring list"
  nad_cwes :: "gostring list"
  nad_vulnClass :: gostring
  nad_trustTier :: gostring
  nad_builtIn :: bool
  nad_trigger :: "advisoryTrigger option"
  nad_triggerCondition :: gostring
  nad_prerequisite :: gostring
  nad_packages :: "advisoryAffectedPackage list"
  nad_dropped :: "gostring list"
  nad_malicious :: "advisoryMaliciousPackage option"
  nad_guardSufficiency :: "advisoryGuardVariant list"

record publicPoC =
  ppc_available :: bool
  ppc_summary :: gostring

section \<open>The stage\<close>

definition effective_scheme :: "gostring \<Rightarrow> gostring \<Rightarrow> gostring" where
  "effective_scheme scheme purl = (if scheme = [] then schemeFromPURL purl else scheme)"

text \<open>The advisory's own block, as describesPrimary and legacyRangesDisagree read it.\<close>

definition primary_block :: "AdvisoryFacts \<Rightarrow> AffectedPackage" where
  "primary_block facts =
    \<lparr>ap_module = fct_module facts, ap_coordinate = fct_coordinate facts, ap_purl = fct_purl facts,
     ap_ranges = fct_ranges facts\<rparr>"

definition intake_package :: "AdvisoryFacts \<Rightarrow> gostring \<Rightarrow> packageFacts \<Rightarrow> advisoryAffectedPackage" where
  "intake_package facts scheme p =
    (let pkgScheme = effective_scheme (pf_versionScheme p) (ap_purl p) in
     \<lparr>aap_module = ap_module p, aap_coordinate = ap_coordinate p, aap_purl = ap_purl p,
      aap_ranges = withDisagreeingLegacyRanges
        (buildAffectedRanges (ap_ranges p) (pf_upperExclusive p) pkgScheme)
        (AffectedPackage.truncate p) (primary_block facts) scheme,
      aap_symbols = pf_symbols p\<rparr>)"

definition advisory_intake :: "gostring \<Rightarrow> gostring \<Rightarrow> AdvisoryFacts \<Rightarrow> normalizedAdvisory" where
  "advisory_intake vulnID vsource facts =
    (let scheme = effective_scheme (fct_versionScheme facts) (fct_purl facts);
         tr = fct_trigger facts
     in \<lparr>nad_vulnID = vulnID, nad_source = vsource, nad_module = fct_module facts,
         nad_coordinate = fct_coordinate facts, nad_aliases = fct_aliases facts,
         nad_ranges = buildAffectedRanges (fct_ranges facts) (fct_upperExclusive facts) scheme,
         nad_fixedVersion = fct_fixedVersion facts, nad_purl = fct_purl facts, nad_symbols = fct_symbols facts,
         nad_conditional = fct_conditional facts, nad_symbolProvenance = fct_symbolProvenance facts,
         nad_guards = fct_guardSymbols facts, nad_cwes = fct_cwes facts, nad_vulnClass = resolveVulnClass facts,
         nad_trustTier = fpv_trustTier (fct_provenance facts), nad_builtIn = fct_builtIn facts,
         nad_trigger =
           (if \<not> fct_withdrawn facts \<and> \<not> TriggerRoute_Zero tr
            then Some \<lparr>atr_ingressKind = tro_ingressKind tr, atr_route = tro_route tr, atr_param = tro_param tr,
                       atr_malformedToken = tro_malformedToken tr\<rparr>
            else None),
         nad_triggerCondition = fct_triggerCondition facts, nad_prerequisite = fct_prerequisite facts,
         nad_packages = map (intake_package facts scheme) (fct_packages facts), nad_dropped = fct_dropped facts,
         nad_malicious =
           (if mpf_declared (fct_malicious facts)
            then Some \<lparr>amp_affectedVersions = mpf_versions (fct_malicious facts)\<rparr> else None),
         nad_guardSufficiency =
           map (\<lambda>g. \<lparr>agv_symbol = gvt_symbol g, agv_version = gvt_version g, agv_forBypass = gvt_forBypass g,
                      agv_sufficient = gvt_sufficient g\<rparr>) (fct_guardSufficiency facts)\<rparr>)"

definition intake_poc :: "AdvisoryFacts \<Rightarrow> publicPoC" where
  "intake_poc facts = \<lparr>ppc_available = fct_pocSignal facts, ppc_summary = fct_pocSummary facts\<rparr>"

text \<open>What the later readers decode. The intake never states a symbol's presence.\<close>

definition as_read :: "normalizedAdvisory \<Rightarrow> advisory" where
  "as_read n =
    \<lparr>adv_module = nad_module n, adv_coordinate = nad_coordinate n, adv_purl = nad_purl n,
     adv_ranges = nad_ranges n, adv_packages = nad_packages n, adv_dropped = nad_dropped n,
     adv_symbols = nad_symbols n, adv_conditional = nad_conditional n, adv_symbolPresence = [],
     adv_trustTier = nad_trustTier n, adv_malicious = map_option amp_affectedVersions (nad_malicious n)\<rparr>"

text \<open>The store after the intake: the advisory artifact in place, whatever else it holds.\<close>

definition intake_step :: "gostring \<Rightarrow> gostring \<Rightarrow> AdvisoryFacts option \<Rightarrow> case_store \<Rightarrow> case_store" where
  "intake_step vulnID vsource found st =
    st\<lparr>st_advisory := Payload (as_read (advisory_intake vulnID vsource (facts_of found)))\<rparr>"

section \<open>The dependency identities an advisory names\<close>

record PackageKey =
  pky_ecosystem :: gostring
  pky_name :: gostring

definition package_key :: "gostring \<Rightarrow> gostring \<Rightarrow> gostring \<Rightarrow> gostring \<Rightarrow> PackageKey option" where
  "package_key module coordinate purl scheme0 =
    (let scheme = effective_scheme scheme0 purl in
     if scheme = ''go-toolchain'' \<or> isGoStdlibPURL purl
       then Some \<lparr>pky_ecosystem = ''golang'', pky_name = goStdlibPURLName\<rparr>
     else if module \<noteq> [] then Some \<lparr>pky_ecosystem = ''golang'', pky_name = module\<rparr>
     else if coordinate \<noteq> [] then Some \<lparr>pky_ecosystem = purlEcosystem purl, pky_name = coordinate\<rparr>
     else None)"

definition add_key :: "PackageKey option \<Rightarrow> PackageKey list \<Rightarrow> PackageKey list" where
  "add_key k keys = (case k of None \<Rightarrow> keys | Some x \<Rightarrow> if x \<in> set keys then keys else keys @ [x])"

definition AffectedPackageKeys :: "AdvisoryFacts \<Rightarrow> PackageKey list" where
  "AffectedPackageKeys f =
    add_key (package_key (fct_module f) (fct_coordinate f) (fct_purl f) (fct_versionScheme f))
      (fold (\<lambda>p keys. add_key (package_key (ap_module p) (ap_coordinate p) (ap_purl p) (pf_versionScheme p)) keys)
        (fct_packages f) [])"

section \<open>A disqualification is backed by a document\<close>

lemma intake_step_adv [simp]:
  "adv_of (intake_step i src found st) = Some (as_read (advisory_intake i src (facts_of found)))"
  by (simp add: adv_of_def intake_step_def decoded_def)

lemma intake_trust:
  "extractAdvisoryTrust (intake_step i src found st) = Some TrustFirstParty \<longleftrightarrow>
     fpv_trustTier (fct_provenance (facts_of found)) = TrustFirstParty"
  by (auto simp: extractAdvisoryTrust_def as_read_def advisory_intake_def Let_def)

lemma intake_no_symbol_signal: "extractSymbolSignal (intake_step i src found st) = None"
  by (simp add: extractSymbolSignal_def as_read_def)

lemma reached_state_ok:
  assumes "source_step\<^sup>*\<^sup>* NewArtifactSource s" and "artifact_Lookup lib files stat rd s i = (s', found)"
  shows "\<exists>ms. ars_state s' = Some ms \<and> state_ok ms \<and> found = lookup_state lib files ms i"
proof -
  obtain ms where c: "current stat rd s = (s', ms)" and f: "found = lookup_state lib files ms i"
    using assms(2) by (auto simp: artifact_Lookup_def split: prod.splits)
  have "source_inv s'" using current_inv [OF reachable_inv [OF assms(1)], of stat rd] c by simp
  moreover have "ars_state s' = Some ms" using c by (auto simp: current_def Let_def split: option.splits)
  ultimately show ?thesis using f by (auto simp: source_inv_def)
qed

lemma found_doc:
  assumes "state_ok ms" and "found = lookup_state lib files ms i" and "facts_of found \<noteq> zero_facts"
  shows "\<exists>doc. backed_by lib files ms i doc \<and> toFacts doc i = Some (facts_of found)"
proof (cases found)
  case None
  then show ?thesis using assms(3) by (simp add: facts_of_def)
next
  case (Some f)
  then show ?thesis using lookup_backed [OF assms(1), of lib files i f] assms(2) by (simp add: facts_of_def)
qed

lemma zero_facts_tier: "fpv_trustTier (fct_provenance zero_facts) = []"
  by (simp add: zero_facts_def no_provenance_def)

text \<open>C3: a version refutation is backed by a first-party document. When an assessment reads its advisory
  from a corpus directory, in whatever state the source is, a disqualification other than for
  the ecosystem or the manifest is for the version; the corpus holds, pinned by its manifest, a document
  of that advisory that declares first-party trust; and the installed versions are a complete,
  non-empty list, each outside every range the intake wrote.\<close>

theorem version_refutation_backed:
  assumes "source_step\<^sup>*\<^sup>* NewArtifactSource s" and "artifact_Lookup lib files stat rd s i = (s', found)"
    and "disqualification_run sv env (intake_step i src found st) = Some r" and "dq_disqualified r"
    and "dq_reason r \<noteq> ReasonAdvisoryEcosystemMismatch" and "dq_reason r \<noteq> ReasonNoManifestEntry"
  shows "dq_reason r = ReasonVersionNotInRange
    \<and> (\<exists>ms doc p. ars_state s' = Some ms \<and> backed_by lib files ms i doc
          \<and> doc_provenance doc = Some p \<and> dpv_trustTier p = TrustFirstParty)
    \<and> (\<exists>ax. extractVersionAxis (intake_step i src found st) = Some ax
          \<and> all_cleared sv (map_option (rangesForFloorVersion (intake_step i src found st))
                (extractAffectedRange (intake_step i src found st))) (ax_versions ax) (ax_complete ax))"
proof -
  let ?st = "intake_step i src found st"
  have g: "extractAdvisoryTrust ?st = Some TrustFirstParty" "dq_reason r = ReasonVersionNotInRange"
    "\<exists>ax. extractVersionAxis ?st = Some ax \<and>
       all_cleared sv (map_option (rangesForFloorVersion ?st) (extractAffectedRange ?st)) (ax_versions ax) (ax_complete ax)"
    using disqualification_grounds [OF assms(3,4)] assms(5,6) intake_no_symbol_signal [of i src found st] by auto
  obtain ms where ms: "ars_state s' = Some ms" "state_ok ms" "found = lookup_state lib files ms i"
    using reached_state_ok [OF assms(1,2)] by blast
  have t: "fpv_trustTier (fct_provenance (facts_of found)) = TrustFirstParty" using g(1) intake_trust by simp
  have "facts_of found \<noteq> zero_facts" using t zero_facts_tier by (auto simp: TrustFirstParty_def)
  from found_doc [OF ms(2,3) this] obtain doc where d: "backed_by lib files ms i doc" "toFacts doc i = Some (facts_of found)"
    by blast
  have "\<exists>p. doc_provenance doc = Some p \<and> dpv_trustTier p = TrustFirstParty"
    using toFacts_fields(9) [OF d(2)] t by (cases "doc_provenance doc") (simp_all add: TrustFirstParty_def)
  then show ?thesis using g ms(1) d(1) by blast
qed

text \<open>C32: a malicious verdict is backed by a document's list. When the advisory came from a corpus directory
  and the malicious-presence stage records a version, the corpus holds, pinned, a document of that
  advisory whose malicious-package marker lists that very version.\<close>

theorem malicious_verdict_backed:
  assumes "source_step\<^sup>*\<^sup>* NewArtifactSource s" and "artifact_Lookup lib files stat rd s i = (s', found)"
    and "malicious_run (intake_step i src found st) = Some v"
  shows "\<exists>ms doc m. ars_state s' = Some ms \<and> backed_by lib files ms i doc
    \<and> doc_malicious doc = Some m \<and> v \<in> set (dmp_affectedVersions m) \<and> v \<noteq> []"
proof -
  let ?f = "facts_of found"
  have m: "mpf_declared (fct_malicious ?f)" "v \<in> set (mpf_versions (fct_malicious ?f))"
    using assms(3)
    by (auto simp: malicious_run_def extractMaliciousAffectedVersions_def as_read_def advisory_intake_def Let_def
        find_Some_iff split: if_splits option.splits)
  obtain ms where ms: "ars_state s' = Some ms" "state_ok ms" "found = lookup_state lib files ms i"
    using reached_state_ok [OF assms(1,2)] by blast
  have "?f \<noteq> zero_facts" using m(1) by (auto simp: zero_facts_def)
  from found_doc [OF ms(2,3) this] obtain doc where d: "backed_by lib files ms i doc" "toFacts doc i = Some ?f" by blast
  have "\<exists>mp. doc_malicious doc = Some mp \<and> v \<in> set (dmp_affectedVersions mp) \<and> v \<noteq> []"
    using m toFacts_fields(7) [OF d(2)] by (cases "doc_malicious doc") (auto simp: malicious_of_doc_def)
  then show ?thesis using ms(1) d(1) by blast
qed

lemma sample_reached: "source_step\<^sup>*\<^sup>* NewArtifactSource sample_source"
  unfolding sample_source_def by (intro r_into_rtranclp Load)

definition sample_lookup :: "AdvisoryFacts option" where
  "sample_lookup = snd (artifact_Lookup sample_lib sample_files None ReadFailed sample_source ''CVE-1'')"

theorem version_refutation_backed_witness:
  "\<exists>ms doc p. backed_by sample_lib sample_files ms ''CVE-1'' doc \<and> doc_provenance doc = Some p \<and> dpv_trustTier p = TrustFirstParty"
proof -
  have a: "artifact_Lookup sample_lib sample_files None ReadFailed sample_source ''CVE-1''
      = (fst (artifact_Lookup sample_lib sample_files None ReadFailed sample_source ''CVE-1''), sample_lookup)"
    by (simp add: sample_lookup_def)
  have r: "disqualification_run sample_sv (\<lambda>_ _. sample_env) (intake_step ''CVE-1'' ''osv'' sample_lookup sample_store) =
      Some \<lparr>dq_disqualified = True, dq_reason = ReasonVersionNotInRange\<rparr>" by code_simp
  have n: "ReasonVersionNotInRange \<noteq> ReasonAdvisoryEcosystemMismatch" "ReasonVersionNotInRange \<noteq> ReasonNoManifestEntry"
    by code_simp+
  from version_refutation_backed [OF sample_reached a r] n show ?thesis by auto
qed

text \<open>The same corpus, with a document that marks version 3.0.0 as malicious.\<close>

definition malicious_lib :: corpus_lib where
  "malicious_lib = sample_lib\<lparr>lib_decode :=
     (\<lambda>b. Some (sample_doc\<lparr>doc_malicious := Some \<lparr>dmp_affectedVersions = [[], ''3.0.0'']\<rparr>\<rparr>))\<rparr>"

definition malicious_lookup :: "AdvisoryFacts option" where
  "malicious_lookup = snd (artifact_Lookup malicious_lib sample_files None ReadFailed sample_source ''CVE-1'')"

theorem malicious_verdict_backed_witness:
  "\<exists>ms doc m. backed_by malicious_lib sample_files ms ''CVE-1'' doc \<and> doc_malicious doc = Some m
     \<and> ''3.0.0'' \<in> set (dmp_affectedVersions m)"
proof -
  have a: "artifact_Lookup malicious_lib sample_files None ReadFailed sample_source ''CVE-1''
      = (fst (artifact_Lookup malicious_lib sample_files None ReadFailed sample_source ''CVE-1''), malicious_lookup)"
    by (simp add: malicious_lookup_def)
  have "malicious_run (intake_step ''CVE-1'' ''osv'' malicious_lookup sample_store) = Some ''3.0.0''" by code_simp
  from malicious_verdict_backed [OF sample_reached a this] show ?thesis by blast
qed

text \<open>the proof-route class of an advisory is a known class or none. A withdrawn advisory has none; else a
  sink kind that names a class settles it; "code_execution" settles it exactly when the CWEs, in any
  order, name one class of its fan-out; and without a sink kind that settles it the CWE and
  summary classifier stands.\<close>

theorem vuln_class_exact:
  "resolveVulnClass f \<in> insert ClassUnknown (set KnownClasses) \<and>
   (resolveVulnClass f =
     (let fan = {d \<in> set codeExecutionFanout. \<exists>raw \<in> set (fct_cwes f). ClassFromCWE raw = Some d};
          fallback = ClassifyAdvisory \<lparr>ac_cwes = fct_cwes f, ac_summary = fct_summary f\<rparr>
      in if fct_withdrawn f then ClassUnknown
         else if native_class (fct_sinkKind f) then fct_sinkKind f
         else if fct_sinkKind f = ''code_execution'' then (if is_singleton fan then the_elem fan else fallback)
         else (case map_of intelSinkKindClass (fct_sinkKind f) of Some c \<Rightarrow> c | None \<Rightarrow> fallback)))"
proof (cases "classFromSinkKind (fct_sinkKind f) (fct_cwes f)")
  case None
  then have n: "\<not> native_class (fct_sinkKind f)" "fct_sinkKind f \<noteq> ''code_execution'' \<Longrightarrow> map_of intelSinkKindClass (fct_sinkKind f) = None"
    "fct_sinkKind f = ''code_execution'' \<Longrightarrow> \<not> is_singleton {d \<in> set codeExecutionFanout. \<exists>raw \<in> set (fct_cwes f). ClassFromCWE raw = Some d}"
    using classFromSinkKind_exact [of "fct_sinkKind f" "fct_cwes f"]
    by (auto simp: is_singleton_def split: if_splits) (metis option.exhaust)+
  then show ?thesis using None classify_known by (auto simp: resolveVulnClass_def Let_def split: option.splits)
next
  case (Some c)
  note known = classFromSinkKind_known [OF Some]
  have e: "if native_class (fct_sinkKind f) then c = fct_sinkKind f
      else if fct_sinkKind f = ''code_execution''
        then {d \<in> set codeExecutionFanout. \<exists>raw \<in> set (fct_cwes f). ClassFromCWE raw = Some d} = {c}
      else map_of intelSinkKindClass (fct_sinkKind f) = Some c"
    using Some classFromSinkKind_exact [of "fct_sinkKind f" "fct_cwes f" c] by simp
  then show ?thesis using Some known by (auto simp: resolveVulnClass_def Let_def is_singleton_def split: if_splits)
qed

section \<open>Dependency identities\<close>

lemma add_key_set: "set (add_key k keys) = set keys \<union> set_option k"
  by (auto simp: add_key_def split: option.splits)

lemma add_key_distinct: "distinct keys \<Longrightarrow> distinct (add_key k keys)"
  by (auto simp: add_key_def split: option.splits)

lemma fold_keys:
  "set (fold (\<lambda>p keys. add_key (k p) keys) ps keys) = set keys \<union> \<Union> ((\<lambda>p. set_option (k p)) ` set ps)"
  "distinct keys \<Longrightarrow> distinct (fold (\<lambda>p keys. add_key (k p) keys) ps keys)"
  by (induction ps arbitrary: keys) (auto simp: add_key_set add_key_distinct)

lemma AffectedPackageKeys_exact:
  "distinct (AffectedPackageKeys f) \<and>
   (k \<in> set (AffectedPackageKeys f) \<longleftrightarrow>
     package_key (fct_module f) (fct_coordinate f) (fct_purl f) (fct_versionScheme f) = Some k
     \<or> (\<exists>p \<in> set (fct_packages f). package_key (ap_module p) (ap_coordinate p) (ap_purl p) (pf_versionScheme p) = Some k))"
  by (auto simp: AffectedPackageKeys_def add_key_set fold_keys add_key_distinct)

end
