(* ===== verification/Advisory_Table.thy ===== *)
theory Advisory_Table
  imports Advisory_Intake Reach_Ingress
begin

text \<open>
  The built-in advisories: the literal AdvisoryTable of src/pipeline/stages.go as data, one definition
  for each entry. With it the table source is the code's own, and what the rest of the program
  relies on in the table is checked entry by entry.
\<close>

section \<open>The entries\<close>

definition advisory_GO_2021_0113 :: AdvisoryFacts where
  "advisory_GO_2021_0113 = zero_facts\<lparr>
     fct_module := ''golang.org/x/text'', fct_aliases := [''CVE-2021-38561'', ''GHSA-ppp9-7jff-5vj2''],
     fct_upperExclusive := ''v0.3.7'', fct_fixedVersion := ''v0.3.7'', fct_purl := ''pkg:golang/golang.org/x/text'',
     fct_symbols := [''golang.org/x/text/language.Parse''], fct_cwes := [''CWE-125''],
     fct_summary := ''out-of-bounds read panic in language.Parse on a malformed BCP-47 tag''\<rparr>"

definition advisory_GO_2022_0322 :: AdvisoryFacts where
  "advisory_GO_2022_0322 = zero_facts\<lparr>
     fct_module := ''github.com/prometheus/client_golang'',
     fct_aliases := [''CVE-2022-21698'', ''GHSA-cg3q-j54f-5p7p''], fct_upperExclusive := ''v1.11.1'',
     fct_fixedVersion := ''v1.11.1'', fct_purl := ''pkg:golang/github.com/prometheus/client_golang'',
     fct_symbols := [''github.com/prometheus/client_golang/prometheus/promhttp.Handler'', ''github.com/prometheus/client_golang/prometheus/promhttp.HandlerFor''],
     fct_cwes := [''CWE-770''],
     fct_summary := ''uncontrolled resource consumption: unbounded cardinality of metric labels enables memory exhaustion''\<rparr>"

definition advisory_CVE_2024_45337 :: AdvisoryFacts where
  "advisory_CVE_2024_45337 = zero_facts\<lparr>
     fct_module := ''golang.org/x/crypto'', fct_aliases := [''GHSA-v778-237x-gjrc'', ''GO-2024-3321''],
     fct_upperExclusive := ''v0.31.0'', fct_fixedVersion := ''v0.31.0'',
     fct_purl := ''pkg:golang/golang.org/x/crypto'', fct_symbols := [''golang.org/x/crypto/ssh.NewServerConn''],
     fct_cwes := [''CWE-285''],
     fct_summary := ''authorization bypass: an SSH server that misuses ServerConfig.PublicKeyCallback may treat a public key that was offered but never used to complete authentication as if it had authenticated the session''\<rparr>"

definition advisory_FERRALON_APP_SSRF_0001 :: AdvisoryFacts where
  "advisory_FERRALON_APP_SSRF_0001 = zero_facts\<lparr>
     fct_purl := ''pkg:golang/tegron/corpus/ssrf'', fct_symbols := [''main.fetchHandler''],
     fct_cwes := [''CWE-918''],
     fct_summary := ''server-side request forgery: fetchHandler forwards an attacker-controlled url parameter to http.Get with no allowlist''\<rparr>"

definition advisory_FERRALON_APP_DOS_0001 :: AdvisoryFacts where
  "advisory_FERRALON_APP_DOS_0001 = zero_facts\<lparr>
     fct_purl := ''pkg:golang/tegron/corpus/dos'', fct_symbols := [''main.expandHandler''],
     fct_cwes := [''CWE-400''],
     fct_summary := ''uncontrolled resource consumption: expandHandler allocates a slice sized by an attacker-controlled count with no upper bound, faulting the process''\<rparr>"

definition advisory_FERRALON_GO_GRAFANA_DUCKDB_0001 :: AdvisoryFacts where
  "advisory_FERRALON_GO_GRAFANA_DUCKDB_0001 = zero_facts\<lparr>
     fct_aliases := [''CVE-2024-9264'', ''GHSA-q99m-qcv4-fpm7''],
     fct_purl := ''pkg:golang/github.com/grafana/grafana'', fct_symbols := [''main.runDuckQuery''],
     fct_cwes := [''CWE-94'', ''CWE-78''],
     fct_summary := ''code injection / OS command execution: the SQL Expressions feature reaches runDuckQuery, which executes attacker-controlled SQL through the DuckDB engine binary (DuckDB file functions enable LFI/RCE); the upstream fix removes the go-duck dependency and the exec sink outright''\<rparr>"

definition advisory_GO_2021_0264 :: AdvisoryFacts where
  "advisory_GO_2021_0264 = zero_facts\<lparr>
     fct_aliases := [''CVE-2021-41772''], fct_versionScheme := ''go-toolchain'', fct_purl := ''pkg:golang/stdlib'',
     fct_symbols := [''archive/zip.(*Reader).Open''],
     fct_ranges := [\<lparr>osv_introduced = [], osv_fixed = ''go1.16.10'', osv_last = [], osv_fixedVersion = ''go1.16.10'', osv_type = []\<rparr>, \<lparr>osv_introduced = ''go1.17.0'', osv_fixed = ''go1.17.3'', osv_last = [], osv_fixedVersion = ''go1.17.3'', osv_type = []\<rparr>]\<rparr>"

definition advisory_CVE_2023_39325 :: AdvisoryFacts where
  "advisory_CVE_2023_39325 = zero_facts\<lparr>
     fct_aliases := [''GO-2023-2102'', ''GHSA-4374-p667-p6c8''], fct_versionScheme := ''go-toolchain'',
     fct_purl := ''pkg:golang/stdlib'', fct_symbols := [''net/http.(*http2Server).ServeConn''],
     fct_cwes := [''CWE-400''],
     fct_summary := ''uncontrolled resource consumption (HTTP/2 rapid reset): a client that rapidly opens and resets streams forces the net/http HTTP/2 server to spawn unbounded handler goroutines; fixed on both the go1.20.x and go1.21.x branches'',
     fct_ranges := [\<lparr>osv_introduced = [], osv_fixed = ''go1.20.10'', osv_last = [], osv_fixedVersion = ''go1.20.10'', osv_type = []\<rparr>, \<lparr>osv_introduced = ''go1.21.0'', osv_fixed = ''go1.21.3'', osv_last = [], osv_fixedVersion = ''go1.21.3'', osv_type = []\<rparr>]\<rparr>"

definition advisory_CVE_2023_45283 :: AdvisoryFacts where
  "advisory_CVE_2023_45283 = zero_facts\<lparr>
     fct_aliases := [''GO-2023-2185''], fct_versionScheme := ''go-toolchain'', fct_purl := ''pkg:golang/stdlib'',
     fct_symbols := [''path/filepath.IsLocal'', ''path/filepath.Clean''], fct_cwes := [''CWE-22''],
     fct_summary := (''improper path traversal: on Windows path/filepath does not treat a '' @ [CHR 0x5C] @ ''??'' @ [CHR 0x5C] @ '' device-path prefix as special, so IsLocal reports an escaping path as local; fixed on both the go1.20.x and go1.21.x branches''),
     fct_ranges := [\<lparr>osv_introduced = [], osv_fixed = ''go1.20.11'', osv_last = [], osv_fixedVersion = ''go1.20.11'', osv_type = []\<rparr>, \<lparr>osv_introduced = ''go1.21.0'', osv_fixed = ''go1.21.4'', osv_last = [], osv_fixedVersion = ''go1.21.4'', osv_type = []\<rparr>]\<rparr>"

definition advisory_CVE_2024_24790 :: AdvisoryFacts where
  "advisory_CVE_2024_24790 = zero_facts\<lparr>
     fct_aliases := [''GO-2024-2887''], fct_versionScheme := ''go-toolchain'', fct_purl := ''pkg:golang/stdlib'',
     fct_symbols := [''net/netip.Addr.IsPrivate'', ''net/netip.Addr.IsLoopback''], fct_cwes := [''CWE-125''],
     fct_summary := (''incorrect address classification: net/netip Is* methods (IsPrivate, IsLoopback, '' @ [CHR 0xE2] @ [CHR 0x80] @ [CHR 0xA6] @ '') return false for IPv4-mapped IPv6 addresses that should classify by their IPv4 form, defeating allow/deny checks; fixed on both the go1.21.x and go1.22.x branches''),
     fct_ranges := [\<lparr>osv_introduced = [], osv_fixed = ''go1.21.11'', osv_last = [], osv_fixedVersion = ''go1.21.11'', osv_type = []\<rparr>, \<lparr>osv_introduced = ''go1.22.0'', osv_fixed = ''go1.22.4'', osv_last = [], osv_fixedVersion = ''go1.22.4'', osv_type = []\<rparr>]\<rparr>"

definition advisory_CVE_2024_55947 :: AdvisoryFacts where
  "advisory_CVE_2024_55947 = zero_facts\<lparr>
     fct_aliases := [''GHSA-qf5v-rp47-55gg'', ''GO-2024-3356''], fct_purl := ''pkg:golang/gogs.io/gogs/internal/db'',
     fct_symbols := [''UpdateRepoFile''], fct_guardSymbols := [''isRepositoryGitPath''], fct_cwes := [''CWE-22''],
     fct_summary := ''path traversal / arbitrary file write: the repository file-update API reaches UpdateRepoFile with an attacker-controlled tree path that escapes the repository directory; fixed in v0.13.1 by extending the .git path guard to that route'',
     fct_lineage := \<lparr>lin_incompleteFixOf = [], lin_refixedBy = ''CVE-2025-8110''\<rparr>,
     fct_guardSufficiency := [\<lparr>gvt_symbol = ''isRepositoryGitPath'', gvt_version = ''0.13.1'', gvt_forBypass = ''CVE-2024-55947'', gvt_sufficient = True\<rparr>]\<rparr>"

definition advisory_CVE_2025_8110 :: AdvisoryFacts where
  "advisory_CVE_2025_8110 = zero_facts\<lparr>
     fct_aliases := [''GHSA-mq8m-42gh-wq7r'', ''GO-2025-4225''], fct_purl := ''pkg:golang/gogs.io/gogs/internal/db'',
     fct_symbols := [''UpdateRepoFile''], fct_guardSymbols := [''IsSymlink'', ''hasSymlinkInPath''],
     fct_cwes := [''CWE-22''],
     fct_summary := (''arbitrary file write via symlink: a committed in-repo symlink at an interior path component is followed by UpdateRepoFile, escaping the working tree; bypasses the v0.13.1 traversal fix and v0.13.3'' @ [CHR 0x27] @ ''s leaf-only symlink check, and is closed by the full-hierarchy walk added in v0.13.4''),
     fct_lineage := \<lparr>lin_incompleteFixOf = ''CVE-2024-55947'', lin_refixedBy = []\<rparr>,
     fct_guardSufficiency := [\<lparr>gvt_symbol = ''IsSymlink'', gvt_version = ''0.13.3'', gvt_forBypass = ''CVE-2025-8110'', gvt_sufficient = False\<rparr>, \<lparr>gvt_symbol = ''hasSymlinkInPath'', gvt_version = ''0.13.4'', gvt_forBypass = ''CVE-2025-8110'', gvt_sufficient = True\<rparr>]\<rparr>"

definition advisory_FERRALON_JAVA_SSRF_0001 :: AdvisoryFacts where
  "advisory_FERRALON_JAVA_SSRF_0001 = zero_facts\<lparr>
     fct_purl := ''pkg:maven/com.example.web/ssrf'', fct_symbols := [''UrlFetcher.fetch''],
     fct_cwes := [''CWE-918''],
     fct_summary := ''server-side request forgery: a servlet forwards an attacker-controlled target through UrlFetcher.fetch to an outbound HTTP request with no allowlist''\<rparr>"

definition advisory_FERRALON_JAVA_SPRING_SSRF_0001 :: AdvisoryFacts where
  "advisory_FERRALON_JAVA_SPRING_SSRF_0001 = zero_facts\<lparr>
     fct_purl := ''pkg:maven/com.example.web/spring-ssrf'', fct_symbols := [''UrlServiceImpl.fetch''],
     fct_cwes := [''CWE-918''],
     fct_summary := ''server-side request forgery: a Spring @RestController reaches UrlServiceImpl.fetch through an @Autowired interface field; the sink issues an outbound request with no allowlist''\<rparr>"

definition advisory_FERRALON_JAVA_SSRF_0002 :: AdvisoryFacts where
  "advisory_FERRALON_JAVA_SSRF_0002 = zero_facts\<lparr>
     fct_upperExclusive := ''2.1.0'', fct_fixedVersion := ''2.1.0'', fct_versionScheme := ''maven'',
     fct_coordinate := ''com.example.net:urlkit'', fct_purl := ''pkg:maven/com.example.net/urlkit'',
     fct_symbols := [''App.fetch''], fct_cwes := [''CWE-918''],
     fct_summary := (''server-side request forgery: com.example.net:urlkit reaches an outbound HTTP GET to a caller-supplied URL with no allowlist; fixed in 2.1.0. In the unreachable repro the sink App.fetch is present but dead '' @ [CHR 0xE2] @ [CHR 0x80] @ [CHR 0x94] @ '' never called from an ingress '' @ [CHR 0xE2] @ [CHR 0x80] @ [CHR 0x94] @ '' so the case is not_exploitable at the reach axis.'')\<rparr>"

definition advisory_FERRALON_JAVA_SSRF_0003 :: AdvisoryFacts where
  "advisory_FERRALON_JAVA_SSRF_0003 = zero_facts\<lparr>
     fct_versionScheme := ''maven'', fct_coordinate := ''com.example.svc:iface-fetch'',
     fct_purl := ''pkg:maven/com.example.svc/iface-fetch'', fct_symbols := [''SomeServiceImpl.fetch''],
     fct_cwes := [''CWE-918''],
     fct_summary := ''server-side request forgery: com.example.svc:iface-fetch reaches SomeServiceImpl.fetch through an @Autowired SomeService interface field; the sink issues an outbound request with no allowlist. Fixed in 1.3.0 (affects [1.0.0, 1.3.0)). The tool-unavailable repro is undetermined under the analyzer-gated-but-absent overlay and not_exploitable ungated.'',
     fct_ranges := [\<lparr>osv_introduced = ''1.0.0'', osv_fixed = ''1.3.0'', osv_last = [], osv_fixedVersion = ''1.3.0'', osv_type = []\<rparr>]\<rparr>"

definition advisory_FERRALON_JS_SSRF_0001 :: AdvisoryFacts where
  "advisory_FERRALON_JS_SSRF_0001 = zero_facts\<lparr>
     fct_purl := ''pkg:npm/tegron-corpus-ssrf'', fct_symbols := [''fetchUrl''], fct_cwes := [''CWE-918''],
     fct_summary := ''server-side request forgery: an Express route forwards an attacker-controlled target through fetchUrl to an outbound HTTP request with no allowlist''\<rparr>"

definition advisory_FERRALON_JS_NEXTRCE_0001 :: AdvisoryFacts where
  "advisory_FERRALON_JS_NEXTRCE_0001 = zero_facts\<lparr>
     fct_aliases := [''GHSA-5vj8-3v2h-h38v''], fct_purl := ''pkg:npm/next'', fct_symbols := [''requireModule''],
     fct_cwes := [''CWE-94''],
     fct_summary := ''module-resolution RCE: the catch-all page route reaches requireModule, which require()s an attacker-controlled path with no bundles-directory containment (Next.js < 5.1.0)''\<rparr>"

definition advisory_FERRALON_JAVA_DEP_0001 :: AdvisoryFacts where
  "advisory_FERRALON_JAVA_DEP_0001 = zero_facts\<lparr>
     fct_upperExclusive := ''1.4.0'', fct_fixedVersion := ''1.4.0'', fct_versionScheme := ''maven'',
     fct_coordinate := ''com.example.lib:widget'', fct_purl := ''pkg:maven/com.example.lib/widget'',
     fct_summary := ''deserialization flaw in com.example.lib:widget fixed in 1.4.0''\<rparr>"

definition advisory_FERRALON_JS_DEP_0001 :: AdvisoryFacts where
  "advisory_FERRALON_JS_DEP_0001 = zero_facts\<lparr>
     fct_upperExclusive := ''1.4.0'', fct_fixedVersion := ''1.4.0'', fct_versionScheme := ''npm'',
     fct_coordinate := ''left-pad'', fct_purl := ''pkg:npm/left-pad'',
     fct_summary := ''prototype pollution in left-pad fixed in 1.4.0''\<rparr>"

definition advisory_FERRALON_PY_DEP_0001 :: AdvisoryFacts where
  "advisory_FERRALON_PY_DEP_0001 = zero_facts\<lparr>
     fct_upperExclusive := ''2.3.2'', fct_fixedVersion := ''2.3.2'', fct_coordinate := ''flask'',
     fct_purl := ''pkg:pypi/flask'', fct_summary := ''reflected header injection in flask fixed in 2.3.2''\<rparr>"

definition advisory_FERRALON_NET_DEP_0001 :: AdvisoryFacts where
  "advisory_FERRALON_NET_DEP_0001 = zero_facts\<lparr>
     fct_upperExclusive := ''13.0.1'', fct_fixedVersion := ''13.0.1'', fct_coordinate := ''Newtonsoft.Json'',
     fct_purl := ''pkg:nuget/Newtonsoft.Json'',
     fct_summary := ''insecure default deserialization in Newtonsoft.Json fixed in 13.0.1''\<rparr>"

definition advisory_FERRALON_NET_REACH_0001 :: AdvisoryFacts where
  "advisory_FERRALON_NET_REACH_0001 = zero_facts\<lparr>
     fct_aliases := [''CVE-2021-32840''], fct_upperExclusive := ''1.3.3'', fct_fixedVersion := ''1.3.3'',
     fct_versionScheme := ''nuget'', fct_coordinate := ''SharpZipLib'', fct_purl := ''pkg:nuget/SharpZipLib'',
     fct_symbols := [''ICSharpCode.SharpZipLib.Zip.FastZip.ExtractZip''], fct_cwes := [''CWE-22''],
     fct_summary := ''path traversal (Zip-Slip) on archive extraction: ICSharpCode.SharpZipLib before 1.3.3 does not validate archive entry paths, so FastZip.ExtractZip writes files outside the destination directory, enabling arbitrary file write and possible remote code execution. GHSA-m22m-h4rf-pwq3 / CVE-2021-32840, fixed in 1.3.3.'',
     fct_ranges := [\<lparr>osv_introduced = [], osv_fixed = ''1.3.3'', osv_last = [], osv_fixedVersion = ''1.3.3'', osv_type = []\<rparr>],
     fct_provenance := \<lparr>fpv_source = ''GHSA-m22m-h4rf-pwq3'', fpv_inputDigest = ''provisional-symbol-spelling: authored before the .NET symbol profile was fixed; re-normalisation pending. The Symbols spelling above is NOT canonical yet. NOTE the identity split: Coordinate/PURL are keyed by the NuGet PACKAGE ID (SharpZipLib) so versions.go matches the .csproj PackageReference; Symbols are keyed by the CLR NAMESPACE path (ICSharpCode.SharpZipLib.*).'', fpv_trustTier = []\<rparr>\<rparr>"

definition advisory_FERRALON_PY_FIRSTPARTY_0001 :: AdvisoryFacts where
  "advisory_FERRALON_PY_FIRSTPARTY_0001 = zero_facts\<lparr>
     fct_purl := ''pkg:pypi/tegron-corpus-app'', fct_symbols := [''app.handler''], fct_cwes := [''CWE-22''],
     fct_summary := ''first-party path traversal with no version-range fix (open/unbounded affected range)''\<rparr>"

definition advisory_FERRALON_PY_AIRFLOW_EXPAPI_0001 :: AdvisoryFacts where
  "advisory_FERRALON_PY_AIRFLOW_EXPAPI_0001 = zero_facts\<lparr>
     fct_aliases := [''CVE-2020-13927''], fct_purl := ''pkg:pypi/apache-airflow'',
     fct_symbols := [''airflow.api.common.experimental.get_code.get_code''], fct_cwes := [''CWE-306''],
     fct_summary := ''missing authentication: the experimental REST API exposes an unauthenticated get_code sink that reads arbitrary DAG source off disk; the experimental API has no access control by default and was removed wholesale in Airflow 3.0.0''\<rparr>"

definition advisory_CVE_2026_46595 :: AdvisoryFacts where
  "advisory_CVE_2026_46595 = zero_facts\<lparr>
     fct_module := ''golang.org/x/crypto'', fct_aliases := [''GHSA-x527-x647-q7gg'', ''GO-2026-5023''],
     fct_upperExclusive := ''v0.52.0'', fct_fixedVersion := ''v0.52.0'',
     fct_purl := ''pkg:golang/golang.org/x/crypto'', fct_symbols := [''golang.org/x/crypto/ssh.NewServerConn''],
     fct_cwes := [''CWE-863''],
     fct_summary := (''authorization bypass (incomplete fix of CVE-2024-45337): when an SSH server'' @ [CHR 0x27] @ ''s ServerConfig uses a non-public-key callback, the source-address validation added by the CVE-2024-45337 fix is skipped, re-opening the authorization bypass''),
     fct_lineage := \<lparr>lin_incompleteFixOf = ''CVE-2024-45337'', lin_refixedBy = []\<rparr>\<rparr>"

definition advisory_CVE_2026_39831 :: AdvisoryFacts where
  "advisory_CVE_2026_39831 = zero_facts\<lparr>
     fct_module := ''golang.org/x/crypto'', fct_aliases := [''GHSA-89gr-r52h-f8rx'', ''GO-2026-5019''],
     fct_upperExclusive := ''v0.52.0'', fct_fixedVersion := ''v0.52.0'',
     fct_purl := ''pkg:golang/golang.org/x/crypto'',
     fct_symbols := [''golang.org/x/crypto/ssh.NewServerConn'', ''golang.org/x/crypto/ssh.CertChecker.Authenticate'', ''golang.org/x/crypto/ssh.CertChecker.CheckCert'', ''golang.org/x/crypto/ssh.CertChecker.CheckHostKey'', ''golang.org/x/crypto/ssh.Certificate.Verify'', ''golang.org/x/crypto/ssh.Dial'', ''golang.org/x/crypto/ssh.NewClientConn''],
     fct_cwes := [''CWE-290''],
     fct_summary := ''authentication bypass: the Verify() method for FIDO/U2F security-key types (sk-ecdsa-sha2-nistp256@openssh.com, sk-ssh-ed25519@openssh.com) does not check the User Presence flag, so signatures generated without a physical touch are accepted, allowing unattended use of a hardware security key''\<rparr>"

definition advisory_CVE_2026_39821 :: AdvisoryFacts where
  "advisory_CVE_2026_39821 = zero_facts\<lparr>
     fct_module := ''golang.org/x/net'', fct_aliases := [''GO-2026-5026''], fct_upperExclusive := ''v0.55.0'',
     fct_fixedVersion := ''v0.55.0'', fct_purl := ''pkg:golang/golang.org/x/net'',
     fct_symbols := [''golang.org/x/net/idna.Profile.ToASCII'', ''golang.org/x/net/idna.Profile.ToUnicode'', ''golang.org/x/net/idna.ToASCII'', ''golang.org/x/net/idna.ToUnicode''],
     fct_cwes := [''CWE-1289''],
     fct_summary := (''privilege escalation via IDNA confusion: idna.ToASCII/ToUnicode incorrectly accept a Punycode-encoded label that decodes to an ASCII-only label (e.g. ToUnicode('' @ [CHR 0x22] @ ''xn--example-.com'' @ [CHR 0x22] @ '') returns '' @ [CHR 0x22] @ ''example.com'' @ [CHR 0x22] @ '' instead of an error), so a hostname allow/deny check on the ASCII form can be bypassed after conversion to Unicode'')\<rparr>"

definition advisory_CVE_2020_36569 :: AdvisoryFacts where
  "advisory_CVE_2020_36569 = zero_facts\<lparr>
     fct_module := ''github.com/nanobox-io/golang-nanoauth'',
     fct_aliases := [''GHSA-hrm3-3xm6-x33h'', ''GO-2020-0004''],
     fct_purl := ''pkg:golang/github.com/nanobox-io/golang-nanoauth'',
     fct_symbols := [''github.com/nanobox-io/golang-nanoauth.Auth.ListenAndServe'', ''github.com/nanobox-io/golang-nanoauth.Auth.ListenAndServeTLS'', ''github.com/nanobox-io/golang-nanoauth.Auth.ServeHTTP'', ''github.com/nanobox-io/golang-nanoauth.ListenAndServe'', ''github.com/nanobox-io/golang-nanoauth.ListenAndServeTLS''],
     fct_cwes := [''CWE-305'', ''CWE-287''],
     fct_summary := ''authentication bypass: authentication is globally bypassed in golang-nanoauth between the introduced and fixed pseudo-versions when ListenAndServe is called with an empty token; a timing side-channel may also allow token recovery'',
     fct_ranges := [\<lparr>osv_introduced = ''v0.0.0-20160722212129-ac0cc4484ad4'', osv_fixed = ''v0.0.0-20200131131040-063a3fb69896'', osv_last = [], osv_fixedVersion = ''v0.0.0-20200131131040-063a3fb69896'', osv_type = []\<rparr>]\<rparr>"

definition advisory_CVE_2019_14540 :: AdvisoryFacts where
  "advisory_CVE_2019_14540 = zero_facts\<lparr>
     fct_aliases := [''GHSA-h822-r4r5-v8jg''], fct_versionScheme := ''maven'',
     fct_coordinate := ''com.fasterxml.jackson.core:jackson-databind'',
     fct_purl := ''pkg:maven/com.fasterxml.jackson.core/jackson-databind'',
     fct_symbols := [''com.fasterxml.jackson.databind.ObjectMapper.readValue'', ''com.fasterxml.jackson.databind.ObjectMapper.enableDefaultTyping''],
     fct_cwes := [''CWE-502''],
     fct_summary := ''deserialization of untrusted data: jackson-databind polymorphic typing did not block the com.zaxxer.hikari.HikariConfig gadget, so an attacker-controlled type in a readValue payload reaches a JNDI lookup'',
     fct_ranges := [\<lparr>osv_introduced = [], osv_fixed = ''2.6.7.3'', osv_last = [], osv_fixedVersion = ''2.6.7.3'', osv_type = []\<rparr>, \<lparr>osv_introduced = ''2.7.0'', osv_fixed = ''2.8.11.5'', osv_last = [], osv_fixedVersion = ''2.8.11.5'', osv_type = []\<rparr>, \<lparr>osv_introduced = ''2.9.0'', osv_fixed = ''2.9.10'', osv_last = [], osv_fixedVersion = ''2.9.10'', osv_type = []\<rparr>]\<rparr>"

definition advisory_CVE_2020_36518 :: AdvisoryFacts where
  "advisory_CVE_2020_36518 = zero_facts\<lparr>
     fct_aliases := [''GHSA-57j2-w4cx-62h2''], fct_versionScheme := ''maven'',
     fct_coordinate := ''com.fasterxml.jackson.core:jackson-databind'',
     fct_purl := ''pkg:maven/com.fasterxml.jackson.core/jackson-databind'',
     fct_symbols := [''com.fasterxml.jackson.databind.ObjectMapper.readValue''], fct_cwes := [''CWE-787''],
     fct_summary := ''denial of service: jackson-databind recursively parses deeply nested JSON with no depth limit, raising a Java StackOverflowError; fixed on both the 2.12.x and 2.13.x branches'',
     fct_ranges := [\<lparr>osv_introduced = [], osv_fixed = ''2.12.6.1'', osv_last = [], osv_fixedVersion = ''2.12.6.1'', osv_type = []\<rparr>, \<lparr>osv_introduced = ''2.13.0'', osv_fixed = ''2.13.2.1'', osv_last = [], osv_fixedVersion = ''2.13.2.1'', osv_type = []\<rparr>]\<rparr>"

definition advisory_CVE_2024_22243 :: AdvisoryFacts where
  "advisory_CVE_2024_22243 = zero_facts\<lparr>
     fct_aliases := [''GHSA-ccgv-vj62-xf9h''], fct_versionScheme := ''maven'',
     fct_coordinate := ''org.springframework:spring-web'', fct_purl := ''pkg:maven/org.springframework/spring-web'',
     fct_symbols := [''org.springframework.web.util.UriComponentsBuilder.build'', ''org.springframework.web.util.UriComponentsBuilder.getHost''],
     fct_cwes := [''CWE-601''],
     fct_summary := ''open redirect / SSRF: UriComponentsBuilder parses the userinfo segment of an externally provided URL so a host check on the parsed result can be made to disagree with where the request is actually sent'',
     fct_ranges := [\<lparr>osv_introduced = ''5.3.0'', osv_fixed = ''5.3.32'', osv_last = [], osv_fixedVersion = ''5.3.32'', osv_type = []\<rparr>, \<lparr>osv_introduced = ''6.0.0'', osv_fixed = ''6.0.17'', osv_last = [], osv_fixedVersion = ''6.0.17'', osv_type = []\<rparr>, \<lparr>osv_introduced = ''6.1.0'', osv_fixed = ''6.1.4'', osv_last = [], osv_fixedVersion = ''6.1.4'', osv_type = []\<rparr>]\<rparr>"

definition advisory_CVE_2022_46175 :: AdvisoryFacts where
  "advisory_CVE_2022_46175 = zero_facts\<lparr>
     fct_aliases := [''GHSA-9c47-m6qq-7p4h''], fct_versionScheme := ''npm'', fct_coordinate := ''json5'',
     fct_purl := ''pkg:npm/json5'', fct_symbols := [''json5.parse''], fct_cwes := [''CWE-1321''],
     fct_summary := ''prototype pollution: JSON5.parse does not restrict a __proto__ key, so parsing crafted input pollutes the prototype of the returned object'',
     fct_ranges := [\<lparr>osv_introduced = [], osv_fixed = ''1.0.2'', osv_last = [], osv_fixedVersion = ''1.0.2'', osv_type = []\<rparr>, \<lparr>osv_introduced = ''2.0.0'', osv_fixed = ''2.2.2'', osv_last = [], osv_fixedVersion = ''2.2.2'', osv_type = []\<rparr>]\<rparr>"

definition advisory_CVE_2023_26136 :: AdvisoryFacts where
  "advisory_CVE_2023_26136 = zero_facts\<lparr>
     fct_aliases := [''GHSA-72xf-g2v4-qvf3''], fct_upperExclusive := ''4.1.3'', fct_fixedVersion := ''4.1.3'',
     fct_versionScheme := ''npm'', fct_coordinate := ''tough-cookie'', fct_purl := ''pkg:npm/tough-cookie'',
     fct_symbols := [''MemoryCookieStore.putCookie'', ''CookieJar.setCookie''], fct_cwes := [''CWE-1321''],
     fct_summary := (''prototype pollution: tough-cookie'' @ [CHR 0x27] @ ''s cookie memstore index is a plain object, so a crafted __proto__ domain/path reaches Object.prototype'')\<rparr>"

definition advisory_CVE_2024_29041 :: AdvisoryFacts where
  "advisory_CVE_2024_29041 = zero_facts\<lparr>
     fct_aliases := [''GHSA-rv95-896h-c2vc''], fct_upperExclusive := ''4.19.2'', fct_fixedVersion := ''4.19.2'',
     fct_versionScheme := ''npm'', fct_coordinate := ''express'', fct_purl := ''pkg:npm/express'',
     fct_symbols := [''express.response.location'', ''express.response.redirect''], fct_cwes := [''CWE-601''],
     fct_summary := ''open redirect: Express passes a user-provided URL through encodeurl after allow-list validation, so a malformed URL can be normalized into an off-site redirect''\<rparr>"

definition advisory_CVE_2024_22195 :: AdvisoryFacts where
  "advisory_CVE_2024_22195 = zero_facts\<lparr>
     fct_aliases := [''GHSA-h5c8-rqwp-cp95'', ''GHSA-h75v-3vvj-5mfj''], fct_upperExclusive := ''3.1.3'',
     fct_fixedVersion := ''3.1.3'', fct_versionScheme := ''pypi'', fct_coordinate := ''jinja2'',
     fct_purl := ''pkg:pypi/jinja2'', fct_symbols := [''jinja2.filters.do_xmlattr''], fct_cwes := [''CWE-79''],
     fct_summary := ''cross-site scripting: the Jinja2 xmlattr filter accepts attribute keys containing spaces, allowing HTML attribute injection when user input is passed as keys''\<rparr>"

definition advisory_CVE_2024_23334 :: AdvisoryFacts where
  "advisory_CVE_2024_23334 = zero_facts\<lparr>
     fct_aliases := [''GHSA-5h86-8mv2-jq9f''], fct_versionScheme := ''pypi'', fct_coordinate := ''aiohttp'',
     fct_purl := ''pkg:pypi/aiohttp'',
     fct_symbols := [''aiohttp.web_urldispatcher.StaticResource._handle'', ''aiohttp.web.UrlDispatcher.add_static''],
     fct_cwes := [''CWE-22''],
     fct_summary := ''path traversal: aiohttp.web.static(follow_symlinks=True) serves files outside the static root when the request path traverses a symlink'',
     fct_ranges := [\<lparr>osv_introduced = ''1.0.5'', osv_fixed = ''3.9.2'', osv_last = [], osv_fixedVersion = ''3.9.2'', osv_type = []\<rparr>]\<rparr>"

definition advisory_CVE_2024_3772 :: AdvisoryFacts where
  "advisory_CVE_2024_3772 = zero_facts\<lparr>
     fct_aliases := [''GHSA-mr82-8j83-vxmv''], fct_versionScheme := ''pypi'', fct_coordinate := ''pydantic'',
     fct_purl := ''pkg:pypi/pydantic'', fct_cwes := [''CWE-1333''],
     fct_summary := ''regular expression denial of service: pydantic email validation regex is vulnerable to catastrophic backtracking on a crafted address'',
     fct_ranges := [\<lparr>osv_introduced = [], osv_fixed = ''1.10.13'', osv_last = [], osv_fixedVersion = ''1.10.13'', osv_type = []\<rparr>, \<lparr>osv_introduced = ''2.0.0'', osv_fixed = ''2.4.0'', osv_last = [], osv_fixedVersion = ''2.4.0'', osv_type = []\<rparr>]\<rparr>"

definition advisory_CVE_2019_0820 :: AdvisoryFacts where
  "advisory_CVE_2019_0820 = zero_facts\<lparr>
     fct_aliases := [''GHSA-cmhx-cq75-c4mj''], fct_versionScheme := ''nuget'',
     fct_coordinate := ''System.Text.RegularExpressions'', fct_purl := ''pkg:nuget/System.Text.RegularExpressions'',
     fct_cwes := [''CWE-1333''],
     fct_summary := ''regular expression denial of service in System.Text.RegularExpressions (.NET Core) timeout handling, fixed in 4.3.1'',
     fct_ranges := [\<lparr>osv_introduced = ''4.3.0'', osv_fixed = ''4.3.1'', osv_last = [], osv_fixedVersion = ''4.3.1'', osv_type = []\<rparr>]\<rparr>"

definition advisory_CVE_2020_5234 :: AdvisoryFacts where
  "advisory_CVE_2020_5234 = zero_facts\<lparr>
     fct_aliases := [''GHSA-7q36-4xx7-xcxf''], fct_versionScheme := ''nuget'', fct_coordinate := ''MessagePack'',
     fct_purl := ''pkg:nuget/MessagePack'',
     fct_symbols := [''MessagePack.MessagePackSerializer.Typeless.Deserialize'', ''MessagePack.MessagePackSerializer.Deserialize''],
     fct_cwes := [''CWE-502''],
     fct_summary := ''deserialization of untrusted data: MessagePack Typeless deserialization of attacker-controlled input enables hostile type instantiation'',
     fct_ranges := [\<lparr>osv_introduced = [], osv_fixed = ''1.9.11'', osv_last = [], osv_fixedVersion = ''1.9.11'', osv_type = []\<rparr>, \<lparr>osv_introduced = ''2.0.0'', osv_fixed = ''2.1.90'', osv_last = [], osv_fixedVersion = ''2.1.90'', osv_type = []\<rparr>]\<rparr>"

definition advisory_CVE_2024_21907 :: AdvisoryFacts where
  "advisory_CVE_2024_21907 = zero_facts\<lparr>
     fct_aliases := [''GHSA-5crp-9r3c-p9vr''], fct_upperExclusive := ''13.0.1'', fct_fixedVersion := ''13.0.1'',
     fct_versionScheme := ''nuget'', fct_coordinate := ''Newtonsoft.Json'',
     fct_purl := ''pkg:nuget/Newtonsoft.Json'',
     fct_symbols := [''Newtonsoft.Json.JsonReader.Push'', ''Newtonsoft.Json.JsonConvert.DeserializeObject'', ''Newtonsoft.Json.JsonConvert.DeserializeAnonymousType'', ''Newtonsoft.Json.JsonConvert.PopulateObject'', ''Newtonsoft.Json.JsonConvert.DeserializeXmlNode'', ''Newtonsoft.Json.JsonConvert.DeserializeXNode'', ''Newtonsoft.Json.JsonSerializer.Deserialize'', ''Newtonsoft.Json.JsonSerializer.Populate'', ''Newtonsoft.Json.JsonTextReader.Read'', ''Newtonsoft.Json.JsonTextReader.ReadAsync'', ''Newtonsoft.Json.Linq.JToken.Parse'', ''Newtonsoft.Json.Linq.JToken.ReadFrom'', ''Newtonsoft.Json.Linq.JToken.ReadFromAsync'', ''Newtonsoft.Json.Linq.JToken.Load'', ''Newtonsoft.Json.Linq.JToken.LoadAsync'', ''Newtonsoft.Json.Linq.JObject.Parse'', ''Newtonsoft.Json.Linq.JObject.Load'', ''Newtonsoft.Json.Linq.JObject.LoadAsync'', ''Newtonsoft.Json.Linq.JArray.Parse'', ''Newtonsoft.Json.Linq.JArray.Load'', ''Newtonsoft.Json.Linq.JArray.LoadAsync'', ''Newtonsoft.Json.Linq.JConstructor.Load'', ''Newtonsoft.Json.Linq.JConstructor.LoadAsync'', ''Newtonsoft.Json.Linq.JProperty.Load'', ''Newtonsoft.Json.Linq.JProperty.LoadAsync''],
     fct_conditional := [''Newtonsoft.Json.JsonConvert.DeserializeXmlNode'', ''Newtonsoft.Json.JsonConvert.DeserializeXNode'', ''Newtonsoft.Json.JsonTextReader.ReadAsync'', ''Newtonsoft.Json.Linq.JToken.ReadFromAsync'', ''Newtonsoft.Json.Linq.JToken.LoadAsync'', ''Newtonsoft.Json.Linq.JObject.LoadAsync'', ''Newtonsoft.Json.Linq.JArray.LoadAsync'', ''Newtonsoft.Json.Linq.JConstructor.LoadAsync'', ''Newtonsoft.Json.Linq.JProperty.LoadAsync''],
     fct_cwes := [''CWE-400''],
     fct_summary := ''uncontrolled resource consumption: Newtonsoft.Json parses arbitrarily deeply nested JSON with no default MaxDepth, enabling a StackOverflow/CPU denial of service''\<rparr>"

definition AdvisoryTable :: "(gostring \<times> AdvisoryFacts) list" where
  "AdvisoryTable =
    [(''GO-2021-0113'', advisory_GO_2021_0113),
     (''GO-2022-0322'', advisory_GO_2022_0322),
     (''CVE-2024-45337'', advisory_CVE_2024_45337),
     (''FERRALON-APP-SSRF-0001'', advisory_FERRALON_APP_SSRF_0001),
     (''FERRALON-APP-DOS-0001'', advisory_FERRALON_APP_DOS_0001),
     (''FERRALON-GO-GRAFANA-DUCKDB-0001'', advisory_FERRALON_GO_GRAFANA_DUCKDB_0001),
     (''GO-2021-0264'', advisory_GO_2021_0264),
     (''CVE-2023-39325'', advisory_CVE_2023_39325),
     (''CVE-2023-45283'', advisory_CVE_2023_45283),
     (''CVE-2024-24790'', advisory_CVE_2024_24790),
     (''CVE-2024-55947'', advisory_CVE_2024_55947),
     (''CVE-2025-8110'', advisory_CVE_2025_8110),
     (''FERRALON-JAVA-SSRF-0001'', advisory_FERRALON_JAVA_SSRF_0001),
     (''FERRALON-JAVA-SPRING-SSRF-0001'', advisory_FERRALON_JAVA_SPRING_SSRF_0001),
     (''FERRALON-JAVA-SSRF-0002'', advisory_FERRALON_JAVA_SSRF_0002),
     (''FERRALON-JAVA-SSRF-0003'', advisory_FERRALON_JAVA_SSRF_0003),
     (''FERRALON-JS-SSRF-0001'', advisory_FERRALON_JS_SSRF_0001),
     (''FERRALON-JS-NEXTRCE-0001'', advisory_FERRALON_JS_NEXTRCE_0001),
     (''FERRALON-JAVA-DEP-0001'', advisory_FERRALON_JAVA_DEP_0001),
     (''FERRALON-JS-DEP-0001'', advisory_FERRALON_JS_DEP_0001),
     (''FERRALON-PY-DEP-0001'', advisory_FERRALON_PY_DEP_0001),
     (''FERRALON-NET-DEP-0001'', advisory_FERRALON_NET_DEP_0001),
     (''FERRALON-NET-REACH-0001'', advisory_FERRALON_NET_REACH_0001),
     (''FERRALON-PY-FIRSTPARTY-0001'', advisory_FERRALON_PY_FIRSTPARTY_0001),
     (''FERRALON-PY-AIRFLOW-EXPAPI-0001'', advisory_FERRALON_PY_AIRFLOW_EXPAPI_0001),
     (''CVE-2026-46595'', advisory_CVE_2026_46595),
     (''CVE-2026-39831'', advisory_CVE_2026_39831),
     (''CVE-2026-39821'', advisory_CVE_2026_39821),
     (''CVE-2020-36569'', advisory_CVE_2020_36569),
     (''CVE-2019-14540'', advisory_CVE_2019_14540),
     (''CVE-2020-36518'', advisory_CVE_2020_36518),
     (''CVE-2024-22243'', advisory_CVE_2024_22243),
     (''CVE-2022-46175'', advisory_CVE_2022_46175),
     (''CVE-2023-26136'', advisory_CVE_2023_26136),
     (''CVE-2024-29041'', advisory_CVE_2024_29041),
     (''CVE-2024-22195'', advisory_CVE_2024_22195),
     (''CVE-2024-23334'', advisory_CVE_2024_23334),
     (''CVE-2024-3772'', advisory_CVE_2024_3772),
     (''CVE-2019-0820'', advisory_CVE_2019_0820),
     (''CVE-2020-5234'', advisory_CVE_2020_5234),
     (''CVE-2024-21907'', advisory_CVE_2024_21907)]"

section \<open>What a fix must be\<close>

definition declared_fixes :: "AdvisoryFacts \<Rightarrow> gostring list" where
  "declared_fixes f = filter (\<lambda>v. v \<noteq> []) (fct_fixedVersion f # map osv_fixedVersion (fct_ranges f))"

definition intake_ranges :: "AdvisoryFacts \<Rightarrow> affectedRange list" where
  "intake_ranges f =
    buildAffectedRanges (fct_ranges f) (fct_upperExclusive f) (effective_scheme (fct_versionScheme f) (fct_purl f))"

text \<open>The entries of one version scheme.\<close>

definition entries_of :: "gostring \<Rightarrow> AdvisoryFacts list" where
  "entries_of scheme =
    filter (\<lambda>f. effective_scheme (fct_versionScheme f) (fct_purl f) = scheme) (map snd AdvisoryTable)"

definition fixes_cleared :: "semver_lib \<Rightarrow> AdvisoryFacts \<Rightarrow> bool" where
  "fixes_cleared sv f = list_all (\<lambda>v. versionOutsideRanges sv v (intake_ranges f) = Some True) (declared_fixes f)"

definition starts_affected :: "semver_lib \<Rightarrow> AdvisoryFacts \<Rightarrow> bool" where
  "starts_affected sv f =
    list_all (\<lambda>v. versionOutsideRanges sv v (intake_ranges f) = Some False)
      (filter (\<lambda>v. v \<noteq> []) (map osv_introduced (fct_ranges f)))"

section \<open>The table is sound\<close>

lemma table_ids: "distinct (map fst AdvisoryTable)"
  by code_simp

lemma table_entries_whole: "list_all (\<lambda>(i, f). whole_facts f) AdvisoryTable"
  by code_simp

lemma table_aliases: "list_all (\<lambda>(i, f). list_all (\<lambda>a. a \<notin> set (map fst AdvisoryTable)) (fct_aliases f)) AdvisoryTable"
  by code_simp

lemma table_vuln_ids:
  "distinct (filter (\<lambda>g. has_prefix g ''GO-'') (map (\<lambda>(i, f). govulnMatchID (Some (fct_aliases f)) i) AdvisoryTable))"
  by code_simp

lemma toolchain_fixes: "list_all (\<lambda>f. fixes_cleared sv f \<and> starts_affected sv f) (entries_of ''go-toolchain'')"
  by code_simp

lemma maven_fixes: "list_all (fixes_cleared sv) (entries_of ''maven'')"
  by code_simp

lemma maven_starts: "list_all (starts_affected sv) (entries_of ''maven'')"
  by code_simp

lemma npm_fixes: "list_all (\<lambda>f. fixes_cleared sv f \<and> starts_affected sv f) (entries_of ''npm'')"
  by code_simp

lemma nuget_fixes: "list_all (\<lambda>f. fixes_cleared sv f \<and> starts_affected sv f) (entries_of ''nuget'')"
  by code_simp

lemma table_entry_whole: "map_of AdvisoryTable i = Some f \<Longrightarrow> whole_facts f"
  using table_entries_whole by (auto simp: list_all_iff dest!: map_of_SomeD)

interpretation builtin: advisory_source "table_Lookup (map_of AdvisoryTable)"
  by (rule table_whole) (rule table_entry_whole)

text \<open>the built-in table keeps what the program relies on. No id stands twice; every entry is whole; no
  alias of an entry is another entry's id, and no two entries have the same Go vulnerability id, so a join on
  ids and aliases has one slot for each advisory; and for the toolchain, Maven, npm and NuGet
  entries every fix an entry declares is outside its affected set as the intake writes it, and
  every version a range starts at is inside.\<close>

theorem builtin_table_sound:
  "distinct (map fst AdvisoryTable)
   \<and> list_all (\<lambda>(i, f). whole_facts f) AdvisoryTable
   \<and> list_all (\<lambda>(i, f). list_all (\<lambda>a. a \<notin> set (map fst AdvisoryTable)) (fct_aliases f)) AdvisoryTable
   \<and> distinct (filter (\<lambda>g. has_prefix g ''GO-'') (map (\<lambda>(i, f). govulnMatchID (Some (fct_aliases f)) i) AdvisoryTable))
   \<and> list_all (\<lambda>scheme. list_all (\<lambda>f. fixes_cleared sv f \<and> starts_affected sv f) (entries_of scheme))
       [''go-toolchain'', ''maven'', ''npm'', ''nuget'']"
  using table_ids table_entries_whole table_aliases table_vuln_ids toolchain_fixes [of sv] maven_fixes [of sv]
    maven_starts [of sv] npm_fixes [of sv] nuget_fixes [of sv]
  unfolding list_all_iff list.set insert_iff empty_iff by blast

text \<open>The sources as the program chains them: the corpus, then the table.\<close>

lemma default_chain_whole:
  assumes "chain_Lookup [Some (lookup_state lib files st), Some (table_Lookup (map_of AdvisoryTable))] i = Some f"
  shows "whole_facts f"
proof -
  have "advisory_source (chain_Lookup [Some (lookup_state lib files st), Some (table_Lookup (map_of AdvisoryTable))])"
    by (rule chain_whole) (use directory.advisory_source_axioms builtin.advisory_source_axioms in auto)
  from advisory_source.whole [OF this assms] show ?thesis .
qed

end
