(* ===== verification/Attribution.thy ===== *)
theory Attribution
  imports Advisory_Facts "HOL-Library.Multiset"
begin

text \<open>
  The attribution sidecar of src/pipeline/attribution.go: one optional review entry for each corpus
  record. A Go map is a map for lookups and, where the code ranges over it, the list of its entries
  in the order the iteration takes. Lemmas: an entry passes exactly under the evidence rule; the
  coverage report puts every record into exactly one cell, whatever the iteration order; a
  reconciliation pass never changes a human judgement.
\<close>

section \<open>Entries\<close>

definition AttributionUnreviewed :: gostring where "AttributionUnreviewed = ''unreviewed''"
definition AttributionConfirmed :: gostring where "AttributionConfirmed = ''confirmed''"
definition AttributionAmbiguous :: gostring where "AttributionAmbiguous = ''ambiguous''"
definition AttributionDisputed :: gostring where "AttributionDisputed = ''disputed''"

record AdvisoryAttribution =
  aat_status :: gostring
  aat_reviewer :: gostring
  aat_citation :: gostring
  aat_reason :: gostring
  aat_reviewedAt :: gostring
  aat_staleReview :: bool
  aat_symbol :: gostring

definition attributionStatusRecognized :: "gostring \<Rightarrow> bool" where
  "attributionStatusRecognized status =
    (status = [] \<or> status = AttributionUnreviewed \<or> status = AttributionConfirmed
     \<or> status = AttributionAmbiguous \<or> status = AttributionDisputed)"

datatype attribution_error =
    NoReviewer gostring
  | NoReviewedAt gostring
  | NoCitation gostring
  | NoReason gostring
  | UnknownStatus gostring
  | Orphan gostring

definition validateAttributionEntry :: "gostring \<Rightarrow> AdvisoryAttribution \<Rightarrow> attribution_error option" where
  "validateAttributionEntry i a =
    (if aat_reviewer a = [] then Some (NoReviewer i)
     else if aat_reviewedAt a = [] then Some (NoReviewedAt i)
     else if (aat_status a = AttributionConfirmed \<or> aat_status a = AttributionAmbiguous
              \<or> aat_status a = AttributionDisputed) \<and> aat_citation a = [] then Some (NoCitation i)
     else if aat_status a = AttributionDisputed \<and> aat_reason a = [] then Some (NoReason i)
     else if \<not> attributionStatusRecognized (aat_status a) then Some (UnknownStatus i)
     else None)"

type_synonym AttributionStore = "gostring \<rightharpoonup> AdvisoryAttribution"

fun check_ids ::
  "AttributionStore \<Rightarrow> (gostring \<Rightarrow> bool) \<Rightarrow> gostring list \<Rightarrow> attribution_error option" where
  "check_ids store known [] = None"
| "check_ids store known (i # is) =
    (if \<not> known i then Some (Orphan i)
     else (case store i of
             None \<Rightarrow> check_ids store known is
           | Some a \<Rightarrow>
               (case validateAttributionEntry i a of Some e \<Rightarrow> Some e | None \<Rightarrow> check_ids store known is)))"

text \<open>\<open>keys\<close> is the store's keys in iteration order.\<close>

definition checkAttributionIntegrity ::
  "AttributionStore \<Rightarrow> gostring list \<Rightarrow> (gostring \<Rightarrow> bool) \<Rightarrow> attribution_error option" where
  "checkAttributionIntegrity store keys known = check_ids store known (sort keys)"

section \<open>Report states\<close>

definition stateAttributedReviewed :: gostring where "stateAttributedReviewed = ''attributed-and-reviewed''"
definition stateAmbiguous :: gostring where "stateAmbiguous = ''ambiguous''"
definition stateReviewedNoneFound :: gostring where "stateReviewedNoneFound = ''reviewed-none-found''"
definition stateUnreviewed :: gostring where "stateUnreviewed = ''unreviewed''"
definition stateDisputed :: gostring where "stateDisputed = ''disputed''"

definition reportState :: "AdvisoryFacts \<Rightarrow> AdvisoryAttribution option \<Rightarrow> gostring" where
  "reportState r a =
    (case a of
       None \<Rightarrow> stateUnreviewed
     | Some x \<Rightarrow>
         if aat_status x = AttributionDisputed then stateDisputed
         else if aat_status x = AttributionConfirmed then stateAttributedReviewed
         else if aat_status x = AttributionAmbiguous then stateAmbiguous
         else if aat_status x = [] then stateReviewedNoneFound
         else stateUnreviewed)"

definition symbolBearing :: "AdvisoryFacts \<Rightarrow> bool" where
  "symbolBearing r = (length (fct_symbols r) > 0)"

definition coverageNoEcosystem :: gostring where "coverageNoEcosystem = ''(none)''"

definition ecosystemToken :: "AdvisoryFacts \<Rightarrow> gostring" where
  "ecosystemToken r =
    (let e = purlEcosystem (fct_purl r) in if e = [] then coverageNoEcosystem else e)"

definition coverageEcosystems :: "gostring list" where
  "coverageEcosystems = [''golang'', ''maven'', ''npm'', ''pypi'', ''nuget'', coverageNoEcosystem]"

definition coverageStates :: "gostring list" where
  "coverageStates =
    [stateAttributedReviewed, stateAmbiguous, stateReviewedNoneFound, stateUnreviewed, stateDisputed]"

section \<open>The coverage report\<close>

record DisputedRecord =
  dsr_vulnID :: gostring
  dsr_reason :: gostring
  dsr_reviewer :: gostring

record CoverageRow =
  cvr_ecosystem :: gostring
  cvr_state :: gostring
  cvr_recordCount :: nat
  cvr_symbolBearingCount :: nat
  cvr_records :: "gostring list"
  cvr_disputed :: "DisputedRecord list"

definition empty_row :: "gostring \<Rightarrow> gostring \<Rightarrow> CoverageRow" where
  "empty_row e s = \<lparr>cvr_ecosystem = e, cvr_state = s, cvr_recordCount = 0, cvr_symbolBearingCount = 0,
     cvr_records = [], cvr_disputed = []\<rparr>"

text \<open>\<open>observed\<close> is the set of ecosystems in iteration order, the grid's among them.\<close>

definition orderedEcosystems :: "gostring list \<Rightarrow> gostring list" where
  "orderedEcosystems observed =
    coverageEcosystems @ sort (filter (\<lambda>e. e \<notin> set coverageEcosystems) observed)"

definition grid_cells :: "gostring list \<Rightarrow> (gostring \<times> gostring) list" where
  "grid_cells ecos = concat (map (\<lambda>e. map (\<lambda>s. (e, s)) coverageStates) ecos)"

definition empty_grid :: "gostring list \<Rightarrow> (gostring \<times> gostring) \<rightharpoonup> CoverageRow" where
  "empty_grid ecos = map_of (map (\<lambda>(e, s). ((e, s), empty_row e s)) (grid_cells ecos))"

definition disputed_record :: "gostring \<Rightarrow> AdvisoryAttribution option \<Rightarrow> DisputedRecord" where
  "disputed_record i a =
    (case a of None \<Rightarrow> \<lparr>dsr_vulnID = i, dsr_reason = [], dsr_reviewer = []\<rparr>
     | Some x \<Rightarrow> \<lparr>dsr_vulnID = i, dsr_reason = aat_reason x, dsr_reviewer = aat_reviewer x\<rparr>)"

definition count_record :: "AttributionStore \<Rightarrow> gostring \<Rightarrow> AdvisoryFacts \<Rightarrow> gostring \<Rightarrow> CoverageRow \<Rightarrow> CoverageRow" where
  "count_record store i r s row =
    row\<lparr>cvr_recordCount := cvr_recordCount row + 1,
        cvr_records := cvr_records row @ [i],
        cvr_symbolBearingCount := cvr_symbolBearingCount row + (if symbolBearing r then 1 else 0),
        cvr_disputed := (if s = stateDisputed then cvr_disputed row @ [disputed_record i (store i)] else cvr_disputed row)\<rparr>"

text \<open>The loop over the table; None is the nil pointer of a cell outside the grid.\<close>

fun tally ::
  "AttributionStore \<Rightarrow> (gostring \<times> AdvisoryFacts) list \<Rightarrow> ((gostring \<times> gostring) \<rightharpoonup> CoverageRow) \<Rightarrow>
   ((gostring \<times> gostring) \<rightharpoonup> CoverageRow) option" where
  "tally store [] agg = Some agg"
| "tally store ((i, r) # rest) agg =
    (let e = ecosystemToken r; s = reportState r (store i)
     in case agg (e, s) of
          None \<Rightarrow> None
        | Some row \<Rightarrow> tally store rest (agg((e, s) \<mapsto> count_record store i r s row)))"

definition finish_row :: "CoverageRow \<Rightarrow> CoverageRow" where
  "finish_row row =
    row\<lparr>cvr_records := sort (cvr_records row), cvr_disputed := sort_key dsr_vulnID (cvr_disputed row)\<rparr>"

definition buildCoverageReport ::
  "(gostring \<times> AdvisoryFacts) list \<Rightarrow> AttributionStore \<Rightarrow> CoverageRow list option" where
  "buildCoverageReport table store =
    (let ecos = orderedEcosystems (remdups (coverageEcosystems @ map (\<lambda>(i, r). ecosystemToken r) table))
     in case tally store table (empty_grid ecos) of
          None \<Rightarrow> None
        | Some agg \<Rightarrow> those (map (\<lambda>c. map_option finish_row (agg c)) (grid_cells ecos)))"

section \<open>Reconciliation\<close>

text \<open>\<open>upstream\<close> is the upstream table in iteration order.\<close>

fun reconcile_loop ::
  "(gostring \<rightharpoonup> AdvisoryFacts) \<Rightarrow> (AdvisoryFacts \<Rightarrow> AdvisoryFacts \<Rightarrow> bool) \<Rightarrow>
   (gostring \<times> AdvisoryFacts) list \<Rightarrow> AttributionStore \<Rightarrow> AttributionStore" where
  "reconcile_loop priorFacts changed [] store = store"
| "reconcile_loop priorFacts changed ((i, up) # rest) store =
    reconcile_loop priorFacts changed rest
      (case priorFacts i of
         None \<Rightarrow> store
       | Some old \<Rightarrow>
           if \<not> changed old up then store
           else (case store i of
                   None \<Rightarrow> store
                 | Some entry \<Rightarrow> store(i \<mapsto> entry\<lparr>aat_staleReview := True\<rparr>)))"

definition reconcileAttributionWith ::
  "AttributionStore \<Rightarrow> (gostring \<rightharpoonup> AdvisoryFacts) \<Rightarrow> (gostring \<times> AdvisoryFacts) list \<Rightarrow>
   (AdvisoryFacts \<Rightarrow> AdvisoryFacts \<Rightarrow> bool) \<Rightarrow> AttributionStore" where
  "reconcileAttributionWith prior priorFacts upstream changed = reconcile_loop priorFacts changed upstream prior"

text \<open>factsChanged compares the JSON encodings; \<open>encode\<close> is json.Marshal.\<close>

definition factsChanged :: "(AdvisoryFacts \<Rightarrow> gostring) \<Rightarrow> AdvisoryFacts \<Rightarrow> AdvisoryFacts \<Rightarrow> bool" where
  "factsChanged encode a b = (encode a \<noteq> encode b)"

definition reconcileAttribution ::
  "(AdvisoryFacts \<Rightarrow> gostring) \<Rightarrow> AttributionStore \<Rightarrow> (gostring \<rightharpoonup> AdvisoryFacts) \<Rightarrow>
   (gostring \<times> AdvisoryFacts) list \<Rightarrow> AttributionStore" where
  "reconcileAttribution encode prior priorFacts upstream =
    reconcileAttributionWith prior priorFacts upstream (factsChanged encode)"

section \<open>The evidence rule\<close>

definition evidenced :: "AdvisoryAttribution \<Rightarrow> bool" where
  "evidenced a =
    (aat_reviewer a \<noteq> [] \<and> aat_reviewedAt a \<noteq> [] \<and> attributionStatusRecognized (aat_status a)
     \<and> (aat_status a \<in> {AttributionConfirmed, AttributionAmbiguous, AttributionDisputed} \<longrightarrow> aat_citation a \<noteq> [])
     \<and> (aat_status a = AttributionDisputed \<longrightarrow> aat_reason a \<noteq> []))"

lemma validate_None: "validateAttributionEntry i a = None \<longleftrightarrow> evidenced a"
  by (auto simp: validateAttributionEntry_def evidenced_def)

lemma integrity_None:
  "check_ids store known is = None \<longleftrightarrow> (\<forall>i \<in> set is. known i \<and> (case store i of None \<Rightarrow> True | Some a \<Rightarrow> evidenced a))"
proof (induction "is")
  case (Cons i "is")
  then show ?case
    by (cases "store i"; cases "validateAttributionEntry i (the (store i))")
      (auto simp: validate_None, auto simp: validate_None [symmetric, of _ i])
qed simp

section \<open>Every record is in one cell\<close>

definition cell_of :: "AttributionStore \<Rightarrow> gostring \<times> AdvisoryFacts \<Rightarrow> gostring \<times> gostring" where
  "cell_of store x = (ecosystemToken (snd x), reportState (snd x) (store (fst x)))"

definition in_cell ::
  "AttributionStore \<Rightarrow> gostring \<times> gostring \<Rightarrow> (gostring \<times> AdvisoryFacts) list \<Rightarrow> (gostring \<times> AdvisoryFacts) list" where
  "in_cell store c table = filter (\<lambda>x. cell_of store x = c) table"

definition add_cell :: "AttributionStore \<Rightarrow> gostring \<times> gostring \<Rightarrow> (gostring \<times> AdvisoryFacts) list \<Rightarrow> CoverageRow \<Rightarrow> CoverageRow" where
  "add_cell store c xs row =
    row\<lparr>cvr_recordCount := cvr_recordCount row + length xs,
        cvr_records := cvr_records row @ map fst xs,
        cvr_symbolBearingCount := cvr_symbolBearingCount row + length (filter (\<lambda>x. symbolBearing (snd x)) xs),
        cvr_disputed := cvr_disputed row @ (if snd c = stateDisputed then map (\<lambda>x. disputed_record (fst x) (store (fst x))) xs else [])\<rparr>"

lemma add_cell_Nil: "add_cell store c [] row = row"
  by (simp add: add_cell_def)

lemma add_cell_Cons:
  "add_cell store c (x # xs) row = add_cell store c xs (count_record store (fst x) (snd x) (snd c) row)"
  by (simp add: add_cell_def count_record_def)

lemma tally_Some:
  assumes "\<forall>x \<in> set table. cell_of store x \<in> dom agg"
  shows "tally store table agg = Some (\<lambda>c. map_option (add_cell store c (in_cell store c table)) (agg c))"
  using assms
proof (induction table arbitrary: agg)
  case Nil
  have "map_option (add_cell store c (in_cell store c [])) y = y" for c y
    by (cases y) (simp_all add: in_cell_def add_cell_Nil)
  then show ?case by simp
next
  case (Cons x table)
  obtain i r where x: "x = (i, r)" by fastforce
  let ?c = "cell_of store x"
  obtain row where row: "agg ?c = Some row" using Cons.prems by auto
  let ?agg = "agg(?c \<mapsto> count_record store i r (snd ?c) row)"
  have "tally store (x # table) agg = tally store table ?agg"
    using row by (simp add: x cell_of_def Let_def)
  also have "\<dots> = Some (\<lambda>c. map_option (add_cell store c (in_cell store c table)) (?agg c))"
    using Cons.prems by (intro Cons.IH) auto
  also have "(\<lambda>c. map_option (add_cell store c (in_cell store c table)) (?agg c))
      = (\<lambda>c. map_option (add_cell store c (in_cell store c (x # table))) (agg c))"
  proof
    fix c
    show "map_option (add_cell store c (in_cell store c table)) (?agg c)
        = map_option (add_cell store c (in_cell store c (x # table))) (agg c)"
      using row by (cases "c = ?c") (auto simp: in_cell_def add_cell_Cons x)
  qed
  finally show ?case .
qed

lemma reportState_grid: "reportState r a \<in> set coverageStates"
  by (simp add: reportState_def coverageStates_def split: option.splits)

lemma empty_grid_dom: "(e, s) \<in> dom (empty_grid ecos) \<longleftrightarrow> e \<in> set ecos \<and> s \<in> set coverageStates"
  by (auto simp: empty_grid_def grid_cells_def dom_map_of_conv_image_fst image_iff)

lemma map_of_pairs: "c \<in> set cs \<Longrightarrow> map_of (map (\<lambda>(e, s). ((e, s), f e s)) cs) c = Some (f (fst c) (snd c))"
  by (induction cs) auto

lemma empty_grid_cell: "c \<in> set (grid_cells ecos) \<Longrightarrow> empty_grid ecos c = Some (empty_row (fst c) (snd c))"
  unfolding empty_grid_def by (rule map_of_pairs)

text \<open>What a cell of the report is, for the records that fall into it.\<close>

definition cell_row :: "AttributionStore \<Rightarrow> gostring \<times> gostring \<Rightarrow> (gostring \<times> AdvisoryFacts) list \<Rightarrow> CoverageRow" where
  "cell_row store c xs =
    (let ids = sort (map fst xs) in
     \<lparr>cvr_ecosystem = fst c, cvr_state = snd c, cvr_recordCount = length ids,
      cvr_symbolBearingCount = length (filter (\<lambda>x. symbolBearing (snd x)) xs), cvr_records = ids,
      cvr_disputed = (if snd c = stateDisputed then map (\<lambda>i. disputed_record i (store i)) ids else [])\<rparr>)"

lemma disputed_id [simp]: "dsr_vulnID (disputed_record i a) = i"
  by (simp add: disputed_record_def split: option.splits)

lemma insort_disputed:
  "insort_key dsr_vulnID (disputed_record i (store i)) (map (\<lambda>i. disputed_record i (store i)) is)
     = map (\<lambda>i. disputed_record i (store i)) (insort i is)"
  by (induction "is") simp_all

lemma sort_disputed:
  "sort_key dsr_vulnID (map (\<lambda>i. disputed_record i (store i)) is) = map (\<lambda>i. disputed_record i (store i)) (sort is)"
  by (induction "is") (simp_all add: insort_disputed)

lemma finish_cell: "finish_row (add_cell store c xs (empty_row (fst c) (snd c))) = cell_row store c xs"
  using sort_disputed [of store "map fst xs"]
  by (simp add: finish_row_def add_cell_def empty_row_def cell_row_def Let_def comp_def)

definition report_ecosystems :: "(gostring \<times> AdvisoryFacts) list \<Rightarrow> gostring list" where
  "report_ecosystems table =
    orderedEcosystems (remdups (coverageEcosystems @ map (\<lambda>(i, r). ecosystemToken r) table))"

lemma cell_in_grid: "x \<in> set table \<Longrightarrow> cell_of store x \<in> set (grid_cells (report_ecosystems table))"
proof -
  assume "x \<in> set table"
  then have "ecosystemToken (snd x) \<in> set (report_ecosystems table)"
    by (cases "ecosystemToken (snd x) \<in> set coverageEcosystems")
      (auto simp: report_ecosystems_def orderedEcosystems_def case_prod_beta)
  then show ?thesis using reportState_grid [of "snd x" "store (fst x)"] by (force simp: cell_of_def grid_cells_def)
qed

lemma those_map: "(\<And>x. x \<in> set xs \<Longrightarrow> f x = Some (g x)) \<Longrightarrow> those (map f xs) = Some (map g xs)"
  by (induction xs) auto

lemma report_cells:
  "buildCoverageReport table store =
     Some (map (\<lambda>c. cell_row store c (in_cell store c table)) (grid_cells (report_ecosystems table)))"
proof -
  let ?ecos = "report_ecosystems table"
  have "\<forall>x \<in> set table. cell_of store x \<in> dom (empty_grid ?ecos)"
    using cell_in_grid empty_grid_cell by (metis domIff option.distinct(1))
  note t = tally_Some [OF this]
  have "those (map (\<lambda>c. map_option finish_row (map_option (add_cell store c (in_cell store c table)) (empty_grid ?ecos c)))
      (grid_cells ?ecos)) = Some (map (\<lambda>c. cell_row store c (in_cell store c table)) (grid_cells ?ecos))"
    by (rule those_map) (simp add: empty_grid_cell finish_cell)
  then show ?thesis using t unfolding buildCoverageReport_def report_ecosystems_def Let_def by simp
qed

lemma distinct_ecosystems: "distinct (report_ecosystems table)"
proof -
  have "distinct coverageEcosystems" by code_simp
  then show ?thesis by (auto simp: report_ecosystems_def orderedEcosystems_def)
qed

lemma distinct_grid: "distinct (grid_cells (report_ecosystems table))"
proof -
  have "distinct coverageStates" by code_simp
  then have "distinct (concat (map (\<lambda>e. map (\<lambda>s. (e, s)) coverageStates) es))" if "distinct es" for es :: "gostring list"
    using that by (induction es) (auto simp: distinct_map inj_on_def)
  then show ?thesis using distinct_ecosystems by (simp add: grid_cells_def)
qed

lemma cells_partition:
  assumes "distinct cs" and "\<forall>x \<in> set table. f x \<in> set cs"
  shows "mset (concat (map (\<lambda>c. filter (\<lambda>x. f x = c) table) cs)) = mset table"
  using assms
proof (induction table)
  case Nil
  then show ?case by (induction cs) simp_all
next
  case (Cons x table)
  have e: "mset (concat (map (\<lambda>c. filter (\<lambda>y. f y = c) (x # table)) ds))
      = mset (concat (map (\<lambda>c. filter (\<lambda>y. f y = c) table) ds)) + (if f x \<in> set ds then {#x#} else {#})"
    if "distinct ds" for ds
    using that by (induction ds) auto
  show ?case using Cons e [OF Cons.prems(1)] by simp
qed

text \<open>the coverage report accounts for every record exactly once. The report never fails; its rows are
  the cells of the grid, each once, with every ecosystem observed; a row lists, sorted, the records of
  its cell, counts them, and a disputed row names for each of them its reason and reviewer; together
  the rows list each record of the table once; and the order in which the table is
  iterated does not matter.\<close>

theorem coverage_partition:
  "\<exists>rows. buildCoverageReport table store = Some rows
    \<and> map (\<lambda>r. (cvr_ecosystem r, cvr_state r)) rows = grid_cells (report_ecosystems table)
    \<and> distinct (grid_cells (report_ecosystems table))
    \<and> rows = map (\<lambda>c. cell_row store c (in_cell store c table)) (grid_cells (report_ecosystems table))
    \<and> mset (concat (map cvr_records rows)) = mset (map fst table)
    \<and> sum_list (map cvr_recordCount rows) = length table"
proof -
  let ?g = "grid_cells (report_ecosystems table)"
  let ?rows = "map (\<lambda>c. cell_row store c (in_cell store c table)) ?g"
  have p: "mset (concat (map (\<lambda>c. in_cell store c table) ?g)) = mset table"
    unfolding in_cell_def by (rule cells_partition [OF distinct_grid]) (use cell_in_grid in blast)
  have c: "mset (concat (map (\<lambda>c. cvr_records (cell_row store c (in_cell store c table))) cs))
      = image_mset fst (mset (concat (map (\<lambda>c. in_cell store c table) cs)))" for cs
    by (induction cs) (simp_all add: cell_row_def Let_def)
  have m: "mset (concat (map cvr_records ?rows)) = mset (map fst table)"
    using c [of ?g] p by (simp add: comp_def)
  have "sum_list (map cvr_recordCount ?rows) = length (concat (map cvr_records ?rows))"
    by (simp add: length_concat comp_def cell_row_def Let_def)
  also have "\<dots> = length table" using arg_cong [OF m, of size] by simp
  finally have l: "sum_list (map cvr_recordCount ?rows) = length table" .
  have k: "map (\<lambda>r. (cvr_ecosystem r, cvr_state r)) ?rows = ?g"
    by (simp add: comp_def cell_row_def Let_def)
  show ?thesis using report_cells m l k distinct_grid by blast
qed

section \<open>A reconciliation pass keeps every judgement\<close>

definition stale_after ::
  "(gostring \<rightharpoonup> AdvisoryFacts) \<Rightarrow> (AdvisoryFacts \<Rightarrow> AdvisoryFacts \<Rightarrow> bool) \<Rightarrow> (gostring \<times> AdvisoryFacts) list \<Rightarrow> gostring \<Rightarrow> bool" where
  "stale_after priorFacts changed upstream i =
    list_ex (\<lambda>(j, up). j = i \<and> (case priorFacts j of None \<Rightarrow> False | Some old \<Rightarrow> changed old up)) upstream"

lemma reconcile_eq:
  "reconcile_loop priorFacts changed upstream store i =
     map_option (\<lambda>a. if stale_after priorFacts changed upstream i then a\<lparr>aat_staleReview := True\<rparr> else a) (store i)"
proof (induction priorFacts changed upstream store rule: reconcile_loop.induct)
  case (1 priorFacts changed store)
  then show ?case by (cases "store i") (simp_all add: stale_after_def)
next
  case (2 priorFacts changed j up rest store)
  then show ?case
    by (cases "store i"; cases "priorFacts j"; cases "store j") (auto simp: stale_after_def)
qed

text \<open>a machine re-ingest never changes a human judgement. After a pass every entry of the store is there,
  with every field as it was but the stale mark, and no entry is new; the mark is set exactly when it
  was, or when the record existed before and its facts changed.\<close>

theorem reconcile_keeps_judgement:
  "reconcileAttribution encode prior priorFacts upstream i =
     map_option (\<lambda>a. a\<lparr>aat_staleReview := aat_staleReview a \<or>
        list_ex (\<lambda>(j, up). j = i \<and> (case priorFacts j of None \<Rightarrow> False | Some old \<Rightarrow> encode old \<noteq> encode up)) upstream\<rparr>) (prior i)"
proof -
  have "(if b then a\<lparr>aat_staleReview := True\<rparr> else a) = a\<lparr>aat_staleReview := aat_staleReview a \<or> b\<rparr>" for a :: AdvisoryAttribution and b
    by (cases b) simp_all
  then show ?thesis
    by (simp only: reconcileAttribution_def reconcileAttributionWith_def reconcile_eq stale_after_def factsChanged_def)
qed

end
