(* ===== verification/Orchestrator.thy ===== *)
theory Orchestrator
  imports Assay_Prelude
begin

text \<open>
  The orchestrator of one assessment: src/assessment (the record and its in-memory store) and
  src/pipeline/orchestrator.go. A stage is a function of the record and of everything else it may
  change, which is a type parameter. The store is used through the locale \<open>assessment_store\<close>,
  interpreted on the in-memory store. The lemmas relate the run to the plain sequence of stages:
  which stages ran, what the record says at the end, and which stage an error names.
\<close>

section \<open>The record\<close>

definition StatusQueued :: gostring where "StatusQueued = ''queued''"
definition StatusInventory :: gostring where "StatusInventory = ''inventory''"
definition StatusAnalysis :: gostring where "StatusAnalysis = ''analysis''"
definition StatusComplete :: gostring where "StatusComplete = ''complete''"
definition StatusFailed :: gostring where "StatusFailed = ''failed''"

lemmas status_defs = StatusQueued_def StatusInventory_def StatusAnalysis_def StatusComplete_def StatusFailed_def

record VulnerabilityRef =
  vur_id :: gostring
  vur_source :: gostring

record Acquisition =
  acq_mode :: gostring
  acq_path :: gostring

record CodebaseRef =
  cbr_repo :: gostring
  cbr_revision :: gostring
  cbr_acquisition :: Acquisition

record AssessmentRequest =
  arq_vulnerability :: VulnerabilityRef
  arq_codebase :: CodebaseRef
  arq_executionKind :: gostring
  arq_token :: gostring

record SubjectSnapshot =
  sbs_url :: gostring
  sbs_ref :: gostring
  sbs_resolvedCommit :: gostring
  sbs_vulnerability :: VulnerabilityRef
  sbs_predecessorCommit :: gostring

record Assessment =
  asm_id :: gostring
  asm_status :: gostring
  asm_request :: AssessmentRequest
  asm_verdictID :: gostring
  asm_episodes :: "gostring list"
  asm_createdAt :: int
  asm_subject :: SubjectSnapshot
  asm_token :: gostring

section \<open>The store\<close>

text \<open>The in-memory store is its map by id; the id and the time of Create are arguments.\<close>

type_synonym assessment_map = "gostring \<rightharpoonup> Assessment"

definition assessment_Create :: "gostring \<Rightarrow> int \<Rightarrow> AssessmentRequest \<Rightarrow> assessment_map \<Rightarrow> assessment_map \<times> Assessment" where
  "assessment_Create newID now r s =
    (let a = \<lparr>asm_id = newID, asm_status = StatusQueued, asm_request = r, asm_verdictID = [], asm_episodes = [],
               asm_createdAt = now,
               asm_subject = \<lparr>sbs_url = cbr_repo (arq_codebase r), sbs_ref = cbr_revision (arq_codebase r),
                 sbs_resolvedCommit = [], sbs_vulnerability = arq_vulnerability r, sbs_predecessorCommit = []\<rparr>,
               asm_token = arq_token r\<rparr>
     in (s(newID \<mapsto> a), a))"

definition assessment_Get :: "gostring \<Rightarrow> assessment_map \<Rightarrow> Assessment option" where
  "assessment_Get i s = s i"

text \<open>Update answers None, or the error that the id is unknown.\<close>

datatype store_error = AssessmentNotFound

definition assessment_Update :: "Assessment \<Rightarrow> assessment_map \<Rightarrow> assessment_map \<times> store_error option" where
  "assessment_Update a s =
    (if s (asm_id a) = None then (s, Some AssessmentNotFound) else (s(asm_id a \<mapsto> a), None))"

section \<open>The run\<close>

record ('w, 'e) stage =
  stg_name :: gostring
  stg_status :: gostring
  stg_run :: "Assessment \<Rightarrow> 'w \<Rightarrow> Assessment \<times> 'w \<times> 'e option"

datatype ('u, 'e) orchestrator_error = RunNotFound | RunUpdate 'u | StageError gostring 'e

fun run_stages ::
  "(Assessment \<Rightarrow> 's \<Rightarrow> 's \<times> 'u option) \<Rightarrow> ('w, 'e) stage list \<Rightarrow> Assessment \<Rightarrow> 's \<Rightarrow> 'w \<Rightarrow>
   's \<times> 'w \<times> ('u, 'e) orchestrator_error option" where
  "run_stages upd [] c s w =
    (case upd (c\<lparr>asm_status := StatusComplete\<rparr>) s of (s1, e) \<Rightarrow> (s1, w, map_option RunUpdate e))"
| "run_stages upd (g # gs) c s w =
    (let c1 = c\<lparr>asm_status := stg_status g\<rparr> in
     case upd c1 s of
       (s1, Some u) \<Rightarrow> (s1, w, Some (RunUpdate u))
     | (s1, None) \<Rightarrow>
         (case stg_run g c1 w of
            (c2, w2, None) \<Rightarrow> run_stages upd gs c2 s1 w2
          | (c2, w2, Some e) \<Rightarrow>
              (case upd (c2\<lparr>asm_status := StatusFailed\<rparr>) s1 of
                 (s2, Some u) \<Rightarrow> (s2, w2, Some (RunUpdate u))
               | (s2, None) \<Rightarrow> (s2, w2, Some (StageError (stg_name g) e)))))"

definition Orchestrator_Run ::
  "(gostring \<Rightarrow> 's \<Rightarrow> Assessment option) \<Rightarrow> (Assessment \<Rightarrow> 's \<Rightarrow> 's \<times> 'u option) \<Rightarrow> ('w, 'e) stage list \<Rightarrow>
   gostring \<Rightarrow> 's \<Rightarrow> 'w \<Rightarrow> 's \<times> 'w \<times> ('u, 'e) orchestrator_error option" where
  "Orchestrator_Run get upd stages i s w =
    (case get i s of None \<Rightarrow> (s, w, Some RunNotFound) | Some c \<Rightarrow> run_stages upd stages c s w)"

section \<open>The sequence of stages\<close>

text \<open>The run without a store: each stage sees the record under its own status; the first failure ends it.\<close>

fun sequence ::
  "('w, 'e) stage list \<Rightarrow> Assessment \<Rightarrow> 'w \<Rightarrow> Assessment \<times> 'w \<times> (gostring \<times> 'e) option" where
  "sequence [] c w = (c\<lparr>asm_status := StatusComplete\<rparr>, w, None)"
| "sequence (g # gs) c w =
    (case stg_run g (c\<lparr>asm_status := stg_status g\<rparr>) w of
       (c2, w2, None) \<Rightarrow> sequence gs c2 w2
     | (c2, w2, Some e) \<Rightarrow> (c2\<lparr>asm_status := StatusFailed\<rparr>, w2, Some (stg_name g, e)))"

definition keeps_id :: "('w, 'e) stage \<Rightarrow> bool" where
  "keeps_id g = (\<forall>c w. asm_id (fst (stg_run g c w)) = asm_id c)"

locale assessment_store =
  fixes get :: "gostring \<Rightarrow> 's \<Rightarrow> Assessment option"
    and upd :: "Assessment \<Rightarrow> 's \<Rightarrow> 's \<times> 'u option"
  assumes upd_known: "get (asm_id a) s \<noteq> None \<Longrightarrow>
      \<exists>s'. upd a s = (s', None) \<and> get (asm_id a) s' = Some a \<and> (\<forall>i. i \<noteq> asm_id a \<longrightarrow> get i s' = get i s)"
    and upd_unknown: "get (asm_id a) s = None \<Longrightarrow> snd (upd a s) \<noteq> None"
begin

lemma stages_follow_sequence:
  assumes "get (asm_id c) s \<noteq> None" and "list_all keeps_id gs"
    and "sequence gs c w = (c', w', r)"
  shows "\<exists>s'. run_stages upd gs c s w = (s', w', map_option (\<lambda>(n, e). StageError n e) r)
      \<and> get (asm_id c) s' = Some c' \<and> (\<forall>i. i \<noteq> asm_id c \<longrightarrow> get i s' = get i s)"
  using assms
proof (induction gs arbitrary: c s w)
  case Nil
  from upd_known [of "c\<lparr>asm_status := StatusComplete\<rparr>" s] Nil obtain s' where
    "upd (c\<lparr>asm_status := StatusComplete\<rparr>) s = (s', None)" "get (asm_id c) s' = Some (c\<lparr>asm_status := StatusComplete\<rparr>)"
    "\<forall>i. i \<noteq> asm_id c \<longrightarrow> get i s' = get i s" by auto
  then show ?case using Nil.prems(3) by auto
next
  case (Cons g gs)
  let ?c1 = "c\<lparr>asm_status := stg_status g\<rparr>"
  from upd_known [of ?c1 s] Cons.prems(1) obtain s1 where s1: "upd ?c1 s = (s1, None)"
    "get (asm_id c) s1 = Some ?c1" "\<forall>i. i \<noteq> asm_id c \<longrightarrow> get i s1 = get i s" by auto
  obtain c2 w2 e where g: "stg_run g ?c1 w = (c2, w2, e)" by (metis prod_cases3)
  have i2: "asm_id c2 = asm_id c" using Cons.prems(2) g by (simp add: keeps_id_def) (metis Assessment.select_convs(1) Assessment.surjective Assessment.update_convs(2) fst_conv)
  show ?case
  proof (cases e)
    case None
    have "sequence gs c2 w2 = (c', w', r)" using Cons.prems(3) g None by simp
    from Cons.IH [OF _ _ this, of s1] s1(2) Cons.prems(2) i2 obtain s' where
      "run_stages upd gs c2 s1 w2 = (s', w', map_option (\<lambda>(n, e). StageError n e) r)"
      "get (asm_id c) s' = Some c'" "\<forall>i. i \<noteq> asm_id c \<longrightarrow> get i s' = get i s1" by auto
    then show ?thesis using s1 g None by (simp add: Let_def)
  next
    case (Some x)
    have r: "c' = c2\<lparr>asm_status := StatusFailed\<rparr>" "w' = w2" "r = Some (stg_name g, x)"
      using Cons.prems(3) g Some by auto
    from upd_known [of "c2\<lparr>asm_status := StatusFailed\<rparr>" s1] s1(2) i2 obtain s' where
      "upd (c2\<lparr>asm_status := StatusFailed\<rparr>) s1 = (s', None)"
      "get (asm_id c) s' = Some (c2\<lparr>asm_status := StatusFailed\<rparr>)" "\<forall>i. i \<noteq> asm_id c \<longrightarrow> get i s' = get i s1" by auto
    then show ?thesis using s1 g Some r by (simp add: Let_def)
  qed
qed

lemma run_follows_sequence:
  assumes "get i s = Some c" and "asm_id c = i" and "list_all keeps_id gs" and "sequence gs c w = (c', w', r)"
  shows "\<exists>s'. Orchestrator_Run get upd gs i s w = (s', w', map_option (\<lambda>(n, e). StageError n e) r)
      \<and> get i s' = Some c' \<and> (\<forall>j. j \<noteq> i \<longrightarrow> get j s' = get j s)"
  using stages_follow_sequence [OF _ assms(3,4), of s] assms(1,2) by (auto simp: Orchestrator_Run_def)

end

interpretation mem_assessments: assessment_store assessment_Get assessment_Update
  by unfold_locales (auto simp: assessment_Get_def assessment_Update_def)

lemma sequence_status:
  "sequence gs c w = (c', w', r) \<Longrightarrow> asm_status c' = (if r = None then StatusComplete else StatusFailed)"
  by (induction gs c w rule: sequence.induct) (auto split: prod.splits option.splits)

lemma sequence_failure:
  "sequence gs c w = (c', w', Some (n, e)) \<Longrightarrow>
   \<exists>pre g post c1 w1. gs = pre @ g # post \<and> stg_name g = n
     \<and> sequence pre c w = (c1\<lparr>asm_status := StatusComplete\<rparr>, w1, None)
     \<and> snd (snd (stg_run g (c1\<lparr>asm_status := stg_status g\<rparr>) w1)) = Some e"
proof (induction gs c w rule: sequence.induct)
  case (2 g gs c w)
  obtain c2 w2 x where g: "stg_run g (c\<lparr>asm_status := stg_status g\<rparr>) w = (c2, w2, x)" by (metis prod_cases3)
  show ?case
  proof (cases x)
    case None
    then have "sequence gs c2 w2 = (c', w', Some (n, e))" using 2(2) g by simp
    from "2.IH" [OF g [symmetric] refl None this] obtain pre h post c1 w1 where
      "gs = pre @ h # post" "stg_name h = n" "sequence pre c2 w2 = (c1\<lparr>asm_status := StatusComplete\<rparr>, w1, None)"
      "snd (snd (stg_run h (c1\<lparr>asm_status := stg_status h\<rparr>) w1)) = Some e" by blast
    then show ?thesis using g None by (intro exI [of _ "g # pre"]) auto
  next
    case (Some y)
    then show ?thesis using 2(2) g by (intro exI [of _ "[]"] exI [of _ g] exI [of _ gs] exI [of _ c] exI [of _ w]) auto
  qed
qed simp

text \<open>C16: an assessment's status is the truth about its stages. On the in-memory store, for an assessment
  that exists and stages that keep its id, a run ends without error exactly when every stage
  succeeded, and then the stored record is the last stage's with status complete; otherwise the error
  names the first stage that failed, with its error, every stage before it succeeded, no later one ran,
  and the stored status is failed; no other assessment is touched.\<close>

theorem run_status_truthful:
  assumes "s i = Some c" and "asm_id c = i" and "list_all keeps_id gs"
    and "Orchestrator_Run assessment_Get assessment_Update gs i s w = (s', w', res)"
  shows "\<exists>c' r. sequence gs c w = (c', w', r) \<and> s' = s(i \<mapsto> c')
    \<and> asm_status c' = (if res = None then StatusComplete else StatusFailed)
    \<and> (case res of
         None \<Rightarrow> r = None
       | Some err \<Rightarrow> (\<exists>pre g post c1 w1 e. gs = pre @ g # post \<and> err = StageError (stg_name g) e
            \<and> sequence pre c w = (c1\<lparr>asm_status := StatusComplete\<rparr>, w1, None)
            \<and> snd (snd (stg_run g (c1\<lparr>asm_status := stg_status g\<rparr>) w1)) = Some e))"
proof -
  obtain c' w2 r where q: "sequence gs c w = (c', w2, r)" by (metis prod_cases3)
  have "assessment_Get i s = Some c" using assms(1) by (simp add: assessment_Get_def)
  from mem_assessments.run_follows_sequence [OF this assms(2,3) q] assms(4)
  have e: "w' = w2" "res = map_option (\<lambda>(n, e). StageError n e) r" "s' i = Some c'" "\<forall>j. j \<noteq> i \<longrightarrow> s' j = s j"
    by (auto simp: assessment_Get_def)
  have "s' = s(i \<mapsto> c')" using e(3,4) by auto
  moreover have "asm_status c' = (if res = None then StatusComplete else StatusFailed)"
    using sequence_status [OF q] e(2) by simp
  moreover have "case res of None \<Rightarrow> r = None
       | Some err \<Rightarrow> (\<exists>pre g post c1 w1 e. gs = pre @ g # post \<and> err = StageError (stg_name g) e
            \<and> sequence pre c w = (c1\<lparr>asm_status := StatusComplete\<rparr>, w1, None)
            \<and> snd (snd (stg_run g (c1\<lparr>asm_status := stg_status g\<rparr>) w1)) = Some e)"
  proof (cases r)
    case None
    then show ?thesis using e(2) by simp
  next
    case (Some x)
    obtain n er where x: "x = (n, er)" by fastforce
    from sequence_failure [of gs c w c' w2 n er] q Some x e(2) show ?thesis by force
  qed
  ultimately show ?thesis using q e(1) by blast
qed

definition sample_assessment :: Assessment where
  "sample_assessment = snd (assessment_Create ''as1'' 5 \<lparr>arq_vulnerability = \<lparr>vur_id = ''GO-1'', vur_source = ''osv''\<rparr>,
     arq_codebase = \<lparr>cbr_repo = ''r'', cbr_revision = ''main'', cbr_acquisition = \<lparr>acq_mode = [], acq_path = []\<rparr>\<rparr>,
     arq_executionKind = [], arq_token = []\<rparr> (\<lambda>i. None))"

definition counting_stage :: "gostring \<Rightarrow> nat \<Rightarrow> (nat, nat) stage" where
  "counting_stage n limit =
    \<lparr>stg_name = n, stg_status = StatusAnalysis,
     stg_run = (\<lambda>c w. (c\<lparr>asm_verdictID := n\<rparr>, w + 1, if w < limit then None else Some w))\<rparr>"

text \<open>Three stages, of which the second fails.\<close>

lemma run_status_truthful_witness:
  "let gs = [counting_stage ''a'' 5, counting_stage ''b'' 1, counting_stage ''c'' 5] in
   case Orchestrator_Run assessment_Get assessment_Update gs ''as1'' ((\<lambda>i. None)(''as1'' \<mapsto> sample_assessment)) (0 :: nat) of
     (s', w', res) \<Rightarrow> w' = 2 \<and> res = Some (StageError ''b'' 1)
       \<and> s' = ((\<lambda>i. None)(''as1'' \<mapsto> sample_assessment\<lparr>asm_verdictID := ''b'', asm_status := StatusFailed\<rparr>))"
proof -
  let ?gs = "[counting_stage ''a'' 5, counting_stage ''b'' 1, counting_stage ''c'' 5]"
  let ?s = "(\<lambda>i. None)(''as1'' \<mapsto> sample_assessment) :: assessment_map"
  have i: "asm_id sample_assessment = ''as1''" by (simp add: sample_assessment_def assessment_Create_def Let_def)
  have k: "list_all keeps_id ?gs" by (simp add: keeps_id_def counting_stage_def)
  obtain s' w' res where r: "Orchestrator_Run assessment_Get assessment_Update ?gs ''as1'' ?s 0 = (s', w', res)"
    by (metis prod_cases3)
  have q: "sequence ?gs sample_assessment 0 = (sample_assessment\<lparr>asm_verdictID := ''b'', asm_status := StatusFailed\<rparr>, 2, Some (''b'', 1))"
    by (simp add: counting_stage_def)
  have "res = Some (StageError ''b'' 1)"
    using r i by (simp add: Orchestrator_Run_def assessment_Get_def assessment_Update_def counting_stage_def Let_def)
  with run_status_truthful [OF _ i k r] q show ?thesis
    unfolding Let_def r by auto
qed

end
