(* ===== verification/Artifact_Store.thy ===== *)
theory Artifact_Store
  imports Assay_Prelude "HOL-Library.Multiset"
begin

text \<open>
  The artifact store every stage writes to: src/artifact/store.go and fs_store.go. The in-memory store
  holds the artifacts by id and, for each id and key, a shared view: a slot whose value is decoded
  once. Slots are addressed explicitly, since a reader may hold a slot the map has dropped. The file
  store holds one file for each id; the encoding of an artifact is a parameter, which may fail and need
  not decode back. The locale \<open>artifact_store\<close> is the contract both keep. The lemmas show that a reader of a view
  gets the decode of the very payload it found, in every interleaving of readers and writers.
\<close>

section \<open>Artifacts\<close>

record artifact_ref =
  arf_id :: gostring
  arf_type :: gostring

record Artifact =
  art_id :: gostring
  art_assessmentID :: gostring
  art_type :: gostring
  art_contentHash :: gostring
  art_descriptor :: gostring
  art_producedBy :: gostring
  art_payload :: gostring
  art_createdAt :: int

definition Artifact_Ref :: "Artifact \<Rightarrow> artifact_ref" where
  "Artifact_Ref a = \<lparr>arf_id = art_id a, arf_type = art_type a\<rparr>"

text \<open>What Put fills in: \<open>newID\<close>, \<open>now\<close> and \<open>sha\<close> are ids.New, time.Now and SHA-256 in hex; the zero time is 0.\<close>

definition stamp :: "(gostring \<Rightarrow> gostring) \<Rightarrow> gostring \<Rightarrow> int \<Rightarrow> Artifact \<Rightarrow> Artifact" where
  "stamp sha newID now a =
    (let a1 = (if art_id a = [] then a\<lparr>art_id := newID\<rparr> else a);
         a2 = a1\<lparr>art_contentHash := ''sha256:'' @ sha (art_payload a1)\<rparr>
     in if art_createdAt a2 = 0 then a2\<lparr>art_createdAt := now\<rparr> else a2)"

section \<open>The in-memory store\<close>

text \<open>A slot is a view: its value once decode has run. \<open>byID\<close> is an association list whose order stands for
  the map's iteration order.\<close>

record 'v mem_store =
  msr_byID :: "(gostring \<times> Artifact) list"
  msr_views :: "(gostring \<times> gostring) \<rightharpoonup> nat"
  msr_slots :: "'v option list"

definition NewMemArtifacts :: "'v mem_store" where
  "NewMemArtifacts = \<lparr>msr_byID = [], msr_views = (\<lambda>k. None), msr_slots = []\<rparr>"

fun set_entry :: "gostring \<Rightarrow> 'a \<Rightarrow> (gostring \<times> 'a) list \<Rightarrow> (gostring \<times> 'a) list" where
  "set_entry k v [] = [(k, v)]"
| "set_entry k v ((j, w) # rest) = (if j = k then (k, v) # rest else (j, w) # set_entry k v rest)"

text \<open>Put of a stamped artifact: the map entry, and no view of it.\<close>

definition mem_Put :: "Artifact \<Rightarrow> 'v mem_store \<Rightarrow> 'v mem_store" where
  "mem_Put a s =
    s\<lparr>msr_byID := set_entry (art_id a) a (msr_byID s),
      msr_views := (\<lambda>(i, k). if i = art_id a then None else msr_views s (i, k))\<rparr>"

definition mem_Get :: "gostring \<Rightarrow> 'v mem_store \<Rightarrow> Artifact option" where
  "mem_Get i s = map_of (msr_byID s) i"

definition mem_Query :: "gostring \<Rightarrow> gostring \<Rightarrow> 'v mem_store \<Rightarrow> Artifact list" where
  "mem_Query assessmentID t s =
    filter (\<lambda>a. art_assessmentID a = assessmentID \<and> art_type a = t) (map snd (msr_byID s))"

definition mem_List :: "gostring \<Rightarrow> 'v mem_store \<Rightarrow> Artifact list" where
  "mem_List t s = filter (\<lambda>a. art_type a = t) (map snd (msr_byID s))"

text \<open>View, up to the unlock: the artifact found and the slot of its view, made when there is none.\<close>

definition view_open ::
  "gostring \<Rightarrow> gostring \<Rightarrow> gostring \<Rightarrow> 'v mem_store \<Rightarrow> 'v mem_store \<times> (Artifact \<times> nat) option" where
  "view_open assessmentID t key s =
    (case find (\<lambda>a. art_assessmentID a = assessmentID \<and> art_type a = t) (map snd (msr_byID s)) of
       None \<Rightarrow> (s, None)
     | Some a \<Rightarrow>
         (case msr_views s (art_id a, key) of
            Some n \<Rightarrow> (s, Some (a, n))
          | None \<Rightarrow>
              (s\<lparr>msr_views := (msr_views s)((art_id a, key) \<mapsto> length (msr_slots s)),
                 msr_slots := msr_slots s @ [None]\<rparr>, Some (a, length (msr_slots s)))))"

text \<open>View, the rest: decode runs unless the slot has its value; the slot's value is returned.\<close>

definition view_run :: "(gostring \<Rightarrow> 'v) \<Rightarrow> Artifact \<Rightarrow> nat \<Rightarrow> 'v mem_store \<Rightarrow> 'v mem_store \<times> 'v" where
  "view_run decode a n s =
    (case msr_slots s ! n of
       Some v \<Rightarrow> (s, v)
     | None \<Rightarrow> (let v = decode (art_payload a) in (s\<lparr>msr_slots := (msr_slots s)[n := Some v]\<rparr>, v)))"

definition mem_Seed :: "gostring \<Rightarrow> gostring \<Rightarrow> 'v \<Rightarrow> 'v mem_store \<Rightarrow> 'v mem_store \<times> bool" where
  "mem_Seed i key v s =
    (if map_of (msr_byID s) i = None then (s, False)
     else if msr_views s (i, key) \<noteq> None then (s, False)
     else (s\<lparr>msr_views := (msr_views s)((i, key) \<mapsto> length (msr_slots s)),
             msr_slots := msr_slots s @ [Some v]\<rparr>, True))"

section \<open>The file store\<close>

text \<open>The directory: file names and contents, in the order ReadDir lists them (by name). \<open>'c\<close> is the type of
  file contents.\<close>

type_synonym 'c directory = "(gostring \<times> 'c) list"

fun put_file :: "gostring \<Rightarrow> 'c \<Rightarrow> 'c directory \<Rightarrow> 'c directory" where
  "put_file f c [] = [(f, c)]"
| "put_file f c ((g, d) # rest) =
    (if f < g then (f, c) # (g, d) # rest else if f = g then (f, c) # rest else (g, d) # put_file f c rest)"

definition file_of :: "gostring \<Rightarrow> gostring" where "file_of i = i @ ''.json''"

text \<open>Put fails when the artifact does not marshal, and when its id has a slash: the file would lie in a
  directory of its own, which does not exist and which WriteAtomic does not make. (An id that
  climbs out of the store's directory is refused here as well; no lemma speaks of one.)\<close>

definition fs_Put :: "(Artifact \<Rightarrow> 'c option) \<Rightarrow> Artifact \<Rightarrow> 'c directory \<Rightarrow> 'c directory option" where
  "fs_Put enc a d =
    (case enc a of
       None \<Rightarrow> None
     | Some data \<Rightarrow> if CHR ''/'' \<in> set (art_id a) then None else Some (put_file (file_of (art_id a)) data d))"

definition fs_Get :: "('c \<Rightarrow> Artifact option) \<Rightarrow> gostring \<Rightarrow> 'c directory \<Rightarrow> Artifact option" where
  "fs_Get dec i d = (case map_of d (file_of i) of None \<Rightarrow> None | Some c \<Rightarrow> dec c)"

fun fs_scan :: "('c \<Rightarrow> Artifact option) \<Rightarrow> gostring \<Rightarrow> (Artifact \<Rightarrow> bool) \<Rightarrow> 'c directory \<Rightarrow> Artifact list" where
  "fs_scan dec t keep [] = []"
| "fs_scan dec t keep ((name, data) # rest) =
    (if \<not> has_suffix name ''.json'' \<or> go_contains name ''.tmp-'' then fs_scan dec t keep rest
     else (case dec data of
             None \<Rightarrow> fs_scan dec t keep rest
           | Some a \<Rightarrow> (if art_type a = t \<and> keep a then [a] else []) @ fs_scan dec t keep rest))"

definition fs_Query :: "('c \<Rightarrow> Artifact option) \<Rightarrow> gostring \<Rightarrow> gostring \<Rightarrow> 'c directory \<Rightarrow> Artifact list" where
  "fs_Query dec assessmentID t d = fs_scan dec t (\<lambda>a. art_assessmentID a = assessmentID) d"

definition fs_List :: "('c \<Rightarrow> Artifact option) \<Rightarrow> gostring \<Rightarrow> 'c directory \<Rightarrow> Artifact list" where
  "fs_List dec t d = fs_scan dec t (\<lambda>a. True) d"

section \<open>The contract\<close>

text \<open>The ids a store holds under the contract: without a slash, and not read as a leftover of WriteAtomic. A UUID,
  which ids.New gives, has neither a slash nor a dot.\<close>

definition plain_id :: "gostring \<Rightarrow> bool" where
  "plain_id i = (CHR ''/'' \<notin> set i \<and> \<not> go_contains (file_of i) ''.tmp-'')"

text \<open>A run of Puts, ended by the first that fails.\<close>

fun put_all :: "(Artifact \<Rightarrow> 's \<Rightarrow> 's option) \<Rightarrow> Artifact list \<Rightarrow> 's \<Rightarrow> 's option" where
  "put_all put [] s = Some s"
| "put_all put (a # as) s = (case put a s of None \<Rightarrow> None | Some s' \<Rightarrow> put_all put as s')"

text \<open>\<open>able\<close> says which artifacts the store can keep.\<close>

locale artifact_store =
  fixes good :: "'s \<Rightarrow> bool"
    and able :: "Artifact \<Rightarrow> bool"
    and put :: "Artifact \<Rightarrow> 's \<Rightarrow> 's option"
    and get :: "gostring \<Rightarrow> 's \<Rightarrow> Artifact option"
    and query :: "gostring \<Rightarrow> gostring \<Rightarrow> 's \<Rightarrow> Artifact list"
    and lst :: "gostring \<Rightarrow> 's \<Rightarrow> Artifact list"
  assumes able_plain: "able a \<Longrightarrow> plain_id (art_id a)"
    and put_good: "good s \<Longrightarrow> able a \<Longrightarrow> \<exists>s'. put a s = Some s' \<and> good s'"
    and get_put: "good s \<Longrightarrow> able a \<Longrightarrow> plain_id i \<Longrightarrow> put a s = Some s' \<Longrightarrow>
      get i s' = (if i = art_id a then Some a else get i s)"
    and query_exact: "good s \<Longrightarrow>
      distinct (query c t s) \<and>
      (x \<in> set (query c t s) \<longleftrightarrow>
        plain_id (art_id x) \<and> get (art_id x) s = Some x \<and> art_assessmentID x = c \<and> art_type x = t)"
    and list_exact: "good s \<Longrightarrow>
      distinct (lst t s) \<and>
      (x \<in> set (lst t s) \<longleftrightarrow> plain_id (art_id x) \<and> get (art_id x) s = Some x \<and> art_type x = t)"
begin

text \<open>After a run of Puts: the last artifact put under an id is the one there.\<close>

lemma puts_get:
  assumes "good s" and "list_all able as"
  shows "\<exists>s'. put_all put as s = Some s' \<and> good s' \<and> (\<forall>i. plain_id i \<longrightarrow> get i s' =
    (case map_of (rev (map (\<lambda>a. (art_id a, a)) as)) i of None \<Rightarrow> get i s | Some a \<Rightarrow> Some a))"
  using assms
proof (induction "as" arbitrary: s)
  case (Cons a "as")
  then obtain s1 where s1: "put a s = Some s1" "good s1" using put_good [of s a] by auto
  obtain s' where s': "put_all put as s1 = Some s'" "good s'" "\<forall>i. plain_id i \<longrightarrow> get i s' =
      (case map_of (rev (map (\<lambda>a. (art_id a, a)) as)) i of None \<Rightarrow> get i s1 | Some a \<Rightarrow> Some a)"
    using Cons.IH [OF s1(2)] Cons.prems by auto
  have "get i s1 = (if i = art_id a then Some a else get i s)" if "plain_id i" for i
    using get_put [OF Cons.prems(1) _ that s1(1)] Cons.prems by simp
  then show ?case using s1 s' by (auto simp: map_add_def split: option.splits)
qed simp

text \<open>An artifact of a type nothing else has yet is what the next reader finds.\<close>

lemma query_put:
  assumes "good s" and "able a" and "put a s = Some s'"
  shows "set (query c t s') =
    (if art_assessmentID a = c \<and> art_type a = t then {a} else {}) \<union> {x \<in> set (query c t s). art_id x \<noteq> art_id a}"
proof (rule set_eqI)
  fix x
  have s': "good s'" using put_good [OF assms(1,2)] assms(3) by auto
  note n = conjunct2 [OF query_exact [OF s', of c t x]]
  note o = conjunct2 [OF query_exact [OF assms(1), of c t x]]
  show "x \<in> set (query c t s') \<longleftrightarrow> x \<in>
      (if art_assessmentID a = c \<and> art_type a = t then {a} else {}) \<union> {x \<in> set (query c t s). art_id x \<noteq> art_id a}"
  proof (cases "plain_id (art_id x)")
    case True
    have "x = a \<longrightarrow> art_id x = art_id a" by simp
    then show ?thesis
      using n o get_put [OF assms(1,2) True assms(3)] able_plain [OF assms(2)] by (cases "art_id x = art_id a") auto
  next
    case False
    then show ?thesis using n o able_plain [OF assms(2)] by auto
  qed
qed

lemma query_fresh:
  assumes "good s" and "able a" and "put a s = Some s'" and "query (art_assessmentID a) (art_type a) s = []"
  shows "query (art_assessmentID a) (art_type a) s' = [a]"
proof -
  let ?q = "query (art_assessmentID a) (art_type a) s'"
  have "good s'" using put_good [OF assms(1,2)] assms(3) by auto
  then have "distinct ?q" using query_exact by blast
  moreover have "set ?q = {a}" using query_put [OF assms(1-3)] assms(4) by simp
  ultimately have "length ?q = 1" using distinct_card [of ?q] by simp
  then obtain x where "?q = [x]" by (auto simp: length_Suc_conv)
  then show ?thesis using \<open>set ?q = {a}\<close> by simp
qed

end

text \<open>Two stores after one run of Puts hold the same artifacts.\<close>

lemma stores_same:
  assumes 1: "artifact_store good1 able1 put1 get1 query1 lst1" and 2: "artifact_store good2 able2 put2 get2 query2 lst2"
    and "good1 s1" and "good2 s2" and get: "\<And>i. plain_id i \<Longrightarrow> get1 i s1 = get2 i s2"
  shows "mset (query1 c t s1) = mset (query2 c t s2) \<and> mset (lst1 t s1) = mset (lst2 t s2)"
proof -
  note q1 = artifact_store.query_exact [OF 1 assms(3)]
  note q2 = artifact_store.query_exact [OF 2 assms(4)]
  note l1 = artifact_store.list_exact [OF 1 assms(3)]
  note l2 = artifact_store.list_exact [OF 2 assms(4)]
  have "set (query1 c t s1) = set (query2 c t s2)" "set (lst1 t s1) = set (lst2 t s2)"
    using q1 q2 l1 l2 get by (auto simp: set_eq_iff)
  then show ?thesis
    using q1 q2 l1 l2 by (simp add: set_eq_iff_mset_eq_distinct [symmetric])
qed

definition mem_good :: "'v mem_store \<Rightarrow> bool" where
  "mem_good s = (distinct (map fst (msr_byID s)) \<and> list_all (\<lambda>(i, a). i = art_id a \<and> plain_id i) (msr_byID s))"

lemma map_of_set_entry: "map_of (set_entry k v xs) = (map_of xs)(k \<mapsto> v)"
  by (induction xs) (auto simp: fun_eq_iff)

lemma set_entry_keys: "set (map fst (set_entry k v xs)) = insert k (set (map fst xs))"
  by (simp add: dom_map_of_conv_image_fst [symmetric] map_of_set_entry)

lemma set_entry_distinct: "distinct (map fst xs) \<Longrightarrow> distinct (map fst (set_entry k v xs))"
proof (induction xs)
  case (Cons x xs)
  obtain j w where x: "x = (j, w)" by fastforce
  have "fst ` set (set_entry k v xs) = insert k (fst ` set xs)" using set_entry_keys [of k v xs] by simp
  then show ?case using Cons x by (auto simp: image_iff)
qed simp

lemma set_entry_all: "list_all P xs \<Longrightarrow> P (k, v) \<Longrightarrow> list_all P (set_entry k v xs)"
  by (induction xs) auto

lemma mem_good_mem:
  "mem_good s \<Longrightarrow> x \<in> set (map snd (msr_byID s)) \<longleftrightarrow> plain_id (art_id x) \<and> mem_Get (art_id x) s = Some x"
  unfolding mem_good_def mem_Get_def by (force simp: list_all_iff map_of_eq_Some_iff image_iff)

lemma mem_good_distinct: "mem_good s \<Longrightarrow> distinct (map snd (msr_byID s))"
  unfolding mem_good_def distinct_map list_all_iff inj_on_def by (auto simp: case_prod_beta)

interpretation mem_artifacts: artifact_store mem_good "\<lambda>a. plain_id (art_id a)" "\<lambda>a s. Some (mem_Put a s)"
  mem_Get mem_Query mem_List
proof
  fix s s' :: "'v mem_store" and a x :: Artifact and i c t
  show "plain_id (art_id a) \<Longrightarrow> plain_id (art_id a)" .
  assume g: "mem_good s"
  show "plain_id (art_id a) \<Longrightarrow> \<exists>s'. Some (mem_Put a s) = Some s' \<and> mem_good s'"
    using g by (auto simp: mem_good_def mem_Put_def set_entry_distinct intro: set_entry_all)
  show "plain_id (art_id a) \<Longrightarrow> plain_id i \<Longrightarrow> Some (mem_Put a s) = Some s' \<Longrightarrow>
      mem_Get i s' = (if i = art_id a then Some a else mem_Get i s)"
    by (auto simp: mem_Get_def mem_Put_def map_of_set_entry)
  show "distinct (mem_Query c t s) \<and> (x \<in> set (mem_Query c t s) \<longleftrightarrow>
      plain_id (art_id x) \<and> mem_Get (art_id x) s = Some x \<and> art_assessmentID x = c \<and> art_type x = t)"
    using mem_good_mem [OF g, of x] mem_good_distinct [OF g] by (auto simp: mem_Query_def)
  show "distinct (mem_List t s) \<and> (x \<in> set (mem_List t s) \<longleftrightarrow>
      plain_id (art_id x) \<and> mem_Get (art_id x) s = Some x \<and> art_type x = t)"
    using mem_good_mem [OF g, of x] mem_good_distinct [OF g] by (auto simp: mem_List_def)
qed

section \<open>The file store keeps the contract\<close>

definition skipped_file :: "gostring \<Rightarrow> bool" where
  "skipped_file name = (\<not> has_suffix name ''.json'' \<or> go_contains name ''.tmp-'')"

text \<open>The artifacts the file store can keep: those that marshal, decode back, and have a plain id.\<close>

definition fs_able :: "(Artifact \<Rightarrow> 'c option) \<Rightarrow> ('c \<Rightarrow> Artifact option) \<Rightarrow> Artifact \<Rightarrow> bool" where
  "fs_able enc dec a = (plain_id (art_id a) \<and> (\<exists>c. enc a = Some c \<and> dec c = Some a))"

definition fs_good :: "('c \<Rightarrow> Artifact option) \<Rightarrow> 'c directory \<Rightarrow> bool" where
  "fs_good dec d =
    (sorted_wrt (<) (map fst d) \<and>
     list_all (\<lambda>(f, c). \<exists>a. f = file_of (art_id a) \<and> plain_id (art_id a) \<and> dec c = Some a) d)"

lemma plain_file: "plain_id i \<Longrightarrow> \<not> skipped_file (file_of i)"
  by (simp add: plain_id_def skipped_file_def file_of_def has_suffix_def has_prefix_def)

lemma file_of_inj [simp]: "file_of i = file_of j \<longleftrightarrow> i = j"
  by (simp add: file_of_def)

lemma map_of_put_file: "map_of (put_file f c d) = (map_of d)(f \<mapsto> c)"
  by (induction f c d rule: put_file.induct) (auto simp: fun_eq_iff)

lemma put_file_keys: "fst ` set (put_file f c d) = insert f (fst ` set d)"
  by (simp add: dom_map_of_conv_image_fst [symmetric] map_of_put_file)

lemma put_file_sorted: "sorted_wrt (<) (map fst d) \<Longrightarrow> sorted_wrt (<) (map fst (put_file f c d))"
  by (induction f c d rule: put_file.induct) (auto simp: put_file_keys simp del: list.map_comp)

lemma put_file_all: "list_all P d \<Longrightarrow> P (f, c) \<Longrightarrow> list_all P (put_file f c d)"
  by (induction f c d rule: put_file.induct) auto

lemma fs_scan_filter:
  "fs_scan dec t keep d =
     filter (\<lambda>a. art_type a = t \<and> keep a)
       (List.map_filter (\<lambda>(f, c). if skipped_file f then None else dec c) d)"
  by (induction dec t keep d rule: fs_scan.induct) (auto simp: skipped_file_def List.map_filter_simps split: option.splits)

lemma fs_entries:
  assumes "fs_good dec d"
  shows "distinct (List.map_filter (\<lambda>(f, c). if skipped_file f then None else dec c) d)
    \<and> (x \<in> set (List.map_filter (\<lambda>(f, c). if skipped_file f then None else dec c) d) \<longleftrightarrow>
        plain_id (art_id x) \<and> fs_Get dec (art_id x) d = Some x)"
  using assms
proof (induction d arbitrary: x)
  case Nil
  then show ?case by (simp add: List.map_filter_simps fs_Get_def)
next
  case (Cons e d)
  obtain f c where e: "e = (f, c)" by fastforce
  then obtain a where a: "f = file_of (art_id a)" "plain_id (art_id a)" "dec c = Some a"
    using Cons.prems by (auto simp: fs_good_def)
  have "fs_good dec d" using Cons.prems by (simp add: fs_good_def)
  note IH = Cons.IH [OF this]
  have n: "file_of (art_id a) \<notin> fst ` set d" using Cons.prems a(1) e by (auto simp: fs_good_def)
  then have g: "fs_Get dec (art_id a) d = None" by (simp add: fs_Get_def map_of_eq_None_iff [THEN iffD2])
  have m: "List.map_filter (\<lambda>(f, c). if skipped_file f then None else dec c) (e # d)
      = a # List.map_filter (\<lambda>(f, c). if skipped_file f then None else dec c) d"
    using a e plain_file by (simp add: List.map_filter_simps)
  have "fs_Get dec (art_id x) (e # d) = (if art_id x = art_id a then Some a else fs_Get dec (art_id x) d)"
    using a e by (simp add: fs_Get_def)
  moreover have "a \<notin> set (List.map_filter (\<lambda>(f, c). if skipped_file f then None else dec c) d)"
    using IH [of a] g by simp
  ultimately show ?case unfolding m using IH [of x] a(2) g by (cases "art_id x = art_id a") auto
qed

lemma fs_Put_able:
  assumes "fs_able enc dec a"
  shows "\<exists>c. fs_Put enc a d = Some (put_file (file_of (art_id a)) c d) \<and> dec c = Some a"
  using assms by (auto simp: fs_able_def fs_Put_def plain_id_def)

interpretation fs_artifacts: artifact_store "fs_good dec" "fs_able enc dec" "fs_Put enc" "fs_Get dec" "fs_Query dec" "fs_List dec"
  for enc dec
proof
  fix s s' a x i c t
  show p: "fs_able enc dec a \<Longrightarrow> plain_id (art_id a)" by (simp add: fs_able_def)
  assume g: "fs_good dec s"
  note e = fs_entries [OF g, of x]
  show "fs_able enc dec a \<Longrightarrow> \<exists>s'. fs_Put enc a s = Some s' \<and> fs_good dec s'"
    using g fs_Put_able [of enc dec a s] p by (auto simp: fs_good_def put_file_sorted intro!: put_file_all)
  show "fs_able enc dec a \<Longrightarrow> plain_id i \<Longrightarrow> fs_Put enc a s = Some s' \<Longrightarrow>
      fs_Get dec i s' = (if i = art_id a then Some a else fs_Get dec i s)"
    using fs_Put_able [of enc dec a s] by (auto simp: fs_Get_def map_of_put_file)
  show "distinct (fs_Query dec c t s) \<and> (x \<in> set (fs_Query dec c t s) \<longleftrightarrow>
      plain_id (art_id x) \<and> fs_Get dec (art_id x) s = Some x \<and> art_assessmentID x = c \<and> art_type x = t)"
    using e by (auto simp: fs_Query_def fs_scan_filter)
  show "distinct (fs_List dec t s) \<and> (x \<in> set (fs_List dec t s) \<longleftrightarrow>
      plain_id (art_id x) \<and> fs_Get dec (art_id x) s = Some x \<and> art_type x = t)"
    using e by (auto simp: fs_List_def fs_scan_filter)
qed

lemma put_all_mem: "put_all (\<lambda>a s. Some (mem_Put a s)) as s = Some (fold mem_Put as s)"
  by (induction "as" arbitrary: s) simp_all

text \<open>C34: the store behind the pipeline does not matter. After any Puts of stamped artifacts, in any order and
  with ids put again, the file store has accepted every one, and the in-memory store and the file store answer
  alike: Get by id gives the last artifact put under it, or nothing, and Query and List give the same
  artifacts the same number of times. It holds for artifacts that the encoding at hand decodes back
  (encoding/json replaces invalid UTF-8, so not every artifact is one) and for ids that are file
  names: without a slash, on which the file store's Put fails, and without the mark of a leftover
  temporary file, which its readers skip.\<close>

theorem stores_agree:
  assumes "list_all (\<lambda>a. CHR ''/'' \<notin> set (art_id a) \<and> \<not> go_contains (file_of (art_id a)) ''.tmp-'' \<and>
      (\<exists>c. enc a = Some c \<and> dec c = Some a)) as"
    and "CHR ''/'' \<notin> set i" and "\<not> go_contains (file_of i) ''.tmp-''"
  shows "\<exists>d. put_all (fs_Put enc) as [] = Some d \<and>
    (let m = fold mem_Put as (NewMemArtifacts :: 'v mem_store) in
      mem_Get i m = map_of (rev (map (\<lambda>a. (art_id a, a)) as)) i
    \<and> fs_Get dec i d = mem_Get i m
    \<and> mset (fs_Query dec c t d) = mset (mem_Query c t m)
    \<and> mset (fs_List dec t d) = mset (mem_List t m))"
proof -
  let ?m = "fold mem_Put as NewMemArtifacts :: 'v mem_store"
  have i: "plain_id i" using assms(2,3) by (simp add: plain_id_def)
  have l: "list_all (fs_able enc dec) as" "list_all (\<lambda>a. plain_id (art_id a)) as"
    using assms(1) by (simp_all add: list_all_iff fs_able_def plain_id_def)
  have "mem_good (NewMemArtifacts :: 'v mem_store)" by (simp add: NewMemArtifacts_def mem_good_def)
  from mem_artifacts.puts_get [OF this l(2)]
  have m: "mem_good ?m" "\<And>j. plain_id j \<Longrightarrow> mem_Get j ?m = map_of (rev (map (\<lambda>a. (art_id a, a)) as)) j"
    unfolding put_all_mem by (auto simp: mem_Get_def NewMemArtifacts_def split: option.splits)
  have "fs_good dec []" by (simp add: fs_good_def)
  from fs_artifacts.puts_get [OF this l(1)] obtain d where d: "put_all (fs_Put enc) as [] = Some d" "fs_good dec d"
    "\<forall>j. plain_id j \<longrightarrow> fs_Get dec j d =
      (case map_of (rev (map (\<lambda>a. (art_id a, a)) as)) j of None \<Rightarrow> fs_Get dec j [] | Some a \<Rightarrow> Some a)"
    by blast
  have get: "fs_Get dec j d = mem_Get j ?m" if "plain_id j" for j
    using m(2) [OF that] d(3) that by (simp add: fs_Get_def split: option.splits)
  note s = stores_same [OF fs_artifacts.artifact_store_axioms mem_artifacts.artifact_store_axioms d(2) m(1) get, of c t]
  show ?thesis using d(1) m(2) [OF i] get [OF i] s by (simp add: Let_def)
qed

definition sample_artifact :: "gostring \<Rightarrow> gostring \<Rightarrow> Artifact" where
  "sample_artifact i p = \<lparr>art_id = i, art_assessmentID = ''as1'', art_type = ''inventory'', art_contentHash = [],
     art_descriptor = [], art_producedBy = ''inventory'', art_payload = p, art_createdAt = 1\<rparr>"

text \<open>An encoding that refuses one artifact and does not decode another back, neither of which is put.\<close>

definition sample_enc :: "Artifact \<Rightarrow> Artifact option" where
  "sample_enc a = (if art_payload a = ''refused'' then None else if art_payload a = ''lossy'' then Some (a\<lparr>art_payload := []\<rparr>) else Some a)"

lemma stores_agree_witness:
  "let as = [sample_artifact ''b'' ''1'', sample_artifact ''a.x'' ''2'', sample_artifact ''b'' ''3''];
       m = fold mem_Put as (NewMemArtifacts :: nat mem_store)
   in \<exists>d. put_all (fs_Put sample_enc) as [] = Some d \<and>
     mem_Get ''b'' m = Some (sample_artifact ''b'' ''3'') \<and> fs_Get Some ''b'' d = Some (sample_artifact ''b'' ''3'')
     \<and> mset (fs_Query Some ''as1'' ''inventory'' d) = mset (mem_Query ''as1'' ''inventory'' m)"
proof -
  let ?as = "[sample_artifact ''b'' ''1'', sample_artifact ''a.x'' ''2'', sample_artifact ''b'' ''3'']"
  have "\<not> go_contains (file_of ''b'') ''.tmp-'' \<and> \<not> go_contains (file_of ''a.x'') ''.tmp-''" by code_simp
  then have l: "list_all (\<lambda>a. CHR ''/'' \<notin> set (art_id a) \<and> \<not> go_contains (file_of (art_id a)) ''.tmp-'' \<and>
      (\<exists>c. sample_enc a = Some c \<and> Some c = Some a)) ?as" "CHR ''/'' \<notin> set ''b''" "\<not> go_contains (file_of ''b'') ''.tmp-''"
    by (simp_all add: sample_artifact_def sample_enc_def)
  have e: "map_of (rev (map (\<lambda>a. (art_id a, a)) ?as)) ''b'' = Some (sample_artifact ''b'' ''3'')"
    by (simp add: sample_artifact_def)
  from stores_agree [where 'v = nat and c = "''as1''" and t = "''inventory''", OF l] show ?thesis
    unfolding Let_def e by auto
qed

section \<open>Shared views\<close>

text \<open>Readers and writers in any interleaving. View is two steps, since the lock is released between them:
  one finds the artifact and the slot and leaves a ticket, the other runs the slot's once. \<open>dec k\<close> is the
  decode of key k; Seed's caller holds the decoded value of the artifact there.\<close>

type_synonym 'v view_state = "'v mem_store \<times> (Artifact \<times> gostring \<times> nat) list"

inductive view_step :: "(gostring \<Rightarrow> gostring \<Rightarrow> 'v) \<Rightarrow> 'v view_state \<Rightarrow> 'v view_state \<Rightarrow> bool" for dec where
  Put: "view_step dec (s, ts) (mem_Put a s, ts)"
| Open: "view_open c t k s = (s', Some (a, n)) \<Longrightarrow> view_step dec (s, ts) (s', (a, k, n) # ts)"
| Run: "(a, k, n) \<in> set ts \<Longrightarrow> view_step dec (s, ts) (fst (view_run (dec k) a n s), ts)"
| Seed: "mem_Get i s = Some a \<Longrightarrow> view_step dec (s, ts) (fst (mem_Seed i k (dec k (art_payload a)) s), ts)"

inductive view_reachable :: "(gostring \<Rightarrow> gostring \<Rightarrow> 'v) \<Rightarrow> 'v view_state \<Rightarrow> bool" for dec where
  Init: "view_reachable dec (NewMemArtifacts, [])"
| Step: "view_reachable dec st \<Longrightarrow> view_step dec st st' \<Longrightarrow> view_reachable dec st'"

definition named_by_id :: "'v mem_store \<Rightarrow> bool" where
  "named_by_id s = (distinct (map fst (msr_byID s)) \<and> list_all (\<lambda>(i, a). i = art_id a) (msr_byID s))"

text \<open>Each slot belongs to one value, the decode of the payload it was made for.\<close>

definition views_owned :: "(gostring \<Rightarrow> gostring \<Rightarrow> 'v) \<Rightarrow> (nat \<Rightarrow> 'v) \<Rightarrow> 'v view_state \<Rightarrow> bool" where
  "views_owned dec own st =
    (case st of (s, ts) \<Rightarrow>
       named_by_id s
       \<and> (\<forall>n < length (msr_slots s). msr_slots s ! n = None \<or> msr_slots s ! n = Some (own n))
       \<and> (\<forall>i k n. msr_views s (i, k) = Some n \<longrightarrow>
            n < length (msr_slots s) \<and> (\<exists>a. mem_Get i s = Some a \<and> own n = dec k (art_payload a)))
       \<and> (\<forall>(a, k, n) \<in> set ts. n < length (msr_slots s) \<and> own n = dec k (art_payload a)))"

lemma named_put: "named_by_id s \<Longrightarrow> named_by_id (mem_Put a s)"
  by (auto simp: named_by_id_def mem_Put_def set_entry_distinct intro: set_entry_all)

lemma find_named:
  assumes "named_by_id s" and "find P (map snd (msr_byID s)) = Some a"
  shows "mem_Get (art_id a) s = Some a"
proof -
  have "a \<in> set (map snd (msr_byID s))" using assms(2) by (auto simp: find_Some_iff)
  then obtain i where i: "(i, a) \<in> set (msr_byID s)" by auto
  then have "i = art_id a" using assms(1) by (auto simp: named_by_id_def list_all_iff)
  then show ?thesis using i assms(1) by (simp add: named_by_id_def mem_Get_def)
qed

lemma mem_Get_slots [simp]: "mem_Get i (s\<lparr>msr_slots := xs\<rparr>) = mem_Get i s"
  by (simp add: mem_Get_def)

lemma owned_new_slot:
  assumes "views_owned dec own (s, ts)" and "mem_Get i s = Some a"
    and "v = None \<or> v = Some (dec k (art_payload a))"
  shows "views_owned dec (own(length (msr_slots s) := dec k (art_payload a)))
    (s\<lparr>msr_views := (msr_views s)((i, k) \<mapsto> length (msr_slots s)), msr_slots := msr_slots s @ [v]\<rparr>, ts)"
proof -
  let ?s = "s\<lparr>msr_views := (msr_views s)((i, k) \<mapsto> length (msr_slots s)), msr_slots := msr_slots s @ [v]\<rparr>"
  let ?own = "own(length (msr_slots s) := dec k (art_payload a))"
  note o = assms(1) [unfolded views_owned_def prod.case]
  have "named_by_id ?s" using o by (simp add: named_by_id_def)
  moreover have "\<forall>n < length (msr_slots ?s). msr_slots ?s ! n = None \<or> msr_slots ?s ! n = Some (?own n)"
    using o assms(3) by (auto simp: nth_append less_Suc_eq)
  moreover have "\<forall>j l n. msr_views ?s (j, l) = Some n \<longrightarrow>
      n < length (msr_slots ?s) \<and> (\<exists>b. mem_Get j ?s = Some b \<and> ?own n = dec l (art_payload b))"
  proof (intro allI impI)
    fix j l n assume v: "msr_views ?s (j, l) = Some n"
    show "n < length (msr_slots ?s) \<and> (\<exists>b. mem_Get j ?s = Some b \<and> ?own n = dec l (art_payload b))"
    proof (cases "(j, l) = (i, k)")
      case True
      then show ?thesis using v assms(2) by (auto simp: mem_Get_def)
    next
      case False
      then have "msr_views s (j, l) = Some n" using v by auto
      then have "n < length (msr_slots s)" "\<exists>b. mem_Get j s = Some b \<and> own n = dec l (art_payload b)"
        using o by blast+
      then show ?thesis by (auto simp: mem_Get_def)
    qed
  qed
  moreover have "\<forall>(b, l, n) \<in> set ts. n < length (msr_slots ?s) \<and> ?own n = dec l (art_payload b)"
    using o by (fastforce simp: case_prod_beta)
  ultimately show ?thesis unfolding views_owned_def by simp
qed

lemma owned_ticket:
  assumes "views_owned dec own (s, ts)" and "n < length (msr_slots s)" and "own n = dec k (art_payload a)"
  shows "views_owned dec own (s, (a, k, n) # ts)"
  using assms by (simp add: views_owned_def)

lemma owned_put:
  assumes "views_owned dec own (s, ts)"
  shows "views_owned dec own (mem_Put a s, ts)"
  using assms named_put [of s a]
  by (auto simp: views_owned_def mem_Put_def mem_Get_def map_of_set_entry)

lemma owned_open:
  assumes "views_owned dec own (s, ts)" and "view_open c t k s = (s', Some (a, n))"
  shows "\<exists>own'. views_owned dec own' (s', (a, k, n) # ts)"
proof -
  note o = assms(1) [unfolded views_owned_def prod.case]
  have f: "find (\<lambda>a. art_assessmentID a = c \<and> art_type a = t) (map snd (msr_byID s)) = Some a"
    using assms(2) by (auto simp: view_open_def split: option.splits)
  have g: "mem_Get (art_id a) s = Some a" using find_named [OF _ f] o by simp
  show ?thesis
  proof (cases "msr_views s (art_id a, k)")
    case None
    then have e: "n = length (msr_slots s)"
      "s' = s\<lparr>msr_views := (msr_views s)((art_id a, k) \<mapsto> length (msr_slots s)), msr_slots := msr_slots s @ [None]\<rparr>"
      using assms(2) f by (auto simp: view_open_def)
    from owned_new_slot [OF assms(1) g, of None k] show ?thesis
      unfolding e by (intro exI [of _ "own(length (msr_slots s) := dec k (art_payload a))"] owned_ticket) simp_all
  next
    case (Some m)
    then have "n = m" "s' = s" using assms(2) f by (auto simp: view_open_def)
    moreover have "m < length (msr_slots s)" "own m = dec k (art_payload a)" using o Some g by force+
    ultimately show ?thesis using owned_ticket [OF assms(1)] by blast
  qed
qed

lemma owned_run:
  assumes "views_owned dec own (s, ts)" and "(a, k, n) \<in> set ts"
  shows "views_owned dec own (fst (view_run (dec k) a n s), ts)"
    and "snd (view_run (dec k) a n s) = dec k (art_payload a)"
    and "msr_slots (fst (view_run (dec k) a n s)) ! n = Some (dec k (art_payload a))"
proof -
  have n: "n < length (msr_slots s)" "own n = dec k (art_payload a)"
    using assms by (auto simp: views_owned_def)
  have sl: "msr_slots s ! n = None \<or> msr_slots s ! n = Some (own n)" using assms(1) n(1) by (simp add: views_owned_def)
  show "snd (view_run (dec k) a n s) = dec k (art_payload a)"
    "msr_slots (fst (view_run (dec k) a n s)) ! n = Some (dec k (art_payload a))"
    using sl n by (auto simp: view_run_def Let_def split: option.splits)
  show "views_owned dec own (fst (view_run (dec k) a n s), ts)"
  proof (cases "msr_slots s ! n")
    case None
    then have "fst (view_run (dec k) a n s) = s\<lparr>msr_slots := (msr_slots s)[n := Some (own n)]\<rparr>"
      using n by (simp add: view_run_def Let_def)
    then show ?thesis using assms(1) n(1)
      by (simp add: views_owned_def named_by_id_def nth_list_update)
  next
    case (Some v)
    then show ?thesis using assms(1) by (simp add: view_run_def)
  qed
qed

lemma owned_reachable: "view_reachable dec st \<Longrightarrow> \<exists>own. views_owned dec own st"
proof (induction rule: view_reachable.induct)
  case Init
  show ?case by (simp add: views_owned_def NewMemArtifacts_def named_by_id_def)
next
  case (Step st st')
  then obtain own where o: "views_owned dec own st" by blast
  from Step(2) show ?case
  proof cases
    case (Put s ts a)
    then show ?thesis using o owned_put by blast
  next
    case (Open c t k s s' a n ts)
    then show ?thesis using o owned_open by blast
  next
    case (Run a k n ts s)
    then show ?thesis using o owned_run(1) by blast
  next
    case (Seed i s a ts k)
    show ?thesis
    proof (cases "msr_views s (i, k)")
      case None
      have "map_of (msr_byID s) i = Some a" using Seed by (simp add: mem_Get_def)
      then have "fst (mem_Seed i k (dec k (art_payload a)) s) = s\<lparr>msr_views := (msr_views s)((i, k) \<mapsto> length (msr_slots s)),
          msr_slots := msr_slots s @ [Some (dec k (art_payload a))]\<rparr>"
        using None by (simp add: mem_Seed_def)
      then show ?thesis using owned_new_slot [OF o [unfolded Seed(1)] Seed(3), of "Some (dec k (art_payload a))" k] Seed by auto
    next
      case (Some m)
      then show ?thesis using o Seed by (auto simp: mem_Seed_def)
    qed
  qed
qed

text \<open>C15: a shared view is never stale and never mixed up. In every interleaving of writers, of readers and of
  writers that seed views, a reader that found an artifact and a slot gets the decode under its key of
  that artifact's very payload, even when a Put has replaced the artifact since, or another reader ran
  the slot first; and the slot then holds that value for good, so no reader of it decodes again.\<close>

theorem view_gets_decode:
  assumes "view_reachable dec (s, ts)" and "(a, k, n) \<in> set ts"
  shows "snd (view_run (dec k) a n s) = dec k (art_payload a)
    \<and> msr_slots (fst (view_run (dec k) a n s)) ! n = Some (dec k (art_payload a))"
  using owned_reachable [OF assms(1)] owned_run(2,3) [OF _ assms(2)] by blast

text \<open>One reader opens a view, a writer replaces the artifact, and the reader runs.\<close>

lemma view_gets_decode_witness:
  "let a = sample_artifact ''x'' ''abc'';
       s = mem_Put (sample_artifact ''x'' ''z'') (fst (view_open ''as1'' ''inventory'' ''idx'' (mem_Put a (NewMemArtifacts :: nat mem_store))))
   in snd (view_run length a 0 s) = 3"
proof -
  let ?a = "sample_artifact ''x'' ''abc''"
  let ?dec = "\<lambda>(k :: gostring). length :: gostring \<Rightarrow> nat"
  let ?s1 = "mem_Put ?a (NewMemArtifacts :: nat mem_store)"
  let ?s2 = "fst (view_open ''as1'' ''inventory'' ''idx'' ?s1)"
  let ?s3 = "mem_Put (sample_artifact ''x'' ''z'') ?s2"
  have o: "view_open ''as1'' ''inventory'' ''idx'' ?s1 = (?s2, Some (?a, 0))"
    by (simp add: view_open_def mem_Put_def NewMemArtifacts_def sample_artifact_def)
  have "view_reachable ?dec (?s3, [(?a, ''idx'', 0)])"
    by (rule view_reachable.Step [OF view_reachable.Step [OF view_reachable.Step
          [OF view_reachable.Init view_step.Put] view_step.Open [OF o]] view_step.Put])
  from view_gets_decode [OF this, of ?a "''idx''" 0] show ?thesis
    by (simp add: Let_def) (simp add: sample_artifact_def)
qed

end
