(* ===== verification/Cache_Digest.thy ===== *)
theory Cache_Digest
  imports Assay_Prelude
begin

text \<open>
  The content-addressed cache of dependency artifacts: src/artifactcache (canonical.go, verify.go,
  errors.go, diskstore.go, fake.go). A digest is decoded by a closed gate, the path of an artifact is
  built from the decoded bytes, and a lookup reads that path. encoding/hex, encoding/base64 and
  path.Clean are written out; the hash functions are an argument. The lemmas show that the gate and
  the path agree with the encodings, that no accepted digest leaves the cache root, and that two
  digests share a path only if they pin the same bytes.
\<close>

section \<open>Outcomes\<close>

text \<open>The reasons of errors.go with their context; CacheIO is any other error (disk, context).\<close>

datatype cache_error =
    DeclaredAbsent
  | IntegrityReason gostring gostring gostring gostring
  | PolicyReason gostring gostring gostring
  | UnpinnedReason gostring gostring
  | MalformedReason gostring gostring gostring
  | FetchReason gostring gostring gostring int int
  | CacheIO

definition FetchRateLimited :: gostring where "FetchRateLimited = ''rate-limited''"
definition FetchServerError :: gostring where "FetchServerError = ''server-error''"
definition FetchTimeout :: gostring where "FetchTimeout = ''timeout''"
definition FetchConnectionReset :: gostring where "FetchConnectionReset = ''connection-reset''"
definition FetchDNSFailure :: gostring where "FetchDNSFailure = ''dns-failure''"
definition FetchConnectFailure :: gostring where "FetchConnectFailure = ''connect-failure''"

definition IsPartiality :: "cache_error \<Rightarrow> bool" where
  "IsPartiality e = (case e of MalformedReason p a d \<Rightarrow> False | CacheIO \<Rightarrow> False | _ \<Rightarrow> True)"

text \<open>FetchReason.Unwrap: a fetch error is ErrRegistryUnreachable or ErrRegistryUnavailable.\<close>

definition registry_unreachable :: "cache_error \<Rightarrow> bool" where
  "registry_unreachable e =
    (case e of FetchReason p h c s r \<Rightarrow> c = FetchDNSFailure \<or> c = FetchConnectFailure | _ \<Rightarrow> False)"

definition registry_unavailable :: "cache_error \<Rightarrow> bool" where
  "registry_unavailable e = (case e of FetchReason p h c s r \<Rightarrow> \<not> registry_unreachable e | _ \<Rightarrow> False)"

section \<open>Encodings\<close>

definition hex_digit :: "nat \<Rightarrow> char" where
  "hex_digit n = (if n < 10 then char_of (48 + n) else char_of (87 + n))"

definition hex_encode :: "gostring \<Rightarrow> gostring" where
  "hex_encode s = concat (map (\<lambda>c. [hex_digit (of_char c div 16), hex_digit (of_char c mod 16)]) s)"

definition hex_val :: "char \<Rightarrow> nat option" where
  "hex_val c =
    (if in_range CHR ''0'' CHR ''9'' c then Some (of_char c - 48)
     else if in_range CHR ''a'' CHR ''f'' c then Some (of_char c - 87)
     else if in_range CHR ''A'' CHR ''F'' c then Some (of_char c - 55)
     else None)"

fun hex_decode :: "gostring \<Rightarrow> gostring option" where
  "hex_decode [] = Some []"
| "hex_decode [a] = None"
| "hex_decode (a # b # rest) =
    (case hex_val a of None \<Rightarrow> None | Some x \<Rightarrow>
     case hex_val b of None \<Rightarrow> None | Some y \<Rightarrow>
       map_option (\<lambda>r. char_of (16 * x + y) # r) (hex_decode rest))"

text \<open>base64: the standard alphabet or the URL one. The decoder skips line breaks; padding ends the input.\<close>

definition b64_val :: "bool \<Rightarrow> char \<Rightarrow> nat option" where
  "b64_val url c =
    (if in_range CHR ''A'' CHR ''Z'' c then Some (of_char c - 65)
     else if in_range CHR ''a'' CHR ''z'' c then Some (of_char c - 71)
     else if in_range CHR ''0'' CHR ''9'' c then Some (of_char c + 4)
     else if c = (if url then CHR ''-'' else CHR ''+'') then Some 62
     else if c = (if url then CHR ''_'' else CHR ''/'') then Some 63
     else None)"

fun b64_groups :: "bool \<Rightarrow> gostring \<Rightarrow> gostring option" where
  "b64_groups url [] = Some []"
| "b64_groups url (a # b # c # d # rest) =
    (case b64_val url a of None \<Rightarrow> None | Some w \<Rightarrow>
     case b64_val url b of None \<Rightarrow> None | Some x \<Rightarrow>
       if c = CHR ''='' then
         (if d = CHR ''='' \<and> rest = [] then Some [char_of (4 * w + x div 16)] else None)
       else (case b64_val url c of None \<Rightarrow> None | Some y \<Rightarrow>
         if d = CHR ''='' then
           (if rest = [] then Some [char_of (4 * w + x div 16), char_of (16 * (x mod 16) + y div 4)] else None)
         else (case b64_val url d of None \<Rightarrow> None | Some z \<Rightarrow>
           map_option (\<lambda>r. char_of (4 * w + x div 16) # char_of (16 * (x mod 16) + y div 4) #
             char_of (64 * (y mod 4) + z) # r) (b64_groups url rest))))"
| "b64_groups url other = None"

definition b64_decode :: "bool \<Rightarrow> gostring \<Rightarrow> gostring option" where
  "b64_decode url s = b64_groups url (filter (\<lambda>c. c \<noteq> CHR 0x0A \<and> c \<noteq> CHR 0x0D) s)"

definition EncodedLen :: "nat \<Rightarrow> nat" where
  "EncodedLen n = (n + 2) div 3 * 4"

section \<open>The gate\<close>

definition algoRawLen :: "(gostring \<times> nat) list" where
  "algoRawLen = [(''sha1'', 20), (''sha256'', 32), (''sha512'', 64)]"

text \<open>The payload is read by its length alone; Inl is the detail of the refusal.\<close>

definition decode_payload :: "nat \<Rightarrow> gostring \<Rightarrow> gostring + gostring" where
  "decode_payload rawLen payload =
    (if length payload = rawLen * 2 then
       (case hex_decode payload of None \<Rightarrow> Inl ''payload is not valid hex'' | Some raw \<Rightarrow> Inr raw)
     else if length payload = EncodedLen rawLen then
       (case b64_decode (CHR ''-'' \<in> set payload \<or> CHR ''_'' \<in> set payload) payload of
          None \<Rightarrow> Inl ''payload is not valid base64''
        | Some raw \<Rightarrow> Inr raw)
     else Inl ''payload length matches neither hex nor base64 for this algorithm'')"

definition DecodeDigest :: "gostring \<Rightarrow> cache_error + gostring \<times> gostring" where
  "DecodeDigest digest =
    (case index_byte digest CHR '':'' of
       None \<Rightarrow> Inl (MalformedReason [] []
         (''missing '' @ [CHR 0x27] @ '':'' @ [CHR 0x27] @ '' separator between algorithm and payload''))
     | Some i \<Rightarrow>
         (let algo = take i digest; payload = drop (i + 1) digest
          in case map_of algoRawLen algo of
               None \<Rightarrow> Inl (MalformedReason [] algo ''unknown digest algorithm (not sha1/sha256/sha512)'')
             | Some rawLen \<Rightarrow>
                 (case decode_payload rawLen payload of
                    Inl detail \<Rightarrow> Inl (MalformedReason [] algo detail)
                  | Inr raw \<Rightarrow>
                      if length raw \<noteq> rawLen
                      then Inl (MalformedReason [] algo ''decoded digest has the wrong length for its algorithm'')
                      else Inr (algo, raw))))"

section \<open>Paths\<close>

text \<open>path.Clean on the elements between the slashes.\<close>

fun clean_elems :: "bool \<Rightarrow> gostring list \<Rightarrow> gostring list \<Rightarrow> gostring list" where
  "clean_elems rooted out [] = rev out"
| "clean_elems rooted out (e # es) =
    (if e = [] \<or> e = ''.'' then clean_elems rooted out es
     else if e = ''..'' then
       (case out of
          [] \<Rightarrow> clean_elems rooted (if rooted then [] else [''..'']) es
        | p # ps \<Rightarrow> if p = ''..'' then clean_elems rooted (''..'' # out) es else clean_elems rooted ps es)
     else clean_elems rooted (e # out) es)"

definition path_clean :: "gostring \<Rightarrow> gostring" where
  "path_clean p =
    (let rooted = has_prefix p ''/''; es = clean_elems rooted [] (go_split p ''/'');
         s = (if rooted then ''/'' else []) @ go_join es ''/''
     in if s = [] then ''.'' else s)"

text \<open>filepath.Join: the empty elements in front are dropped, the rest is joined and cleaned.\<close>

definition path_join :: "gostring list \<Rightarrow> gostring" where
  "path_join es =
    (case dropWhile (\<lambda>e. e = []) es of [] \<Rightarrow> [] | rest \<Rightarrow> path_clean (go_join rest ''/''))"

definition CanonicalPathFromBytes :: "gostring \<Rightarrow> gostring \<Rightarrow> gostring \<Rightarrow> gostring" where
  "CanonicalPathFromBytes root algo raw =
    (let seg = hex_encode raw in path_join [root, algo, take 2 seg, seg])"

definition CanonicalPath :: "gostring \<Rightarrow> gostring \<Rightarrow> cache_error + gostring" where
  "CanonicalPath root digest =
    (case DecodeDigest digest of Inl e \<Rightarrow> Inl e | Inr (algo, raw) \<Rightarrow> Inr (CanonicalPathFromBytes root algo raw))"

section \<open>Stores and verification\<close>

record cache_ref =
  crf_purl :: gostring
  crf_digest :: gostring

text \<open>\<open>hsh algo\<close> is the hash function of that name. A handle is read as its bytes.\<close>

definition Verify :: "(gostring \<Rightarrow> gostring \<Rightarrow> gostring) \<Rightarrow> gostring \<Rightarrow> cache_ref \<Rightarrow> cache_error option" where
  "Verify hsh bytes ref =
    (case DecodeDigest (crf_digest ref) of
       Inl e \<Rightarrow> Some e
     | Inr (algo, raw) \<Rightarrow>
         (let got = hsh algo bytes in
          if hex_encode got \<noteq> hex_encode raw
          then Some (IntegrityReason (crf_purl ref) algo (algo @ '':'' @ hex_encode raw) (algo @ '':'' @ hex_encode got))
          else None))"

text \<open>The directory of the cache: the files by path.\<close>

definition disk_Lookup :: "gostring \<Rightarrow> (gostring \<rightharpoonup> gostring) \<Rightarrow> cache_ref \<Rightarrow> cache_error + gostring" where
  "disk_Lookup root files ref =
    (case CanonicalPath root (crf_digest ref) of
       Inl e \<Rightarrow> Inl e
     | Inr path \<Rightarrow> (case files path of None \<Rightarrow> Inl DeclaredAbsent | Some bytes \<Rightarrow> Inr bytes))"

definition declared_absent_Lookup :: "cache_ref \<Rightarrow> cache_error + gostring" where
  "declared_absent_Lookup ref = Inl DeclaredAbsent"

definition fake_Lookup :: "(cache_ref \<rightharpoonup> gostring) \<Rightarrow> cache_ref \<Rightarrow> cache_error + gostring" where
  "fake_Lookup byRef ref = (case byRef ref of None \<Rightarrow> Inl DeclaredAbsent | Some b \<Rightarrow> Inr b)"

record memHandle =
  mhn_data :: gostring
  mhn_closed :: bool

datatype read_error = ReadClosed | ReadNegative | ReadEOF

definition memHandle_ReadAt :: "memHandle \<Rightarrow> nat \<Rightarrow> int \<Rightarrow> gostring \<times> read_error option" where
  "memHandle_ReadAt h len off =
    (if mhn_closed h then ([], Some ReadClosed)
     else if off < 0 then ([], Some ReadNegative)
     else if off \<ge> int (length (mhn_data h)) then ([], Some ReadEOF)
     else (let p = take len (drop (nat off) (mhn_data h))
           in (p, if length p < len then Some ReadEOF else None)))"

definition memHandle_Close :: "memHandle \<Rightarrow> memHandle" where
  "memHandle_Close h = h\<lparr>mhn_closed := True\<rparr>"

section \<open>Encodings go back\<close>

lemma hex_digit_val: "n < 16 \<Longrightarrow> hex_val (hex_digit n) = Some n"
proof -
  assume "n < 16"
  then have "n \<in> set [0..<16]" by simp
  moreover have "list_all (\<lambda>n. hex_val (hex_digit n) = Some n) [0..<16]" by code_simp
  ultimately show ?thesis by (simp add: list_all_iff)
qed

lemma hex_roundtrip: "hex_decode (hex_encode s) = Some s"
proof (induction s)
  case (Cons c s)
  have "of_char c div 16 < (16 :: nat)" "of_char c mod 16 < (16 :: nat)"
    using nat_of_char_less_256 [of c] by (simp_all add: div_less_iff_less_mult)
  then show ?case using Cons hex_digit_val by (simp add: hex_encode_def)
qed (simp add: hex_encode_def)

lemma hex_encode_inj: "hex_encode s = hex_encode t \<longleftrightarrow> s = t"
  by (metis hex_roundtrip option.inject)

lemma hex_encode_length: "length (hex_encode s) = 2 * length s"
  by (induction s) (simp_all add: hex_encode_def)

definition hex_char :: "char \<Rightarrow> bool" where
  "hex_char c = (in_range CHR ''0'' CHR ''9'' c \<or> in_range CHR ''a'' CHR ''f'' c)"

lemma hex_digit_char: "n < 16 \<Longrightarrow> hex_char (hex_digit n)"
proof -
  assume "n < 16"
  then have "n \<in> set [0..<16]" by simp
  moreover have "list_all (\<lambda>n. hex_char (hex_digit n)) [0..<16]" by code_simp
  ultimately show ?thesis by (simp add: list_all_iff)
qed

lemma hex_encode_chars: "list_all hex_char (hex_encode s)"
proof (induction s)
  case (Cons c s)
  have "of_char c div 16 < (16 :: nat)" "of_char c mod 16 < (16 :: nat)"
    using nat_of_char_less_256 [of c] by (simp_all add: div_less_iff_less_mult)
  then show ?case using Cons hex_digit_char by (simp add: hex_encode_def)
qed (simp add: hex_encode_def)

section \<open>base64 goes back\<close>

definition b64_digit :: "bool \<Rightarrow> nat \<Rightarrow> char" where
  "b64_digit url n =
    (if n < 26 then char_of (65 + n) else if n < 52 then char_of (71 + n) else if n < 62 then char_of (n - 4)
     else if n = 62 then (if url then CHR ''-'' else CHR ''+'') else (if url then CHR ''_'' else CHR ''/''))"

fun b64_encode :: "bool \<Rightarrow> gostring \<Rightarrow> gostring" where
  "b64_encode url [] = []"
| "b64_encode url [p] =
    (let a = of_char p :: nat in [b64_digit url (a div 4), b64_digit url (16 * (a mod 4)), CHR ''='', CHR ''=''])"
| "b64_encode url [p, q] =
    (let a = of_char p :: nat; b = of_char q :: nat
     in [b64_digit url (a div 4), b64_digit url (16 * (a mod 4) + b div 16), b64_digit url (4 * (b mod 16)), CHR ''=''])"
| "b64_encode url (p # q # r # rest) =
    (let a = of_char p :: nat; b = of_char q :: nat; c = of_char r :: nat
     in [b64_digit url (a div 4), b64_digit url (16 * (a mod 4) + b div 16),
         b64_digit url (4 * (b mod 16) + c div 64), b64_digit url (c mod 64)] @ b64_encode url rest)"

lemma b64_digit_ok:
  assumes "n < 64"
  shows "b64_val url (b64_digit url n) = Some n" 
proof -
  consider "n < 26" | "26 \<le> n" "n < 52" | "52 \<le> n" "n < 62" | "n = 62" | "n = 63" using assms by linarith
  then show ?thesis
    by cases (auto simp: b64_val_def b64_digit_def in_range_def less_eq_char_def of_char_of char_of_eq_iff take_bit_eq_mod)
qed
lemma b64_digit_plain:
  assumes "n < 64"
  shows "b64_digit url n \<noteq> CHR ''=''" "b64_digit url n \<noteq> CHR 0x0A"
    "b64_digit url n \<noteq> CHR 0x0D" "\<not> url \<Longrightarrow> b64_digit url n \<noteq> CHR ''-'' \<and> b64_digit url n \<noteq> CHR ''_''"
proof -
  consider "n < 26" | "26 \<le> n" "n < 52" | "52 \<le> n" "n < 62" | "n = 62" | "n = 63" using assms by linarith
  then have "b64_digit url n \<noteq> CHR ''='' \<and> b64_digit url n \<noteq> CHR 0x0A \<and> b64_digit url n \<noteq> CHR 0x0D \<and> 
    (\<not> url \<longrightarrow> b64_digit url n \<noteq> CHR ''-'' \<and> b64_digit url n \<noteq> CHR ''_'')"
    by cases (auto simp: b64_digit_def char_of_eq_iff take_bit_eq_mod)
  then show "b64_digit url n \<noteq> CHR ''=''" "b64_digit url n \<noteq> CHR 0x0A"
    "b64_digit url n \<noteq> CHR 0x0D" "\<not> url \<Longrightarrow> b64_digit url n \<noteq> CHR ''-'' \<and> b64_digit url n \<noteq> CHR ''_''" by auto
qed

lemma byte_less: "(of_char p :: nat) < 256"
  by (rule nat_of_char_less_256)

lemma b64_sextets:
  assumes "a < 256" "b < 256" "c < (256 :: nat)"
  shows "a div 4 < 64" "16 * (a mod 4) + b div 16 < 64" "4 * (b mod 16) + c div 64 < 64" "c mod 64 < 64"
    "16 * (a mod 4) < 64" "4 * (b mod 16) < 64"
    "4 * (a div 4) + (16 * (a mod 4) + b div 16) div 16 = a" "4 * (a div 4) + (16 * (a mod 4)) div 16 = a"
    "16 * ((16 * (a mod 4) + b div 16) mod 16) + (4 * (b mod 16) + c div 64) div 4 = b"
    "16 * ((16 * (a mod 4) + b div 16) mod 16) + (4 * (b mod 16)) div 4 = b"
    "64 * ((4 * (b mod 16) + c div 64) mod 4) + c mod 64 = c"
proof -
  have m: "a mod 4 < 4" "b mod 16 < 16" by simp_all
  have d: "b div 16 < 16" "c div 64 < 4" using assms by (auto intro: div_less_iff_less_mult [THEN iffD2])
  have p: "(16 * (a mod 4) + b div 16) div 16 = a mod 4" "(16 * (a mod 4) + b div 16) mod 16 = b div 16"
    "(4 * (b mod 16) + c div 64) div 4 = b mod 16" "(4 * (b mod 16) + c div 64) mod 4 = c div 64"
    "(16 * (a mod 4)) div 16 = a mod 4" "(4 * (b mod 16)) div 4 = b mod 16"
    using d by simp_all
  show "a div 4 < 64" "c mod 64 < 64" using assms by auto
  show "16 * (a mod 4) + b div 16 < 64" "4 * (b mod 16) + c div 64 < 64" "16 * (a mod 4) < 64" "4 * (b mod 16) < 64"
    using m d by linarith+
  show "4 * (a div 4) + (16 * (a mod 4) + b div 16) div 16 = a" "4 * (a div 4) + (16 * (a mod 4)) div 16 = a"
    "16 * ((16 * (a mod 4) + b div 16) mod 16) + (4 * (b mod 16) + c div 64) div 4 = b"
    "16 * ((16 * (a mod 4) + b div 16) mod 16) + (4 * (b mod 16)) div 4 = b"
    "64 * ((4 * (b mod 16) + c div 64) mod 4) + c mod 64 = c"
    unfolding p by simp_all
qed

lemma b64_groups_step:
  assumes "w < 64" "x < 64" "y < 64" "z < 64"
  shows "b64_groups url (b64_digit url w # b64_digit url x # b64_digit url y # b64_digit url z # rest) =
      map_option (\<lambda>r. char_of (4 * w + x div 16) # char_of (16 * (x mod 16) + y div 4) # char_of (64 * (y mod 4) + z) # r)
        (b64_groups url rest)"
    "b64_groups url [b64_digit url w, b64_digit url x, b64_digit url y, CHR ''=''] =
      Some [char_of (4 * w + x div 16), char_of (16 * (x mod 16) + y div 4)]"
    "b64_groups url [b64_digit url w, b64_digit url x, CHR ''='', CHR ''=''] = Some [char_of (4 * w + x div 16)]"
  using assms b64_digit_ok [of _ url] b64_digit_plain(1) [of _ url] by simp_all

lemma b64_groups_encode: "b64_groups url (b64_encode url s) = Some s"
proof (induction url s rule: b64_encode.induct)
  case (2 url p)
  note b = b64_sextets [of "of_char p" "of_char p" "of_char p", OF byte_less byte_less byte_less]
  show ?case unfolding b64_encode.simps Let_def b64_groups_step(3) [OF b(1,5,4,4)] b(8) by simp
next
  case (3 url p q)
  note b = b64_sextets [of "of_char p" "of_char q" "of_char q", OF byte_less byte_less byte_less]
  show ?case unfolding b64_encode.simps Let_def b64_groups_step(2) [OF b(1,2,6,4)] b(7,10) by simp
next
  case (4 url p q r rest)
  note b = b64_sextets [of "of_char p" "of_char q" "of_char r", OF byte_less byte_less byte_less]
  have "b64_groups url (b64_encode url rest) = Some rest" using 4 by simp
  then show ?case
    unfolding b64_encode.simps Let_def append.simps b64_groups_step(1) [OF b(1-4)] b(7,9,11) by simp
qed simp

definition b64_safe :: "bool \<Rightarrow> char \<Rightarrow> bool" where
  "b64_safe url c = (c \<noteq> CHR 0x0A \<and> c \<noteq> CHR 0x0D \<and> (url \<or> c \<noteq> CHR ''-'' \<and> c \<noteq> CHR ''_''))"

lemma b64_digit_safe: "n < 64 \<Longrightarrow> b64_safe url (b64_digit url n)"
  using b64_digit_plain(2,3,4) [of n url] by (auto simp: b64_safe_def)

lemma b64_pad_safe: "b64_safe url CHR ''=''"
  by (simp add: b64_safe_def)

lemma b64_encode_clean: "list_all (b64_safe url) (b64_encode url s)"
proof (induction url s rule: b64_encode.induct)
  case (2 url p)
  note b = b64_sextets [of "of_char p" "of_char p" "of_char p", OF byte_less byte_less byte_less]
  show ?case unfolding b64_encode.simps Let_def using b64_digit_safe [OF b(1)] b64_digit_safe [OF b(5)]
    by (simp add: b64_pad_safe)
next
  case (3 url p q)
  note b = b64_sextets [of "of_char p" "of_char q" "of_char q", OF byte_less byte_less byte_less]
  show ?case unfolding b64_encode.simps Let_def
    using b64_digit_safe [OF b(1)] b64_digit_safe [OF b(2)] b64_digit_safe [OF b(6)] by (simp add: b64_pad_safe)
next
  case (4 url p q r rest)
  note b = b64_sextets [of "of_char p" "of_char q" "of_char r", OF byte_less byte_less byte_less]
  have "list_all (b64_safe url) (b64_encode url rest)" using 4 by simp
  then show ?case unfolding b64_encode.simps Let_def
    using b64_digit_safe [OF b(1)] b64_digit_safe [OF b(2)] b64_digit_safe [OF b(3)] b64_digit_safe [OF b(4)] by simp
qed simp

lemma b64_roundtrip: "b64_decode url (b64_encode url s) = Some s"
proof -
  have "filter (\<lambda>c. c \<noteq> CHR 0x0A \<and> c \<noteq> CHR 0x0D) (b64_encode url s) = b64_encode url s"
    using b64_encode_clean [of url s] by (simp add: list_all_iff b64_safe_def)
  then show ?thesis by (simp add: b64_decode_def b64_groups_encode)
qed

lemma b64_encode_length: "length (b64_encode url s) = EncodedLen (length s)"
proof (induction url s rule: b64_encode.induct)
  case (4 url p q r rest)
  have "(length rest + 2 + 1 * 3) div 3 = 1 + (length rest + 2) div 3" by (subst div_mult_self1) simp_all
  then show ?case using 4 by (simp add: EncodedLen_def Let_def)
qed (simp_all add: EncodedLen_def Let_def)

section \<open>The gate accepts what it should\<close>

lemma algo_cases: "map_of algoRawLen algo = Some n \<longleftrightarrow>
    (algo = ''sha1'' \<and> n = 20) \<or> (algo = ''sha256'' \<and> n = 32) \<or> (algo = ''sha512'' \<and> n = 64)"
  by (auto simp: algoRawLen_def)

lemma algo_plain: "map_of algoRawLen algo = Some n \<Longrightarrow>
    CHR '':'' \<notin> set algo \<and> CHR ''/'' \<notin> set algo \<and> algo \<noteq> [] \<and> algo \<noteq> ''.'' \<and> algo \<noteq> ''..'' \<and> n > 1"
  by (auto simp: algo_cases)

lemma index_byte_app: "c \<notin> set s \<Longrightarrow> index_byte (s @ c # t) c = Some (length s)"
  by (induction s) auto

lemma DecodeDigest_wire:
  assumes "map_of algoRawLen algo = Some n"
  shows "DecodeDigest (algo @ '':'' @ payload) =
    (case decode_payload n payload of
       Inl detail \<Rightarrow> Inl (MalformedReason [] algo detail)
     | Inr raw \<Rightarrow> if length raw \<noteq> n
         then Inl (MalformedReason [] algo ''decoded digest has the wrong length for its algorithm'') else Inr (algo, raw))"
  using assms algo_plain [OF assms] index_byte_app [of "CHR '':''" algo payload] by (simp add: DecodeDigest_def Let_def)

lemma DecodeDigest_Inr:
  "DecodeDigest d = Inr (algo, raw) \<Longrightarrow> map_of algoRawLen algo = Some (length raw)"
  by (auto simp: DecodeDigest_def Let_def split: option.splits sum.splits if_splits)



section \<open>Paths stay under the root\<close>

definition plain_elem :: "gostring \<Rightarrow> bool" where
  "plain_elem e = (e \<noteq> [] \<and> e \<noteq> ''.'' \<and> e \<noteq> ''..'' \<and> CHR ''/'' \<notin> set e)"

lemma clean_elems_snoc: "plain_elem x \<Longrightarrow> clean_elems r out (es @ [x]) = clean_elems r out es @ [x]"
  by (induction r out es rule: clean_elems.induct) (auto simp: plain_elem_def split: list.splits)

lemma clean_elems_plain: "list_all plain_elem xs \<Longrightarrow> clean_elems r out (es @ xs) = clean_elems r out es @ xs"
proof (induction xs arbitrary: es)
  case (Cons x xs)
  then have "clean_elems r out ((es @ [x]) @ xs) = clean_elems r out (es @ [x]) @ xs" by (intro Cons.IH) simp
  then show ?case using Cons.prems clean_elems_snoc by simp
qed simp

lemma go_split_Cons:
  "go_split (x # xs) [c] = (if x = c then [] # go_split xs [c]
     else (x # hd (go_split xs [c])) # tl (go_split xs [c]))"
proof -
  have e: "go_split (x # xs) [c] = (case go_cut (x # xs) [c] of None \<Rightarrow> [x # xs] | Some (a, b) \<Rightarrow> a # go_split b [c])"
    by (subst go_split.simps) simp
  have e': "go_split xs [c] = (case go_cut xs [c] of None \<Rightarrow> [xs] | Some (a, b) \<Rightarrow> a # go_split b [c])"
    by (subst go_split.simps) simp
  show ?thesis
  proof (cases "x = c")
    case True
    then show ?thesis unfolding e by (simp add: has_prefix_def)
  next
    case False
    then show ?thesis unfolding e e' by (auto simp: has_prefix_def split: option.splits)
  qed
qed

lemma go_split_Nil: "go_split [] [c] = [[]]"
  by (rule go_split_byte_none) simp

lemma go_split_app: "go_split (s @ c # t) [c] = go_split s [c] @ go_split t [c]"
proof (induction s)
  case (Cons x s)
  then show ?case using go_split_ne [of "[c]" s] by (simp add: go_split_Cons)
qed (simp add: go_split_Cons go_split_Nil)

lemma go_split_plain: "plain_elem e \<Longrightarrow> go_split e ''/'' = [e]"
  by (simp add: go_split_byte_none plain_elem_def)

lemma go_join_app: "xs \<noteq> [] \<Longrightarrow> ys \<noteq> [] \<Longrightarrow> go_join (xs @ ys) sep = go_join xs sep @ sep @ go_join ys sep"
proof (induction xs sep rule: go_join.induct)
  case (2 s sep)
  then show ?case by (cases ys) simp_all
qed simp_all

text \<open>The cleaned elements of the root, and the root as it stands in front of a path.\<close>

definition root_elems :: "gostring \<Rightarrow> gostring list" where
  "root_elems root = (if root = [] then [] else clean_elems (has_prefix root ''/'') [] (go_split root ''/''))"

definition under_root :: "gostring \<Rightarrow> gostring list \<Rightarrow> gostring" where
  "under_root root es = (if has_prefix root ''/'' then ''/'' else []) @ go_join (root_elems root @ es) ''/''"

lemma path_join_under:
  assumes "plain_elem a" and "plain_elem b" and "plain_elem c"
  shows "path_join [root, a, b, c] = under_root root [a, b, c]"
proof -
  let ?t = "a @ ''/'' @ b @ ''/'' @ c"
  have t: "go_split ?t ''/'' = [a, b, c]"
    using assms go_split_app [of a "CHR ''/''" "b @ ''/'' @ c"] go_split_app [of b "CHR ''/''" c] go_split_plain by simp
  have p: "list_all plain_elem [a, b, c]" "a \<noteq> []" using assms by (simp_all add: plain_elem_def)
  have ne: "go_join (xs @ [a, b, c]) ''/'' \<noteq> []" for xs
    using p(2) go_join_app [of xs "[a, b, c]" "''/''"] by (cases "xs = []") auto
  show ?thesis
  proof (cases "root = []")
    case True
    have h: "\<not> has_prefix ?t ''/''" using assms(1) by (cases a) (auto simp: has_prefix_def plain_elem_def)
    have "clean_elems False [] [a, b, c] = [a, b, c]" using clean_elems_plain [OF p(1), of False "[]" "[]"] by simp
    then have "path_clean ?t = go_join [a, b, c] ''/''"
      unfolding path_clean_def Let_def using h t ne [of "[]"] by simp
    then show ?thesis using True p(2) by (simp add: path_join_def under_root_def root_elems_def has_prefix_def)
  next
    case False
    have h: "has_prefix (root @ ''/'' @ ?t) ''/'' = has_prefix root ''/''" using False by (cases root) (simp_all add: has_prefix_def)
    have "go_split (root @ ''/'' @ ?t) ''/'' = go_split root ''/'' @ [a, b, c]"
      using go_split_app [of root "CHR ''/''" ?t] t by simp
    then have "path_clean (root @ ''/'' @ ?t) = under_root root [a, b, c]"
      unfolding path_clean_def Let_def under_root_def root_elems_def using h clean_elems_plain [OF p(1)] ne False by simp
    then show ?thesis using False by (simp add: path_join_def)
  qed
qed

lemma hex_seg_plain:
  assumes "length raw > 1"
  shows "plain_elem (hex_encode raw)" "plain_elem (take 2 (hex_encode raw))"
proof -
  have h: "\<forall>c \<in> set (hex_encode raw). hex_char c" using hex_encode_chars by (simp add: list_all_iff)
  have d: "\<not> hex_char CHR ''.''" "\<not> hex_char CHR ''/''" by code_simp+
  obtain a b t where e: "hex_encode raw = a # b # t"
    using assms hex_encode_length [of raw] by (cases "hex_encode raw"; cases "tl (hex_encode raw)") auto
  have "a \<noteq> CHR ''.''" using h d e by auto
  then show "plain_elem (hex_encode raw)" "plain_elem (take 2 (hex_encode raw))"
    using h d e by (auto simp: plain_elem_def dest: in_set_takeD)
qed

lemma canonical_under:
  assumes "map_of algoRawLen algo = Some (length raw)"
  shows "CanonicalPathFromBytes root algo raw = under_root root [algo, take 2 (hex_encode raw), hex_encode raw]"
  using algo_plain [OF assms] hex_seg_plain [of raw]
  by (simp add: CanonicalPathFromBytes_def Let_def path_join_under plain_elem_def)

lemma under_inj:
  assumes "plain_elem a" and "plain_elem b" and "plain_elem c" and "plain_elem a'" and "plain_elem b'" and "plain_elem c'"
    and "under_root root [a, b, c] = under_root root [a', b', c']"
  shows "a = a' \<and> b = b' \<and> c = c'"
proof -
  have "go_join [a, b, c] ''/'' = go_join [a', b', c'] ''/''"
    using assms(7) go_join_app [of "root_elems root" "[a, b, c]" "''/''"] go_join_app [of "root_elems root" "[a', b', c']" "''/''"]
    by (cases "root_elems root = []") (auto simp: under_root_def simp del: go_join.simps)
  then have "go_split (a @ CHR ''/'' # b @ CHR ''/'' # c) ''/'' = go_split (a' @ CHR ''/'' # b' @ CHR ''/'' # c') ''/''" by simp
  then show ?thesis using assms(1-6) by (simp add: go_split_app go_split_plain)
qed

lemma canonical_inj:
  assumes "map_of algoRawLen algo = Some (length raw)" and "map_of algoRawLen algo' = Some (length raw')"
  shows "CanonicalPathFromBytes root algo raw = CanonicalPathFromBytes root algo' raw' \<longleftrightarrow> algo = algo' \<and> raw = raw'"
proof -
  have pl: "plain_elem algo" "plain_elem algo'" "length raw > 1" "length raw' > 1"
    using algo_plain [OF assms(1)] algo_plain [OF assms(2)] by (auto simp: plain_elem_def)
  note s = hex_seg_plain [OF pl(3)] hex_seg_plain [OF pl(4)]
  show ?thesis
    unfolding canonical_under [OF assms(1)] canonical_under [OF assms(2)]
    using under_inj [OF pl(1) s(2,1) pl(2) s(4,3)] hex_encode_inj by auto
qed

text \<open>C29: no accepted digest leaves the cache, and a path pins its bytes. The path of a digest the gate accepts is
  the cleaned root, the algorithm's name, a shard of two hex digits and the hex digits of the raw
  digest, all lower case; and two accepted digests have the same path only if they name the same
  algorithm and the same raw digest.\<close>

theorem digest_path_pins:
  assumes "CanonicalPath root d = Inr p" and "CanonicalPath root d' = Inr p'"
  shows "\<exists>algo raw algo' raw'. DecodeDigest d = Inr (algo, raw) \<and> DecodeDigest d' = Inr (algo', raw')
    \<and> p = under_root root [algo, take 2 (hex_encode raw), hex_encode raw]
    \<and> list_all plain_elem [algo, take 2 (hex_encode raw), hex_encode raw] \<and> list_all hex_char (hex_encode raw)
    \<and> (p = p' \<longleftrightarrow> algo = algo' \<and> raw = raw')"
proof -
  obtain algo raw algo' raw' where d: "DecodeDigest d = Inr (algo, raw)" "DecodeDigest d' = Inr (algo', raw')"
    and p: "p = CanonicalPathFromBytes root algo raw" "p' = CanonicalPathFromBytes root algo' raw'"
    using assms by (auto simp: CanonicalPath_def split: sum.splits)
  note a = DecodeDigest_Inr [OF d(1)] DecodeDigest_Inr [OF d(2)]
  have pl: "plain_elem algo" "length raw > 1" using algo_plain [OF a(1)] by (auto simp: plain_elem_def)
  have "p = p' \<longleftrightarrow> algo = algo' \<and> raw = raw'" unfolding p by (rule canonical_inj [OF a])
  moreover have "p = under_root root [algo, take 2 (hex_encode raw), hex_encode raw]"
    unfolding p by (rule canonical_under [OF a(1)])
  moreover have "list_all plain_elem [algo, take 2 (hex_encode raw), hex_encode raw]" using pl(1) hex_seg_plain [OF pl(2)] by simp
  ultimately show ?thesis using d hex_encode_chars by blast
qed

theorem digest_path_pins_witness:
  "let raw = replicate 20 CHR 0xAB; h = hex_encode raw in
   CanonicalPath ''/c/../cache'' (''sha1'' @ '':'' @ h) = Inr (''/cache/sha1/'' @ take 2 h @ ''/'' @ h)"
proof -
  let ?raw = "replicate 20 CHR 0xAB" and ?root = "''/c/../cache''"
  let ?h = "hex_encode ?raw"
  have m: "map_of algoRawLen ''sha1'' = Some (length ?raw)" by (simp add: algoRawLen_def)
  have "decode_payload (length ?raw) ?h = Inr ?raw"
    by (simp add: decode_payload_def hex_encode_length hex_roundtrip del: length_replicate)
  then have d: "DecodeDigest (''sha1'' @ '':'' @ ?h) = Inr (''sha1'', ?raw)" using DecodeDigest_wire [OF m] by simp
  then obtain p where p: "CanonicalPath ?root (''sha1'' @ '':'' @ ?h) = Inr p" by (simp add: CanonicalPath_def)
  have r: "root_elems ?root = [''cache'']" "has_prefix ?root ''/''" by code_simp+
  from digest_path_pins [OF p p] d have "p = under_root ?root [''sha1'', take 2 ?h, ?h]" by simp
  then show ?thesis unfolding Let_def p under_root_def r(1) by (simp add: r(2))
qed

end
