(* ===== verification/Cache_Acquire.thy ===== *)
theory Cache_Acquire
  imports Cache_Digest
begin

text \<open>
  The write side of the artifact cache: src/artifactcache/acquire (backend.go, credentials.go,
  acquirer.go). A URL is the record of its parts; url.Parse, the parse of an HTTP date, the hash
  functions and the disk's failures are arguments. The registry is any function of the requests sent so
  far. The lemmas show that only verified bytes are ever published, that a credential is sent to no
  host but its own, over HTTPS, and that redirects, attempts and waits are bounded.
\<close>

section \<open>URLs, hosts, credentials\<close>

record go_url =
  gul_scheme :: gostring
  gul_user :: bool
  gul_hostname :: gostring
  gul_port :: gostring
  gul_host :: gostring
  gul_path :: gostring
  gul_rawQuery :: gostring
  gul_fragment :: gostring

definition canonicalizeHostString :: "gostring \<Rightarrow> gostring" where
  "canonicalizeHostString h = to_lower (trim_suffix h ''.'')"

definition canonicalHost :: "go_url \<Rightarrow> gostring option" where
  "canonicalHost u =
    (if gul_user u then None
     else (let h = canonicalizeHostString (gul_hostname u) in if h = [] then None else Some h))"

type_synonym allowlist = "gostring list"

definition NewAllowlist :: "gostring list \<Rightarrow> allowlist" where
  "NewAllowlist hosts = map canonicalizeHostString hosts"

definition allowlist_Allows :: "allowlist \<Rightarrow> gostring \<Rightarrow> bool" where
  "allowlist_Allows a h = (canonicalizeHostString h \<in> set a)"

text \<open>A credential is its token; the empty token is the empty credential. The entries of NewRegistryCredentials
  come in iteration order.\<close>

type_synonym registry_creds = "gostring \<rightharpoonup> gostring"

definition NewRegistryCredentials :: "(gostring \<times> gostring) list \<Rightarrow> registry_creds" where
  "NewRegistryCredentials byHost = map_of (rev (map (\<lambda>(h, c). (canonicalizeHostString h, c)) byHost))"

definition creds_For :: "registry_creds \<Rightarrow> gostring \<Rightarrow> gostring" where
  "creds_For rc host = (case rc (canonicalizeHostString host) of None \<Rightarrow> [] | Some t \<Rightarrow> t)"

record http_request =
  hrq_url :: go_url
  hrq_auth :: gostring

definition ApplyTo :: "gostring \<Rightarrow> http_request \<Rightarrow> http_request" where
  "ApplyTo token r = (if token = [] then r else r\<lparr>hrq_auth := ''Bearer '' @ token\<rparr>)"

section \<open>Backends\<close>

record RegistryConfig =
  rgc_baseURL :: gostring
  rgc_requireAuth :: bool
  rgc_authConfigured :: bool

definition zero_registry :: RegistryConfig where
  "zero_registry = \<lparr>rgc_baseURL = [], rgc_requireAuth = False, rgc_authConfigured = False\<rparr>"

datatype registry_backend = NPMBackend | NuGetBackend | PyPIBackend | MavenBackend

definition ecosystemOf :: "gostring \<Rightarrow> gostring option" where
  "ecosystemOf purl =
    (if \<not> has_prefix purl ''pkg:'' then None
     else (case go_cut (trim_prefix purl ''pkg:'') ''/'' of
             None \<Rightarrow> None
           | Some (eco, rest) \<Rightarrow> if eco = [] then None else Some (to_lower eco)))"

fun path_unescape :: "gostring \<Rightarrow> gostring option" where
  "path_unescape [] = Some []"
| "path_unescape (c # s) =
    (if c \<noteq> CHR ''%'' then map_option (\<lambda>r. c # r) (path_unescape s)
     else (case s of
             a # b # t \<Rightarrow>
               (case hex_val a of None \<Rightarrow> None | Some x \<Rightarrow>
                case hex_val b of None \<Rightarrow> None | Some y \<Rightarrow> map_option (\<lambda>r. char_of (16 * x + y) # r) (path_unescape t))
           | _ \<Rightarrow> None))"

definition purl_coordinate :: "gostring \<Rightarrow> (gostring \<times> gostring) option" where
  "purl_coordinate purl =
    (if \<not> has_prefix purl ''pkg:'' then None
     else (case go_cut (trim_prefix purl ''pkg:'') ''/'' of
             None \<Rightarrow> None
           | Some (eco, body) \<Rightarrow>
               (if body = [] then None
                else (case last_index_byte body CHR ''@'' of
                        None \<Rightarrow> None
                      | Some at \<Rightarrow>
                          if at = 0 \<or> at = length body - 1 then None
                          else (case path_unescape (take at body) of None \<Rightarrow> None | Some name \<Rightarrow>
                                case path_unescape (drop (at + 1) body) of None \<Rightarrow> None | Some version \<Rightarrow>
                                  Some (name, version))))))"

definition trim_slashes :: "gostring \<Rightarrow> gostring" where
  "trim_slashes s = rev (dropWhile (\<lambda>c. c = CHR ''/'') (rev s))"

definition ResolveURL :: "registry_backend \<Rightarrow> gostring \<Rightarrow> RegistryConfig \<Rightarrow> cache_error + gostring" where
  "ResolveURL b purl reg =
    (case b of
       NPMBackend \<Rightarrow>
         (case purl_coordinate purl of
            None \<Rightarrow> Inl (UnpinnedReason purl ''npm-coordinate-unparseable'')
          | Some (name, version) \<Rightarrow>
              (let unscoped = (case last_index_byte name CHR ''/'' of None \<Rightarrow> name | Some i \<Rightarrow> drop (i + 1) name)
               in Inr (trim_slashes (rgc_baseURL reg) @ ''/'' @ name @ ''/-/'' @ unscoped @ ''-'' @ version @ ''.tgz'')))
     | NuGetBackend \<Rightarrow>
         (case purl_coordinate purl of
            None \<Rightarrow> Inl (UnpinnedReason purl ''nuget-coordinate-unparseable'')
          | Some (name, version) \<Rightarrow>
              (let i = to_lower name; v = to_lower version
               in Inr (trim_slashes (rgc_baseURL reg) @ ''/'' @ i @ ''/'' @ v @ ''/'' @ i @ ''.'' @ v @ ''.nupkg'')))
     | PyPIBackend \<Rightarrow> Inl (UnpinnedReason purl ''python-wheel-selection-gap'')
     | MavenBackend \<Rightarrow> Inl (UnpinnedReason purl ''maven-inventory-deferred''))"

record acquire_policy =
  apl_allow :: allowlist
  apl_registries :: "gostring \<rightharpoonup> RegistryConfig"
  apl_backends :: "gostring \<rightharpoonup> registry_backend"
  apl_creds :: registry_creds

definition backendFor :: "acquire_policy \<Rightarrow> gostring \<Rightarrow> cache_error + registry_backend \<times> RegistryConfig" where
  "backendFor p purl =
    (case ecosystemOf purl of
       None \<Rightarrow> Inl (UnpinnedReason purl ''purl-has-no-ecosystem'')
     | Some eco \<Rightarrow>
         (case apl_backends p eco of
            None \<Rightarrow> Inl (PolicyReason purl [] ''no-backend-for-ecosystem'')
          | Some b \<Rightarrow> Inr (b, case apl_registries p eco of None \<Rightarrow> zero_registry | Some r \<Rightarrow> r)))"

definition policy_Credentialed :: "acquire_policy \<Rightarrow> gostring \<Rightarrow> cache_error + bool" where
  "policy_Credentialed p purl =
    (case backendFor p purl of Inl e \<Rightarrow> Inl e | Inr (b, reg) \<Rightarrow> Inr (rgc_authConfigured reg))"

section \<open>Targets and redirects\<close>

definition checkTarget ::
  "(gostring \<Rightarrow> go_url option) \<Rightarrow> gostring \<Rightarrow> gostring \<Rightarrow> RegistryConfig \<Rightarrow> allowlist \<Rightarrow> registry_creds \<Rightarrow>
   cache_error + go_url \<times> gostring" where
  "checkTarget parse purl fetchURL reg allow creds =
    (case parse fetchURL of
       None \<Rightarrow> Inl (PolicyReason purl [] ''userinfo-in-url'')
     | Some u \<Rightarrow>
         if gul_scheme u \<noteq> ''https'' then Inl (PolicyReason purl (gul_hostname u) ''non-https'')
         else (case canonicalHost u of
                 None \<Rightarrow> Inl (PolicyReason purl (gul_host u) ''userinfo-in-url'')
               | Some host \<Rightarrow>
                   if \<not> allowlist_Allows allow host then Inl (PolicyReason purl host ''off-allowlist'')
                   else if rgc_requireAuth reg \<and> creds_For creds host = []
                     then Inl (PolicyReason purl host ''missing-credential'')
                   else Inr (u, host)))"

definition maxRedirectHops :: nat where "maxRedirectHops = 10"

text \<open>The hook before a redirected request is sent: \<open>via\<close> is the number of requests made.\<close>

definition redirectPolicy ::
  "gostring \<Rightarrow> allowlist \<Rightarrow> registry_creds \<Rightarrow> http_request \<Rightarrow> nat \<Rightarrow> cache_error + http_request" where
  "redirectPolicy purl allow creds req via =
    (let u = hrq_url req in
     if via \<ge> maxRedirectHops then Inl (PolicyReason purl (gul_hostname u) ''redirect-hop-cap-exceeded'')
     else if gul_scheme u \<noteq> ''https'' then Inl (PolicyReason purl (gul_hostname u) ''https-downgrade-on-redirect'')
     else (case canonicalHost u of
             None \<Rightarrow> Inl (PolicyReason purl (gul_host u) ''userinfo-in-url'')
           | Some host \<Rightarrow>
               if \<not> allowlist_Allows allow host then Inl (PolicyReason purl host ''redirect-off-allowlist'')
               else Inr (ApplyTo (creds_For creds host) (req\<lparr>hrq_auth := []\<rparr>))))"

text \<open>What the network answers to a request: a failure of the transport, a redirect, or a response with its status,
  its Retry-After header, the body read, and the error the body ends with, if any.\<close>

datatype transport_error = TransportDNS | TransportDial | TransportTimeout | TransportReset | TransportOther

datatype http_answer =
    TransportFails transport_error
  | RedirectTo go_url
  | Response int gostring gostring "transport_error option"

datatype client_result =
    ClientRefused cache_error
  | ClientFails transport_error
  | ClientResponse http_request int gostring gostring "transport_error option"

text \<open>http.Client.Do with that hook. A redirected request starts with the headers of the one before.\<close>

function client_Do ::
  "(http_request list \<Rightarrow> http_answer) \<Rightarrow> gostring \<Rightarrow> allowlist \<Rightarrow> registry_creds \<Rightarrow> http_request list \<Rightarrow> http_request \<Rightarrow>
   nat \<Rightarrow> http_request list \<times> client_result" where
  "client_Do srv purl allow creds sent req via =
    (let sent' = sent @ [req] in
     case srv sent' of
       TransportFails k \<Rightarrow> (sent', ClientFails k)
     | Response st ra body berr \<Rightarrow> (sent', ClientResponse req st ra body berr)
     | RedirectTo u \<Rightarrow>
         (case redirectPolicy purl allow creds (req\<lparr>hrq_url := u\<rparr>) (via + 1) of
            Inl e \<Rightarrow> (sent', ClientRefused e)
          | Inr req' \<Rightarrow> client_Do srv purl allow creds sent' req' (via + 1)))"
  by pat_completeness auto
termination
  by (relation "measure (\<lambda>(srv, purl, allow, creds, sent, req, via). maxRedirectHops - via)")
    (auto simp: redirectPolicy_def Let_def split: if_splits)

declare client_Do.simps [simp del]

section \<open>Retries\<close>

text \<open>Times are in nanoseconds.\<close>

definition second :: int where "second = 1000000000"
definition maxFetchAttempts :: nat where "maxFetchAttempts = 3"
definition retryBackoff :: int where "retryBackoff = second"
definition maxRetryWait :: int where "maxRetryWait = 30 * second"

definition unavailableStatus :: "int \<Rightarrow> gostring" where
  "unavailableStatus status =
    (if status = 429 then FetchRateLimited
     else if status = 408 then FetchTimeout
     else if 500 \<le> status \<and> status \<le> 599 then FetchServerError
     else [])"

definition retryAfter :: "(gostring \<Rightarrow> int option) \<Rightarrow> gostring \<Rightarrow> int \<Rightarrow> int" where
  "retryAfter http_time v now =
    (if v = [] then 0
     else (case atoi v of
             Some secs \<Rightarrow> if secs \<le> 0 then 0 else min secs (maxRetryWait div second + 1) * second
           | None \<Rightarrow>
               (case http_time v of
                  None \<Rightarrow> 0
                | Some t \<Rightarrow> if t > now then t - now else 0)))"

definition transportFailure :: "bool \<Rightarrow> gostring \<Rightarrow> gostring \<Rightarrow> transport_error \<Rightarrow> cache_error" where
  "transportFailure ended purl host k =
    (if ended then CacheIO
     else (case k of
             TransportDNS \<Rightarrow> FetchReason purl host FetchDNSFailure 0 0
           | TransportDial \<Rightarrow> FetchReason purl host FetchConnectFailure 0 0
           | TransportTimeout \<Rightarrow> FetchReason purl host FetchTimeout 0 0
           | TransportReset \<Rightarrow> FetchReason purl host FetchConnectionReset 0 0
           | TransportOther \<Rightarrow> CacheIO))"

text \<open>\<open>ended\<close>: the context has ended; \<open>deadline\<close>: its deadline.\<close>

definition retryWait :: "bool \<Rightarrow> int \<Rightarrow> int option \<Rightarrow> cache_error \<Rightarrow> nat \<Rightarrow> int option" where
  "retryWait ended now deadline e attempt =
    (if attempt \<ge> maxFetchAttempts \<or> ended \<or> \<not> registry_unavailable e then None
     else
       (let ra = (case e of FetchReason p h c s r \<Rightarrow> r | _ \<Rightarrow> 0);
            wait = (if ra > 0 then ra else retryBackoff * 2 ^ (attempt - 1))
        in if wait > maxRetryWait then None
           else (case deadline of
                   None \<Rightarrow> Some wait
                 | Some dl \<Rightarrow> if \<not> now + wait < dl then None else Some wait)))"

section \<open>Fetching and publishing\<close>

text \<open>A provenance record; the source is the scheme, host and path of the last request. Fetched is not persisted.\<close>

record AcquisitionRecord =
  aqr_purl :: gostring
  aqr_target :: gostring
  aqr_source :: "gostring \<times> gostring \<times> gostring"
  aqr_digest :: gostring
  aqr_canonical :: gostring
  aqr_acquiredAt :: int
  aqr_fetched :: bool

definition zero_record :: AcquisitionRecord where
  "zero_record = \<lparr>aqr_purl = [], aqr_target = [], aqr_source = ([], [], []), aqr_digest = [], aqr_canonical = [],
     aqr_acquiredAt = 0, aqr_fetched = False\<rparr>"

text \<open>The cache directory: the artifacts and the sidecars by the artifact's path; the counters; and, to state what
  was sent and waited for, the requests and the waits with the time each began.\<close>

record acquirer =
  acr_files :: "gostring \<rightharpoonup> gostring"
  acr_records :: "gostring \<rightharpoonup> AcquisitionRecord"
  acr_hits :: int
  acr_misses :: int
  acr_sent :: "http_request list"
  acr_slept :: "(int \<times> int) list"

text \<open>A failure of the disk: before the body is read (MkdirAll, CreateTemp), while it is written (Write, Close), or
  after the hash was compared (Chmod, Rename). The sidecar is written, kept as it was, or left torn.\<close>

datatype disk_fault = DiskEarly | DiskWrite | DiskLate
datatype sidecar_write = SidecarWritten | SidecarKept | SidecarTorn

text \<open>What one attempt meets: whether the context had ended when the answer came and when the attempt was
  over, the clock at both, whether the sleep after it ran to its end, and the disk.\<close>

record attempt_env =
  aev_cut :: bool
  aev_ended :: bool
  aev_answered :: int
  aev_now :: int
  aev_slept :: bool
  aev_disk :: "disk_fault option"
  aev_sidecar :: sidecar_write

text \<open>The arguments: hash functions, http.ParseTime, url.Parse, the network, the attempts, the context's deadline and
  credentials, and the cache root.\<close>

record acquire_world =
  awd_hash :: "gostring \<Rightarrow> gostring \<Rightarrow> gostring"
  awd_httpTime :: "gostring \<Rightarrow> int option"
  awd_parse :: "gostring \<Rightarrow> go_url option"
  awd_srv :: "http_request list \<Rightarrow> http_answer"
  awd_env :: "nat \<Rightarrow> attempt_env"
  awd_deadline :: "int option"
  awd_ctxCreds :: "(gostring \<times> gostring) list"
  awd_root :: gostring

record fetch_target =
  ftg_ref :: cache_ref
  ftg_url :: go_url
  ftg_host :: gostring
  ftg_creds :: registry_creds
  ftg_algo :: gostring
  ftg_raw :: gostring
  ftg_canonical :: gostring
  ftg_path :: gostring

definition answeredBy :: "http_request \<Rightarrow> gostring \<Rightarrow> bool" where
  "answeredBy r host = (canonicalHost (hrq_url r) = Some host)"

definition sentCredential :: "http_request \<Rightarrow> bool" where
  "sentCredential r = (hrq_auth r \<noteq> [])"

definition sourceString :: "http_request \<Rightarrow> gostring \<times> gostring \<times> gostring" where
  "sourceString r = (gul_scheme (hrq_url r), gul_host (hrq_url r), gul_path (hrq_url r))"

definition hasherFor :: "gostring \<Rightarrow> bool" where
  "hasherFor algo = (algo = ''sha1'' \<or> algo = ''sha256'' \<or> algo = ''sha512'')"

definition writeRecord :: "sidecar_write \<Rightarrow> gostring \<Rightarrow> AcquisitionRecord \<Rightarrow> acquirer \<Rightarrow> acquirer" where
  "writeRecord w path r s =
    (case w of
       SidecarWritten \<Rightarrow> s\<lparr>acr_records := (acr_records s)(path \<mapsto> r\<lparr>aqr_fetched := False\<rparr>)\<rparr>
     | SidecarKept \<Rightarrow> s
     | SidecarTorn \<Rightarrow> s\<lparr>acr_records := (acr_records s)(path := None)\<rparr>)"

definition readRecord :: "gostring \<Rightarrow> acquirer \<Rightarrow> AcquisitionRecord option" where
  "readRecord path s =
    (case acr_files s path of
       None \<Rightarrow> None
     | Some b \<Rightarrow> Some (case acr_records s path of None \<Rightarrow> zero_record | Some r \<Rightarrow> r))"

text \<open>The temporary file is gone on every error path, so nothing of it shows in the state. An
  error met while reading the body is turned into a transport failure, as fetch does.\<close>

definition verifyAndPublish ::
  "acquire_world \<Rightarrow> attempt_env \<Rightarrow> fetch_target \<Rightarrow> http_request \<Rightarrow> gostring \<Rightarrow> transport_error option \<Rightarrow> acquirer \<Rightarrow>
   acquirer \<times> (cache_error + AcquisitionRecord)" where
  "verifyAndPublish w e t req body berr s =
    (if \<not> hasherFor (ftg_algo t)
       then (s, Inl (MalformedReason (crf_purl (ftg_ref t)) (ftg_algo t) ''no hasher for algorithm''))
     else if aev_disk e = Some DiskEarly then (s, Inl CacheIO)
     else (case berr of
             Some k \<Rightarrow> (s, Inl (transportFailure (aev_cut e) (crf_purl (ftg_ref t)) (ftg_host t) k))
           | None \<Rightarrow>
               if aev_disk e = Some DiskWrite then (s, Inl CacheIO)
               else (let got = awd_hash w (ftg_algo t) body in
                     if got \<noteq> ftg_raw t
                       then (s, Inl (IntegrityReason (crf_purl (ftg_ref t)) (ftg_algo t) (ftg_canonical t)
                                      (ftg_algo t @ '':'' @ hex_encode got)))
                     else if aev_disk e = Some DiskLate then (s, Inl CacheIO)
                     else (let r = \<lparr>aqr_purl = crf_purl (ftg_ref t), aqr_target = [], aqr_source = sourceString req,
                                    aqr_digest = crf_digest (ftg_ref t), aqr_canonical = ftg_canonical t,
                                    aqr_acquiredAt = aev_answered e, aqr_fetched = True\<rparr>
                           in (writeRecord (aev_sidecar e) (ftg_path t) r
                                 (s\<lparr>acr_files := (acr_files s)(ftg_path t \<mapsto> body)\<rparr>), Inr r)))))"

definition refusal :: "fetch_target \<Rightarrow> bool \<Rightarrow> http_request \<Rightarrow> cache_error option" where
  "refusal t presented req =
    (if answeredBy req (ftg_host t) then
       Some (PolicyReason (crf_purl (ftg_ref t)) (ftg_host t)
         (if presented then ''credential-rejected'' else ''missing-credential''))
     else if sentCredential req then
       Some (PolicyReason (crf_purl (ftg_ref t)) (case canonicalHost (hrq_url req) of None \<Rightarrow> [] | Some h \<Rightarrow> h)
         ''credential-rejected'')
     else None)"

definition not_ok :: "acquire_world \<Rightarrow> attempt_env \<Rightarrow> fetch_target \<Rightarrow> bool \<Rightarrow> http_request \<Rightarrow> int \<Rightarrow> gostring \<Rightarrow> cache_error" where
  "not_ok w e t presented req status ra =
    (case (if status = 401 \<or> status = 403 then refusal t presented req else None) of
       Some r \<Rightarrow> r
     | None \<Rightarrow>
         if unavailableStatus status \<noteq> []
         then FetchReason (crf_purl (ftg_ref t)) (ftg_host t) (unavailableStatus status) status
                (retryAfter (awd_httpTime w) ra (aev_answered e))
         else DeclaredAbsent)"

definition fetch ::
  "acquire_world \<Rightarrow> attempt_env \<Rightarrow> acquire_policy \<Rightarrow> fetch_target \<Rightarrow> acquirer \<Rightarrow>
   acquirer \<times> (cache_error + AcquisitionRecord)" where
  "fetch w e p t s =
    (let c = creds_For (ftg_creds t) (ftg_host t);
         presented = (c \<noteq> []);
         req = ApplyTo c \<lparr>hrq_url = ftg_url t, hrq_auth = []\<rparr>
     in case client_Do (awd_srv w) (crf_purl (ftg_ref t)) (apl_allow p) (ftg_creds t) (acr_sent s) req 0 of
          (sent, res) \<Rightarrow>
            (let s' = s\<lparr>acr_sent := sent\<rparr> in
             case res of
               ClientRefused pr \<Rightarrow> (s', Inl pr)
             | ClientFails k \<Rightarrow> (s', Inl (transportFailure (aev_cut e) (crf_purl (ftg_ref t)) (ftg_host t) k))
             | ClientResponse final status ra body berr \<Rightarrow>
                 if status \<noteq> 200 then (s', Inl (not_ok w e t presented final status ra))
                 else verifyAndPublish w e t final body berr s'))"

section \<open>Acquire\<close>

function acquire_loop ::
  "acquire_world \<Rightarrow> acquire_policy \<Rightarrow> fetch_target \<Rightarrow> cache_error option \<Rightarrow> nat \<Rightarrow> acquirer \<Rightarrow>
   acquirer \<times> (cache_error + AcquisitionRecord)" where
  "acquire_loop w p t prev attempt s =
    (let e = awd_env w attempt in
     case fetch w e p t s of
       (s', Inr r) \<Rightarrow> (s', Inr r)
     | (s', Inl err) \<Rightarrow>
         (case (if aev_ended e \<and> \<not> IsPartiality err then prev else None) of
            Some pe \<Rightarrow> (s', Inl pe)
          | None \<Rightarrow>
              (case retryWait (aev_ended e) (aev_now e) (awd_deadline w) err attempt of
                 None \<Rightarrow> (s', Inl err)
               | Some wait \<Rightarrow>
                   (let s'' = s'\<lparr>acr_slept := acr_slept s' @ [(aev_now e, wait)]\<rparr> in
                    if \<not> aev_slept e then (s'', Inl err)
                    else acquire_loop w p t (Some err) (attempt + 1) s''))))"
  by pat_completeness auto
termination
  by (relation "measure (\<lambda>(w, p, t, prev, attempt, s). maxFetchAttempts - attempt)")
    (auto simp: retryWait_def split: if_splits)

declare acquire_loop.simps [simp del]

definition acquire_creds :: "acquire_world \<Rightarrow> acquire_policy \<Rightarrow> registry_creds" where
  "acquire_creds w p = (if awd_ctxCreds w = [] then apl_creds p else NewRegistryCredentials (awd_ctxCreds w))"

definition Acquire ::
  "acquire_world \<Rightarrow> acquire_policy \<Rightarrow> cache_ref \<Rightarrow> acquirer \<Rightarrow> acquirer \<times> (cache_error + AcquisitionRecord)" where
  "Acquire w p ref s =
    (case DecodeDigest (crf_digest ref) of
       Inl err \<Rightarrow> (s, Inl (case err of MalformedReason u a d \<Rightarrow> MalformedReason (crf_purl ref) a d | _ \<Rightarrow> err))
     | Inr (algo, raw) \<Rightarrow>
         (let path = CanonicalPathFromBytes (awd_root w) algo raw in
          case readRecord path s of
            Some r \<Rightarrow> (s\<lparr>acr_hits := acr_hits s + 1\<rparr>, Inr r)
          | None \<Rightarrow>
              (let s1 = s\<lparr>acr_misses := acr_misses s + 1\<rparr>; creds = acquire_creds w p in
               case backendFor p (crf_purl ref) of Inl err \<Rightarrow> (s1, Inl err) | Inr (b, reg) \<Rightarrow>
               case ResolveURL b (crf_purl ref) reg of Inl err \<Rightarrow> (s1, Inl err) | Inr fetchURL \<Rightarrow>
               case checkTarget (awd_parse w) (crf_purl ref) fetchURL reg (apl_allow p) creds of
                 Inl err \<Rightarrow> (s1, Inl err)
               | Inr (u, host) \<Rightarrow>
                   acquire_loop w p
                     \<lparr>ftg_ref = ref, ftg_url = u, ftg_host = host, ftg_creds = creds, ftg_algo = algo, ftg_raw = raw,
                      ftg_canonical = algo @ '':'' @ hex_encode raw, ftg_path = path\<rparr> None 1 s1)))"

section \<open>What a request carries\<close>

text \<open>A request over HTTPS without userinfo to an allowlisted host, with that host's own credential or none.\<close>

definition own_request :: "allowlist \<Rightarrow> registry_creds \<Rightarrow> http_request \<Rightarrow> bool" where
  "own_request allow creds r =
    (gul_scheme (hrq_url r) = ''https'' \<and> \<not> gul_user (hrq_url r)
     \<and> (case canonicalHost (hrq_url r) of
          None \<Rightarrow> False
        | Some h \<Rightarrow> allowlist_Allows allow h
            \<and> hrq_auth r = (if creds_For creds h = [] then [] else ''Bearer '' @ creds_For creds h)))"

lemma redirect_own: "redirectPolicy purl allow creds req via = Inr r \<Longrightarrow> own_request allow creds r \<and> via < maxRedirectHops"
  by (auto simp: redirectPolicy_def own_request_def ApplyTo_def canonicalHost_def Let_def split: if_splits option.splits)

lemma target_own:
  "checkTarget parse purl url reg allow creds = Inr (u, host) \<Longrightarrow>
   own_request allow creds (ApplyTo (creds_For creds host) \<lparr>hrq_url = u, hrq_auth = []\<rparr>)"
  by (auto simp: checkTarget_def own_request_def ApplyTo_def canonicalHost_def Let_def split: if_splits option.splits)

lemma client_Do_sends:
  assumes "client_Do srv purl allow creds sent req via = (sent', res)" and "own_request allow creds req"
    and "via < maxRedirectHops"
  shows "\<exists>more. sent' = sent @ more \<and> list_all (own_request allow creds) more \<and> length more \<le> maxRedirectHops - via"
  using assms
proof (induction srv purl allow creds sent req via rule: client_Do.induct)
  case (1 srv purl allow creds sent req via)
  show ?case
  proof (cases "srv (sent @ [req])")
    case (RedirectTo u)
    show ?thesis
    proof (cases "redirectPolicy purl allow creds (req\<lparr>hrq_url := u\<rparr>) (via + 1)")
      case (Inl e)
      then have "sent' = sent @ [req]" using 1(2) RedirectTo by (simp add: client_Do.simps [of srv])
      then show ?thesis using "1.prems"(2,3) by (intro exI [of _ "[req]"]) (simp add: Suc_le_eq)
    next
      case (Inr r)
      then have "client_Do srv purl allow creds (sent @ [req]) r (via + 1) = (sent', res)"
        using 1(2) RedirectTo by (simp add: client_Do.simps [of srv _ _ _ _ req])
      from "1.IH" [OF refl RedirectTo Inr this] redirect_own [OF Inr]
      obtain more where "sent' = (sent @ [req]) @ more" "list_all (own_request allow creds) more"
        "length more \<le> maxRedirectHops - (via + 1)" by auto
      then show ?thesis using "1.prems"(2,3) by (intro exI [of _ "req # more"]) auto
    qed
  qed (use "1.prems" in \<open>auto simp: client_Do.simps [of srv] intro!: exI [of _ "[req]"]\<close>)
qed

lemma writeRecord_keeps: "acr_sent (writeRecord w p r s) = acr_sent s" "acr_slept (writeRecord w p r s) = acr_slept s"
    "acr_files (writeRecord w p r s) = acr_files s"
  by (simp_all add: writeRecord_def split: sidecar_write.split)

lemma verifyAndPublish_keeps:
  "verifyAndPublish w e t req body berr s = (s', r) \<Longrightarrow> acr_sent s' = acr_sent s \<and> acr_slept s' = acr_slept s"
  by (auto simp: verifyAndPublish_def Let_def writeRecord_keeps split: if_splits option.splits)

lemma verifyAndPublish_files:
  assumes "verifyAndPublish w e t req body berr s = (s', r)"
  shows "(case r of Inl x \<Rightarrow> acr_files s' = acr_files s
    | Inr x \<Rightarrow> awd_hash w (ftg_algo t) body = ftg_raw t \<and> acr_files s' = (acr_files s)(ftg_path t \<mapsto> body))"
  using assms by (auto simp: verifyAndPublish_def Let_def writeRecord_keeps split: if_splits option.splits)

definition target_request :: "fetch_target \<Rightarrow> http_request" where
  "target_request t = ApplyTo (creds_For (ftg_creds t) (ftg_host t)) \<lparr>hrq_url = ftg_url t, hrq_auth = []\<rparr>"

lemma fetch_sends:
  assumes "fetch w e p t s = (s', r)" and "own_request (apl_allow p) (ftg_creds t) (target_request t)"
  shows "acr_slept s' = acr_slept s \<and> (\<exists>more. acr_sent s' = acr_sent s @ more
    \<and> list_all (own_request (apl_allow p) (ftg_creds t)) more \<and> length more \<le> maxRedirectHops)"
proof -
  obtain sent res where c: "client_Do (awd_srv w) (crf_purl (ftg_ref t)) (apl_allow p) (ftg_creds t) (acr_sent s)
      (target_request t) 0 = (sent, res)" by fastforce
  have "acr_sent s' = sent \<and> acr_slept s' = acr_slept s"
    using assms(1) c by (auto simp: fetch_def target_request_def Let_def split: client_result.splits if_splits
      dest: verifyAndPublish_keeps)
  with client_Do_sends [OF c assms(2)] show ?thesis by (auto simp: maxRedirectHops_def)
qed

lemma fetch_files:
  assumes "fetch w e p t s = (s', r)"
  shows "(case r of Inl x \<Rightarrow> acr_files s' = acr_files s
    | Inr x \<Rightarrow> \<exists>body. awd_hash w (ftg_algo t) body = ftg_raw t \<and> acr_files s' = (acr_files s)(ftg_path t \<mapsto> body))"
  using assms
  by (auto simp: fetch_def Let_def split: prod.splits client_result.splits if_splits sum.splits dest!: verifyAndPublish_files)

section \<open>The loop\<close>

lemma retryWait_Some:
  assumes "retryWait ended now dl e attempt = Some wait"
  shows "attempt < maxFetchAttempts \<and> 0 < wait \<and> wait \<le> maxRetryWait \<and> (case dl of None \<Rightarrow> True | Some d \<Rightarrow> now + wait < d)"
  using assms by (auto simp: retryWait_def Let_def retryBackoff_def second_def split: if_splits option.splits)

definition slept :: "attempt_env \<Rightarrow> int \<Rightarrow> acquirer \<Rightarrow> acquirer" where
  "slept e wait s = s\<lparr>acr_slept := acr_slept s @ [(aev_now e, wait)]\<rparr>"

lemma slept_simps [simp]: "acr_files (slept e wait s) = acr_files s" "acr_sent (slept e wait s) = acr_sent s"
    "acr_slept (slept e wait s) = acr_slept s @ [(aev_now e, wait)]"
  by (simp_all add: slept_def)

lemma loop_step:
  assumes "acquire_loop w p t prev attempt s = (s', r)" and "fetch w (awd_env w attempt) p t s = (s1, r1)"
  obtains (served) x where "r1 = Inr x" "r = Inr x" "s' = s1"
  | (stop) err err' where "r1 = Inl err" "r = Inl err'" "s' = s1"
  | (tired) err wait where "r1 = Inl err" "r = Inl err"
      "retryWait (aev_ended (awd_env w attempt)) (aev_now (awd_env w attempt)) (awd_deadline w) err attempt = Some wait"
      "s' = slept (awd_env w attempt) wait s1"
  | (again) err wait where "r1 = Inl err"
      "(if aev_ended (awd_env w attempt) \<and> \<not> IsPartiality err then prev else None) = None"
      "retryWait (aev_ended (awd_env w attempt)) (aev_now (awd_env w attempt)) (awd_deadline w) err attempt = Some wait"
      "aev_slept (awd_env w attempt)"
      "acquire_loop w p t (Some err) (attempt + 1) (slept (awd_env w attempt) wait s1) = (s', r)"
proof (cases r1)
  case (Inr x)
  show ?thesis
    by (rule served [OF Inr]) (use assms Inr in \<open>simp_all add: acquire_loop.simps [of w p t prev attempt s] Let_def\<close>)
next
  case (Inl err)
  note u = assms(1) [unfolded acquire_loop.simps [of w p t prev attempt s] Let_def assms(2) Inl prod.case sum.case,
    folded slept_def]
  show ?thesis
  proof (cases "if aev_ended (awd_env w attempt) \<and> \<not> IsPartiality err then prev else None")
    case (Some pe)
    show ?thesis by (rule stop [OF Inl]) (use u [unfolded Some option.case] in auto)
  next
    case prev: None
    show ?thesis
    proof (cases "retryWait (aev_ended (awd_env w attempt)) (aev_now (awd_env w attempt)) (awd_deadline w) err attempt")
      case None
      show ?thesis by (rule stop [OF Inl]) (use u [unfolded prev None option.case] in auto)
    next
      case (Some wait)
      note v = u [unfolded prev Some option.case]
      show ?thesis
      proof (cases "aev_slept (awd_env w attempt)")
        case True
        then show ?thesis using v again [OF Inl prev Some True] by simp
      next
        case False
        then show ?thesis using v tired [OF Inl _ Some] by simp
      qed
    qed
  qed
qed

lemma loop_files:
  "acquire_loop w p t prev attempt s = (s', r) \<Longrightarrow>
   (case r of Inl x \<Rightarrow> acr_files s' = acr_files s
    | Inr x \<Rightarrow> \<exists>body. awd_hash w (ftg_algo t) body = ftg_raw t \<and> acr_files s' = (acr_files s)(ftg_path t \<mapsto> body))"
proof (induction w p t prev attempt s rule: acquire_loop.induct)
  case (1 w p t prev attempt s)
  obtain s1 r1 where f: "fetch w (awd_env w attempt) p t s = (s1, r1)" by fastforce
  from "1.prems" f show ?case
  proof (cases rule: loop_step)
    case (again err wait)
    show ?thesis
      using "1.IH" [OF refl f [symmetric] again(1,2,3) slept_def _ again(5)] again(1,4) fetch_files [OF f]
      by (cases r) simp_all
  qed (use fetch_files [OF f] in auto)
qed

definition good_wait :: "int option \<Rightarrow> int \<times> int \<Rightarrow> bool" where
  "good_wait dl tw = (0 < snd tw \<and> snd tw \<le> 30 * second \<and> (case dl of None \<Rightarrow> True | Some d \<Rightarrow> fst tw + snd tw < d))"

lemma retryWait_good:
  "retryWait ended now dl e attempt = Some wait \<Longrightarrow> good_wait dl (now, wait) \<and> attempt < 3"
  using retryWait_Some [of ended now dl e attempt wait]
  by (cases dl) (simp_all add: good_wait_def maxRetryWait_def maxFetchAttempts_def)

lemma loop_sends:
  "acquire_loop w p t prev attempt s = (s', r) \<Longrightarrow> own_request (apl_allow p) (ftg_creds t) (target_request t) \<Longrightarrow>
   attempt \<le> 3 \<Longrightarrow>
   \<exists>more waits. acr_sent s' = acr_sent s @ more \<and> list_all (own_request (apl_allow p) (ftg_creds t)) more
     \<and> length more \<le> 10 * (4 - attempt)
     \<and> acr_slept s' = acr_slept s @ waits \<and> list_all (good_wait (awd_deadline w)) waits \<and> length waits \<le> 3 - attempt"
proof (induction w p t prev attempt s rule: acquire_loop.induct)
  case (1 w p t prev attempt s)
  obtain s1 r1 where f: "fetch w (awd_env w attempt) p t s = (s1, r1)" by fastforce
  obtain more where m: "acr_slept s1 = acr_slept s" "acr_sent s1 = acr_sent s @ more"
    "list_all (own_request (apl_allow p) (ftg_creds t)) more" "length more \<le> 10"
    using fetch_sends [OF f "1.prems"(2)] by (auto simp: maxRedirectHops_def)
  have len: "length more \<le> 10 * (4 - attempt)" using m(4) "1.prems"(3) by simp
  from "1.prems"(1) f show ?case
  proof (cases rule: loop_step)
    case (tired err wait)
    note g = retryWait_good [OF tired(3)]
    show ?thesis
      by (rule exI [of _ more], rule exI [of _ "[(aev_now (awd_env w attempt), wait)]"]) (use m len g tired(4) in auto)
  next
    case (again err wait)
    note g = retryWait_good [OF again(3)]
    from "1.IH" [OF refl f [symmetric] again(1,2,3) slept_def _ again(5) "1.prems"(2)] again(4) g
    obtain more2 waits2 where i: "acr_sent s' = acr_sent s1 @ more2"
      "list_all (own_request (apl_allow p) (ftg_creds t)) more2" "length more2 \<le> 10 * (4 - (attempt + 1))"
      "acr_slept s' = acr_slept s1 @ [(aev_now (awd_env w attempt), wait)] @ waits2"
      "list_all (good_wait (awd_deadline w)) waits2" "length waits2 \<le> 3 - (attempt + 1)" by auto
    show ?thesis
      by (rule exI [of _ "more @ more2"], rule exI [of _ "(aev_now (awd_env w attempt), wait) # waits2"])
        (use m i g "1.prems"(3) in auto)
  qed (rule exI [of _ more], rule exI [of _ "[]"], use m len in simp)+
qed

section \<open>The properties\<close>

definition cache_sound :: "(gostring \<Rightarrow> gostring \<Rightarrow> gostring) \<Rightarrow> gostring \<Rightarrow> (gostring \<rightharpoonup> gostring) \<Rightarrow> bool" where
  "cache_sound hsh root files \<longleftrightarrow>
    (\<forall>algo raw b. map_of algoRawLen algo = Some (length raw) \<longrightarrow>
       files (CanonicalPathFromBytes root algo raw) = Some b \<longrightarrow> hsh algo b = raw)"

lemma cache_sound_put:
  assumes "cache_sound hsh root files" and "map_of algoRawLen algo = Some (length raw)" and "hsh algo body = raw"
  shows "cache_sound hsh root (files(CanonicalPathFromBytes root algo raw \<mapsto> body))"
  using assms unfolding cache_sound_def by (auto simp: canonical_inj)

lemma sound_lookup:
  assumes "cache_sound hsh root files" and "DecodeDigest (crf_digest ref) = Inr (algo, raw)"
    and "files (CanonicalPathFromBytes root algo raw) = Some b"
  shows "disk_Lookup root files ref = Inr b \<and> Verify hsh b ref = None"
  using assms DecodeDigest_Inr [OF assms(2)] unfolding cache_sound_def
  by (simp add: disk_Lookup_def CanonicalPath_def Verify_def Let_def)

lemma Acquire_cases:
  assumes "Acquire w p ref s = (s', r)"
  obtains (refused) err where "r = Inl err" "acr_files s' = acr_files s" "acr_sent s' = acr_sent s" "acr_slept s' = acr_slept s"
  | (hit) algo raw b where "DecodeDigest (crf_digest ref) = Inr (algo, raw)"
      "acr_files s (CanonicalPathFromBytes (awd_root w) algo raw) = Some b" "acr_files s' = acr_files s"
      "acr_sent s' = acr_sent s" "acr_slept s' = acr_slept s"
  | (fetched) t s1 where "DecodeDigest (crf_digest ref) = Inr (ftg_algo t, ftg_raw t)"
      "ftg_path t = CanonicalPathFromBytes (awd_root w) (ftg_algo t) (ftg_raw t)" "ftg_creds t = acquire_creds w p"
      "own_request (apl_allow p) (acquire_creds w p) (target_request t)" "acquire_loop w p t None 1 s1 = (s', r)"
      "acr_files s1 = acr_files s" "acr_sent s1 = acr_sent s" "acr_slept s1 = acr_slept s"
proof -
  show ?thesis
  proof (cases "DecodeDigest (crf_digest ref)")
    case (Inl err)
    then show ?thesis using assms refused by (auto simp: Acquire_def)
  next
    case (Inr ar)
    obtain algo raw where ar: "ar = (algo, raw)" by fastforce
    let ?path = "CanonicalPathFromBytes (awd_root w) algo raw"
    show ?thesis
    proof (cases "acr_files s ?path")
      case (Some b)
      then show ?thesis using assms Inr ar hit [of algo raw b] by (auto simp: Acquire_def readRecord_def Let_def)
    next
      case None
      note u = assms [unfolded Acquire_def Inr ar sum.case prod.case Let_def readRecord_def None option.case]
      show ?thesis
      proof (cases "backendFor p (crf_purl ref)")
        case (Inl err)
        then show ?thesis using u by (intro refused [of err]) auto
      next
        case (Inr br)
        obtain bk reg where br: "br = (bk, reg)" by fastforce
        note u = u [unfolded Inr br sum.case prod.case]
        show ?thesis
        proof (cases "ResolveURL bk (crf_purl ref) reg")
          case (Inl err)
          then show ?thesis using u by (intro refused [of err]) auto
        next
          case (Inr url)
          note u = u [unfolded Inr sum.case]
          show ?thesis
          proof (cases "checkTarget (awd_parse w) (crf_purl ref) url reg (apl_allow p) (acquire_creds w p)")
            case (Inl err)
            then show ?thesis using u by (intro refused [of err]) auto
          next
            case (Inr uh)
            obtain tu host where uh: "uh = (tu, host)" by fastforce
            note u = u [unfolded Inr uh sum.case prod.case]
            show ?thesis
              by (rule fetched [OF _ _ _ _ u])
                (use \<open>DecodeDigest (crf_digest ref) = Inr ar\<close> ar target_own [OF Inr [unfolded uh]] in
                  \<open>simp_all add: target_request_def\<close>)
          qed
        qed
      qed
    qed
  qed
qed

text \<open>C26: only verified bytes are ever published. From a cache in which every artifact hashes to the digest its path
  pins, Acquire leaves such a cache, whatever the network answers and wherever the disk or the context
  fails; an Acquire that ends in an error leaves the artifacts exactly as they were; and one that succeeds,
  from the cache or from the registry, leaves an artifact that Lookup finds and Verify accepts.\<close>

theorem acquire_only_verified:
  assumes "cache_sound (awd_hash w) (awd_root w) (acr_files s)" and "Acquire w p ref s = (s', r)"
  shows "cache_sound (awd_hash w) (awd_root w) (acr_files s')
    \<and> (case r of
         Inl err \<Rightarrow> acr_files s' = acr_files s
       | Inr x \<Rightarrow> \<exists>b. disk_Lookup (awd_root w) (acr_files s') ref = Inr b \<and> Verify (awd_hash w) b ref = None)"
  using assms(2)
proof (cases rule: Acquire_cases)
  case (refused err)
  then show ?thesis using assms(1) by simp
next
  case (hit algo raw b)
  then show ?thesis using assms(1) sound_lookup [OF assms(1) hit(1,2)] by (cases r) auto
next
  case (fetched t s1)
  note l = loop_files [OF fetched(5), unfolded fetched(2,6)]
  show ?thesis
  proof (cases r)
    case (Inl err)
    then show ?thesis using l assms(1) by simp
  next
    case (Inr x)
    then obtain body where b: "awd_hash w (ftg_algo t) body = ftg_raw t"
      "acr_files s' = (acr_files s)(CanonicalPathFromBytes (awd_root w) (ftg_algo t) (ftg_raw t) \<mapsto> body)"
      using l by auto
    have c: "cache_sound (awd_hash w) (awd_root w) (acr_files s')"
      unfolding b(2) by (rule cache_sound_put [OF assms(1) DecodeDigest_Inr [OF fetched(1)] b(1)])
    from sound_lookup [OF this fetched(1)] b(2) show ?thesis using c Inr by simp
  qed
qed

text \<open>C27: a credential is sent to no host but its own. Every request an Acquire sends, redirects and retries
  included, goes over HTTPS, without userinfo, to a host on the allowlist, and its Authorization is either
  empty or the bearer token bound to that very host.\<close>

theorem credential_stays_home:
  "\<exists>more. acr_sent (fst (Acquire w p ref s)) = acr_sent s @ more
    \<and> list_all (\<lambda>q. gul_scheme (hrq_url q) = ''https'' \<and> \<not> gul_user (hrq_url q)
        \<and> (\<exists>h. canonicalHost (hrq_url q) = Some h \<and> allowlist_Allows (apl_allow p) h
            \<and> hrq_auth q = (if creds_For (acquire_creds w p) h = [] then [] else ''Bearer '' @ creds_For (acquire_creds w p) h)))
      more"
proof -
  obtain s' r where a: "Acquire w p ref s = (s', r)" by fastforce
  have "\<exists>more. acr_sent s' = acr_sent s @ more \<and> list_all (own_request (apl_allow p) (acquire_creds w p)) more"
    using a
  proof (cases rule: Acquire_cases)
    case (fetched t s1)
    from loop_sends [OF fetched(5)] fetched show ?thesis by auto
  qed (auto intro: exI [of _ "[]"])
  moreover have "list_all (own_request al cr) m \<Longrightarrow> list_all (\<lambda>q. gul_scheme (hrq_url q) = ''https'' \<and> \<not> gul_user (hrq_url q)
        \<and> (\<exists>h. canonicalHost (hrq_url q) = Some h \<and> allowlist_Allows al h
            \<and> hrq_auth q = (if creds_For cr h = [] then [] else ''Bearer '' @ creds_For cr h))) m" for al cr m
    by (erule list.pred_mono_strong) (auto simp: own_request_def split: option.splits)
  ultimately show ?thesis unfolding a fst_conv by blast
qed

text \<open>C28: an Acquire is bounded. Whatever the registry answers, redirects for ever or fails for ever, it sends at most
  thirty requests (three attempts of ten hops) and waits at most twice; each wait is positive, at most
  thirty seconds, even when Retry-After asks for more, and ends before the caller's deadline.\<close>

theorem acquire_bounded:
  "\<exists>more waits. acr_sent (fst (Acquire w p ref s)) = acr_sent s @ more \<and> length more \<le> 30
    \<and> acr_slept (fst (Acquire w p ref s)) = acr_slept s @ waits \<and> length waits \<le> 2
    \<and> list_all (\<lambda>(t, d). 0 < d \<and> d \<le> 30 * second \<and> (case awd_deadline w of None \<Rightarrow> True | Some dl \<Rightarrow> t + d < dl)) waits"
proof -
  obtain s' r where a: "Acquire w p ref s = (s', r)" by fastforce
  have "\<exists>more waits. acr_sent s' = acr_sent s @ more \<and> length more \<le> 30
    \<and> acr_slept s' = acr_slept s @ waits \<and> length waits \<le> 2 \<and> list_all (good_wait (awd_deadline w)) waits"
    using a
  proof (cases rule: Acquire_cases)
    case (fetched t s1)
    from loop_sends [OF fetched(5)] fetched show ?thesis by auto
  qed (auto intro: exI [of _ "[]"])
  moreover have "good_wait dl = (\<lambda>(t, d). 0 < d \<and> d \<le> 30 * second \<and> (case dl of None \<Rightarrow> True | Some x \<Rightarrow> t + d < x))" for dl
    by (cases dl) (auto simp: good_wait_def fun_eq_iff)
  ultimately show ?thesis unfolding a fst_conv by simp
qed

section \<open>A run\<close>

definition run_body :: gostring where "run_body = ''<twenty-byte tarball''"

definition run_url :: go_url where
  "run_url = \<lparr>gul_scheme = ''https'', gul_user = False, gul_hostname = ''r.io'', gul_port = [], gul_host = ''r.io'',
     gul_path = ''/a/-/a-1.tgz'', gul_rawQuery = [], gul_fragment = []\<rparr>"

definition run_ref :: cache_ref where
  "run_ref = \<lparr>crf_purl = ''pkg:npm/a@1'', crf_digest = ''sha1:'' @ hex_encode run_body\<rparr>"

definition run_policy :: acquire_policy where
  "run_policy = \<lparr>apl_allow = NewAllowlist [''R.io.''],
     apl_registries = [''npm'' \<mapsto> \<lparr>rgc_baseURL = ''https://r.io/'', rgc_requireAuth = True, rgc_authConfigured = True\<rparr>],
     apl_backends = [''npm'' \<mapsto> NPMBackend], apl_creds = NewRegistryCredentials [(''r.io'', ''tok'')]\<rparr>"

text \<open>The registry fails once with 503, then serves the bytes; the hash is the identity.\<close>

definition run_world :: acquire_world where
  "run_world = \<lparr>awd_hash = (\<lambda>a b. b), awd_httpTime = (\<lambda>v. None),
     awd_parse = (\<lambda>u. if u = ''https://r.io/a/-/a-1.tgz'' then Some run_url else None),
     awd_srv = (\<lambda>sent. if length sent = 1 then Response 503 ''2'' [] None else Response 200 [] run_body None),
     awd_env = (\<lambda>n. \<lparr>aev_cut = False, aev_ended = False, aev_answered = 0, aev_now = 0, aev_slept = True, aev_disk = None,
       aev_sidecar = SidecarWritten\<rparr>),
     awd_deadline = Some (60 * second), awd_ctxCreds = [], awd_root = ''/c''\<rparr>"

definition run_start :: acquirer where
  "run_start = \<lparr>acr_files = Map.empty, acr_records = Map.empty, acr_hits = 0, acr_misses = 0, acr_sent = [], acr_slept = []\<rparr>"

definition run_creds :: registry_creds where "run_creds = acquire_creds run_world run_policy"

definition run_target :: fetch_target where
  "run_target = \<lparr>ftg_ref = run_ref, ftg_url = run_url, ftg_host = ''r.io'', ftg_creds = run_creds, ftg_algo = ''sha1'',
     ftg_raw = run_body, ftg_canonical = ''sha1'' @ '':'' @ hex_encode run_body,
     ftg_path = CanonicalPathFromBytes ''/c'' ''sha1'' run_body\<rparr>"

lemma run_digest: "DecodeDigest (crf_digest run_ref) = Inr (''sha1'', run_body)"
  by code_simp

lemma run_backend: "backendFor run_policy (crf_purl run_ref) =
    Inr (NPMBackend, \<lparr>rgc_baseURL = ''https://r.io/'', rgc_requireAuth = True, rgc_authConfigured = True\<rparr>)"
  by code_simp

lemma run_resolve: "ResolveURL NPMBackend (crf_purl run_ref)
    \<lparr>rgc_baseURL = ''https://r.io/'', rgc_requireAuth = True, rgc_authConfigured = True\<rparr> = Inr ''https://r.io/a/-/a-1.tgz''"
  by code_simp

lemma run_check: "checkTarget (awd_parse run_world) (crf_purl run_ref) ''https://r.io/a/-/a-1.tgz''
    \<lparr>rgc_baseURL = ''https://r.io/'', rgc_requireAuth = True, rgc_authConfigured = True\<rparr> (apl_allow run_policy) run_creds =
    Inr (run_url, ''r.io'')"
  by code_simp

lemma run_cred: "creds_For run_creds ''r.io'' = ''tok''"
  by code_simp

lemma run_wait: "retryWait False 0 (Some (60 * second)) (FetchReason u h FetchServerError 503 (2 * second)) 1 = Some (2 * second)"
  by (simp add: retryWait_def registry_unavailable_def registry_unreachable_def maxFetchAttempts_def maxRetryWait_def
      FetchServerError_def FetchDNSFailure_def FetchConnectFailure_def second_def)

lemma run_env: "aev_ended (awd_env run_world n) = False" "aev_now (awd_env run_world n) = 0"
    "aev_slept (awd_env run_world n) = True" "awd_deadline run_world = Some (60 * second)"
    "awd_root run_world = ''/c''"
  by (simp_all add: run_world_def)

lemma run_serves: "\<exists>s' x. Acquire run_world run_policy run_ref run_start = (s', Inr x)"
proof -
  have m: "fetch run_world (awd_env run_world 1) run_policy run_target (run_start\<lparr>acr_misses := 1\<rparr>) =
    (run_start\<lparr>acr_misses := 1, acr_sent := [target_request run_target]\<rparr>,
     Inl (FetchReason (crf_purl run_ref) ''r.io'' FetchServerError 503 (2 * second)))"
  proof -
    have "unavailableStatus 503 = FetchServerError" "FetchServerError \<noteq> []" "retryAfter t ''2'' n = 2 * second" for t n
      by (simp_all add: unavailableStatus_def FetchServerError_def retryAfter_def) code_simp
    then show ?thesis
      by (simp add: fetch_def client_Do.simps run_target_def run_world_def run_start_def not_ok_def target_request_def)
  qed
  obtain s2 x where f: "fetch run_world (awd_env run_world 2) run_policy run_target
    (run_start\<lparr>acr_misses := 1, acr_sent := [target_request run_target], acr_slept := [(0, 2 * second)]\<rparr>) = (s2, Inr x)"
    by (simp add: fetch_def client_Do.simps run_target_def run_world_def run_start_def target_request_def
        verifyAndPublish_def hasherFor_def Let_def)
  have two: "acquire_loop run_world run_policy run_target (Some err) 2
      (run_start\<lparr>acr_misses := 1, acr_sent := [target_request run_target], acr_slept := [(0, 2 * second)]\<rparr>) = (s2, Inr x)" for err
    by (subst acquire_loop.simps) (simp add: f)
  have "acquire_loop run_world run_policy run_target None 1 (run_start\<lparr>acr_misses := 1\<rparr>) = (s2, Inr x)"
    unfolding acquire_loop.simps [of _ _ _ _ 1] Let_def m prod.case sum.case run_env if_False simp_thms option.case run_wait
      one_add_one
    by (simp add: two run_start_def [symmetric] if_True) (use two in \<open>simp add: run_start_def\<close>)
  moreover have "readRecord p run_start = None" "run_start\<lparr>acr_misses := acr_misses run_start + 1\<rparr> = run_start\<lparr>acr_misses := 1\<rparr>" for p
    by (simp_all add: readRecord_def run_start_def)
  ultimately show ?thesis
    by (simp add: Acquire_def run_digest run_env run_backend run_resolve run_check [unfolded run_creds_def] run_target_def
        run_creds_def run_start_def)
qed

theorem acquire_only_verified_witness:
  "\<exists>s' :: acquirer. cache_sound (awd_hash run_world) ''/c'' (acr_files s')
    \<and> (\<exists>b. disk_Lookup ''/c'' (acr_files s') run_ref = Inr b \<and> Verify (awd_hash run_world) b run_ref = None)"
proof -
  obtain s' x where a: "Acquire run_world run_policy run_ref run_start = (s', Inr x)" using run_serves by blast
  have "cache_sound (awd_hash run_world) (awd_root run_world) (acr_files run_start)"
    by (simp add: cache_sound_def run_start_def)
  from acquire_only_verified [OF this a] show ?thesis unfolding run_env(5) sum.case by blast
qed

end
