(* ===== verification/Npmrc.thy ===== *)
theory Npmrc
  imports Cache_Acquire "HOL-Library.AList"
begin

text \<open>
  The npm configuration of a build: src/artifactcache/acquire/npmrc.go. The project's .npmrc, the file
  NPM_CONFIG_USERCONFIG names and NPM_CONFIG_REGISTRY are read into entries; an environment reference is expanded
  through an allowlist; the entries become the registries, the hosts, and the token bound to each host. The URL
  and quoting libraries and the file system are the record \<open>npm_lib\<close>. A Go map is an association list, and a
  loop over one takes the order the library gives. The lemmas show that no variable outside the allowlist can
  change what is loaded, and that a token is bound only to the host its key names.
\<close>

section \<open>Entries and errors\<close>

datatype npmrc_source = ProjectSource | UserConfigSource | EnvSource

text \<open>An npmrcError with its source, line and reason, the one whose reason quotes the variable that is unset, and the
  nil dereference of a URL that does not parse.\<close>

datatype npm_fail =
    NpmrcError npmrc_source nat gostring
  | NpmrcUnset npmrc_source nat gostring
  | NpmrcPanic

record TokenEnv =
  tke_name :: gostring
  tke_state :: gostring

definition no_token :: TokenEnv where "no_token = \<lparr>tke_name = [], tke_state = []\<rparr>"
definition TokenEnvUnset :: gostring where "TokenEnvUnset = ''unset''"
definition TokenEnvEmpty :: gostring where "TokenEnvEmpty = ''empty''"
definition TokenEnvNotAllowed :: gostring where "TokenEnvNotAllowed = ''not_allowed''"

record npmrcEntry =
  nen_value :: gostring
  nen_raw :: gostring
  nen_token :: TokenEnv
  nen_source :: npmrc_source
  nen_line :: nat

section \<open>The environment\<close>

record npmrcEnv =
  nev_lookup :: "gostring \<Rightarrow> gostring option"
  nev_allowed :: "gostring list"

definition DefaultNPMRCEnv :: "gostring list" where
  "DefaultNPMRCEnv = [''NPM_CONFIG_USERCONFIG'', ''NPM_CONFIG_REGISTRY'', ''NODE_AUTH_TOKEN'', ''NPM_TOKEN'']"

definition allowedEnv :: "(gostring \<Rightarrow> gostring option) \<Rightarrow> gostring list \<Rightarrow> npmrcEnv" where
  "allowedEnv lookup extra =
    \<lparr>nev_lookup = lookup, nev_allowed = DefaultNPMRCEnv @ filter (\<lambda>n. n \<noteq> []) (map trim_space extra)\<rparr>"

definition env_get :: "npmrcEnv \<Rightarrow> gostring \<Rightarrow> gostring option" where
  "env_get e name = (if name \<notin> set (nev_allowed e) then None else nev_lookup e name)"

text \<open>The regular expression of envRef at the start of a string: the name, whether it is optional, and the rest.\<close>

definition ref_name_char :: "char \<Rightarrow> bool" where
  "ref_name_char c = (c \<noteq> CHR ''$'' \<and> c \<noteq> CHR ''{'' \<and> c \<noteq> CHR ''}'' \<and> c \<noteq> CHR ''?'')"

definition ref_at :: "gostring \<Rightarrow> (gostring \<times> bool \<times> gostring) option" where
  "ref_at s =
    (if \<not> has_prefix s ''${'' then None
     else (let t = drop 2 s; name = takeWhile ref_name_char t; u = dropWhile ref_name_char t in
           if name = [] then None
           else if has_prefix u ''}'' then Some (name, False, drop 1 u)
           else if has_prefix u ''?}'' then Some (name, True, drop 2 u)
           else None))"

lemma ref_at_shorter: "ref_at s = Some (n, opt, rest) \<Longrightarrow> length rest < length s"
proof -
  assume a: "ref_at s = Some (n, opt, rest)"
  have "length (dropWhile ref_name_char (drop 2 s)) \<le> length s"
    using length_dropWhile_le [of ref_name_char "drop 2 s"] by simp
  moreover have "s \<noteq> []" using a by (auto simp: ref_at_def has_prefix_def split: if_splits)
  then have "length (drop 2 s) < length s" by simp
  then have "length (dropWhile ref_name_char (drop 2 s)) < length s"
    using length_dropWhile_le [of ref_name_char "drop 2 s"] by linarith
  ultimately show ?thesis using a by (auto simp: ref_at_def Let_def split: if_splits)
qed

datatype ref_piece = RefText char | RefVar gostring bool

function ref_pieces :: "gostring \<Rightarrow> ref_piece list" where
  "ref_pieces s =
    (case ref_at s of
       Some (name, opt, rest) \<Rightarrow> RefVar name opt # ref_pieces rest
     | None \<Rightarrow> (case s of [] \<Rightarrow> [] | c # t \<Rightarrow> RefText c # ref_pieces t))"
  by pat_completeness auto

termination
  by (relation "measure length") (auto dest: ref_at_shorter)

declare ref_pieces.simps [simp del]

definition env_ref_matches :: "gostring \<Rightarrow> bool" where
  "env_ref_matches s = list_ex (\<lambda>p. case p of RefText c \<Rightarrow> False | RefVar n opt \<Rightarrow> True) (ref_pieces s)"

definition expand_piece :: "npmrcEnv \<Rightarrow> ref_piece \<Rightarrow> gostring" where
  "expand_piece env p =
    (case p of RefText c \<Rightarrow> [c] | RefVar n opt \<Rightarrow> (case env_get env n of None \<Rightarrow> [] | Some v \<Rightarrow> v))"

fun first_missing :: "npmrcEnv \<Rightarrow> ref_piece list \<Rightarrow> gostring" where
  "first_missing env [] = []"
| "first_missing env (RefText c # ps) = first_missing env ps"
| "first_missing env (RefVar n opt # ps) =
    (if env_get env n = None \<and> \<not> opt then n else first_missing env ps)"

definition expandRefs :: "gostring \<Rightarrow> npmrcEnv \<Rightarrow> gostring \<times> gostring" where
  "expandRefs s env = (concat (map (expand_piece env) (ref_pieces s)), first_missing env (ref_pieces s))"

definition expandEnv :: "gostring \<Rightarrow> npmrc_source \<Rightarrow> nat \<Rightarrow> npmrcEnv \<Rightarrow> npm_fail + gostring" where
  "expandEnv s source line env =
    (case expandRefs s env of (out, missing) \<Rightarrow>
       if missing \<noteq> [] then Inl (NpmrcUnset source line missing) else Inr out)"

text \<open>The loop of expandAuthValue over the references: the first variable set to the empty string, and the first one
  unset or outside the allowlist.\<close>

fun auth_refs :: "npmrcEnv \<Rightarrow> ref_piece list \<Rightarrow> TokenEnv \<Rightarrow> TokenEnv \<Rightarrow> gostring + TokenEnv \<times> TokenEnv" where
  "auth_refs env [] blank token = Inr (blank, token)"
| "auth_refs env (RefText c # ps) blank token = auth_refs env ps blank token"
| "auth_refs env (RefVar n opt # ps) blank token =
    (case env_get env n of
       Some v \<Rightarrow>
         (if v = [] \<and> tke_name blank = []
          then auth_refs env ps \<lparr>tke_name = n, tke_state = TokenEnvEmpty\<rparr> token
          else auth_refs env ps blank token)
     | None \<Rightarrow>
         (if \<not> opt \<and> n \<notin> set (nev_allowed env) then Inl n
          else if tke_name token \<noteq> [] then auth_refs env ps blank token
          else if n \<notin> set (nev_allowed env)
            then auth_refs env ps blank \<lparr>tke_name = n, tke_state = TokenEnvNotAllowed\<rparr>
          else auth_refs env ps blank \<lparr>tke_name = n, tke_state = TokenEnvUnset\<rparr>))"

definition expandAuthValue ::
  "gostring \<Rightarrow> npmrc_source \<Rightarrow> nat \<Rightarrow> npmrcEnv \<Rightarrow> npm_fail + gostring \<times> TokenEnv" where
  "expandAuthValue s source line env =
    (case auth_refs env (ref_pieces s) no_token no_token of
       Inl n \<Rightarrow> Inl (NpmrcUnset source line n)
     | Inr (blank, token) \<Rightarrow>
         (case expandRefs s env of (out, missing) \<Rightarrow>
            if missing \<noteq> [] then Inr ([], \<lparr>tke_name = missing, tke_state = TokenEnvUnset\<rparr>)
            else Inr (out, if tke_name token = [] then blank else token)))"

section \<open>Parsing\<close>

definition authField :: "gostring \<Rightarrow> bool" where
  "authField k =
    ((if has_prefix k ''//'' then (case last_index_byte k CHR '':'' of None \<Rightarrow> k | Some i \<Rightarrow> drop (i + 1) k) else k)
     \<in> {''_authToken'', ''_auth'', ''_password'', ''username''})"

definition urlBearingKey :: "gostring \<Rightarrow> bool" where
  "urlBearingKey k = (k = ''registry'' \<or> has_prefix k ''@'' \<and> has_suffix k '':registry'')"

datatype read_result = ReadBytes gostring | ReadAbsent | ReadRefused npm_fail | ReadFails

text \<open>Lstat and Open: an error (whether it says the file does not exist), or what is there with its identity; the
  content is None where reading fails.\<close>

datatype lstat_kind = LstatSymlink | LstatRegular | LstatOther
datatype lstat_result = LstatError bool | LstatOK lstat_kind nat
datatype open_result = OpenError bool | OpenOK nat "gostring option"

text \<open>url.Parse and URL.String, strconv.Unquote, the file system, filepath.Rel, and the order of a loop over a map.\<close>

record npm_lib =
  nlb_parse :: "gostring \<Rightarrow> go_url option"
  nlb_print :: "go_url \<Rightarrow> gostring"
  nlb_unquote :: "gostring \<Rightarrow> gostring option"
  nlb_evalSymlinks :: "gostring \<Rightarrow> gostring option"
  nlb_rel :: "gostring \<Rightarrow> gostring \<Rightarrow> gostring option"
  nlb_readFile :: "gostring \<Rightarrow> read_result"
  nlb_lstat :: "gostring \<Rightarrow> lstat_result"
  nlb_open :: "gostring \<Rightarrow> open_result"
  nlb_order :: "(gostring \<times> npmrcEntry) list \<Rightarrow> (gostring \<times> npmrcEntry) list"

definition unquoteNPMRC :: "npm_lib \<Rightarrow> gostring \<Rightarrow> npmrc_source \<Rightarrow> nat \<Rightarrow> npm_fail + gostring" where
  "unquoteNPMRC lib v source line =
    (if length v \<ge> 2 \<and> has_prefix v [CHR 0x22] \<and> has_suffix v [CHR 0x22] then
       (case nlb_unquote lib v of
          None \<Rightarrow> Inl (NpmrcError source line ''value has malformed quoting'')
        | Some u \<Rightarrow> Inr u)
     else if length v \<ge> 2 \<and> has_prefix v [CHR 0x27] \<and> has_suffix v [CHR 0x27] then Inr (butlast (tl v))
     else if has_prefix v [CHR 0x22] \<or> has_prefix v [CHR 0x27]
       then Inl (NpmrcError source line ''value has an unterminated quote'')
     else Inr v)"

text \<open>One line: nothing, or a key with its entry.\<close>

definition parse_line ::
  "npm_lib \<Rightarrow> npmrc_source \<Rightarrow> npmrcEnv \<Rightarrow> nat \<Rightarrow> gostring \<Rightarrow> npm_fail + (gostring \<times> npmrcEntry) option" where
  "parse_line lib source env line raw =
    (let s = trim_space (trim_suffix raw [CHR 0x0D]) in
     if s = [] \<or> has_prefix s '';'' \<or> has_prefix s ''#'' then Inr None
     else if has_prefix s ''['' then Inl (NpmrcError source line ''section headers are not supported'')
     else (case go_cut s ''='' of
             None \<Rightarrow> Inl (NpmrcError source line ''line is not key=value'')
           | Some (k0, v0) \<Rightarrow>
               (let k = trim_space k0 in
                if k = [] then Inl (NpmrcError source line ''empty key'')
                else (case unquoteNPMRC lib (trim_space v0) source line of Inl e \<Rightarrow> Inl e | Inr v \<Rightarrow>
                  if source = ProjectSource \<and> (env_ref_matches k \<or> urlBearingKey k \<and> env_ref_matches v)
                    then Inl (NpmrcError source line ''environment reference in a registry host or URL'')
                  else (case expandEnv k source line env of Inl e \<Rightarrow> Inl e | Inr key \<Rightarrow>
                    case (if authField key then expandAuthValue v source line env
                          else (case expandEnv v source line env of Inl e \<Rightarrow> Inl e | Inr w \<Rightarrow> Inr (w, no_token))) of
                      Inl e \<Rightarrow> Inl e
                    | Inr (value, token) \<Rightarrow>
                        Inr (Some (key, \<lparr>nen_value = value, nen_raw = v, nen_token = token, nen_source = source,
                                         nen_line = line\<rparr>)))))))"

fun parse_lines ::
  "npm_lib \<Rightarrow> npmrc_source \<Rightarrow> npmrcEnv \<Rightarrow> nat \<Rightarrow> (gostring \<times> npmrcEntry) list \<Rightarrow> gostring list \<Rightarrow>
   npm_fail + (gostring \<times> npmrcEntry) list" where
  "parse_lines lib source env line out [] = Inr out"
| "parse_lines lib source env line out (raw # rest) =
    (case parse_line lib source env line raw of
       Inl e \<Rightarrow> Inl e
     | Inr None \<Rightarrow> parse_lines lib source env (line + 1) out rest
     | Inr (Some (k, e)) \<Rightarrow> parse_lines lib source env (line + 1) (AList.update k e out) rest)"

definition parseNPMRC ::
  "npm_lib \<Rightarrow> gostring \<Rightarrow> npmrc_source \<Rightarrow> npmrcEnv \<Rightarrow> npm_fail + (gostring \<times> npmrcEntry) list" where
  "parseNPMRC lib text source env = parse_lines lib source env 1 [] (go_split text [CHR 0x0A])"

section \<open>The configuration\<close>

definition DefaultNPMRegistry :: gostring where
  "DefaultNPMRegistry = ''https://registry.npmjs.org/''"

record NPMConfig =
  npc_defaultRegistry :: gostring
  npc_scopes :: "(gostring \<times> gostring) list"
  npc_requireAuth :: "gostring list"
  npc_authConfigured :: "gostring list"
  npc_unsetAuthEnv :: "(gostring \<times> TokenEnv) list"
  npc_creds :: registry_creds
  npc_allow :: allowlist

definition emptyOptional :: "npmrcEntry \<Rightarrow> bool" where
  "emptyOptional e = (nen_value e = [] \<and> nen_raw e \<noteq> [])"

definition registryBase :: "npm_lib \<Rightarrow> npmrcEntry \<Rightarrow> npm_fail + gostring" where
  "registryBase lib e =
    (case nlb_parse lib (nen_value e) of
       None \<Rightarrow> Inl (NpmrcError (nen_source e) (nen_line e) ''registry is not an http(s) URL'')
     | Some u \<Rightarrow>
         if (gul_scheme u \<noteq> ''https'' \<and> gul_scheme u \<noteq> ''http'') \<or> gul_hostname u = []
           then Inl (NpmrcError (nen_source e) (nen_line e) ''registry is not an http(s) URL'')
         else if gul_user u then Inl (NpmrcError (nen_source e) (nen_line e) ''registry URL carries userinfo'')
         else if gul_rawQuery u \<noteq> [] \<or> gul_fragment u \<noteq> []
           then Inl (NpmrcError (nen_source e) (nen_line e) ''registry URL carries a query or fragment'')
         else Inr (nlb_print lib
           (if \<not> has_suffix (gul_path u) ''/'' then u\<lparr>gul_path := gul_path u @ ''/''\<rparr> else u)))"

definition npmrcBool :: "npmrcEntry \<Rightarrow> npm_fail + bool" where
  "npmrcBool e =
    (let v = to_lower (nen_value e) in
     if v = ''true'' then Inr True
     else if v = ''false'' \<or> v = [] then Inr False
     else Inl (NpmrcError (nen_source e) (nen_line e) ''boolean value is not true or false''))"

definition token_of :: "(gostring \<times> TokenEnv) list \<Rightarrow> gostring \<Rightarrow> TokenEnv" where
  "token_of m h = (case map_of m h of None \<Rightarrow> no_token | Some t \<Rightarrow> t)"

text \<open>The loop over the entries: the configuration so far, the token of each host, and the key prefix it came from.\<close>

record npm_build =
  nbd_cfg :: NPMConfig
  nbd_tokens :: "(gostring \<times> gostring) list"
  nbd_tokenPath :: "(gostring \<times> gostring) list"

definition require_auth :: "gostring \<Rightarrow> NPMConfig \<Rightarrow> NPMConfig" where
  "require_auth h c = c\<lparr>npc_requireAuth := h # npc_requireAuth c\<rparr>"

definition auth_configured :: "gostring \<Rightarrow> NPMConfig \<Rightarrow> NPMConfig" where
  "auth_configured h c = c\<lparr>npc_authConfigured := h # npc_authConfigured c\<rparr>"

definition host_field :: "gostring \<Rightarrow> gostring \<Rightarrow> gostring \<Rightarrow> npmrcEntry \<Rightarrow> npm_build \<Rightarrow> npm_fail + npm_build" where
  "host_field prefix host field e st =
    (if field = ''_authToken'' then
       (if map_of (nbd_tokenPath st) host \<noteq> None \<and> map_of (nbd_tokenPath st) host \<noteq> Some prefix
          then Inl (NpmrcError (nen_source e) (nen_line e) ''two tokens for one host under different paths'')
        else (let st1 = st\<lparr>nbd_tokenPath := AList.update host prefix (nbd_tokenPath st),
                           nbd_cfg := auth_configured host (nbd_cfg st)\<rparr> in
              if emptyOptional e then Inr st1
              else (let st2 = st1\<lparr>nbd_cfg := require_auth host (nbd_cfg st1)\<rparr> in
                    if nen_value e \<noteq> [] then Inr (st2\<lparr>nbd_tokens := AList.update host (nen_value e) (nbd_tokens st2)\<rparr>)
                    else Inr st2)))
     else if field = ''always-auth'' then
       (case npmrcBool e of
          Inl err \<Rightarrow> Inl err
        | Inr b \<Rightarrow> Inr (if b then st\<lparr>nbd_cfg := require_auth host (nbd_cfg st)\<rparr> else st))
     else if field \<in> {''_auth'', ''_password'', ''username'', ''certfile'', ''keyfile''} then
       (let st1 = st\<lparr>nbd_cfg := auth_configured host (nbd_cfg st)\<rparr> in
        Inr (if \<not> emptyOptional e then st1\<lparr>nbd_cfg := require_auth host (nbd_cfg st1)\<rparr> else st1))
     else Inr st)"

definition build_entry :: "npm_lib \<Rightarrow> gostring \<times> npmrcEntry \<Rightarrow> npm_build \<Rightarrow> npm_fail + npm_build" where
  "build_entry lib ke st =
    (let k = fst ke; e = snd ke in
     if has_prefix k ''@'' \<and> has_suffix k '':registry'' then
       (let scope = trim_suffix k '':registry'' in
        if go_contains scope ''/'' \<or> length scope < 2
          then Inl (NpmrcError (nen_source e) (nen_line e) ''malformed scope registry key'')
        else (case registryBase lib e of
                Inl err \<Rightarrow> Inl err
              | Inr r \<Rightarrow> Inr (st\<lparr>nbd_cfg := (nbd_cfg st)
                  \<lparr>npc_scopes := AList.update (to_lower scope) r (npc_scopes (nbd_cfg st))\<rparr>\<rparr>)))
     else if has_prefix k ''//'' then
       (case last_index_byte k CHR '':'' of
          None \<Rightarrow> Inl (NpmrcError (nen_source e) (nen_line e) ''per-registry key has no field'')
        | Some i \<Rightarrow>
            (let prefix = take i k; field = drop (i + 1) k in
             case nlb_parse lib (''https:'' @ prefix) of
               None \<Rightarrow> Inl (NpmrcError (nen_source e) (nen_line e) ''per-registry key has a malformed host'')
             | Some u \<Rightarrow>
                 if gul_hostname u = [] \<or> gul_user u
                   then Inl (NpmrcError (nen_source e) (nen_line e) ''per-registry key has a malformed host'')
                 else (let host = canonicalizeHostString (gul_hostname u);
                           c = nbd_cfg st;
                           st' = (if authField k \<and> emptyOptional e \<and> tke_name (nen_token e) \<noteq> []
                                      \<and> tke_name (token_of (npc_unsetAuthEnv c) host) = []
                                  then st\<lparr>nbd_cfg := c\<lparr>npc_unsetAuthEnv :=
                                         AList.update host (nen_token e) (npc_unsetAuthEnv c)\<rparr>\<rparr>
                                  else st)
                       in host_field prefix host field e st')))
     else Inr st)"

fun build_entries :: "npm_lib \<Rightarrow> (gostring \<times> npmrcEntry) list \<Rightarrow> npm_build \<Rightarrow> npm_fail + npm_build" where
  "build_entries lib [] st = Inr st"
| "build_entries lib (ke # rest) st =
    (case build_entry lib ke st of Inl e \<Rightarrow> Inl e | Inr st' \<Rightarrow> build_entries lib rest st')"

text \<open>The top-level auth keys: whether one demands auth, whether one is optional and empty, and its variable.\<close>

fun default_auth ::
  "(gostring \<times> npmrcEntry) list \<Rightarrow> gostring list \<Rightarrow> bool \<times> bool \<times> TokenEnv \<Rightarrow> bool \<times> bool \<times> TokenEnv" where
  "default_auth entries [] acc = acc"
| "default_auth entries (k # ks) (auth, opt, unset) =
    default_auth entries ks
      (case map_of entries k of
         None \<Rightarrow> (auth, opt, unset)
       | Some e \<Rightarrow>
           if emptyOptional e then (auth, True, if tke_name unset = [] then nen_token e else unset)
           else (True, opt, unset))"

definition url_host :: "npm_lib \<Rightarrow> gostring \<Rightarrow> gostring option" where
  "url_host lib r = map_option (\<lambda>u. canonicalizeHostString (gul_hostname u)) (nlb_parse lib r)"

text \<open>The last loop, over the registries.\<close>

fun bind_registries ::
  "npm_lib \<Rightarrow> bool \<Rightarrow> (gostring \<times> gostring) list \<Rightarrow> gostring list \<Rightarrow> gostring list \<Rightarrow> (gostring \<times> gostring) list \<Rightarrow>
   NPMConfig \<Rightarrow> npm_fail + gostring list \<times> (gostring \<times> gostring) list \<times> NPMConfig" where
  "bind_registries lib alwaysAuth tokens [] hosts bound cfg = Inr (hosts, bound, cfg)"
| "bind_registries lib alwaysAuth tokens (r # rs) hosts bound cfg =
    (case url_host lib r of
       None \<Rightarrow> Inl NpmrcPanic
     | Some h \<Rightarrow>
         bind_registries lib alwaysAuth tokens rs (hosts @ [h])
           (case map_of tokens h of None \<Rightarrow> bound | Some t \<Rightarrow> AList.update h t bound)
           (if alwaysAuth then require_auth h cfg else cfg))"

definition apply_default_auth :: "npm_lib \<Rightarrow> bool \<times> bool \<times> TokenEnv \<Rightarrow> NPMConfig \<Rightarrow> npm_fail + NPMConfig" where
  "apply_default_auth lib da cfg =
    (case da of (auth, opt, unset) \<Rightarrow>
       if auth \<or> opt then
         (case url_host lib (npc_defaultRegistry cfg) of
            None \<Rightarrow> Inl NpmrcPanic
          | Some h \<Rightarrow>
              (let c1 = auth_configured h cfg;
                   c2 = (if auth then require_auth h c1 else c1)
               in Inr (if tke_name unset \<noteq> [] \<and> tke_name (token_of (npc_unsetAuthEnv c2) h) = []
                       then c2\<lparr>npc_unsetAuthEnv := AList.update h unset (npc_unsetAuthEnv c2)\<rparr> else c2)))
       else Inr cfg)"

definition finish_config :: "npm_lib \<Rightarrow> bool \<Rightarrow> bool \<times> bool \<times> TokenEnv \<Rightarrow> npm_build \<Rightarrow> npm_fail + NPMConfig" where
  "finish_config lib alwaysAuth da st =
    (case apply_default_auth lib da (nbd_cfg st) of
       Inl e \<Rightarrow> Inl e
     | Inr cfg \<Rightarrow>
         (case bind_registries lib alwaysAuth (nbd_tokens st)
                 (npc_defaultRegistry cfg # map snd (npc_scopes cfg)) [] [] cfg of
            Inl e \<Rightarrow> Inl e
          | Inr (hosts, bound, cfg') \<Rightarrow> Inr (cfg'\<lparr>npc_allow := NewAllowlist hosts, npc_creds := NewRegistryCredentials bound\<rparr>)))"

definition buildNPMConfig :: "npm_lib \<Rightarrow> (gostring \<times> npmrcEntry) list \<Rightarrow> npm_fail + NPMConfig" where
  "buildNPMConfig lib entries =
    (case (case map_of entries ''registry'' of None \<Rightarrow> Inr DefaultNPMRegistry | Some e \<Rightarrow> registryBase lib e) of
       Inl err \<Rightarrow> Inl err
     | Inr defaultRegistry \<Rightarrow>
         (case (case map_of entries ''always-auth'' of None \<Rightarrow> Inr False | Some e \<Rightarrow> npmrcBool e) of
            Inl err \<Rightarrow> Inl err
          | Inr alwaysAuth \<Rightarrow>
              (let da = default_auth entries [''_auth'', ''_authToken'', ''username'', ''_password''] (False, False, no_token);
                   start = \<lparr>nbd_cfg = \<lparr>npc_defaultRegistry = defaultRegistry, npc_scopes = [], npc_requireAuth = [],
                              npc_authConfigured = [], npc_unsetAuthEnv = [], npc_creds = Map.empty, npc_allow = []\<rparr>,
                            nbd_tokens = [], nbd_tokenPath = []\<rparr>
               in case build_entries lib (nlb_order lib entries) start of
                    Inl err \<Rightarrow> Inl err
                  | Inr st \<Rightarrow> finish_config lib alwaysAuth da st)))"

section \<open>Reading the files\<close>

record npmrc_sources =
  nsr_projectDir :: gostring
  nsr_checkoutRoot :: gostring
  nsr_lookupEnv :: "gostring \<Rightarrow> gostring option"
  nsr_allowEnv :: "gostring list"

definition containedDir :: "npm_lib \<Rightarrow> gostring \<Rightarrow> gostring \<Rightarrow> npm_fail + gostring" where
  "containedDir lib dir root0 =
    (let root = (if root0 = [] then dir else root0) in
     case nlb_evalSymlinks lib dir of
       None \<Rightarrow> Inl (NpmrcError ProjectSource 0 ''project directory does not resolve'')
     | Some realDir \<Rightarrow>
         (case nlb_evalSymlinks lib root of
            None \<Rightarrow> Inl (NpmrcError ProjectSource 0 ''checkout root does not resolve'')
          | Some realRoot \<Rightarrow>
              (case nlb_rel lib realRoot realDir of
                 None \<Rightarrow> Inl (NpmrcError ProjectSource 0 ''project directory resolves outside the checkout'')
               | Some rel \<Rightarrow>
                   if rel = ''..'' \<or> has_prefix rel ''../''
                     then Inl (NpmrcError ProjectSource 0 ''project directory resolves outside the checkout'')
                   else Inr realDir)))"

definition not_exist :: "bool \<Rightarrow> read_result" where
  "not_exist b = (if b then ReadAbsent else ReadFails)"

definition readNoFollow :: "npm_lib \<Rightarrow> gostring \<Rightarrow> read_result" where
  "readNoFollow lib name =
    (case nlb_lstat lib name of
       LstatError ne \<Rightarrow> not_exist ne
     | LstatOK kind before \<Rightarrow>
         if kind = LstatSymlink then ReadRefused (NpmrcError ProjectSource 0 ''is a symbolic link'')
         else if kind \<noteq> LstatRegular then ReadRefused (NpmrcError ProjectSource 0 ''is not a regular file'')
         else (case nlb_open lib name of
                 OpenError ne \<Rightarrow> not_exist ne
               | OpenOK opened content \<Rightarrow>
                   if opened \<noteq> before then ReadRefused (NpmrcError ProjectSource 0 ''changed while being read'')
                   else (case content of None \<Rightarrow> ReadFails | Some b \<Rightarrow> ReadBytes b)))"

definition npmrc_layer ::
  "npm_lib \<Rightarrow> npmrcEnv \<Rightarrow> gostring \<Rightarrow> npmrc_source \<Rightarrow> (gostring \<times> npmrcEntry) list \<Rightarrow> npm_fail + (gostring \<times> npmrcEntry) list" where
  "npmrc_layer lib env name source merged =
    (case (if source = ProjectSource then readNoFollow lib name else nlb_readFile lib name) of
       ReadRefused e \<Rightarrow> Inl e
     | ReadAbsent \<Rightarrow> Inr merged
     | ReadFails \<Rightarrow> Inl (NpmrcError source 0 ''unreadable'')
     | ReadBytes b \<Rightarrow>
         (case parseNPMRC lib b source env of
            Inl e \<Rightarrow> Inl e
          | Inr entries \<Rightarrow> Inr (fold (\<lambda>(k, e) m. AList.update k e m) entries merged)))"

definition user_layer :: "npm_lib \<Rightarrow> npmrcEnv \<Rightarrow> npm_fail + (gostring \<times> npmrcEntry) list" where
  "user_layer lib env =
    (case env_get env ''NPM_CONFIG_USERCONFIG'' of
       None \<Rightarrow> Inr []
     | Some p \<Rightarrow>
         if p = [] then Inr []
         else if \<not> has_prefix p ''/'' then Inl (NpmrcError UserConfigSource 0 ''path is not absolute'')
         else npmrc_layer lib env p UserConfigSource [])"

definition project_layer ::
  "npm_lib \<Rightarrow> npmrcEnv \<Rightarrow> npmrc_sources \<Rightarrow> (gostring \<times> npmrcEntry) list \<Rightarrow> npm_fail + (gostring \<times> npmrcEntry) list" where
  "project_layer lib env src merged =
    (if nsr_projectDir src = [] then Inr merged
     else (case containedDir lib (nsr_projectDir src) (nsr_checkoutRoot src) of
             Inl e \<Rightarrow> Inl e
           | Inr dir \<Rightarrow> npmrc_layer lib env (path_join [dir, ''.npmrc'']) ProjectSource merged))"

definition env_registry :: "npmrcEnv \<Rightarrow> (gostring \<times> npmrcEntry) list \<Rightarrow> (gostring \<times> npmrcEntry) list" where
  "env_registry env merged =
    (case env_get env ''NPM_CONFIG_REGISTRY'' of
       None \<Rightarrow> merged
     | Some r \<Rightarrow>
         if r = [] then merged
         else AList.update ''registry'' \<lparr>nen_value = r, nen_raw = [], nen_token = no_token, nen_source = EnvSource, nen_line = 0\<rparr>
                merged)"

definition LoadNPMConfig :: "npm_lib \<Rightarrow> npmrc_sources \<Rightarrow> npm_fail + NPMConfig" where
  "LoadNPMConfig lib src =
    (let env = allowedEnv (nsr_lookupEnv src) (nsr_allowEnv src) in
     case user_layer lib env of
       Inl e \<Rightarrow> Inl e
     | Inr m \<Rightarrow>
         (case project_layer lib env src m of
            Inl e \<Rightarrow> Inl e
          | Inr m' \<Rightarrow> buildNPMConfig lib (env_registry env m')))"

section \<open>What a configuration answers\<close>

definition RegistryFor :: "NPMConfig \<Rightarrow> gostring \<Rightarrow> gostring" where
  "RegistryFor c name =
    (case (if has_prefix name ''@'' then go_cut name ''/'' else None) of
       None \<Rightarrow> npc_defaultRegistry c
     | Some (scope, rest) \<Rightarrow>
         (case map_of (npc_scopes c) (to_lower scope) of None \<Rightarrow> npc_defaultRegistry c | Some r \<Rightarrow> r))"

definition TokenEnvFor :: "npm_lib \<Rightarrow> NPMConfig \<Rightarrow> gostring \<Rightarrow> TokenEnv" where
  "TokenEnvFor lib c name =
    (case url_host lib (RegistryFor c name) of None \<Rightarrow> no_token | Some h \<Rightarrow> token_of (npc_unsetAuthEnv c) h)"

definition RegistryID :: "npm_lib \<Rightarrow> gostring \<Rightarrow> gostring" where
  "RegistryID lib raw =
    (case nlb_parse lib raw of
       None \<Rightarrow> []
     | Some u \<Rightarrow>
         if gul_host u = [] then []
         else (let host = canonicalizeHostString (gul_hostname u);
                   bracketed = (if CHR '':'' \<in> set host then ''['' @ host @ '']'' else host);
                   full = (if gul_port u \<noteq> [] then bracketed @ '':'' @ gul_port u else bracketed)
               in nlb_print lib \<lparr>gul_scheme = to_lower (gul_scheme u), gul_user = False, gul_hostname = host,
                    gul_port = gul_port u, gul_host = full, gul_path = trim_slashes (gul_path u), gul_rawQuery = [],
                    gul_fragment = []\<rparr>))"

definition PolicyFor :: "npm_lib \<Rightarrow> NPMConfig \<Rightarrow> gostring \<Rightarrow> acquire_policy option" where
  "PolicyFor lib c name =
    (let reg = RegistryFor c name in
     map_option (\<lambda>host. \<lparr>apl_allow = npc_allow c,
         apl_registries = [''npm'' \<mapsto> \<lparr>rgc_baseURL = reg, rgc_requireAuth = host \<in> set (npc_requireAuth c),
           rgc_authConfigured = host \<in> set (npc_authConfigured c) \<or> host \<in> set (npc_requireAuth c)\<rparr>],
         apl_backends = [''npm'' \<mapsto> NPMBackend], apl_creds = npc_creds c\<rparr>)
       (url_host lib reg))"

definition NPMNameOf :: "gostring \<Rightarrow> gostring option" where
  "NPMNameOf purl = (if ecosystemOf purl \<noteq> Some ''npm'' then None else map_option fst (purl_coordinate purl))"

section \<open>Only the allowlisted environment counts\<close>

definition same_env :: "npmrcEnv \<Rightarrow> npmrcEnv \<Rightarrow> bool" where
  "same_env e e' \<longleftrightarrow> nev_allowed e = nev_allowed e' \<and> env_get e = env_get e'"

lemma same_missing: "same_env e e' \<Longrightarrow> first_missing e ps = first_missing e' ps"
  by (induction e ps rule: first_missing.induct) (simp_all add: same_env_def)

lemma same_auth_refs: "same_env e e' \<Longrightarrow> auth_refs e ps blank token = auth_refs e' ps blank token"
  by (induction e ps blank token rule: auth_refs.induct) (simp_all add: same_env_def split: option.split)

lemma same_expand:
  assumes "same_env e e'"
  shows "expandRefs s e = expandRefs s e'" "expandEnv s src l e = expandEnv s src l e'"
    "expandAuthValue s src l e = expandAuthValue s src l e'"
proof -
  have "expand_piece e = expand_piece e'" using assms unfolding same_env_def expand_piece_def fun_eq_iff by (auto split: ref_piece.split)
  then show r: "expandRefs s e = expandRefs s e'" using same_missing [OF assms] by (simp add: expandRefs_def)
  show "expandEnv s src l e = expandEnv s src l e'" unfolding expandEnv_def r by (rule refl)
  show "expandAuthValue s src l e = expandAuthValue s src l e'"
    unfolding expandAuthValue_def r same_auth_refs [OF assms] by (rule refl)
qed

lemma same_line:
  assumes "same_env e e'"
  shows "parse_line lib src e l raw = parse_line lib src e' l raw"
  unfolding parse_line_def same_expand(2,3) [OF assms] by (rule refl)

lemma same_lines: "same_env e e' \<Longrightarrow> parse_lines lib src e l out raws = parse_lines lib src e' l out raws"
  by (induction lib src e l out raws rule: parse_lines.induct) (simp add: same_line split: sum.split option.split prod.split)+

lemma same_layer:
  assumes "same_env e e'"
  shows "npmrc_layer lib e name src m = npmrc_layer lib e' name src m"
  unfolding npmrc_layer_def parseNPMRC_def same_lines [OF assms] by (rule refl)

lemma same_load:
  assumes "same_env (allowedEnv (nsr_lookupEnv s) (nsr_allowEnv s)) (allowedEnv (nsr_lookupEnv s') (nsr_allowEnv s'))"
    and "nsr_projectDir s = nsr_projectDir s'" and "nsr_checkoutRoot s = nsr_checkoutRoot s'"
  shows "LoadNPMConfig lib s = LoadNPMConfig lib s'"
proof -
  note g = assms(1) [unfolded same_env_def, THEN conjunct2]
  note l = same_layer [OF assms(1)]
  show ?thesis
    unfolding LoadNPMConfig_def Let_def user_layer_def project_layer_def env_registry_def g l assms(2,3) by (rule refl)
qed

text \<open>C30: a repository's .npmrc cannot draw a secret from the scanner's environment. Two environments that agree on
  npm's own variables and on the names the operator lists load the same configuration, or fail with the
  same error, whatever references the files make: no other variable can reach a registry, a token or
  even an error text.\<close>

theorem npm_env_confined:
  assumes "\<And>n. n \<in> set DefaultNPMRCEnv \<or> n \<in> trim_space ` set allow \<Longrightarrow> lookup n = lookup' n"
  shows "LoadNPMConfig lib \<lparr>nsr_projectDir = dir, nsr_checkoutRoot = root, nsr_lookupEnv = lookup, nsr_allowEnv = allow\<rparr>
    = LoadNPMConfig lib \<lparr>nsr_projectDir = dir, nsr_checkoutRoot = root, nsr_lookupEnv = lookup', nsr_allowEnv = allow\<rparr>"
proof (rule same_load)
  have "env_get (allowedEnv lookup allow) n = env_get (allowedEnv lookup' allow) n" for n
    using assms [of n] by (auto simp: env_get_def allowedEnv_def)
  then show "same_env (allowedEnv (nsr_lookupEnv \<lparr>nsr_projectDir = dir, nsr_checkoutRoot = root, nsr_lookupEnv = lookup,
        nsr_allowEnv = allow\<rparr>) (nsr_allowEnv \<lparr>nsr_projectDir = dir, nsr_checkoutRoot = root, nsr_lookupEnv = lookup,
        nsr_allowEnv = allow\<rparr>))
      (allowedEnv (nsr_lookupEnv \<lparr>nsr_projectDir = dir, nsr_checkoutRoot = root, nsr_lookupEnv = lookup',
        nsr_allowEnv = allow\<rparr>) (nsr_allowEnv \<lparr>nsr_projectDir = dir, nsr_checkoutRoot = root, nsr_lookupEnv = lookup',
        nsr_allowEnv = allow\<rparr>))"
    by (simp add: same_env_def fun_eq_iff) (simp add: allowedEnv_def)
qed simp_all

section \<open>Where a token comes from\<close>

lemma update_set: "set (AList.update k v al) \<subseteq> insert (k, v) (set al)"
  by (induction al) auto

definition token_source :: "npm_lib \<Rightarrow> (gostring \<times> npmrcEntry) list \<Rightarrow> gostring \<times> gostring \<Rightarrow> bool" where
  "token_source lib entries ht \<longleftrightarrow>
    (\<exists>prefix e u. (prefix @ '':_authToken'', e) \<in> set entries \<and> has_prefix (prefix @ '':_authToken'') ''//''
       \<and> nlb_parse lib (''https:'' @ prefix) = Some u \<and> \<not> gul_user u
       \<and> fst ht = canonicalizeHostString (gul_hostname u) \<and> snd ht = nen_value e \<and> snd ht \<noteq> [])"

lemma host_field_other:
  assumes "host_field prefix host field e st = Inr st'" and "field \<noteq> ''_authToken''"
  shows "nbd_tokens st' = nbd_tokens st"
proof (cases "field = ''always-auth''")
  case True
  note h = assms(1) [unfolded host_field_def if_not_P [OF assms(2)] if_P [OF True]]
  show ?thesis using h by (cases "npmrcBool e") (auto split: if_splits)
next
  case False
  note h = assms(1) [unfolded host_field_def if_not_P [OF assms(2)] if_not_P [OF False]]
  show ?thesis
    using h by (cases "field \<in> {''_auth'', ''_password'', ''username'', ''certfile'', ''keyfile''}"; cases "emptyOptional e")
      (simp_all only: if_True if_False Let_def sum.inject simp_thms, auto)
qed

lemma host_field_tokens:
  assumes "host_field prefix host field e st = Inr st'"
  shows "set (nbd_tokens st') \<subseteq> set (nbd_tokens st)
    \<or> field = ''_authToken'' \<and> nen_value e \<noteq> [] \<and> set (nbd_tokens st') \<subseteq> insert (host, nen_value e) (set (nbd_tokens st))"
proof (cases "field = ''_authToken''")
  case True
  note h = assms [unfolded host_field_def if_P [OF True] Let_def]
  show ?thesis
    using h True update_set [of host "nen_value e" "nbd_tokens st"] by (auto simp del: update_set split: if_splits)
next
  case False
  then show ?thesis using host_field_other [OF assms] by simp
qed

lemma build_entry_tokens:
  assumes "build_entry lib ke st = Inr st'" and "ke \<in> set entries"
    and "\<And>ht. ht \<in> set (nbd_tokens st) \<Longrightarrow> token_source lib entries ht" and "ht \<in> set (nbd_tokens st')"
  shows "token_source lib entries ht"
proof (cases "ht \<in> set (nbd_tokens st)")
  case True
  then show ?thesis by (rule assms(3))
next
  case False
  obtain k e where ke: "ke = (k, e)" by fastforce
  have n: "\<not> (has_prefix k ''@'' \<and> has_suffix k '':registry'')"
    using assms(1,4) False ke by (auto simp: build_entry_def Let_def split: if_splits sum.splits)
  have p: "has_prefix k ''//''"
    using assms(1,4) False ke n by (auto simp: build_entry_def Let_def split: if_splits)
  obtain i where i: "last_index_byte k CHR '':'' = Some i"
    using assms(1) ke n p by (auto simp: build_entry_def split: option.splits)
  obtain u where u: "nlb_parse lib (''https:'' @ take i k) = Some u" "\<not> gul_user u"
    using assms(1) ke n p i by (auto simp: build_entry_def Let_def split: option.splits if_splits)
  obtain st1 where h: "host_field (take i k) (canonicalizeHostString (gul_hostname u)) (drop (i + 1) k) e st1 = Inr st'"
      "nbd_tokens st1 = nbd_tokens st"
    using assms(1) ke n p i u by (auto simp: build_entry_def Let_def split: if_splits)
  from host_field_tokens [OF h(1)] h(2) False assms(4)
  have f: "drop (i + 1) k = ''_authToken''" "nen_value e \<noteq> []" "ht = (canonicalizeHostString (gul_hostname u), nen_value e)"
    by auto
  have "k = take i k @ '':_authToken''" using last_index_byte_cut [OF i] f(1) by simp
  then show ?thesis unfolding token_source_def using assms(2) ke u p f by (metis fst_conv snd_conv)
qed

lemma build_entries_tokens:
  assumes "build_entries lib kes st = Inr st'" and "set kes \<subseteq> set entries"
    and "\<And>ht. ht \<in> set (nbd_tokens st) \<Longrightarrow> token_source lib entries ht" and "ht \<in> set (nbd_tokens st')"
  shows "token_source lib entries ht"
  using assms
proof (induction lib kes st rule: build_entries.induct)
  case (2 lib ke rest st)
  then obtain st1 where s: "build_entry lib ke st = Inr st1" "build_entries lib rest st1 = Inr st'"
    by (auto split: sum.splits)
  show ?case
    by (rule "2.IH" [OF s]) (use "2.prems" build_entry_tokens [OF s(1)] in auto)
qed simp

lemma bind_registries_bound:
  assumes "bind_registries lib aa tokens rs hosts bound cfg = Inr (hosts', bound', cfg')"
    and "\<And>h t. (h, t) \<in> set bound \<Longrightarrow> h \<in> set hosts \<and> (h, t) \<in> set tokens" and "(h, t) \<in> set bound'"
  shows "h \<in> set hosts' \<and> (h, t) \<in> set tokens"
  using assms
proof (induction lib aa tokens rs hosts bound cfg rule: bind_registries.induct)
  case (2 lib aa tokens r rs hosts bound cfg)
  obtain g where g: "url_host lib r = Some g" using "2.prems"(1) by (auto split: option.splits)
  let ?b = "case map_of tokens g of None \<Rightarrow> bound | Some t \<Rightarrow> AList.update g t bound"
  have "h \<in> set (hosts @ [g]) \<and> (h, t) \<in> set tokens" if "(h, t) \<in> set ?b" for h t
  proof (cases "map_of tokens g")
    case None
    then show ?thesis using that "2.prems"(2) by auto
  next
    case (Some t')
    then have "(h, t) \<in> insert (g, t') (set bound)" using that update_set [of g t' bound] by auto
    then show ?thesis using "2.prems"(2) map_of_SomeD [OF Some] by auto
  qed
  then show ?case using "2.IH" [OF g] "2.prems"(1,3) g by simp
qed auto

section \<open>Where a registry comes from\<close>

text \<open>The registries of a configuration, and what may be one: npm's own when the files name no default, or what
  registryBase makes of a registry entry or of a scope's registry entry.\<close>

definition registries :: "NPMConfig \<Rightarrow> gostring list" where
  "registries c = npc_defaultRegistry c # map snd (npc_scopes c)"

definition registry_source :: "npm_lib \<Rightarrow> (gostring \<times> npmrcEntry) list \<Rightarrow> gostring \<Rightarrow> bool" where
  "registry_source lib entries r \<longleftrightarrow>
    map_of entries ''registry'' = None \<and> r = DefaultNPMRegistry \<or>
    (\<exists>k e. (k, e) \<in> set entries \<and> (k = ''registry'' \<or> has_prefix k ''@'' \<and> has_suffix k '':registry'')
       \<and> registryBase lib e = Inr r)"

lemma require_auth_registries [simp]:
  "registries (require_auth h c) = registries c" "registries (auth_configured h c) = registries c"
  by (simp_all add: registries_def require_auth_def auth_configured_def)

lemma registries_update [simp]:
  "registries (c\<lparr>npc_unsetAuthEnv := x\<rparr>) = registries c" "registries (c\<lparr>npc_allow := y, npc_creds := z\<rparr>) = registries c"
  by (simp_all add: registries_def)

lemma host_field_registries:
  assumes "host_field prefix host field e st = Inr st'"
  shows "registries (nbd_cfg st') = registries (nbd_cfg st)"
proof (cases "field = ''_authToken''")
  case True
  show ?thesis
    using assms [unfolded host_field_def if_P [OF True] Let_def] by (auto split: if_splits)
next
  case f: False
  show ?thesis
  proof (cases "field = ''always-auth''")
    case True
    show ?thesis
      using assms [unfolded host_field_def if_not_P [OF f] if_P [OF True]]
      by (cases "npmrcBool e") (auto split: if_splits)
  next
    case False
    show ?thesis
      using assms [unfolded host_field_def if_not_P [OF f] if_not_P [OF False]]
      by (cases "field \<in> {''_auth'', ''_password'', ''username'', ''certfile'', ''keyfile''}"; cases "emptyOptional e")
        (simp_all only: if_True if_False Let_def sum.inject simp_thms, auto)
  qed
qed

lemma build_entry_registries:
  assumes "build_entry lib ke st = Inr st'" and "ke \<in> set entries"
    and "\<And>r. r \<in> set (registries (nbd_cfg st)) \<Longrightarrow> registry_source lib entries r"
    and "r \<in> set (registries (nbd_cfg st'))"
  shows "registry_source lib entries r"
proof (cases "r \<in> set (registries (nbd_cfg st))")
  case True
  then show ?thesis by (rule assms(3))
next
  case False
  obtain k e where ke: "ke = (k, e)" by fastforce
  show ?thesis
  proof (cases "has_prefix k ''@'' \<and> has_suffix k '':registry''")
    case True
    obtain b where b: "registryBase lib e = Inr b"
      "st' = st\<lparr>nbd_cfg := (nbd_cfg st)\<lparr>npc_scopes :=
        AList.update (to_lower (trim_suffix k '':registry'')) b (npc_scopes (nbd_cfg st))\<rparr>\<rparr>"
      using assms(1) ke True by (auto simp: build_entry_def Let_def split: if_splits sum.splits)
    have "r = b"
      using assms(4) False update_set [of "to_lower (trim_suffix k '':registry'')" b "npc_scopes (nbd_cfg st)"]
      by (auto simp: b(2) registries_def)
    then show ?thesis unfolding registry_source_def using assms(2) ke True b(1) by blast
  next
    case n: False
    have p: "has_prefix k ''//''"
      using assms(1,4) False ke n by (auto simp: build_entry_def Let_def split: if_splits)
    obtain i where i: "last_index_byte k CHR '':'' = Some i"
      using assms(1) ke n p by (auto simp: build_entry_def split: option.splits)
    obtain u where u: "nlb_parse lib (''https:'' @ take i k) = Some u" "\<not> gul_user u"
      using assms(1) ke n p i by (auto simp: build_entry_def Let_def split: option.splits if_splits)
    obtain st1 where h: "host_field (take i k) (canonicalizeHostString (gul_hostname u)) (drop (i + 1) k) e st1 = Inr st'"
        "registries (nbd_cfg st1) = registries (nbd_cfg st)"
      using assms(1) ke n p i u by (auto simp: build_entry_def Let_def split: if_splits)
    then show ?thesis using host_field_registries [OF h(1)] assms(4) False by simp
  qed
qed

lemma build_entries_registries:
  assumes "build_entries lib kes st = Inr st'" and "set kes \<subseteq> set entries"
    and "\<And>r. r \<in> set (registries (nbd_cfg st)) \<Longrightarrow> registry_source lib entries r"
    and "r \<in> set (registries (nbd_cfg st'))"
  shows "registry_source lib entries r"
  using assms
proof (induction lib kes st rule: build_entries.induct)
  case (2 lib ke rest st)
  then obtain st1 where s: "build_entry lib ke st = Inr st1" "build_entries lib rest st1 = Inr st'"
    by (auto split: sum.splits)
  show ?case
    by (rule "2.IH" [OF s]) (use "2.prems" build_entry_registries [OF s(1)] in auto)
qed simp

lemma bind_registries_hosts:
  "bind_registries lib aa tokens rs hosts bound cfg = Inr (hosts', bound', cfg') \<Longrightarrow>
    registries cfg' = registries cfg \<and> map Some hosts' = map Some hosts @ map (url_host lib) rs"
proof (induction lib aa tokens rs hosts bound cfg rule: bind_registries.induct)
  case (2 lib aa tokens r rs hosts bound cfg)
  obtain g where g: "url_host lib r = Some g" using "2.prems"(1) by (auto split: option.splits)
  show ?case using "2.IH" [OF g] "2.prems" g by (cases aa) auto
qed simp

lemma apply_default_auth_registries:
  "apply_default_auth lib da c = Inr c' \<Longrightarrow> registries c' = registries c"
  by (auto simp: apply_default_auth_def Let_def split: prod.splits if_splits option.splits)

lemma finish_config_hosts:
  assumes "finish_config lib aa da st = Inr cfg"
  shows "\<exists>hosts bound. npc_allow cfg = NewAllowlist hosts \<and> npc_creds cfg = NewRegistryCredentials bound
    \<and> map Some hosts = map (url_host lib) (registries cfg) \<and> registries cfg = registries (nbd_cfg st)
    \<and> (\<forall>(h, t)\<in>set bound. h \<in> set hosts \<and> (h, t) \<in> set (nbd_tokens st))"
proof -
  obtain c hosts bound c' where f: "apply_default_auth lib da (nbd_cfg st) = Inr c"
      "bind_registries lib aa (nbd_tokens st) (registries c) [] [] c = Inr (hosts, bound, c')"
      "cfg = c'\<lparr>npc_allow := NewAllowlist hosts, npc_creds := NewRegistryCredentials bound\<rparr>"
    using assms by (auto simp: finish_config_def registries_def simp del: bind_registries.simps split: sum.splits)
  show ?thesis
    using f bind_registries_hosts [OF f(2)] apply_default_auth_registries [OF f(1)]
      bind_registries_bound [OF f(2)]
    by (intro exI [where x = hosts] exI [where x = bound]) auto
qed

text \<open>A host is allowed exactly when it is the host of one of the registries.\<close>

lemma hosts_allowed:
  assumes "map Some hosts = map (url_host lib) rs"
  shows "allowlist_Allows (NewAllowlist hosts) host \<longleftrightarrow>
    (\<exists>r\<in>set rs. \<exists>g. url_host lib r = Some g \<and> canonicalizeHostString g = canonicalizeHostString host)"
proof -
  have "Some ` set hosts = url_host lib ` set rs" using arg_cong [OF assms, of set] by simp
  then have "g \<in> set hosts \<longleftrightarrow> (\<exists>r\<in>set rs. url_host lib r = Some g)" for g
    by (metis (mono_tags, lifting) image_iff option.inject)
  then show ?thesis unfolding allowlist_Allows_def NewAllowlist_def set_map image_iff by metis
qed

lemma buildNPMConfig_parts:
  assumes "buildNPMConfig lib entries = Inr cfg"
  shows "\<exists>dr aa da start st.
    (case map_of entries ''registry'' of None \<Rightarrow> Inr DefaultNPMRegistry | Some e \<Rightarrow> registryBase lib e) = Inr dr \<and>
    nbd_tokens start = [] \<and> registries (nbd_cfg start) = [dr] \<and>
    build_entries lib (nlb_order lib entries) start = Inr st \<and> finish_config lib aa da st = Inr cfg"
proof -
  obtain dr where dr: "(case map_of entries ''registry'' of None \<Rightarrow> Inr DefaultNPMRegistry | Some e \<Rightarrow> registryBase lib e) = Inr dr"
    using assms(1) by (auto simp: buildNPMConfig_def split: sum.splits)
  obtain aa where aa: "(case map_of entries ''always-auth'' of None \<Rightarrow> Inr False | Some e \<Rightarrow> npmrcBool e) = Inr aa"
    using assms(1) [unfolded buildNPMConfig_def dr sum.case] by (auto split: sum.splits)
  define start where "start = \<lparr>nbd_cfg = \<lparr>npc_defaultRegistry = dr, npc_scopes = [], npc_requireAuth = [],
    npc_authConfigured = [], npc_unsetAuthEnv = [], npc_creds = Map.empty, npc_allow = []\<rparr>, nbd_tokens = [], nbd_tokenPath = []\<rparr>"
  note bd = assms(1) [unfolded buildNPMConfig_def dr aa sum.case Let_def, folded start_def]
  obtain st where e: "build_entries lib (nlb_order lib entries) start = Inr st"
    using bd by (cases "build_entries lib (nlb_order lib entries) start") simp_all
  then have "finish_config lib aa (default_auth entries [''_auth'', ''_authToken'', ''username'', ''_password'']
      (False, False, no_token)) st = Inr cfg" using bd by simp
  moreover have "nbd_tokens start = []" "registries (nbd_cfg start) = [dr]" by (simp_all add: start_def registries_def)
  ultimately show ?thesis using dr e by blast
qed

text \<open>C31: a token is bound only to the host its own key names, and only where a registry lives. The allowlist
  holds exactly the hosts of the configuration's registries, and each of these is the default of npm when the
  files name none, or what registryBase makes of a registry entry or of a scope's registry entry: a token key
  adds no registry and no host. Whatever token the configuration presents to a host was the whole value of a
  //host/path/:_authToken entry of the files, whose key parses, without userinfo, to that host; and the host
  is the host of one of the registries.\<close>

theorem npm_tokens_bound:
  assumes "buildNPMConfig lib entries = Inr cfg" and "set (nlb_order lib entries) \<subseteq> set entries"
  shows "(\<forall>host. allowlist_Allows (npc_allow cfg) host \<longleftrightarrow>
      (\<exists>r\<in>set (registries cfg). \<exists>g. url_host lib r = Some g \<and> canonicalizeHostString g = canonicalizeHostString host))
    \<and> list_all (registry_source lib entries) (registries cfg)
    \<and> (\<forall>host. creds_For (npc_creds cfg) host = [] \<or>
        allowlist_Allows (npc_allow cfg) host
        \<and> (\<exists>prefix e u. (prefix @ '':_authToken'', e) \<in> set entries \<and> has_prefix (prefix @ '':_authToken'') ''//''
             \<and> nlb_parse lib (''https:'' @ prefix) = Some u \<and> \<not> gul_user u
             \<and> canonicalizeHostString (canonicalizeHostString (gul_hostname u)) = canonicalizeHostString host
             \<and> creds_For (npc_creds cfg) host = nen_value e))"
proof -
  obtain dr aa da start st where b:
    "(case map_of entries ''registry'' of None \<Rightarrow> Inr DefaultNPMRegistry | Some e \<Rightarrow> registryBase lib e) = Inr dr"
    "nbd_tokens start = []" "registries (nbd_cfg start) = [dr]"
    "build_entries lib (nlb_order lib entries) start = Inr st" "finish_config lib aa da st = Inr cfg"
    using buildNPMConfig_parts [OF assms(1)] by blast
  obtain hosts bound where f: "npc_allow cfg = NewAllowlist hosts" "npc_creds cfg = NewRegistryCredentials bound"
      "map Some hosts = map (url_host lib) (registries cfg)" "registries cfg = registries (nbd_cfg st)"
      "\<forall>(h, t)\<in>set bound. h \<in> set hosts \<and> (h, t) \<in> set (nbd_tokens st)"
    using finish_config_hosts [OF b(5)] by blast
  have allowed: "allowlist_Allows (npc_allow cfg) host \<longleftrightarrow>
      (\<exists>r\<in>set (registries cfg). \<exists>g. url_host lib r = Some g \<and> canonicalizeHostString g = canonicalizeHostString host)"
    for host unfolding f(1) by (rule hosts_allowed [OF f(3)])
  have "registry_source lib entries dr"
    using b(1) by (auto simp: registry_source_def split: option.splits dest: map_of_SomeD)
  then have "registry_source lib entries r" if "r \<in> set (registries cfg)" for r
    using build_entries_registries [OF b(4) assms(2), of r] that b(3) f(4) by simp
  moreover have "allowlist_Allows (npc_allow cfg) host
        \<and> (\<exists>prefix e u. (prefix @ '':_authToken'', e) \<in> set entries \<and> has_prefix (prefix @ '':_authToken'') ''//''
             \<and> nlb_parse lib (''https:'' @ prefix) = Some u \<and> \<not> gul_user u
             \<and> canonicalizeHostString (canonicalizeHostString (gul_hostname u)) = canonicalizeHostString host
             \<and> creds_For (npc_creds cfg) host = nen_value e)"
    if c: "creds_For (npc_creds cfg) host \<noteq> []" for host
  proof -
    have "map_of (rev (map (\<lambda>(h, c). (canonicalizeHostString h, c)) bound)) (canonicalizeHostString host)
        = Some (creds_For (npc_creds cfg) host)"
      using c by (auto simp: f(2) creds_For_def NewRegistryCredentials_def split: option.splits)
    then obtain h where h: "(h, creds_For (npc_creds cfg) host) \<in> set bound"
        "canonicalizeHostString h = canonicalizeHostString host"
      by (fastforce dest: map_of_SomeD)
    then have m: "h \<in> set hosts" "(h, creds_For (npc_creds cfg) host) \<in> set (nbd_tokens st)" using f(5) by auto
    have "token_source lib entries (h, creds_For (npc_creds cfg) host)"
      by (rule build_entries_tokens [OF b(4) assms(2) _ m(2)]) (simp add: b(2))
    moreover have "allowlist_Allows (npc_allow cfg) host"
      unfolding f(1) allowlist_Allows_def NewAllowlist_def set_map h(2) [symmetric] using m(1) by (rule imageI)
    ultimately show ?thesis using h(2) unfolding token_source_def by (metis fst_conv snd_conv)
  qed
  ultimately show ?thesis using allowed by (auto simp: list_all_iff)
qed

section \<open>A load\<close>

text \<open>A URL library for hosts without ports, and a project whose .npmrc binds NPM_TOKEN to r.io and asks for a CI secret.\<close>

definition run_parse :: "gostring \<Rightarrow> go_url option" where
  "run_parse s =
    (case go_cut s ''://'' of
       None \<Rightarrow> None
     | Some (scheme, rest) \<Rightarrow>
         (let h = (case go_cut rest ''/'' of None \<Rightarrow> rest | Some (a, b) \<Rightarrow> a) in
          Some \<lparr>gul_scheme = scheme, gul_user = CHR ''@'' \<in> set h, gul_hostname = h, gul_port = [], gul_host = h,
                gul_path = drop (length h) rest, gul_rawQuery = [], gul_fragment = []\<rparr>))"

definition run_npmrc :: "gostring \<Rightarrow> npm_lib" where
  "run_npmrc text =
    \<lparr>nlb_parse = run_parse, nlb_print = (\<lambda>u. gul_scheme u @ ''://'' @ gul_host u @ gul_path u), nlb_unquote = (\<lambda>s. None),
     nlb_evalSymlinks = Some, nlb_rel = (\<lambda>a b. Some ''.''), nlb_readFile = (\<lambda>n. ReadAbsent),
     nlb_lstat = (\<lambda>n. LstatOK LstatRegular 1), nlb_open = (\<lambda>n. OpenOK 1 (Some text)), nlb_order = (\<lambda>m. m)\<rparr>"

definition ci_env :: "gostring \<Rightarrow> gostring \<Rightarrow> gostring option" where
  "ci_env secret n = (if n = ''CI_SECRET'' then Some secret else if n = ''NPM_TOKEN'' then Some ''tok'' else None)"

theorem npm_env_confined_witness:
  "(let load = (\<lambda>secret. LoadNPMConfig (run_npmrc ''//r.io/:_authToken=${CI_SECRET}'')
      \<lparr>nsr_projectDir = ''/p'', nsr_checkoutRoot = [], nsr_lookupEnv = ci_env secret, nsr_allowEnv = ['' R_TOKEN '']\<rparr>)
    in load ''hush'' = load ''other'')"
proof -
  have a: "n \<in> set DefaultNPMRCEnv \<or> n \<in> trim_space ` set ['' R_TOKEN ''] \<Longrightarrow> ci_env ''hush'' n = ci_env ''other'' n" for n
  proof -
    assume "n \<in> set DefaultNPMRCEnv \<or> n \<in> trim_space ` set ['' R_TOKEN '']"
    then have "n \<in> set (map trim_space ['' R_TOKEN ''] @ DefaultNPMRCEnv)" by auto
    moreover have "''CI_SECRET'' \<notin> set (map trim_space ['' R_TOKEN ''] @ DefaultNPMRCEnv)" by code_simp
    ultimately show ?thesis by (auto simp: ci_env_def)
  qed
  show ?thesis unfolding Let_def by (rule npm_env_confined, rule a)
qed

definition run_entries :: "(gostring \<times> npmrcEntry) list" where
  "run_entries =
    [(''registry'', \<lparr>nen_value = ''https://R.io'', nen_raw = ''https://R.io'', nen_token = no_token,
        nen_source = ProjectSource, nen_line = 1\<rparr>),
     (''//r.io/:_authToken'', \<lparr>nen_value = ''tok'', nen_raw = ''${NPM_TOKEN}'', nen_token = no_token,
        nen_source = ProjectSource, nen_line = 2\<rparr>),
     (''//evil.io/:_authToken'', \<lparr>nen_value = ''other'', nen_raw = ''other'', nen_token = no_token,
        nen_source = ProjectSource, nen_line = 3\<rparr>)]"

lemma run_config: "\<exists>cfg. buildNPMConfig (run_npmrc []) run_entries = Inr cfg \<and> creds_For (npc_creds cfg) ''r.io'' = ''tok''
    \<and> \<not> allowlist_Allows (npc_allow cfg) ''evil.io''"
proof -
  have "(case buildNPMConfig (run_npmrc []) run_entries of Inl e \<Rightarrow> False
    | Inr cfg \<Rightarrow> creds_For (npc_creds cfg) ''r.io'' = ''tok'' \<and> \<not> allowlist_Allows (npc_allow cfg) ''evil.io'')" by code_simp
  then show ?thesis by (auto split: sum.splits)
qed

theorem npm_tokens_bound_witness:
  "\<exists>cfg. buildNPMConfig (run_npmrc []) run_entries = Inr cfg \<and> allowlist_Allows (npc_allow cfg) ''r.io''
    \<and> \<not> allowlist_Allows (npc_allow cfg) ''evil.io''"
proof -
  obtain cfg where c: "buildNPMConfig (run_npmrc []) run_entries = Inr cfg" "creds_For (npc_creds cfg) ''r.io'' = ''tok''"
      "\<not> allowlist_Allows (npc_allow cfg) ''evil.io''"
    using run_config by blast
  have o: "set (nlb_order (run_npmrc []) run_entries) \<subseteq> set run_entries" by (simp add: run_npmrc_def)
  have "creds_For (npc_creds cfg) ''r.io'' \<noteq> []" using c(2) by simp
  with npm_tokens_bound [OF c(1) o] c show ?thesis by blast
qed

end
