(* ===== verification/Spec2Isabelle.thy ===== *)
theory Spec2Isabelle
  imports Npm_Version Nuget_Version Maven_Version Pep440 Go_Toolchain Affected_Range Go_Manifest Disqualification
    Poe_Verdict Report_Model Report_Build Statestore
    Go_Net Hostmatch Trigger_Grounds Trigger_Path Trigger_Finding Trigger_Scan Intel_Signals
    Trigger_Diff Trigger_Run Trigger_Cover Projection Reach_Ingress
    Plugin_Types Vuln_Class Advisory_Facts Advisory_Source Advisory_Intake Advisory_Table
    Attribution Orchestrator Artifact_Store Cache_Digest Cache_Acquire Npmrc
begin

text \<open>
  Ferralon Assay: the core that decides, ranks, reports and stores a vulnerability verdict.

  The program scans a codebase for the vulnerabilities of a work set. For each advisory a pipeline of
  stages leaves artifacts in a store (src/pipeline); the trigger reads them and makes one row of a
  report (src/trigger); the report is built, validated and migrated (src/report), ranked by a file
  of exploitation signals (src/internal/intel) and kept under compare-and-swap in a state store
  (src/statestore). A row says disqualified, not_exploitable, reachable_candidate, undetermined or
  malicious_package_present. The program's promise is that a refuting verdict is never an absence of
  evidence; most lemmas here bound what a refutation may rest on.

  Theories, in the order of their use, with the code each one follows:

  Assay_Prelude: Go strings (a gostring is the byte list of a string; strings.Split, Cut,
  TrimSpace, ToLower, strconv.Atoi and the like) and three-way comparisons. ToLower, ToUpper and EqualFold
  treat ASCII and the few other runes that map into ASCII; the code compares their results with
  ASCII text only.

  Npm_Version, Nuget_Version, Maven_Version, Pep440, Go_Toolchain: the version parsers, orders and range
  matchers of src/pipeline/npm_version.go, nuget_version.go, maven_version.go, pep440.go with
  src/internal/pep440, gotoolchain_version.go and gotoolchain.go. A Go int is an int with the bound of
  Atoi written out. Each order is related to a linear order on a key, and each matcher to the
  interval it stands for.

  Affected_Range (affected_bounds.go and the range functions of stages.go): whether a version is outside an advisory's
  affected set; the semver library is a parameter. Go_Manifest: whether a Go manifest proves a module
  absent. Disqualification: the stages that record a disqualification or a malicious package, over the
  record \<open>case_store\<close> of the artifacts they read; a query of the store is an error, nothing, a payload
  that does not decode, or a payload.

  Vuln_Class (src/vulnclass), Advisory_Facts, Advisory_Source, Advisory_Intake, Advisory_Table
  (advisory_source.go, advisory_bundle_source.go and the intake of stages.go): the way of an advisory into an assessment.
  A document is decoded into facts; a source serves documents whose digest its manifest pins, and the
  locale \<open>advisory_source\<close> is what every source promises (whole facts or none), interpreted on the
  corpus directory, the bundle and the literal AdvisoryTable; the intake writes the artifact that
  Disqualification reads, so a refutation is traced back to the document it rests on. Files, SHA-256
  and JSON decoding are the record \<open>corpus_lib\<close> and arguments. Attribution (attribution.go): the
  review entries kept beside the corpus and their coverage report.

  Artifact_Store (src/artifact) and Orchestrator (src/assessment, orchestrator.go): what the stages write to and
  what runs them. The locale \<open>artifact_store\<close> is the contract of a store of artifacts, interpreted on the
  in-memory store and on the file store, which keeps the artifacts its encoding decodes back. Shared views
  are a step relation in which a slot outlives its map entry. The locale \<open>assessment_store\<close> is
  what a run needs of the assessment records, interpreted on their in-memory store.

  Cache_Digest and Cache_Acquire (src/artifactcache and its acquire): the content-addressed cache of dependency
  artifacts. A digest passes a closed gate before a path is built from it; Acquire resolves a package URL,
  checks the target, follows redirects, retries within bounds and publishes only bytes whose hash is the
  digest. The network is any function of the requests sent so far, and the state keeps the requests and
  the waits, so what is sent to whom and for how long is a statement about that log. The two loops end
  without fuel: ten hops, three attempts. Npmrc (npmrc.go): the npm configuration that gives a package its
  policy; the URL and quoting libraries, the files and the order of a map's loop are the record
  \<open>npm_lib\<close>.

  Poe_Verdict (src/verdict), Report_Model (src/report/report.go), Report_Build (builder.go, migrate.go):
  the vocabulary, Validate, the builder and the migration of stored documents.

  Statestore (src/statestore): the state, Merge, the fetch record, MemStore and the retry loop of the git
  stores. The locale \<open>cas_store\<close> is the contract of a store under fast-forward-only
  compare-and-swap; MemStore interprets it: an item goes only by a write that replaced the very state it
  was made from and leaves the item out, never by a race. The loop has
  MaxRetries + 1 attempts in the code; the model recurses on that number.

  Go_Net, Hostmatch (src/hostmatch/matcher.go): IP and CIDR parsing, and the host allowlist with its trie.

  Trigger_Grounds (src/trigger/grounds.go): the two grounds of not_exploitable. Trigger_Path: what a candidate
  shows (assess.go), its breadth-first search over the call graph; the walk back has one step for each
  entry of the map of seen nodes, which the lemmas show is enough. Trigger_Finding: the verdict rule
  findingInBuild, on the record \<open>run_store\<close> of an assessment's artifacts. Trigger_Scan (admission.go,
  inventory_sbom.go, cutshort.go, not_fetched.go): admission, the SBOM and its limits, cut-short rows,
  withheld rows and the Remerge hook. Intel_Signals (src/internal/intel/intel.go and rankWith): the join
  of a row to a signals record.

  Trigger_Diff, Trigger_Run, Trigger_Cover (diff.go, state.go, cve_watch.go, baseline and pull-request runs of
  src/trigger): which packages a change touches, the three run modes over a store and an analysis given as
  parameters, and what their reports cover. A run writes through the retry loop of Statestore;
  \<open>run_history\<close> is the sequence of states that runs commit.

  Reach_Ingress (the reachability stage of stages.go, src/plugin/callgraph_view.go): the walk from a
  first-party sink back to an entry point, and which paths count toward the selected package.
  Projection (src/projection): OpenVEX and SARIF of a report; SARIF, SSVC and the redacted view of a PoE.

  Not modelled, and why: the language analyzers (src/internal/plugin, src/plugins and their like), which read
  source trees and run tools: what they report is the input of this model (\<open>run_store\<close>); the
  stages that only fetch, call a plugin or encode JSON; checkout, build graphs and dependency acquisition, which
  run external tools; the command line, uploads, telemetry and the HTML report; the git and REST
  calls of the stores; the bytes of the signals file and its digest.
\<close>

end
